(* ===== verification/Prelude.thy ===== *)
theory Prelude
  imports Main "HOL-Library.Multiset"
begin

text \<open>
  Shared ground of the development: identifiers, instants and money; the
  table operations that stand for SQL \<^verbatim>\<open>SELECT\<close>, \<^verbatim>\<open>UPDATE ... WHERE\<close>,
  \<^verbatim>\<open>DELETE\<close> and \<^verbatim>\<open>SUM\<close>; decimals and the rounding of a
  \<^verbatim>\<open>numeric(p,s)\<close> column; decimal rendering of integers; and the
  interface \<open>row_table\<close> of a table of the database record, proved once
  and interpreted for every table in theory \<open>Db\<close>.
\<close>

section \<open>Names for the basic types\<close>

type_synonym uuid = nat
type_synonym instant = int   \<comment> \<open>timestamptz, seconds\<close>
type_synonym isk = int       \<comment> \<open>a numeric column of scale 2: the amount in hundredths\<close>
type_synonym qty = int       \<comment> \<open>bigint\<close>

named_theorems row_simps \<open>rewriting of table reads over table writes\<close>
named_theorems inv_intros \<open>introduction rules for the invariants of the state\<close>

section \<open>Results\<close>

text \<open>A handler returns \<open>Inl error\<close> or \<open>Inr value\<close>; \<open>bind_res\<close> is the question-mark
  operator of Rust and \<open>guard_res\<close> an early return.\<close>

definition bind_res :: "'e + 'a \<Rightarrow> ('a \<Rightarrow> 'e + 'b) \<Rightarrow> 'e + 'b" where
  "bind_res m k = (case m of Inl e \<Rightarrow> Inl e | Inr a \<Rightarrow> k a)"

definition ok_or :: "'e \<Rightarrow> 'a option \<Rightarrow> 'e + 'a" where
  "ok_or e x = (case x of None \<Rightarrow> Inl e | Some a \<Rightarrow> Inr a)"

lemma bind_res_Inl [simp]: "bind_res (Inl e) k = Inl e"
  by (simp add: bind_res_def)

lemma bind_res_Inr [simp]: "bind_res (Inr a) k = k a"
  by (simp add: bind_res_def)

lemma bind_res_eq_Inr: "bind_res m k = Inr b \<longleftrightarrow> (\<exists>a. m = Inr a \<and> k a = Inr b)"
  by (cases m) simp_all

lemma bind_res_eq_Inl: "bind_res m k = Inl e \<longleftrightarrow> m = Inl e \<or> (\<exists>a. m = Inr a \<and> k a = Inl e)"
  by (cases m) simp_all

lemma ok_or_Some [simp]: "ok_or e (Some a) = Inr a"
  by (simp add: ok_or_def)

lemma ok_or_None [simp]: "ok_or e None = Inl e"
  by (simp add: ok_or_def)

lemma ok_or_eq_Inr [simp]: "ok_or e x = Inr a \<longleftrightarrow> x = Some a"
  by (cases x) simp_all

lemma ok_or_eq_Inl [simp]: "ok_or e x = Inl e' \<longleftrightarrow> x = None \<and> e' = e"
  by (cases x) auto

lemma guard_eq_Inr: "(if c then Inl e else k) = Inr b \<longleftrightarrow> \<not> c \<and> k = Inr b"
  by simp

lemmas res_simps = bind_res_eq_Inr bind_res_eq_Inl guard_eq_Inr

section \<open>Tables as lists of rows\<close>

definition upd_where :: "('r \<Rightarrow> bool) \<Rightarrow> ('r \<Rightarrow> 'r) \<Rightarrow> 'r list \<Rightarrow> 'r list" where
  "upd_where P f rs = map (\<lambda>r. if P r then f r else r) rs"

definition del_where :: "('r \<Rightarrow> bool) \<Rightarrow> 'r list \<Rightarrow> 'r list" where
  "del_where P rs = filter (\<lambda>r. \<not> P r) rs"

definition sum_where :: "('r \<Rightarrow> bool) \<Rightarrow> ('r \<Rightarrow> int) \<Rightarrow> 'r list \<Rightarrow> int" where
  "sum_where P f rs = sum_list (map f (filter P rs))"

definition count_where :: "('r \<Rightarrow> bool) \<Rightarrow> 'r list \<Rightarrow> nat" where
  "count_where P rs = length (filter P rs)"

lemma set_upd_where: "set (upd_where P f rs) = (\<lambda>r. if P r then f r else r) ` set rs"
  by (simp add: upd_where_def)

lemma set_del_where [simp]: "set (del_where P rs) = {r \<in> set rs. \<not> P r}"
  by (auto simp: del_where_def)

lemma ball_upd_where [simp]:
  "(\<forall>r\<in>set (upd_where P f rs). Q r) \<longleftrightarrow> (\<forall>r\<in>set rs. Q (if P r then f r else r))"
  by (auto simp: set_upd_where)

lemma bex_upd_where [simp]:
  "(\<exists>r\<in>set (upd_where P f rs). Q r) \<longleftrightarrow> (\<exists>r\<in>set rs. Q (if P r then f r else r))"
  by (auto simp: set_upd_where)

lemma in_upd_whereE:
  assumes "r \<in> set (upd_where P f rs)"
  obtains r0 where "r0 \<in> set rs" "r = (if P r0 then f r0 else r0)"
  using assms by (auto simp: set_upd_where)

lemma length_upd_where [simp]: "length (upd_where P f rs) = length rs"
  by (simp add: upd_where_def)

lemma map_upd_where_same:
  assumes "\<And>r. P r \<Longrightarrow> g (f r) = g r"
  shows "map g (upd_where P f rs) = map g rs"
  using assms by (simp add: upd_where_def)

lemma upd_where_id: "(\<And>r. r \<in> set rs \<Longrightarrow> P r \<Longrightarrow> f r = r) \<Longrightarrow> upd_where P f rs = rs"
  by (auto simp: upd_where_def intro!: map_idI)

lemma upd_where_Nil [simp]: "upd_where P f [] = []"
  by (simp add: upd_where_def)

lemma upd_where_Cons [simp]:
  "upd_where P f (r # rs) = (if P r then f r else r) # upd_where P f rs"
  by (simp add: upd_where_def)

lemma upd_where_False [simp]: "upd_where (\<lambda>_. False) f rs = rs"
  by (simp add: upd_where_def)

lemma del_where_Nil [simp]: "del_where P [] = []"
  by (simp add: del_where_def)

lemma del_where_Cons [simp]:
  "del_where P (r # rs) = (if P r then del_where P rs else r # del_where P rs)"
  by (simp add: del_where_def)

lemma distinct_map_del_where [intro]: "distinct (map g rs) \<Longrightarrow> distinct (map g (del_where P rs))"
  by (simp add: del_where_def distinct_map_filter)

lemma sum_where_Nil [simp]: "sum_where P f [] = 0"
  by (simp add: sum_where_def)

lemma sum_where_Cons [simp]:
  "sum_where P f (r # rs) = (if P r then f r else 0) + sum_where P f rs"
  by (simp add: sum_where_def)

lemma sum_where_append [simp]: "sum_where P f (xs @ ys) = sum_where P f xs + sum_where P f ys"
  by (simp add: sum_where_def)

lemma sum_where_nonneg:
  "(\<And>r. r \<in> set rs \<Longrightarrow> P r \<Longrightarrow> 0 \<le> f r) \<Longrightarrow> 0 \<le> sum_where P f rs"
  by (induction rs) auto

lemma sum_where_cong:
  "(\<And>r. r \<in> set rs \<Longrightarrow> P r = Q r) \<Longrightarrow> (\<And>r. r \<in> set rs \<Longrightarrow> Q r \<Longrightarrow> f r = g r)
   \<Longrightarrow> sum_where P f rs = sum_where Q g rs"
  by (induction rs) auto

lemma sum_where_upd_where:
  "sum_where P f (upd_where Q g rs)
     = sum_where (\<lambda>r. P (if Q r then g r else r)) (\<lambda>r. f (if Q r then g r else r)) rs"
  by (induction rs) auto

lemma count_where_eq_0: "count_where P rs = 0 \<longleftrightarrow> (\<forall>r\<in>set rs. \<not> P r)"
  by (simp add: count_where_def filter_empty_conv)

lemma count_where_pos: "0 < count_where P rs \<longleftrightarrow> (\<exists>r\<in>set rs. P r)"
  using count_where_eq_0 [of P rs] by auto

lemma count_where_Nil [simp]: "count_where P [] = 0"
  by (simp add: count_where_def)

lemma count_where_Cons [simp]:
  "count_where P (r # rs) = (if P r then Suc (count_where P rs) else count_where P rs)"
  by (simp add: count_where_def)

lemma find_Some_memD: "find P rs = Some r \<Longrightarrow> r \<in> set rs \<and> P r"
  by (auto simp: find_Some_iff)

lemma distinct_map_unique:
  "distinct (map g rs) \<Longrightarrow> a \<in> set rs \<Longrightarrow> b \<in> set rs \<Longrightarrow> g a = g b \<Longrightarrow> a = b"
  by (auto simp: distinct_map inj_on_def)

lemma find_keyI:
  assumes "distinct (map key rs)" "r \<in> set rs" "key r = k"
  shows "find (\<lambda>x. key x = k) rs = Some r"
  using assms
proof (induction rs)
  case (Cons a rs)
  show ?case
  proof (cases "a = r")
    case True
    then show ?thesis using Cons.prems by simp
  next
    case False
    then have "r \<in> set rs" "key a \<noteq> k"
      using Cons.prems by (auto simp: image_iff)
    then show ?thesis using Cons by simp
  qed
qed simp

section \<open>The interface of a table of the state\<close>

text \<open>
  A table is read by \<open>rows\<close> and written by \<open>modify\<close> (the record selector and
  its update function); \<open>key\<close> is its primary key.  Everything a handler needs
  to know about a lookup after a write by key follows from the one law.
\<close>

locale row_table =
  fixes rows :: "'s \<Rightarrow> 'r list"
    and modify :: "('r list \<Rightarrow> 'r list) \<Rightarrow> 's \<Rightarrow> 's"
    and key :: "'r \<Rightarrow> 'k"
  assumes rows_modify: "rows (modify f s) = f (rows s)"
begin

lemma find_after_update:
  assumes "\<And>r. key (f r) = key r"
  shows "find (\<lambda>r. key r = k) (rows (modify (upd_where (\<lambda>r. key r = k') f) s))
       = (if k = k' then map_option f (find (\<lambda>r. key r = k) (rows s))
          else find (\<lambda>r. key r = k) (rows s))"
proof -
  have "find (\<lambda>r. key r = k) (upd_where (\<lambda>r. key r = k') f rs)
       = (if k = k' then map_option f (find (\<lambda>r. key r = k) rs)
          else find (\<lambda>r. key r = k) rs)" for rs
    by (induction rs) (auto simp: assms)
  then show ?thesis by (simp add: rows_modify)
qed

lemma keys_after_update:
  assumes "\<And>r. key (f r) = key r"
  shows "map key (rows (modify (upd_where P f) s)) = map key (rows s)"
  using assms by (simp add: rows_modify map_upd_where_same)

lemma find_after_insert:
  assumes "key r \<notin> key ` set (rows s)"
  shows "find (\<lambda>x. key x = key r) (rows (modify (\<lambda>rs. rs @ [r]) s)) = Some r"
proof -
  have "key r \<notin> key ` set rs \<Longrightarrow> find (\<lambda>x. key x = key r) (rs @ [r]) = Some r" for rs
    by (induction rs) auto
  then show ?thesis using assms by (simp add: rows_modify)
qed

lemma distinct_after_insert:
  assumes "distinct (map key (rows s))" "key r \<notin> key ` set (rows s)"
  shows "distinct (map key (rows (modify (\<lambda>rs. rs @ [r]) s)))"
  using assms by (simp add: rows_modify)

end

section \<open>Decimals and numeric columns\<close>

text \<open>A \<^verbatim>\<open>rust_decimal::Decimal\<close> is a mantissa and a scale: \<open>Dec m s\<close> is
  \<open>m / 10 ^ s\<close>.  Storing it in a column of scale \<open>k\<close> rounds half away from
  zero, as PostgreSQL's numeric does; the column's value is the resulting integer
  of units \<open>10 ^ - k\<close>.\<close>

datatype decimal = Dec (mantissa: int) (scale: nat)

definition round_half_away :: "int \<Rightarrow> int \<Rightarrow> int" where
  "round_half_away n d = (if n < 0 then - ((2 * (- n) + d) div (2 * d)) else (2 * n + d) div (2 * d))"

definition to_numeric :: "nat \<Rightarrow> decimal \<Rightarrow> int" where
  "to_numeric k x = round_half_away (mantissa x * 10 ^ k) (10 ^ scale x)"

definition dec_neg :: "decimal \<Rightarrow> bool" where
  "dec_neg x \<longleftrightarrow> mantissa x < 0"

definition dec_gt_one :: "decimal \<Rightarrow> bool" where
  "dec_gt_one x \<longleftrightarrow> 10 ^ scale x < mantissa x"

text \<open>A \<^verbatim>\<open>numeric(p,s)\<close> column holds fewer than \<open>10 ^ p\<close> units; a larger value
  is the database error "numeric field overflow".\<close>

definition fits :: "nat \<Rightarrow> int \<Rightarrow> bool" where
  "fits p v \<longleftrightarrow> \<bar>v\<bar> < 10 ^ p"

lemma round_half_away_exact:
  assumes "0 < d"
  shows "round_half_away (n * d) d = n"
proof (cases "n < 0")
  case True
  then have "n * d < 0" using assms by (simp add: mult_neg_pos)
  moreover have "(2 * (- (n * d)) + d) div (2 * d) = - n"
  proof -
    have "2 * (- (n * d)) + d = d + (- n) * (2 * d)" by (simp add: algebra_simps)
    also have "\<dots> div (2 * d) = - n + d div (2 * d)"
      using assms by (intro div_mult_self1) simp
    finally show ?thesis using assms by simp
  qed
  ultimately show ?thesis by (simp add: round_half_away_def)
next
  case False
  then have "\<not> n * d < 0" using assms by (simp add: mult_less_0_iff)
  moreover have "(2 * (n * d) + d) div (2 * d) = n"
  proof -
    have "2 * (n * d) + d = d + n * (2 * d)" by (simp add: algebra_simps)
    also have "\<dots> div (2 * d) = n + d div (2 * d)"
      using assms by (intro div_mult_self1) simp
    finally show ?thesis using assms by simp
  qed
  ultimately show ?thesis by (simp add: round_half_away_def)
qed

lemma round_half_away_nonneg [intro]: "0 \<le> n \<Longrightarrow> 0 < d \<Longrightarrow> 0 \<le> round_half_away n d"
  by (simp add: round_half_away_def pos_imp_zdiv_nonneg_iff)

lemma round_half_away_zero [simp]: "0 < d \<Longrightarrow> round_half_away 0 d = 0"
  using round_half_away_exact [of d 0] by simp

lemma round_half_away_add_exact:
  assumes "0 < d" "0 \<le> n" "0 \<le> k"
  shows "round_half_away (k * d + n) d = k + round_half_away n d"
proof -
  have "2 * (k * d + n) + d = (2 * n + d) + k * (2 * d)" by (simp add: algebra_simps)
  also have "\<dots> div (2 * d) = k + (2 * n + d) div (2 * d)"
    using assms by (intro div_mult_self1) simp
  finally have "(2 * (k * d + n) + d) div (2 * d) = k + (2 * n + d) div (2 * d)" .
  moreover have "\<not> k * d + n < 0" using assms by (simp add: not_less)
  ultimately show ?thesis using assms unfolding round_half_away_def by auto
qed

lemma round_half_away_error:
  assumes "0 < d" "0 \<le> n"
  shows "2 * \<bar>d * round_half_away n d - n\<bar> \<le> d"
proof -
  let ?q = "(2 * n + d) div (2 * d)"
  have "2 * n + d = 2 * d * ?q + (2 * n + d) mod (2 * d)" by simp
  moreover have "0 \<le> (2 * n + d) mod (2 * d)" "(2 * n + d) mod (2 * d) < 2 * d"
    using assms by simp_all
  ultimately have "\<bar>2 * d * ?q - 2 * n\<bar> \<le> d" by linarith
  then show ?thesis using assms by (simp add: round_half_away_def abs_if split: if_splits)
qed

section \<open>Rendering integers\<close>

fun digits_of_nat :: "nat \<Rightarrow> string" where
  "digits_of_nat n = (if n < 10 then [char_of (n + 48)]
                      else digits_of_nat (n div 10) @ [char_of (n mod 10 + 48)])"

declare digits_of_nat.simps [simp del]

definition quoted :: "string \<Rightarrow> string" where
  "quoted s = [CHR 0x27] @ s @ [CHR 0x27]"

definition string_of_int :: "int \<Rightarrow> string" where
  "string_of_int i = (if i < 0 then CHR ''-'' # digits_of_nat (nat (- i)) else digits_of_nat (nat i))"

end
