(* ===== verification/Domain.thy ===== *)
theory Domain
  imports Prelude
begin

text \<open>
  The types of the crate \<^verbatim>\<open>domain\<close> (\<^verbatim>\<open>domain/src/lib.rs\<close>): the enums with their
  string forms, and the rows of the tables as records.  A column of type
  \<^verbatim>\<open>numeric(_,2)\<close> is an integer number of hundredths, \<^verbatim>\<open>numeric(5,4)\<close> an
  integer number of ten-thousandths.  Columns that no modelled operation reads
  (\<^verbatim>\<open>raw_json\<close>, display-only timestamps) are left out; a \<^verbatim>\<open>bytea\<close> column is a
  string of bytes.
\<close>

section \<open>Enums\<close>

datatype group_role = Owner | Member

datatype market_kind = NpcHub | PublicStructure

datatype list_status = LOpen | LClosed | LArchived

datatype list_item_status = IOpen | IClaimed | IBought | IDelivered | ISettled

datatype claim_status = CActive | CReleased | CCompleted

datatype fulfillment_source = FManual | FContract

datatype reimbursement_status = RPending | RSettled | RCancelled

datatype contract_type = ItemExchange | Auction | Courier | UnknownType

datatype contract_status = Outstanding | InProgress | FinishedIssuer | FinishedContractor
  | Finished | Cancelled | Rejected | Failed | Deleted | Reversed

datatype contract_match_state = MPending | MConfirmed | MRejected | MSuperseded

datatype principal_kind = PUser | PCorp

subsection \<open>String forms\<close>

text \<open>\<^verbatim>\<open>strum::Display\<close> and the sqlx/serde renaming give one string per constructor.\<close>

fun list_status_str :: "list_status \<Rightarrow> string" where
  "list_status_str LOpen = ''open''"
| "list_status_str LClosed = ''closed''"
| "list_status_str LArchived = ''archived''"

fun list_item_status_str :: "list_item_status \<Rightarrow> string" where
  "list_item_status_str IOpen = ''open''"
| "list_item_status_str IClaimed = ''claimed''"
| "list_item_status_str IBought = ''bought''"
| "list_item_status_str IDelivered = ''delivered''"
| "list_item_status_str ISettled = ''settled''"

fun claim_status_str :: "claim_status \<Rightarrow> string" where
  "claim_status_str CActive = ''active''"
| "claim_status_str CReleased = ''released''"
| "claim_status_str CCompleted = ''completed''"

fun reimbursement_status_str :: "reimbursement_status \<Rightarrow> string" where
  "reimbursement_status_str RPending = ''pending''"
| "reimbursement_status_str RSettled = ''settled''"
| "reimbursement_status_str RCancelled = ''cancelled''"

fun contract_type_str :: "contract_type \<Rightarrow> string" where
  "contract_type_str ItemExchange = ''item_exchange''"
| "contract_type_str Auction = ''auction''"
| "contract_type_str Courier = ''courier''"
| "contract_type_str UnknownType = ''unknown''"

fun contract_status_str :: "contract_status \<Rightarrow> string" where
  "contract_status_str Outstanding = ''outstanding''"
| "contract_status_str InProgress = ''in_progress''"
| "contract_status_str FinishedIssuer = ''finished_issuer''"
| "contract_status_str FinishedContractor = ''finished_contractor''"
| "contract_status_str Finished = ''finished''"
| "contract_status_str Cancelled = ''cancelled''"
| "contract_status_str Rejected = ''rejected''"
| "contract_status_str Failed = ''failed''"
| "contract_status_str Deleted = ''deleted''"
| "contract_status_str Reversed = ''reversed''"

fun contract_match_state_str :: "contract_match_state \<Rightarrow> string" where
  "contract_match_state_str MPending = ''pending''"
| "contract_match_state_str MConfirmed = ''confirmed''"
| "contract_match_state_str MRejected = ''rejected''"
| "contract_match_state_str MSuperseded = ''superseded''"

definition contract_type_from_str :: "string \<Rightarrow> string + contract_type" where
  "contract_type_from_str s =
     (if s = ''item_exchange'' then Inr ItemExchange
      else if s = ''auction'' then Inr Auction
      else if s = ''courier'' then Inr Courier
      else if s = ''unknown'' then Inr UnknownType
      else Inl (''unknown contract type: '' @ s))"

definition contract_status_from_str :: "string \<Rightarrow> string + contract_status" where
  "contract_status_from_str s =
     (if s = ''outstanding'' then Inr Outstanding
      else if s = ''in_progress'' then Inr InProgress
      else if s = ''finished_issuer'' then Inr FinishedIssuer
      else if s = ''finished_contractor'' then Inr FinishedContractor
      else if s = ''finished'' then Inr Finished
      else if s = ''cancelled'' then Inr Cancelled
      else if s = ''rejected'' then Inr Rejected
      else if s = ''failed'' then Inr Failed
      else if s = ''deleted'' then Inr Deleted
      else if s = ''reversed'' then Inr Reversed
      else Inl (''unknown contract status: '' @ s))"

definition is_terminal_success :: "contract_status \<Rightarrow> bool" where
  "is_terminal_success s \<longleftrightarrow> s \<in> {Finished, FinishedIssuer, FinishedContractor}"

definition is_terminal_failure :: "contract_status \<Rightarrow> bool" where
  "is_terminal_failure s \<longleftrightarrow> s \<in> {Cancelled, Rejected, Failed, Deleted, Reversed}"

section \<open>Rows\<close>

record user =
  u_id :: uuid
  u_display_name :: string
  u_active_character_id :: "uuid option"
  u_created_at :: instant

record character =
  ch_id :: uuid
  ch_user_id :: uuid
  ch_character_id :: int
  ch_character_name :: string
  ch_owner_hash :: string
  ch_scopes :: "string list"
  ch_refresh_token_ciphertext :: string
  ch_refresh_token_nonce :: string
  ch_access_token_ciphertext :: "string option"
  ch_access_token_nonce :: "string option"
  ch_access_token_expires_at :: "instant option"
  ch_token_key_id :: string
  ch_created_at :: instant
  ch_last_refreshed_at :: "instant option"
  ch_contracts_next_poll_at :: "instant option"
  ch_contracts_last_polled_at :: "instant option"

record group =
  g_id :: uuid
  g_name :: string
  g_invite_code :: string
  g_created_by_user_id :: uuid
  g_default_tip_pct :: int
  g_created_at :: instant

record membership =
  gm_user_id :: uuid
  gm_group_id :: uuid
  gm_role :: group_role
  gm_joined_at :: instant

record market =
  mk_id :: uuid
  mk_kind :: market_kind
  mk_esi_location_id :: int
  mk_region_id :: "int option"
  mk_name :: "string option"
  mk_short_label :: "string option"
  mk_is_hub :: bool
  mk_is_public :: bool
  mk_last_orders_synced_at :: "instant option"
  mk_last_seen_public_at :: "instant option"
  mk_solar_system_id :: "int option"
  mk_structure_type_id :: "int option"
  mk_details_synced_at :: "instant option"
  mk_missing_poll_count :: int
  mk_untrackable_until :: "instant option"
  mk_created_at :: instant

record principal =
  p_id :: uuid
  p_kind :: principal_kind
  p_user_id :: "uuid option"
  p_corp_id :: "uuid option"

record shopping_list =
  l_id :: uuid
  l_group_id :: uuid
  l_created_by_user_id :: uuid
  l_destination_label :: "string option"
  l_notes :: "string option"
  l_status :: list_status
  l_total_estimate_isk :: isk
  l_tip_pct :: int
  l_payer_corp_id :: "uuid option"
  l_payer_division :: "int option"
  l_created_at :: instant
  l_updated_at :: instant

record list_item =
  li_id :: uuid
  li_list_id :: uuid
  li_type_id :: int
  li_type_name :: string
  li_qty_requested :: qty
  li_qty_fulfilled :: qty
  li_est_unit_price_isk :: "isk option"
  li_est_priced_market_id :: "uuid option"
  li_requested_by_user_id :: uuid
  li_status :: list_item_status
  li_source_line_no :: "int option"

record list_market =
  lm_list_id :: uuid
  lm_market_id :: uuid
  lm_is_primary :: bool

record claim =
  c_id :: uuid
  c_list_id :: uuid
  c_hauler_user_id :: uuid
  c_status :: claim_status
  c_note :: "string option"
  c_created_at :: instant
  c_released_at :: "instant option"

record claim_item =
  ci_claim_id :: uuid
  ci_list_item_id :: uuid
  ci_active :: bool

record fulfillment =
  f_id :: uuid
  f_list_item_id :: uuid
  f_claim_id :: "uuid option"
  f_hauler_user_id :: uuid
  f_hauler_character_id :: "uuid option"
  f_source :: fulfillment_source
  f_qty :: qty
  f_unit_price_isk :: isk
  f_bought_at_market_id :: "uuid option"
  f_bought_at_note :: "string option"
  f_bought_at :: instant
  f_reversed_at :: "instant option"

record contract =
  ct_id :: uuid
  ct_esi_contract_id :: int
  ct_issuer_character_id :: int
  ct_issuer_user_id :: "uuid option"
  ct_assignee_character_id :: "int option"
  ct_assignee_user_id :: "uuid option"
  ct_contract_type :: contract_type
  ct_status :: contract_status
  ct_price_isk :: isk
  ct_reward_isk :: isk
  ct_collateral_isk :: isk
  ct_expected_total_isk :: "isk option"
  ct_settlement_delta_isk :: "isk option"
  ct_date_issued :: instant
  ct_date_expired :: "instant option"
  ct_date_accepted :: "instant option"
  ct_date_completed :: "instant option"
  ct_start_location_id :: "int option"
  ct_end_location_id :: "int option"
  ct_items_synced_at :: "instant option"
  ct_issuer_principal_id :: "uuid option"
  ct_assignee_principal_id :: "uuid option"
  ct_source_corp_id :: "uuid option"
  ct_wallet_verified_at :: "instant option"
  ct_wallet_payout_aggregate_isk :: "isk option"

record contract_item =
  cti_contract_id :: uuid
  cti_record_id :: int
  cti_type_id :: int
  cti_quantity :: qty
  cti_is_included :: bool

record reimbursement =
  r_id :: uuid
  r_list_id :: uuid
  r_requester_user_id :: "uuid option"
  r_requester_principal_id :: uuid
  r_hauler_user_id :: uuid
  r_hauler_principal_id :: uuid
  r_subtotal_isk :: isk
  r_tip_isk :: isk
  r_total_isk :: isk
  r_status :: reimbursement_status
  r_settled_at :: "instant option"
  r_settled_by_user_id :: "uuid option"
  r_contract_id :: "uuid option"
  r_is_corp_funded :: bool
  r_verified_by_wallet :: bool
  r_wallet_settlement_delta_isk :: "isk option"
  r_updated_at :: instant

record suggestion =
  sg_id :: uuid
  sg_contract_id :: uuid
  sg_reimbursement_id :: uuid
  sg_score :: int
  sg_exact_match :: bool
  sg_state :: contract_match_state
  sg_decided_at :: "instant option"
  sg_decided_by_user_id :: "uuid option"

record journal_entry =
  j_corp_id :: uuid
  j_division :: int
  j_esi_journal_ref_id :: int
  j_date :: instant
  j_ref_type :: string
  j_amount :: isk
  j_balance :: isk
  j_first_party_id :: "int option"
  j_second_party_id :: "int option"
  j_context_id :: "int option"
  j_context_id_type :: "string option"
  j_reason :: "string option"

record corp =
  cp_id :: uuid
  cp_esi_corporation_id :: int
  cp_name :: string
  cp_ticker :: string
  cp_last_synced_at :: "instant option"
  cp_last_auth_error_at :: "instant option"
  cp_disabled_at :: "instant option"
  cp_contracts_next_poll_at :: "instant option"
  cp_contracts_last_polled_at :: "instant option"
  cp_wallet_next_poll_at :: "instant option"
  cp_wallet_last_polled_at :: "instant option"

record group_corp =
  gc_group_id :: uuid
  gc_corp_id :: uuid
  gc_linked_at :: instant
  gc_linked_by_user_id :: uuid
  gc_unlinked_at :: "instant option"

record corp_ambassador =
  ca_corp_id :: uuid
  ca_character_id :: uuid
  ca_granted_scopes :: "string list"
  ca_last_used_at :: "instant option"
  ca_last_auth_error_at :: "instant option"
  ca_disabled_at :: "instant option"
  ca_contributed_via_group_id :: "uuid option"

record wallet_division =
  wd_corp_id :: uuid
  wd_division :: int
  wd_name :: "string option"
  wd_balance_isk :: isk
  wd_last_synced_at :: "instant option"

record tracked_market =
  tm_group_id :: uuid
  tm_market_id :: uuid
  tm_added_by_user_id :: uuid

datatype structure_access_status = SaOk | SaForbidden | SaUnknown

record structure_access =
  sa_character_id :: uuid
  sa_market_id :: uuid
  sa_details_status :: structure_access_status
  sa_details_checked_at :: "instant option"
  sa_market_status :: structure_access_status
  sa_market_checked_at :: "instant option"

record market_price =
  mp_market_id :: uuid
  mp_type_id :: int
  mp_best_sell :: "isk option"
  mp_best_buy :: "isk option"
  mp_sell_volume :: int
  mp_buy_volume :: int
  mp_computed_at :: instant

section \<open>Order of the item lifecycle\<close>

text \<open>The statuses of an item are ordered along its life: open, claimed, bought,
  delivered, settled.\<close>

fun status_rank :: "list_item_status \<Rightarrow> nat" where
  "status_rank IOpen = 0"
| "status_rank IClaimed = 1"
| "status_rank IBought = 2"
| "status_rank IDelivered = 3"
| "status_rank ISettled = 4"

lemma status_rank_inj: "status_rank a = status_rank b \<Longrightarrow> a = b"
  by (cases a; cases b) simp_all

instantiation list_item_status :: linorder
begin

definition less_eq_list_item_status :: "list_item_status \<Rightarrow> list_item_status \<Rightarrow> bool" where
  "less_eq_list_item_status a b \<longleftrightarrow> status_rank a \<le> status_rank b"

definition less_list_item_status :: "list_item_status \<Rightarrow> list_item_status \<Rightarrow> bool" where
  "less_list_item_status a b \<longleftrightarrow> status_rank a < status_rank b"

instance
  by standard (auto simp: less_eq_list_item_status_def less_list_item_status_def
      intro: status_rank_inj)

end

lemma settled_greatest [simp]: "s \<le> ISettled"
  by (cases s) (simp_all add: less_eq_list_item_status_def)

lemma delivered_le_iff: "IDelivered \<le> s \<longleftrightarrow> s = IDelivered \<or> s = ISettled"
  by (cases s) (simp_all add: less_eq_list_item_status_def)

lemma bought_le_iff: "IBought \<le> s \<longleftrightarrow> s = IBought \<or> s = IDelivered \<or> s = ISettled"
  by (cases s) (simp_all add: less_eq_list_item_status_def)

section \<open>Properties of the enums\<close>

lemma contract_status_from_str_Inr:
  "contract_status_from_str s = Inr st \<Longrightarrow> contract_status_str st = s"
  by (auto simp: contract_status_from_str_def split: if_splits)

lemma contract_status_parse_print: "contract_status_from_str (contract_status_str st) = Inr st"
  by (cases st) (simp_all add: contract_status_from_str_def)

lemma contract_type_from_str_Inr:
  "contract_type_from_str s = Inr t \<Longrightarrow> contract_type_str t = s"
  by (auto simp: contract_type_from_str_def split: if_splits)

lemma contract_type_parse_print: "contract_type_from_str (contract_type_str t) = Inr t"
  by (cases t) (simp_all add: contract_type_from_str_def)

lemma terminal_exclusive: "\<not> (is_terminal_success s \<and> is_terminal_failure s)"
  by (cases s) (simp_all add: is_terminal_success_def is_terminal_failure_def)

lemma non_terminal_iff:
  "\<not> is_terminal_success s \<and> \<not> is_terminal_failure s \<longleftrightarrow> s \<in> {Outstanding, InProgress}"
  by (cases s) (simp_all add: is_terminal_success_def is_terminal_failure_def)

end
