(* ===== verification/Db.thy ===== *)
theory Db
  imports Domain
begin

text \<open>
  The database the API and the worker share, as one record with a list of rows
  per table (\<^verbatim>\<open>migrations/20260427000000_init.sql\<close>); the unified error type
  (\<^verbatim>\<open>api/src/errors.rs\<close>); the per-request transaction
  (\<^verbatim>\<open>api/src/db.rs\<close>); the extractors that resolve the caller's
  membership (\<^verbatim>\<open>api/src/extract.rs\<close>) under the row-level security policies
  of the role \<^verbatim>\<open>jitacart_app\<close>; and the webhook queue
  (\<^verbatim>\<open>api/src/webhooks.rs\<close>).

  Every handler runs in one transaction that holds the lock of the list it
  works on, so it is a function from a state to an error or a new state.  The
  clock (\<open>now\<close>) and the generated primary keys are arguments; a key that is
  taken already is the primary-key violation of the database.
\<close>

section \<open>Errors\<close>

datatype api_error =
    BadRequest string
  | Unauthorized
  | Forbidden string
  | NotFound string
  | Conflict string
  | QuotaExceeded string
  | Internal string

definition forbidden :: api_error where
  "forbidden = Forbidden ''you cannot perform this action''"

definition not_found :: api_error where
  "not_found = NotFound ''not found''"

fun status_code :: "api_error \<Rightarrow> nat" where
  "status_code (BadRequest _) = 400"
| "status_code Unauthorized = 401"
| "status_code (Forbidden _) = 403"
| "status_code (NotFound _) = 404"
| "status_code (Conflict _) = 409"
| "status_code (QuotaExceeded _) = 422"
| "status_code (Internal _) = 500"

text \<open>The database errors a statement can raise; a handler that applies the
  question-mark operator to one answers 500.\<close>

definition db_unique_violation :: api_error where
  "db_unique_violation = Internal ''duplicate key value violates unique constraint''"

definition db_numeric_overflow :: api_error where
  "db_numeric_overflow = Internal ''numeric field overflow''"

section \<open>Webhook events\<close>

text \<open>Amounts are rendered by \<^verbatim>\<open>Decimal::to_string\<close> in the payload; the model keeps the
  amount.\<close>

datatype webhook_event =
    ListCreated string int decimal string         \<comment> \<open>destination, item count, estimate, creator\<close>
  | ListClaimed string string nat             \<comment> \<open>destination, hauler, item count\<close>
  | ListDelivered string string               \<comment> \<open>destination, hauler\<close>
  | ReimbursementSettled string string string isk
      \<comment> \<open>destination, requester, hauler, total\<close>

record pending_webhook =
  pw_group_id :: uuid
  pw_payload :: webhook_event

text \<open>The Discord webhook of a group (\<^verbatim>\<open>group_discord_webhooks\<close>).\<close>

record webhook_row =
  wh_group_id :: uuid
  wh_webhook_url :: string
  wh_notify_list_created :: bool
  wh_notify_list_claimed :: bool
  wh_notify_list_delivered :: bool
  wh_notify_reimbursement_settled :: bool

section \<open>The state\<close>

record db =
  users :: "user list"
  characters :: "character list"
  groups :: "group list"
  memberships :: "membership list"
  markets :: "market list"
  principals :: "principal list"
  lists :: "shopping_list list"
  list_items :: "list_item list"
  list_markets :: "list_market list"
  claims :: "claim list"
  claim_items :: "claim_item list"
  fulfillments :: "fulfillment list"
  contracts :: "contract list"
  contract_items :: "contract_item list"
  reimbursements :: "reimbursement list"
  suggestions :: "suggestion list"
  journal :: "journal_entry list"
  corps :: "corp list"
  group_corps :: "group_corp list"
  ambassadors :: "corp_ambassador list"
  tracked_markets :: "tracked_market list"
  structure_accesses :: "structure_access list"
  market_prices :: "market_price list"
  pending_webhooks :: "pending_webhook list"
  webhook_configs :: "webhook_row list"
  wallet_divisions :: "wallet_division list"

definition empty_db :: db where
  "empty_db = \<lparr> users = [], characters = [], groups = [], memberships = [], markets = [],
     principals = [], lists = [], list_items = [], list_markets = [], claims = [],
     claim_items = [], fulfillments = [], contracts = [], contract_items = [],
     reimbursements = [], suggestions = [], journal = [],
     corps = [], group_corps = [], ambassadors = [], tracked_markets = [],
     structure_accesses = [], market_prices = [], pending_webhooks = [],
     webhook_configs = [], wallet_divisions = [] \<rparr>"

type_synonym 'a res = "api_error + 'a"

subsection \<open>Every table implements the table interface\<close>

interpretation users_t: row_table users users_update u_id
  by unfold_locales simp

interpretation lists_t: row_table lists lists_update l_id
  by unfold_locales simp

interpretation items_t: row_table list_items list_items_update li_id
  by unfold_locales simp

interpretation claims_t: row_table claims claims_update c_id
  by unfold_locales simp

interpretation claim_items_t: row_table claim_items claim_items_update
  "\<lambda>ci. (ci_claim_id ci, ci_list_item_id ci)"
  by unfold_locales simp

interpretation fulfillments_t: row_table fulfillments fulfillments_update f_id
  by unfold_locales simp

interpretation reimbursements_t: row_table reimbursements reimbursements_update r_id
  by unfold_locales simp

interpretation contracts_t: row_table contracts contracts_update ct_id
  by unfold_locales simp

interpretation suggestions_t: row_table suggestions suggestions_update sg_id
  by unfold_locales simp

lemmas table_find_simps [row_simps] =
  lists_t.find_after_update items_t.find_after_update claims_t.find_after_update
  fulfillments_t.find_after_update reimbursements_t.find_after_update
  contracts_t.find_after_update suggestions_t.find_after_update

section \<open>Lookups\<close>

definition find_user :: "db \<Rightarrow> uuid \<Rightarrow> user option" where
  "find_user d uid = find (\<lambda>u. u_id u = uid) (users d)"

definition find_list :: "db \<Rightarrow> uuid \<Rightarrow> shopping_list option" where
  "find_list d lid = find (\<lambda>l. l_id l = lid) (lists d)"

definition find_item :: "db \<Rightarrow> uuid \<Rightarrow> list_item option" where
  "find_item d iid = find (\<lambda>i. li_id i = iid) (list_items d)"

definition find_claim :: "db \<Rightarrow> uuid \<Rightarrow> claim option" where
  "find_claim d cid = find (\<lambda>c. c_id c = cid) (claims d)"

definition find_fulfillment :: "db \<Rightarrow> uuid \<Rightarrow> fulfillment option" where
  "find_fulfillment d fid = find (\<lambda>f. f_id f = fid) (fulfillments d)"

definition find_reimbursement :: "db \<Rightarrow> uuid \<Rightarrow> reimbursement option" where
  "find_reimbursement d rid = find (\<lambda>r. r_id r = rid) (reimbursements d)"

definition find_contract :: "db \<Rightarrow> uuid \<Rightarrow> contract option" where
  "find_contract d cid = find (\<lambda>c. ct_id c = cid) (contracts d)"

definition find_principal :: "db \<Rightarrow> uuid \<Rightarrow> principal option" where
  "find_principal d pid = find (\<lambda>p. p_id p = pid) (principals d)"

lemmas find_defs = find_user_def find_list_def find_item_def find_claim_def
  find_fulfillment_def find_reimbursement_def find_contract_def find_principal_def

text \<open>\<^verbatim>\<open>SELECT role FROM group_memberships WHERE user_id = .. AND group_id = ..\<close>\<close>

definition member_role :: "db \<Rightarrow> uuid \<Rightarrow> uuid \<Rightarrow> group_role option" where
  "member_role d uid gid =
     map_option gm_role (find (\<lambda>m. gm_user_id m = uid \<and> gm_group_id m = gid) (memberships d))"

section \<open>Row-level security of the API role\<close>

text \<open>\<^verbatim>\<open>app.is_group_member\<close> and \<^verbatim>\<open>app.is_list_member\<close>: a row that belongs to
  a list is visible to the members of the list's group only.\<close>

definition is_group_member :: "db \<Rightarrow> uuid \<Rightarrow> uuid \<Rightarrow> bool" where
  "is_group_member d uid gid \<longleftrightarrow>
     (\<exists>m\<in>set (memberships d). gm_user_id m = uid \<and> gm_group_id m = gid)"

definition is_list_member :: "db \<Rightarrow> uuid \<Rightarrow> uuid \<Rightarrow> bool" where
  "is_list_member d uid lid \<longleftrightarrow>
     (\<exists>l\<in>set (lists d). l_id l = lid \<and> is_group_member d uid (l_group_id l))"

definition rls_find_list :: "db \<Rightarrow> uuid \<Rightarrow> uuid \<Rightarrow> shopping_list option" where
  "rls_find_list d uid lid =
     find (\<lambda>l. l_id l = lid) (filter (\<lambda>l. is_group_member d uid (l_group_id l)) (lists d))"

definition rls_find_claim :: "db \<Rightarrow> uuid \<Rightarrow> uuid \<Rightarrow> claim option" where
  "rls_find_claim d uid cid =
     find (\<lambda>c. c_id c = cid) (filter (\<lambda>c. is_list_member d uid (c_list_id c)) (claims d))"

definition rls_find_reimbursement :: "db \<Rightarrow> uuid \<Rightarrow> uuid \<Rightarrow> reimbursement option" where
  "rls_find_reimbursement d uid rid =
     find (\<lambda>r. r_id r = rid)
       (filter (\<lambda>r. is_list_member d uid (r_list_id r)) (reimbursements d))"

definition fulfillment_visible :: "db \<Rightarrow> uuid \<Rightarrow> fulfillment \<Rightarrow> bool" where
  "fulfillment_visible d uid f \<longleftrightarrow>
     (\<exists>i\<in>set (list_items d). li_id i = f_list_item_id f \<and> is_list_member d uid (li_list_id i))"

definition rls_find_fulfillment :: "db \<Rightarrow> uuid \<Rightarrow> uuid \<Rightarrow> fulfillment option" where
  "rls_find_fulfillment d uid fid =
     find (\<lambda>f. f_id f = fid) (filter (fulfillment_visible d uid) (fulfillments d))"

text \<open>\<^verbatim>\<open>app.is_corp_member\<close>: the caller is in a group the corp is linked to.  A contract is
  visible to its issuer, its assignee and the members of its source corp; a suggestion
  to those who see its reimbursement's list.\<close>

definition is_corp_member :: "db \<Rightarrow> uuid \<Rightarrow> uuid \<Rightarrow> bool" where
  "is_corp_member d uid corp \<longleftrightarrow>
     (\<exists>gc\<in>set (group_corps d). gc_corp_id gc = corp \<and> gc_unlinked_at gc = None
        \<and> is_group_member d uid (gc_group_id gc))"

definition contract_visible :: "db \<Rightarrow> uuid \<Rightarrow> contract \<Rightarrow> bool" where
  "contract_visible d uid c \<longleftrightarrow>
     ct_issuer_user_id c = Some uid \<or> ct_assignee_user_id c = Some uid
   \<or> (case ct_source_corp_id c of None \<Rightarrow> False | Some corp \<Rightarrow> is_corp_member d uid corp)"

definition rls_find_contract :: "db \<Rightarrow> uuid \<Rightarrow> uuid \<Rightarrow> contract option" where
  "rls_find_contract d uid cid =
     find (\<lambda>c. ct_id c = cid) (filter (contract_visible d uid) (contracts d))"

definition suggestion_visible :: "db \<Rightarrow> uuid \<Rightarrow> suggestion \<Rightarrow> bool" where
  "suggestion_visible d uid sg \<longleftrightarrow>
     (\<exists>r\<in>set (reimbursements d). r_id r = sg_reimbursement_id sg \<and> is_list_member d uid (r_list_id r))"

definition rls_find_suggestion :: "db \<Rightarrow> uuid \<Rightarrow> uuid \<Rightarrow> suggestion option" where
  "rls_find_suggestion d uid sid =
     find (\<lambda>g. sg_id g = sid) (filter (suggestion_visible d uid) (suggestions d))"

section \<open>Extractors\<close>

record current_group =
  cg_user_id :: uuid
  cg_group_id :: uuid
  cg_role :: group_role

record current_list =
  cl_user_id :: uuid
  cl_group_id :: uuid
  cl_list_id :: uuid
  cl_role :: group_role
  cl_created_by_user_id :: uuid
  cl_status :: list_status

record current_claim =
  cc_user_id :: uuid
  cc_group_id :: uuid
  cc_list_id :: uuid
  cc_claim_id :: uuid
  cc_hauler_user_id :: uuid
  cc_role :: group_role
  cc_status :: claim_status
  cc_list_status :: list_status

text \<open>The session holds the user id of a logged-in caller, or nothing.\<close>

type_synonym session = "uuid option"

definition current_user :: "session \<Rightarrow> uuid res" where
  "current_user s = ok_or Unauthorized s"

definition current_group_ex :: "session \<Rightarrow> uuid \<Rightarrow> db \<Rightarrow> current_group res" where
  "current_group_ex s gid d =
     bind_res (current_user s) (\<lambda>uid.
     bind_res (ok_or (Forbidden ''you are not a member of this group'') (member_role d uid gid))
       (\<lambda>role. Inr \<lparr> cg_user_id = uid, cg_group_id = gid, cg_role = role \<rparr>))"

definition current_list_ex :: "session \<Rightarrow> uuid \<Rightarrow> db \<Rightarrow> current_list res" where
  "current_list_ex s lid d =
     bind_res (current_user s) (\<lambda>uid.
     bind_res (ok_or (NotFound ''list not found'') (rls_find_list d uid lid)) (\<lambda>l.
     bind_res (ok_or (Forbidden ''you are not a member of this list's group'')
                 (member_role d uid (l_group_id l)))
       (\<lambda>role. Inr \<lparr> cl_user_id = uid, cl_group_id = l_group_id l, cl_list_id = lid,
                     cl_role = role, cl_created_by_user_id = l_created_by_user_id l,
                     cl_status = l_status l \<rparr>)))"

definition current_claim_ex :: "session \<Rightarrow> uuid \<Rightarrow> db \<Rightarrow> current_claim res" where
  "current_claim_ex s cid d =
     bind_res (current_user s) (\<lambda>uid.
     bind_res (ok_or (NotFound ''claim not found'') (rls_find_claim d uid cid)) (\<lambda>c.
     bind_res (ok_or (NotFound ''claim not found'') (rls_find_list d uid (c_list_id c))) (\<lambda>l.
     bind_res (ok_or (Forbidden ''you are not a member of this claim's group'')
                 (member_role d uid (l_group_id l)))
       (\<lambda>role. Inr \<lparr> cc_user_id = uid, cc_group_id = l_group_id l, cc_list_id = c_list_id c,
                     cc_claim_id = cid, cc_hauler_user_id = c_hauler_user_id c, cc_role = role,
                     cc_status = c_status c, cc_list_status = l_status l \<rparr>))))"

definition require_open :: "current_list \<Rightarrow> unit res" where
  "require_open cur =
     (if cl_status cur \<noteq> LOpen
      then Inl (Conflict (''list is '' @ list_status_str (cl_status cur) @
                          ''; this action requires an open list''))
      else Inr ())"

definition require_mutable :: "current_list \<Rightarrow> unit res" where
  "require_mutable cur =
     (if cl_status cur = LArchived then Inl (Conflict ''list is archived; no changes can be made'')
      else Inr ())"

definition require_list_mutable :: "current_claim \<Rightarrow> unit res" where
  "require_list_mutable cur =
     (if cc_list_status cur = LArchived
      then Inl (Conflict ''list is archived; no changes can be made'') else Inr ())"

definition require_can_manage :: "current_list \<Rightarrow> unit res" where
  "require_can_manage cur =
     (if cl_user_id cur \<noteq> cl_created_by_user_id cur \<and> cl_role cur \<noteq> Owner
      then Inl (Forbidden ''only the list creator or a group owner can change list status'')
      else Inr ())"

section \<open>The request transaction\<close>

text \<open>\<^verbatim>\<open>tx_middleware\<close> commits on a 2xx response and rolls back otherwise.\<close>

definition tx_middleware :: "(db \<Rightarrow> db res) \<Rightarrow> db \<Rightarrow> nat \<times> db" where
  "tx_middleware h d = (case h d of Inl e \<Rightarrow> (status_code e, d) | Inr d' \<Rightarrow> (200, d'))"

section \<open>Enqueueing a webhook\<close>

definition fire_webhook :: "uuid \<Rightarrow> webhook_event \<Rightarrow> db \<Rightarrow> db" where
  "fire_webhook gid ev d =
     d \<lparr> pending_webhooks := pending_webhooks d @ [\<lparr> pw_group_id = gid, pw_payload = ev \<rparr>] \<rparr>"

section \<open>What the extractors establish\<close>

lemma member_role_Some_member: "member_role d uid gid = Some r \<Longrightarrow> is_group_member d uid gid"
  by (auto simp: member_role_def is_group_member_def dest!: find_Some_memD)

lemma member_role_iff_member: "(\<exists>r. member_role d uid gid = Some r) \<longleftrightarrow> is_group_member d uid gid"
proof
  assume "is_group_member d uid gid"
  then have "find (\<lambda>m. gm_user_id m = uid \<and> gm_group_id m = gid) (memberships d) \<noteq> None"
    by (auto simp: is_group_member_def find_None_iff)
  then show "\<exists>r. member_role d uid gid = Some r"
    by (auto simp: member_role_def)
qed (auto dest: member_role_Some_member)

lemma rls_find_list_SomeD:
  "rls_find_list d uid lid = Some l \<Longrightarrow>
     l \<in> set (lists d) \<and> l_id l = lid \<and> is_group_member d uid (l_group_id l)"
  unfolding rls_find_list_def by (drule find_Some_memD) auto

lemma rls_find_claim_SomeD:
  "rls_find_claim d uid cid = Some c \<Longrightarrow>
     c \<in> set (claims d) \<and> c_id c = cid \<and> is_list_member d uid (c_list_id c)"
  unfolding rls_find_claim_def by (drule find_Some_memD) auto

lemma current_list_ex_Inr:
  "current_list_ex s lid d = Inr cur \<Longrightarrow>
     cl_list_id cur = lid \<and> s = Some (cl_user_id cur)
     \<and> (\<exists>l\<in>set (lists d). l_id l = lid \<and> l_group_id l = cl_group_id cur
           \<and> l_status l = cl_status cur \<and> l_created_by_user_id l = cl_created_by_user_id cur)
     \<and> member_role d (cl_user_id cur) (cl_group_id cur) = Some (cl_role cur)"
  by (auto simp: current_list_ex_def current_user_def bind_res_eq_Inr
      dest!: rls_find_list_SomeD)

lemma current_claim_ex_Inr:
  "current_claim_ex s cid d = Inr cur \<Longrightarrow>
     cc_claim_id cur = cid \<and> s = Some (cc_user_id cur)
     \<and> (\<exists>c\<in>set (claims d). c_id c = cid \<and> c_list_id c = cc_list_id cur
           \<and> c_hauler_user_id c = cc_hauler_user_id cur \<and> c_status c = cc_status cur)
     \<and> (\<exists>l\<in>set (lists d). l_id l = cc_list_id cur \<and> l_status l = cc_list_status cur)
     \<and> member_role d (cc_user_id cur) (cc_group_id cur) = Some (cc_role cur)"
  by (auto simp: current_claim_ex_def current_user_def bind_res_eq_Inr
      dest!: rls_find_list_SomeD rls_find_claim_SomeD)

lemma current_list_ex_errors:
  "current_list_ex s lid d = Inl e \<Longrightarrow> e = Unauthorized \<or> e = NotFound ''list not found''"
  by (auto simp: current_list_ex_def current_user_def bind_res_eq_Inl
      dest!: rls_find_list_SomeD member_role_iff_member [THEN iffD2])

end
