(* ===== verification/Item_Status.thy ===== *)
theory Item_Status
  imports Db
begin

text \<open>
  The shared helpers of \<^verbatim>\<open>api/src/fulfillment.rs\<close>: guards on claims and tips, and
  the recomputation of the status of an item from its fulfillments and claims,
  one item at a time (\<open>recompute_item_status\<close>) and set-based
  (\<open>recompute_item_statuses_bulk\<close>).  The locale \<open>item_refresh\<close> is the contract both
  give the handlers that call them.
\<close>

section \<open>Guards\<close>

datatype delivered_demotion = DForbid | DAllow

definition lock_list :: "uuid \<Rightarrow> db \<Rightarrow> unit res" where
  "lock_list lid d = (case find_list d lid of None \<Rightarrow> Inl not_found | Some _ \<Rightarrow> Inr ())"

definition validate_tip_pct :: "decimal \<Rightarrow> unit res" where
  "validate_tip_pct v =
     (if dec_neg v \<or> dec_gt_one v then Inl (BadRequest ''tip_pct must be between 0 and 1'')
      else Inr ())"

definition ensure_claim_writable ::
  "uuid \<Rightarrow> uuid \<Rightarrow> group_role \<Rightarrow> claim_status \<Rightarrow> unit res" where
  "ensure_claim_writable user_id hauler_user_id role status =
     (if user_id \<noteq> hauler_user_id \<and> role \<noteq> Owner then Inl forbidden
      else if status \<noteq> CActive
      then Inl (Conflict (''claim is '' @ claim_status_str status @ '', not active''))
      else Inr ())"

section \<open>Recomputing a status\<close>

definition fulfilled_qty :: "db \<Rightarrow> uuid \<Rightarrow> qty" where
  "fulfilled_qty d iid =
     sum_where (\<lambda>f. f_list_item_id f = iid \<and> f_reversed_at f = None) f_qty (fulfillments d)"

definition has_active_claim :: "db \<Rightarrow> uuid \<Rightarrow> bool" where
  "has_active_claim d iid \<longleftrightarrow>
     (\<exists>ci\<in>set (claim_items d). ci_list_item_id ci = iid \<and> ci_active ci)"

definition base_status :: "db \<Rightarrow> list_item \<Rightarrow> list_item_status" where
  "base_status d i =
     (if li_qty_requested i \<le> fulfilled_qty d (li_id i) then IBought
      else if has_active_claim d (li_id i) then IClaimed
      else IOpen)"

definition recomputed_status :: "db \<Rightarrow> list_item \<Rightarrow> list_item_status" where
  "recomputed_status d i =
     (if li_status i = IDelivered \<and> base_status d i = IBought then IDelivered else base_status d i)"

definition recompute_item_status ::
  "uuid \<Rightarrow> delivered_demotion \<Rightarrow> db \<Rightarrow> (list_item_status \<times> db) res" where
  "recompute_item_status iid demotion d =
     bind_res (ok_or not_found (find_item d iid)) (\<lambda>i.
       if li_status i = ISettled then Inr (li_status i, d)
       else if li_status i = IDelivered \<and> demotion = DForbid then Inr (li_status i, d)
       else Inr (recomputed_status d i,
                 d \<lparr> list_items := upd_where (\<lambda>x. li_id x = iid)
                       (\<lambda>x. x \<lparr> li_status := recomputed_status d i,
                               li_qty_fulfilled := fulfilled_qty d iid \<rparr>) (list_items d) \<rparr>))"

definition recompute_item_statuses_bulk :: "uuid list \<Rightarrow> db \<Rightarrow> db" where
  "recompute_item_statuses_bulk ids d =
     (if ids = [] then d
      else d \<lparr> list_items := upd_where (\<lambda>i. li_id i \<in> set ids)
                 (\<lambda>i. i \<lparr> li_qty_fulfilled := fulfilled_qty d (li_id i),
                         li_status := (if li_status i \<in> {IDelivered, ISettled} then li_status i
                                       else base_status d i) \<rparr>) (list_items d) \<rparr>)"

section \<open>When an item agrees with its fulfillments and claims\<close>

text \<open>
  The stored quantity is the sum of the live fulfillments, never more than what was
  requested; a delivered or settled item is fully bought; any other item has
  exactly the status its fulfillments and claims give it.
\<close>

definition item_ok :: "db \<Rightarrow> list_item \<Rightarrow> bool" where
  "item_ok d i \<longleftrightarrow>
     li_qty_fulfilled i = fulfilled_qty d (li_id i)
   \<and> fulfilled_qty d (li_id i) \<le> li_qty_requested i
   \<and> (if li_status i \<in> {IDelivered, ISettled} then fulfilled_qty d (li_id i) = li_qty_requested i
      else li_status i = base_status d i)"

lemma base_status_cases:
  "base_status d i = IOpen \<or> base_status d i = IClaimed \<or> base_status d i = IBought"
  by (auto simp: base_status_def)

lemma base_status_ne [simp]: "base_status d i \<noteq> IDelivered" "base_status d i \<noteq> ISettled"
  by (auto simp: base_status_def)

lemma base_status_Bought: "base_status d i = IBought \<longleftrightarrow> li_qty_requested i \<le> fulfilled_qty d (li_id i)"
  by (simp add: base_status_def)

lemma fulfilled_qty_cong:
  "fulfillments d' = fulfillments d \<Longrightarrow> fulfilled_qty d' = fulfilled_qty d"
  by (simp add: fulfilled_qty_def fun_eq_iff)

lemma has_active_claim_cong:
  "claim_items d' = claim_items d \<Longrightarrow> has_active_claim d' = has_active_claim d"
  by (simp add: has_active_claim_def fun_eq_iff)

lemma base_status_cong:
  assumes "fulfillments d' = fulfillments d" "claim_items d' = claim_items d"
  shows "base_status d' = base_status d"
  using fulfilled_qty_cong [OF assms(1)] has_active_claim_cong [OF assms(2)]
  by (simp add: base_status_def fun_eq_iff)

lemma item_ok_cong:
  assumes "fulfillments d' = fulfillments d" "claim_items d' = claim_items d"
  shows "item_ok d' = item_ok d"
  using base_status_cong [OF assms] fulfilled_qty_cong [OF assms(1)]
  by (simp add: item_ok_def fun_eq_iff)

lemma item_ok_pointwise:
  assumes "fulfilled_qty d' (li_id i) = fulfilled_qty d (li_id i)"
    and "has_active_claim d' (li_id i) = has_active_claim d (li_id i)"
  shows "item_ok d' i = item_ok d i"
  using assms by (simp add: item_ok_def base_status_def)

text \<open>The status of a full item does not depend on claims.\<close>

lemma item_ok_full_indep:
  assumes "item_ok d i" "fulfillments d' = fulfillments d" "IBought \<le> li_status i"
  shows "item_ok d' i"
  using assms fulfilled_qty_cong [OF assms(2)]
  by (auto simp: item_ok_def base_status_def bought_le_iff split: if_splits)

lemma item_ok_full:
  "item_ok d i \<Longrightarrow> IBought \<le> li_status i \<longleftrightarrow> li_qty_requested i = fulfilled_qty d (li_id i)"
  by (auto simp: item_ok_def base_status_def bought_le_iff split: if_splits)

section \<open>The contract of a recomputation\<close>

text \<open>
  \<open>refresh d\<close> rewrites the rows \<open>touched\<close> selects, from the state \<open>d\<close> after the
  caller's own change.  What the handlers rely on: identity and request of a row
  stay; a row whose status is in \<open>kept\<close> must agree with the state already; any other
  row ends up with the status and quantity of the state.
\<close>

definition apply_refresh ::
  "(list_item \<Rightarrow> bool) \<Rightarrow> (db \<Rightarrow> list_item \<Rightarrow> list_item) \<Rightarrow> db \<Rightarrow> db" where
  "apply_refresh touched refresh d =
     d \<lparr> list_items := upd_where touched (refresh d) (list_items d) \<rparr>"

lemma apply_refresh_frame [simp]:
  "users (apply_refresh t r d) = users d" "memberships (apply_refresh t r d) = memberships d"
  "principals (apply_refresh t r d) = principals d" "lists (apply_refresh t r d) = lists d"
  "claims (apply_refresh t r d) = claims d" "claim_items (apply_refresh t r d) = claim_items d"
  "fulfillments (apply_refresh t r d) = fulfillments d"
  "reimbursements (apply_refresh t r d) = reimbursements d"
  "contracts (apply_refresh t r d) = contracts d"
  "suggestions (apply_refresh t r d) = suggestions d"
  "list_items (apply_refresh t r d) = upd_where t (r d) (list_items d)"
  by (simp_all add: apply_refresh_def)

locale item_refresh =
  fixes touched :: "list_item \<Rightarrow> bool"
    and refresh :: "db \<Rightarrow> list_item \<Rightarrow> list_item"
    and kept :: "list_item_status set"
  assumes kept_late: "kept \<subseteq> {IDelivered, ISettled}"
    and keeps: "li_id (refresh d i) = li_id i"
      "li_list_id (refresh d i) = li_list_id i"
      "li_requested_by_user_id (refresh d i) = li_requested_by_user_id i"
      "li_qty_requested (refresh d i) = li_qty_requested i"
    and keeps_settled: "li_status (refresh d i) = ISettled \<longleftrightarrow> li_status i = ISettled"
    and refresh_ok: "fulfilled_qty d (li_id i) \<le> li_qty_requested i
      \<Longrightarrow> li_status i \<in> kept
          \<longrightarrow> li_qty_fulfilled i = fulfilled_qty d (li_id i) \<and> fulfilled_qty d (li_id i) = li_qty_requested i
      \<Longrightarrow> item_ok d (refresh d i)"
begin

lemma items_of_apply:
  assumes "i' \<in> set (list_items (apply_refresh touched refresh d))"
  obtains i where "i \<in> set (list_items d)" "i' = (if touched i then refresh d i else i)"
  using assms by (auto simp: apply_refresh_def set_upd_where)

lemma all_items_ok:
  assumes "\<And>i. i \<in> set (list_items d) \<Longrightarrow> \<not> touched i \<Longrightarrow> item_ok d i"
    and "\<And>i. i \<in> set (list_items d) \<Longrightarrow> touched i \<Longrightarrow>
           fulfilled_qty d (li_id i) \<le> li_qty_requested i
           \<and> (li_status i \<in> kept \<longrightarrow>
                li_qty_fulfilled i = fulfilled_qty d (li_id i)
                \<and> fulfilled_qty d (li_id i) = li_qty_requested i)"
  shows "\<forall>i\<in>set (list_items (apply_refresh touched refresh d)). item_ok (apply_refresh touched refresh d) i"
proof
  fix i' assume "i' \<in> set (list_items (apply_refresh touched refresh d))"
  then obtain i where i: "i \<in> set (list_items d)" "i' = (if touched i then refresh d i else i)"
    by (rule items_of_apply)
  have "item_ok d i'"
    using i assms by (cases "touched i") (simp_all add: refresh_ok)
  moreover have "item_ok (apply_refresh touched refresh d) = item_ok d"
    by (rule item_ok_cong) simp_all
  ultimately show "item_ok (apply_refresh touched refresh d) i'" by simp
qed

lemma ids_of_apply: "map li_id (list_items (apply_refresh touched refresh d)) = map li_id (list_items d)"
  by (simp add: apply_refresh_def map_upd_where_same keeps)

end

definition single_refresh :: "delivered_demotion \<Rightarrow> db \<Rightarrow> list_item \<Rightarrow> list_item" where
  "single_refresh demotion d i =
     (if li_status i = ISettled \<or> (li_status i = IDelivered \<and> demotion = DForbid) then i
      else i \<lparr> li_status := recomputed_status d i,
               li_qty_fulfilled := fulfilled_qty d (li_id i) \<rparr>)"

definition bulk_refresh :: "db \<Rightarrow> list_item \<Rightarrow> list_item" where
  "bulk_refresh d i =
     i \<lparr> li_qty_fulfilled := fulfilled_qty d (li_id i),
        li_status := (if li_status i \<in> {IDelivered, ISettled} then li_status i
                      else base_status d i) \<rparr>"

lemma base_status_upd [simp]:
  "base_status d (i \<lparr> li_status := s \<rparr>) = base_status d i"
  "base_status d (i \<lparr> li_qty_fulfilled := q \<rparr>) = base_status d i"
  by (simp_all add: base_status_def)

lemma single_refresh_keeps [simp]:
  "li_id (single_refresh dem d i) = li_id i"
  "li_list_id (single_refresh dem d i) = li_list_id i"
  "li_requested_by_user_id (single_refresh dem d i) = li_requested_by_user_id i"
  "li_qty_requested (single_refresh dem d i) = li_qty_requested i"
  by (simp_all add: single_refresh_def)

lemma single_refresh_settled:
  "li_status (single_refresh dem d i) = ISettled \<longleftrightarrow> li_status i = ISettled"
  by (simp add: single_refresh_def recomputed_status_def)

definition kept_by :: "delivered_demotion \<Rightarrow> list_item_status set" where
  "kept_by dem = (case dem of DForbid \<Rightarrow> {IDelivered, ISettled} | DAllow \<Rightarrow> {ISettled})"

lemma single_refresh_ok:
  assumes "fulfilled_qty d (li_id i) \<le> li_qty_requested i"
    and "li_status i \<in> kept_by dem
          \<longrightarrow> li_qty_fulfilled i = fulfilled_qty d (li_id i) \<and> fulfilled_qty d (li_id i) = li_qty_requested i"
  shows "item_ok d (single_refresh dem d i)"
  using assms base_status_ne [of d i]
  by (cases "li_status i"; cases dem; simp add: single_refresh_def item_ok_def recomputed_status_def
      base_status_Bought kept_by_def)

lemma kept_by_late: "kept_by dem \<subseteq> {IDelivered, ISettled}"
  by (cases dem) (simp_all add: kept_by_def)

lemma bulk_refresh_keeps [simp]:
  "li_id (bulk_refresh d i) = li_id i"
  "li_list_id (bulk_refresh d i) = li_list_id i"
  "li_requested_by_user_id (bulk_refresh d i) = li_requested_by_user_id i"
  "li_qty_requested (bulk_refresh d i) = li_qty_requested i"
  by (simp_all add: bulk_refresh_def)

lemma bulk_refresh_settled:
  "li_status (bulk_refresh d i) = ISettled \<longleftrightarrow> li_status i = ISettled"
  by (simp add: bulk_refresh_def)

lemma bulk_refresh_ok:
  assumes "fulfilled_qty d (li_id i) \<le> li_qty_requested i"
    and "li_status i \<in> {IDelivered, ISettled}
          \<longrightarrow> li_qty_fulfilled i = fulfilled_qty d (li_id i) \<and> fulfilled_qty d (li_id i) = li_qty_requested i"
  shows "item_ok d (bulk_refresh d i)"
  using assms by (cases "li_status i"; simp add: bulk_refresh_def item_ok_def)

interpretation single_forbid: item_refresh "\<lambda>i. li_id i = iid" "single_refresh DForbid" "kept_by DForbid" for iid
  by (unfold_locales; (rule kept_by_late single_refresh_keeps single_refresh_settled single_refresh_ok; assumption?))

interpretation single_allow: item_refresh "\<lambda>i. li_id i = iid" "single_refresh DAllow" "kept_by DAllow" for iid
  by (unfold_locales; (rule kept_by_late single_refresh_keeps single_refresh_settled single_refresh_ok; assumption?))

interpretation bulk: item_refresh "\<lambda>i. li_id i \<in> set ids" bulk_refresh "{IDelivered, ISettled}" for ids
  by (unfold_locales; (rule subset_refl bulk_refresh_keeps bulk_refresh_settled bulk_refresh_ok; assumption?))

lemma recompute_bulk_is_refresh:
  "recompute_item_statuses_bulk ids d = apply_refresh (\<lambda>i. li_id i \<in> set ids) bulk_refresh d"
proof (cases "ids = []")
  case False
  have "(\<lambda>i. i \<lparr> li_qty_fulfilled := fulfilled_qty d (li_id i),
                 li_status := (if li_status i \<in> {IDelivered, ISettled} then li_status i
                               else base_status d i) \<rparr>) = bulk_refresh d"
    by (rule ext) (simp only: bulk_refresh_def)
  with False show ?thesis
    by (simp only: recompute_item_statuses_bulk_def apply_refresh_def if_False)
qed (simp add: recompute_item_statuses_bulk_def apply_refresh_def)

text \<open>With distinct keys, recomputing one item is the refresh of the rows with its key.\<close>

lemma upd_where_key_cong:
  assumes "distinct (map key rs)" "r \<in> set rs" "key r = k" "f r = g r"
  shows "upd_where (\<lambda>x. key x = k) f rs = upd_where (\<lambda>x. key x = k) g rs"
proof -
  have "f x = g x" if "x \<in> set rs" "key x = k" for x
    using distinct_map_unique [OF assms(1) that(1) assms(2)] that(2) assms(3,4) by simp
  then show ?thesis unfolding upd_where_def by (intro map_cong) auto
qed

lemma recompute_single_is_refresh:
  assumes "distinct (map li_id (list_items d))" "recompute_item_status iid dem d = Inr (st, d')"
  shows "d' = apply_refresh (\<lambda>i. li_id i = iid) (single_refresh dem) d"
    and "\<exists>i\<in>set (list_items d). li_id i = iid \<and> st = li_status (single_refresh dem d i)"
proof -
  obtain i where f: "find_item d iid = Some i"
    using assms(2) by (auto simp: recompute_item_status_def bind_res_eq_Inr)
  then have i: "i \<in> set (list_items d)" "li_id i = iid"
    by (auto simp: find_item_def dest: find_Some_memD)
  let ?keep = "li_status i = ISettled \<or> li_status i = IDelivered \<and> dem = DForbid"
  let ?f = "if ?keep then (\<lambda>x. x)
            else (\<lambda>x. x \<lparr> li_status := recomputed_status d i, li_qty_fulfilled := fulfilled_qty d iid \<rparr>)"
  have "?f i = single_refresh dem d i"
    using i by (simp add: single_refresh_def)
  then have upd: "upd_where (\<lambda>x. li_id x = iid) ?f (list_items d)
      = upd_where (\<lambda>x. li_id x = iid) (single_refresh dem d) (list_items d)"
    by (rule upd_where_key_cong [OF assms(1) i])
  have res: "st = li_status (single_refresh dem d i)
      \<and> d' = d \<lparr> list_items := upd_where (\<lambda>x. li_id x = iid) ?f (list_items d) \<rparr>"
    using assms(2) f i upd_where_id [of "list_items d" "\<lambda>x. li_id x = iid" "\<lambda>x. x"]
    by (auto simp: recompute_item_status_def single_refresh_def split: if_splits)
  show "d' = apply_refresh (\<lambda>i. li_id i = iid) (single_refresh dem) d"
    using res upd by (simp only: apply_refresh_def)
  show "\<exists>i\<in>set (list_items d). li_id i = iid \<and> st = li_status (single_refresh dem d i)"
    using res i by blast
qed

section \<open>One statement for many items\<close>

text \<open>The reference the set-based statement replaces: one recomputation after the other.\<close>

fun recompute_each :: "uuid list \<Rightarrow> db \<Rightarrow> db res" where
  "recompute_each [] d = Inr d"
| "recompute_each (i # ids) d =
     bind_res (recompute_item_status i DForbid d) (\<lambda>(_, d'). recompute_each ids d')"

definition late_full :: "db \<Rightarrow> bool" where
  "late_full d \<longleftrightarrow> (\<forall>i\<in>set (list_items d). li_status i \<in> {IDelivered, ISettled} \<longrightarrow>
     li_qty_fulfilled i = fulfilled_qty d (li_id i))"

lemma bulk_refresh_single:
  assumes "li_status i \<in> {IDelivered, ISettled} \<longrightarrow> li_qty_fulfilled i = fulfilled_qty d (li_id i)"
  shows "single_refresh DForbid d i = bulk_refresh d i"
  using assms
  by (cases "li_status i") (simp_all add: single_refresh_def bulk_refresh_def recomputed_status_def)

lemma bulk_refresh_idem: "bulk_refresh d (bulk_refresh d i) = bulk_refresh d i"
  by (simp add: bulk_refresh_def base_status_def)

lemma refresh_reads_books:
  assumes "fulfillments d' = fulfillments d" "claim_items d' = claim_items d"
  shows "bulk_refresh d' = bulk_refresh d"
  unfolding bulk_refresh_def fun_eq_iff fulfilled_qty_cong [OF assms(1)] base_status_cong [OF assms] by simp

lemma recompute_one_bulk:
  assumes "distinct (map li_id (list_items d))" "late_full d" "iid \<in> li_id ` set (list_items d)"
  shows "\<exists>st. recompute_item_status iid DForbid d = Inr (st, recompute_item_statuses_bulk [iid] d)"
proof -
  obtain i where "find_item d iid = Some i"
    using assms(3) by (cases "find_item d iid") (auto simp: find_item_def find_None_iff)
  then have "\<exists>p. recompute_item_status iid DForbid d = Inr p" by (simp add: recompute_item_status_def)
  then obtain st d' where r: "recompute_item_status iid DForbid d = Inr (st, d')" by force
  have "upd_where (\<lambda>i. li_id i = iid) (single_refresh DForbid d) (list_items d)
      = upd_where (\<lambda>i. li_id i = iid) (bulk_refresh d) (list_items d)"
    unfolding upd_where_def
    by (rule map_cong) (use assms(2) bulk_refresh_single in \<open>auto simp: late_full_def\<close>)
  then have "d' = recompute_item_statuses_bulk [iid] d"
    unfolding recompute_single_is_refresh(1) [OF assms(1) r] recompute_bulk_is_refresh apply_refresh_def by simp
  with r show ?thesis by blast
qed

lemma late_full_bulk: "late_full d \<Longrightarrow> late_full (recompute_item_statuses_bulk ids d)"
  unfolding recompute_bulk_is_refresh late_full_def apply_refresh_def
  by (auto simp: set_upd_where bulk_refresh_def fulfilled_qty_def)

lemma bulk_Cons:
  "recompute_item_statuses_bulk ids (recompute_item_statuses_bulk [iid] d) = recompute_item_statuses_bulk (iid # ids) d"
proof -
  let ?d1 = "apply_refresh (\<lambda>i. li_id i \<in> set [iid]) bulk_refresh d"
  have reads: "bulk_refresh ?d1 = bulk_refresh d" by (rule refresh_reads_books) simp_all
  have "upd_where (\<lambda>i. li_id i \<in> set ids) (bulk_refresh d) (upd_where (\<lambda>i. li_id i \<in> set [iid]) (bulk_refresh d) xs)
      = upd_where (\<lambda>i. li_id i \<in> set (iid # ids)) (bulk_refresh d) xs" for xs
    by (induction xs) (auto simp: bulk_refresh_idem)
  then have "apply_refresh (\<lambda>i. li_id i \<in> set ids) bulk_refresh ?d1
      = apply_refresh (\<lambda>i. li_id i \<in> set (iid # ids)) bulk_refresh d"
    unfolding apply_refresh_def [of _ _ ?d1] reads by (simp add: apply_refresh_def)
  then show ?thesis unfolding recompute_bulk_is_refresh .
qed

text \<open>C18: the set-based recomputation of item statuses is the item-by-item one: on a state whose
  delivered and settled items carry their fulfilled quantity, recomputing the items one
  after the other, in any order and with repetitions, succeeds and gives the same rows as
  the single statement.\<close>

theorem bulk_recompute_is_iterated:
  assumes "distinct (map li_id (list_items d))" "late_full d" "set ids \<subseteq> li_id ` set (list_items d)"
  shows "recompute_each ids d = Inr (recompute_item_statuses_bulk ids d)"
  using assms
proof (induction ids arbitrary: d)
  case (Cons iid ids)
  let ?d1 = "recompute_item_statuses_bulk [iid] d"
  have ids: "map li_id (list_items ?d1) = map li_id (list_items d)"
    unfolding recompute_bulk_is_refresh by (rule bulk.ids_of_apply)
  obtain st where one: "recompute_item_status iid DForbid d = Inr (st, ?d1)"
    using recompute_one_bulk [OF Cons.prems(1,2)] Cons.prems(3) by auto
  have "set ids \<subseteq> li_id ` set (list_items ?d1)"
    using Cons.prems(3) arg_cong [OF ids, of set] by simp
  then have "recompute_each ids ?d1 = Inr (recompute_item_statuses_bulk ids ?d1)"
    using Cons.IH [of ?d1] Cons.prems(1) ids late_full_bulk [OF Cons.prems(2)] by simp
  then show ?case using one by (simp add: bulk_Cons)
qed (simp add: recompute_item_statuses_bulk_def)

theorem bulk_recompute_is_iterated_witness:
  "\<exists>d. list_items d \<noteq> [] \<and> recompute_each [7, 7] d = Inr (recompute_item_statuses_bulk [7, 7] d)"
proof -
  let ?i = "\<lparr> li_id = 7, li_list_id = 1, li_type_id = 34, li_type_name = ''Tritanium'', li_qty_requested = 5,
      li_qty_fulfilled = 0, li_est_unit_price_isk = None, li_est_priced_market_id = None,
      li_requested_by_user_id = 1, li_status = IClaimed, li_source_line_no = None \<rparr>"
  let ?d = "empty_db \<lparr> list_items := [?i] \<rparr>"
  have "recompute_each [7, 7] ?d = Inr (recompute_item_statuses_bulk [7, 7] ?d)"
    by (rule bulk_recompute_is_iterated) (simp_all add: late_full_def)
  then show ?thesis by (intro exI [of _ ?d]) simp
qed

end
