(* ===== verification/Claims.thy ===== *)
theory Claims
  imports Item_Status
begin

text \<open>
  The claim handlers of \<^verbatim>\<open>api/src/fulfillment/claims.rs\<close> and the invariant of claims
  they keep: the flag \<^verbatim>\<open>active\<close> of a claim's items follows the claim's status (the
  trigger \<^verbatim>\<open>sync_claim_items_active\<close>), and an item is in at most one active claim
  (the index \<^verbatim>\<open>claim_items_one_active\<close>).
\<close>

section \<open>Statements on the claim tables\<close>

text \<open>The trigger on \<^verbatim>\<open>UPDATE OF status ON claims\<close>.\<close>

definition sync_claim_items_active :: "uuid \<Rightarrow> claim_status \<Rightarrow> claim_status \<Rightarrow> db \<Rightarrow> db" where
  "sync_claim_items_active cid old_st new_st d =
     (if new_st \<noteq> CActive \<and> old_st = CActive
      then d \<lparr> claim_items := upd_where (\<lambda>ci. ci_claim_id ci = cid)
                 (\<lambda>ci. ci \<lparr> ci_active := False \<rparr>) (claim_items d) \<rparr>
      else if new_st = CActive \<and> old_st \<noteq> CActive
      then d \<lparr> claim_items := upd_where (\<lambda>ci. ci_claim_id ci = cid)
                 (\<lambda>ci. ci \<lparr> ci_active := True \<rparr>) (claim_items d) \<rparr>
      else d)"

definition set_claim_status :: "uuid \<Rightarrow> claim_status \<Rightarrow> instant option \<Rightarrow> db \<Rightarrow> db" where
  "set_claim_status cid st released d =
     (case find_claim d cid of
        None \<Rightarrow> d
      | Some c \<Rightarrow> sync_claim_items_active cid (c_status c) st
          (d \<lparr> claims := upd_where (\<lambda>x. c_id x = cid)
                 (\<lambda>x. x \<lparr> c_status := st,
                         c_released_at := (if released = None then c_released_at x else released) \<rparr>)
                 (claims d) \<rparr>))"

definition validate_claimable_items :: "uuid \<Rightarrow> uuid list \<Rightarrow> db \<Rightarrow> unit res" where
  "validate_claimable_items lid ids d =
     (let rows = filter (\<lambda>i. li_id i \<in> set ids \<and> li_list_id i = lid) (list_items d) in
      if length rows \<noteq> length ids
      then Inl (BadRequest ''one or more item_ids do not belong to this list'')
      else case find (\<lambda>i. li_status i \<noteq> IOpen) rows of
             Some bad \<Rightarrow> Inl (Conflict (''cannot claim item with status '' @ quoted (list_item_status_str (li_status bad)) @
                            ''; only open items may be claimed''))
           | None \<Rightarrow> Inr ())"

text \<open>\<^verbatim>\<open>INSERT INTO claim_items SELECT ... FROM unnest(ids)\<close>: row by row, the primary key
  is checked before the partial unique index.\<close>

fun insert_claim_rows :: "uuid \<Rightarrow> uuid list \<Rightarrow> claim_item list \<Rightarrow> claim_item list res" where
  "insert_claim_rows cid [] cis = Inr cis"
| "insert_claim_rows cid (i # ids) cis =
     (if \<exists>ci\<in>set cis. ci_claim_id ci = cid \<and> ci_list_item_id ci = i then Inl db_unique_violation
      else if \<exists>ci\<in>set cis. ci_list_item_id ci = i \<and> ci_active ci
      then Inl (Conflict ''one or more items are already claimed'')
      else insert_claim_rows cid ids
             (cis @ [\<lparr> ci_claim_id = cid, ci_list_item_id = i, ci_active = True \<rparr>]))"

definition insert_claim_items :: "uuid \<Rightarrow> uuid list \<Rightarrow> db \<Rightarrow> db res" where
  "insert_claim_items cid ids d =
     (if ids = [] then Inr d
      else bind_res (insert_claim_rows cid ids (claim_items d)) (\<lambda>cis.
             Inr (recompute_item_statuses_bulk ids (d \<lparr> claim_items := cis \<rparr>))))"

section \<open>Handlers\<close>

definition unnamed_or :: "string option \<Rightarrow> string" where
  "unnamed_or l = (case l of None \<Rightarrow> ''(unnamed)'' | Some s \<Rightarrow> s)"

definition create_claim ::
  "session \<Rightarrow> uuid \<Rightarrow> uuid list \<Rightarrow> string option \<Rightarrow> uuid \<Rightarrow> instant \<Rightarrow> db \<Rightarrow> db res" where
  "create_claim s lid ids note new_id now d =
     bind_res (current_list_ex s lid d) (\<lambda>cur.
     if cl_status cur \<noteq> LOpen
     then Inl (Conflict (''list is '' @ list_status_str (cl_status cur) @
                         ''; claims can only be created on open lists''))
     else if ids = [] then Inl (BadRequest ''item_ids must not be empty'')
     else bind_res (lock_list lid d) (\<lambda>_.
     bind_res (validate_claimable_items lid ids d) (\<lambda>_.
     if new_id \<in> c_id ` set (claims d) then Inl db_unique_violation
     else bind_res (insert_claim_items new_id ids
            (d \<lparr> claims := claims d @ [\<lparr> c_id = new_id, c_list_id = lid,
                   c_hauler_user_id = cl_user_id cur, c_status = CActive, c_note = note,
                   c_created_at = now, c_released_at = None \<rparr>] \<rparr>)) (\<lambda>d1.
     bind_res (ok_or not_found (find_user d1 (cl_user_id cur))) (\<lambda>u.
     bind_res (ok_or not_found (find_list d1 lid)) (\<lambda>l.
     Inr (fire_webhook (l_group_id l)
            (ListClaimed (unnamed_or (l_destination_label l)) (u_display_name u) (length ids)) d1)))))))"

definition add_claim_items :: "session \<Rightarrow> uuid \<Rightarrow> uuid list \<Rightarrow> db \<Rightarrow> db res" where
  "add_claim_items s cid ids d =
     bind_res (current_claim_ex s cid d) (\<lambda>cur.
     bind_res (require_list_mutable cur) (\<lambda>_.
     bind_res (ensure_claim_writable (cc_user_id cur) (cc_hauler_user_id cur) (cc_role cur) (cc_status cur)) (\<lambda>_.
     if ids = [] then Inl (BadRequest ''item_ids must not be empty'')
     else bind_res (lock_list (cc_list_id cur) d) (\<lambda>_.
     bind_res (validate_claimable_items (cc_list_id cur) ids d) (\<lambda>_.
     insert_claim_items cid ids d)))))"

definition remove_claim_item :: "session \<Rightarrow> uuid \<Rightarrow> uuid \<Rightarrow> db \<Rightarrow> db res" where
  "remove_claim_item s cid iid d =
     bind_res (current_claim_ex s cid d) (\<lambda>cur.
     bind_res (require_list_mutable cur) (\<lambda>_.
     bind_res (ensure_claim_writable (cc_user_id cur) (cc_hauler_user_id cur) (cc_role cur) (cc_status cur)) (\<lambda>_.
     bind_res (lock_list (cc_list_id cur) d) (\<lambda>_.
     let hit = (\<lambda>ci. ci_claim_id ci = cid \<and> ci_list_item_id ci = iid) in
     if \<not> (\<exists>ci\<in>set (claim_items d). hit ci) then Inl not_found
     else bind_res (recompute_item_status iid DForbid
                      (d \<lparr> claim_items := del_where hit (claim_items d) \<rparr>)) (\<lambda>(_, d').
          Inr d')))))"

definition release_claim :: "session \<Rightarrow> uuid \<Rightarrow> instant \<Rightarrow> db \<Rightarrow> db res" where
  "release_claim s cid now d =
     bind_res (current_claim_ex s cid d) (\<lambda>cur.
     bind_res (require_list_mutable cur) (\<lambda>_.
     bind_res (ensure_claim_writable (cc_user_id cur) (cc_hauler_user_id cur) (cc_role cur) (cc_status cur)) (\<lambda>_.
     bind_res (lock_list (cc_list_id cur) d) (\<lambda>_.
     let ids = map ci_list_item_id (filter (\<lambda>ci. ci_claim_id ci = cid) (claim_items d)) in
     Inr (recompute_item_statuses_bulk ids (set_claim_status cid CReleased (Some now) d))))))"

section \<open>The invariant of claims\<close>

definition claims_ok :: "db \<Rightarrow> bool" where
  "claims_ok d \<longleftrightarrow>
     distinct (map c_id (claims d))
   \<and> distinct (map (\<lambda>ci. (ci_claim_id ci, ci_list_item_id ci)) (claim_items d))
   \<and> (\<forall>ci\<in>set (claim_items d). \<exists>c\<in>set (claims d). c_id c = ci_claim_id ci
        \<and> (ci_active ci \<longleftrightarrow> c_status c = CActive))
   \<and> (\<forall>ci\<in>set (claim_items d). \<forall>ci'\<in>set (claim_items d).
        ci_active ci \<and> ci_active ci' \<and> ci_list_item_id ci = ci_list_item_id ci' \<longrightarrow> ci = ci')"

lemma claims_ok_cong:
  "claims d' = claims d \<Longrightarrow> claim_items d' = claim_items d \<Longrightarrow> claims_ok d' = claims_ok d"
  by (simp add: claims_ok_def)

lemma insert_claim_rows_Inr:
  assumes "insert_claim_rows cid ids cis = Inr cis'"
  shows "cis' = cis @ map (\<lambda>i. \<lparr> ci_claim_id = cid, ci_list_item_id = i, ci_active = True \<rparr>) ids
       \<and> distinct ids
       \<and> (\<forall>i\<in>set ids. \<forall>ci\<in>set cis. \<not> (ci_claim_id ci = cid \<and> ci_list_item_id ci = i)
             \<and> \<not> (ci_list_item_id ci = i \<and> ci_active ci))"
  using assms
proof (induction ids arbitrary: cis)
  case (Cons i ids)
  let ?row = "\<lparr> ci_claim_id = cid, ci_list_item_id = i, ci_active = True \<rparr>"
  have rest: "insert_claim_rows cid ids (cis @ [?row]) = Inr cis'"
    and new: "\<forall>ci\<in>set cis. \<not> (ci_claim_id ci = cid \<and> ci_list_item_id ci = i)"
      "\<forall>ci\<in>set cis. \<not> (ci_list_item_id ci = i \<and> ci_active ci)"
    using Cons.prems by (auto split: if_splits)
  from Cons.IH [OF rest] new show ?case by auto
qed simp

lemma claims_okD:
  assumes "claims_ok d"
  shows "distinct (map c_id (claims d))"
    "distinct (map (\<lambda>ci. (ci_claim_id ci, ci_list_item_id ci)) (claim_items d))"
    "\<And>ci. ci \<in> set (claim_items d) \<Longrightarrow>
       \<exists>c\<in>set (claims d). c_id c = ci_claim_id ci \<and> (ci_active ci \<longleftrightarrow> c_status c = CActive)"
    "\<And>ci ci'. ci \<in> set (claim_items d) \<Longrightarrow> ci' \<in> set (claim_items d) \<Longrightarrow> ci_active ci \<Longrightarrow>
       ci_active ci' \<Longrightarrow> ci_list_item_id ci = ci_list_item_id ci' \<Longrightarrow> ci = ci'"
  using assms by (auto simp: claims_ok_def)

lemma claims_ok_claim_status:
  assumes "claims_ok d" "ci \<in> set (claim_items d)" "c \<in> set (claims d)" "c_id c = ci_claim_id ci"
  shows "ci_active ci \<longleftrightarrow> c_status c = CActive"
proof -
  obtain c' where "c' \<in> set (claims d)" "c_id c' = ci_claim_id ci" "ci_active ci \<longleftrightarrow> c_status c' = CActive"
    using claims_okD(3) [OF assms(1,2)] by blast
  moreover have "c' = c"
    using distinct_map_unique [OF claims_okD(1) [OF assms(1)]] calculation(1,2) assms(3,4) by simp
  ultimately show ?thesis by simp
qed

text \<open>Adding a claim without items.\<close>

lemma claims_ok_new_claim:
  assumes "claims_ok d" "c_id c \<notin> c_id ` set (claims d)"
  shows "claims_ok (d \<lparr> claims := claims d @ [c] \<rparr>)"
  using assms unfolding claims_ok_def by auto

text \<open>Inserting items into an active claim.\<close>

lemma claims_ok_insert:
  assumes ok: "claims_ok d" and ins: "insert_claim_rows cid ids (claim_items d) = Inr cis"
    and c: "c \<in> set (claims d)" "c_id c = cid" "c_status c = CActive"
  shows "claims_ok (d \<lparr> claim_items := cis \<rparr>)"
proof -
  let ?row = "\<lambda>i. \<lparr> ci_claim_id = cid, ci_list_item_id = i, ci_active = True \<rparr>"
  note I = insert_claim_rows_Inr [OF ins]
  have cis: "cis = claim_items d @ map ?row ids" and dist: "distinct ids" using I by blast+
  have fresh: "(cid, i) \<notin> (\<lambda>ci. (ci_claim_id ci, ci_list_item_id ci)) ` set (claim_items d)"
    if "i \<in> set ids" for i using I that by auto
  have unclaimed: "ci_list_item_id ci \<notin> set ids" if "ci \<in> set (claim_items d)" "ci_active ci" for ci
    using I that by auto
  show ?thesis
    unfolding claims_ok_def
  proof (simp add: cis, intro conjI ballI impI)
    show "distinct (map c_id (claims d))" by (rule claims_okD(1) [OF ok])
    show "distinct (map (\<lambda>ci. (ci_claim_id ci, ci_list_item_id ci)) (claim_items d))"
      by (rule claims_okD(2) [OF ok])
    show "distinct (map ((\<lambda>ci. (ci_claim_id ci, ci_list_item_id ci)) \<circ> ?row) ids)"
      using dist by (simp add: distinct_map inj_on_def)
    show "(\<lambda>ci. (ci_claim_id ci, ci_list_item_id ci)) ` set (claim_items d)
          \<inter> (\<lambda>x. (cid, x)) ` set ids = {}"
      using fresh by auto
  next
    fix ci assume "ci \<in> set (claim_items d) \<union> ?row ` set ids"
    then show "\<exists>c\<in>set (claims d). c_id c = ci_claim_id ci \<and> ci_active ci = (c_status c = CActive)"
      using claims_okD(3) [OF ok] c by auto
  next
    fix ci ci' assume "ci \<in> set (claim_items d) \<union> ?row ` set ids"
      "ci' \<in> set (claim_items d) \<union> ?row ` set ids"
      "ci_active ci \<and> ci_active ci' \<and> ci_list_item_id ci = ci_list_item_id ci'"
    then show "ci = ci'" using claims_okD(4) [OF ok] unclaimed by auto
  qed
qed

lemma claims_ok_delete: "claims_ok d \<Longrightarrow> claims_ok (d \<lparr> claim_items := del_where P (claim_items d) \<rparr>)"
  unfolding claims_ok_def by (auto intro: distinct_map_del_where)

text \<open>Releasing or completing an active claim: exactly its items become inactive.\<close>

lemma set_claim_status_inactive:
  assumes "find_claim d cid = Some c" "c_status c = CActive" "st \<noteq> CActive"
  shows "set_claim_status cid st rel d =
     d \<lparr> claims := upd_where (\<lambda>x. c_id x = cid)
             (\<lambda>x. x \<lparr> c_status := st,
                     c_released_at := (if rel = None then c_released_at x else rel) \<rparr>) (claims d),
         claim_items := upd_where (\<lambda>ci. ci_claim_id ci = cid)
             (\<lambda>ci. ci \<lparr> ci_active := False \<rparr>) (claim_items d) \<rparr>"
  using assms by (simp add: set_claim_status_def sync_claim_items_active_def)

lemma claims_ok_deactivate:
  assumes ok: "claims_ok d" and c: "find_claim d cid = Some c" "c_status c = CActive" "st \<noteq> CActive"
  shows "claims_ok (set_claim_status cid st rel d)"
proof -
  let ?f = "\<lambda>x. x \<lparr> c_status := st, c_released_at := (if rel = None then c_released_at x else rel) \<rparr>"
  let ?g = "\<lambda>ci. ci \<lparr> ci_active := False \<rparr>"
  have "map c_id (upd_where (\<lambda>x. c_id x = cid) ?f (claims d)) = map c_id (claims d)"
    by (simp add: map_upd_where_same)
  moreover have "map (\<lambda>ci. (ci_claim_id ci, ci_list_item_id ci)) (upd_where (\<lambda>ci. ci_claim_id ci = cid) ?g (claim_items d))
      = map (\<lambda>ci. (ci_claim_id ci, ci_list_item_id ci)) (claim_items d)"
    by (simp add: map_upd_where_same)
  moreover have "\<exists>c\<in>set (claims d). c_id (if c_id c = cid then ?f c else c)
          = ci_claim_id (if ci_claim_id ci = cid then ?g ci else ci)
        \<and> ci_active (if ci_claim_id ci = cid then ?g ci else ci)
          = (c_status (if c_id c = cid then ?f c else c) = CActive)"
    if "ci \<in> set (claim_items d)" for ci
    using claims_okD(3) [OF ok that] c(3) by (auto split: if_splits intro!: bexI)
  moreover have "(if ci_claim_id ci = cid then ?g ci else ci) = (if ci_claim_id ci' = cid then ?g ci' else ci')"
    if "ci \<in> set (claim_items d)" "ci' \<in> set (claim_items d)"
      "ci_active (if ci_claim_id ci = cid then ?g ci else ci)"
      "ci_active (if ci_claim_id ci' = cid then ?g ci' else ci')"
      "ci_list_item_id (if ci_claim_id ci = cid then ?g ci else ci)
        = ci_list_item_id (if ci_claim_id ci' = cid then ?g ci' else ci')" for ci ci'
    using that claims_okD(4) [OF ok that(1,2)] by (auto split: if_splits)
  ultimately show ?thesis
    unfolding set_claim_status_inactive [OF c] claims_ok_def
    using claims_okD(1,2) [OF ok] by simp
qed

lemma has_active_claim_deactivate:
  assumes "find_claim d cid = Some c" "c_status c = CActive" "st \<noteq> CActive"
    and "\<And>ci. ci \<in> set (claim_items d) \<Longrightarrow> ci_claim_id ci = cid \<Longrightarrow> ci_list_item_id ci \<noteq> iid"
  shows "has_active_claim (set_claim_status cid st rel d) iid = has_active_claim d iid"
  unfolding set_claim_status_inactive [OF assms(1-3)] has_active_claim_def using assms(4)
  by (auto split: if_splits)

end
