(* ===== verification/Reimbursements.thy ===== *)
theory Reimbursements
  imports Item_Status
begin

text \<open>
  The debt of a requester to a hauler: \<open>upsert_reimbursement\<close>
  (\<^verbatim>\<open>api/src/fulfillment/reimbursements.rs\<close>) and the tip handlers
  (\<^verbatim>\<open>api/src/fulfillment/tips.rs\<close>).  Theorems: amounts are exactly
  subtotal plus rounded tip, settled rows are never touched, and the key
  (list, requester principal, hauler principal) stays unique.
\<close>

section \<open>Principals of a reimbursement\<close>

definition user_principal :: "db \<Rightarrow> uuid \<Rightarrow> principal option" where
  "user_principal d uid = find (\<lambda>p. p_kind p = PUser \<and> p_user_id p = Some uid) (principals d)"

definition corp_principal :: "db \<Rightarrow> uuid \<Rightarrow> principal option" where
  "corp_principal d cid = find (\<lambda>p. p_kind p = PCorp \<and> p_corp_id p = Some cid) (principals d)"

definition requester_principal :: "db \<Rightarrow> shopping_list \<Rightarrow> uuid \<Rightarrow> principal option" where
  "requester_principal d l requester =
     (case l_payer_corp_id l of
        None \<Rightarrow> user_principal d requester
      | Some corp \<Rightarrow> corp_principal d corp)"

text \<open>The status query of \<open>record_fulfillment\<close> and \<open>reverse_fulfillment\<close>: the row of
  the (list, requester principal, hauler principal) cycle, if there is one.\<close>

definition reimb_key :: "reimbursement \<Rightarrow> uuid \<times> uuid \<times> uuid" where
  "reimb_key r = (r_list_id r, r_requester_principal_id r, r_hauler_principal_id r)"

definition cycle_key :: "db \<Rightarrow> uuid \<Rightarrow> uuid \<Rightarrow> uuid \<Rightarrow> (uuid \<times> uuid \<times> uuid) option" where
  "cycle_key d lid requester hauler =
     (case find_list d lid of None \<Rightarrow> None | Some l \<Rightarrow>
        (case (requester_principal d l requester, user_principal d hauler) of
           (Some rp, Some hp) \<Rightarrow> Some (lid, p_id rp, p_id hp)
         | _ \<Rightarrow> None))"

definition existing_reimb_status ::
  "db \<Rightarrow> uuid \<Rightarrow> uuid \<Rightarrow> uuid \<Rightarrow> reimbursement_status option" where
  "existing_reimb_status d lid requester hauler =
     (case cycle_key d lid requester hauler of None \<Rightarrow> None
      | Some k \<Rightarrow> map_option r_status (find (\<lambda>r. reimb_key r = k) (reimbursements d)))"

section \<open>Amounts\<close>

definition cycle_subtotal :: "db \<Rightarrow> uuid \<Rightarrow> uuid \<Rightarrow> uuid \<Rightarrow> bool \<Rightarrow> isk" where
  "cycle_subtotal d lid requester hauler corp =
     sum_where (\<lambda>f. f_hauler_user_id f = hauler \<and> f_reversed_at f = None
                  \<and> (\<exists>i\<in>set (list_items d). li_id i = f_list_item_id f \<and> li_list_id i = lid
                        \<and> (corp \<or> li_requested_by_user_id i = requester)))
       (\<lambda>f. f_qty f * f_unit_price_isk f) (fulfillments d)"

definition tip_amount :: "isk \<Rightarrow> int \<Rightarrow> isk" where
  "tip_amount subtotal tip_pct = round_half_away (subtotal * tip_pct) (10 ^ 4)"

definition total_amount :: "isk \<Rightarrow> int \<Rightarrow> isk" where
  "total_amount subtotal tip_pct = round_half_away (subtotal * (10 ^ 4 + tip_pct)) (10 ^ 4)"

section \<open>Upsert\<close>

definition upsert_reimbursement ::
  "uuid \<Rightarrow> instant \<Rightarrow> uuid \<Rightarrow> uuid \<Rightarrow> uuid \<Rightarrow> db \<Rightarrow> db res" where
  "upsert_reimbursement new_id now lid requester hauler d =
     (case find_list d lid of None \<Rightarrow> Inr d | Some l \<Rightarrow>
     (case (requester_principal d l requester, user_principal d hauler) of
        (Some rp, Some hp) \<Rightarrow>
          (let corp = (l_payer_corp_id l \<noteq> None);
               st = cycle_subtotal d lid requester hauler corp;
               tip = tip_amount st (l_tip_pct l);
               total = total_amount st (l_tip_pct l);
               hit = (\<lambda>r. reimb_key r = (lid, p_id rp, p_id hp) \<and> r_status r \<noteq> RCancelled)
           in
           if \<not> fits 24 st \<or> \<not> fits 24 tip \<or> \<not> fits 24 total then Inl db_numeric_overflow
           else if \<exists>r\<in>set (reimbursements d). hit r
           then Inr (d \<lparr> reimbursements := upd_where (\<lambda>r. hit r \<and> r_status r = RPending)
                   (\<lambda>r. r \<lparr> r_subtotal_isk := st, r_tip_isk := tip, r_total_isk := total,
                           r_updated_at := now \<rparr>) (reimbursements d) \<rparr>)
           else if new_id \<in> r_id ` set (reimbursements d) then Inl db_unique_violation
           else Inr (d \<lparr> reimbursements := reimbursements d @
                   [\<lparr> r_id = new_id, r_list_id = lid,
                      r_requester_user_id = (if corp then None else Some requester),
                      r_requester_principal_id = p_id rp, r_hauler_user_id = hauler,
                      r_hauler_principal_id = p_id hp, r_subtotal_isk = st, r_tip_isk = tip,
                      r_total_isk = total, r_status = RPending, r_settled_at = None,
                      r_settled_by_user_id = None, r_contract_id = None, r_is_corp_funded = corp,
                      r_verified_by_wallet = False, r_wallet_settlement_delta_isk = None,
                      r_updated_at = now \<rparr>] \<rparr>))
      | _ \<Rightarrow> Inr d))"

section \<open>Tips\<close>

definition list_has_live_fulfillment :: "db \<Rightarrow> uuid \<Rightarrow> bool" where
  "list_has_live_fulfillment d lid \<longleftrightarrow>
     (\<exists>f\<in>set (fulfillments d). f_reversed_at f = None
        \<and> (\<exists>i\<in>set (list_items d). li_id i = f_list_item_id f \<and> li_list_id i = lid))"

text \<open>The list row stores the tip rounded to four places; the pending reimbursements
  are recomputed from the value of the request.\<close>

definition set_list_tip :: "session \<Rightarrow> uuid \<Rightarrow> decimal \<Rightarrow> instant \<Rightarrow> db \<Rightarrow> db res" where
  "set_list_tip s lid tip now d =
     bind_res (current_list_ex s lid d) (\<lambda>cur.
     bind_res (require_mutable cur) (\<lambda>_.
     bind_res (validate_tip_pct tip) (\<lambda>_.
     let is_creator = (cl_user_id cur = cl_created_by_user_id cur) in
     if \<not> is_creator \<and> cl_role cur \<noteq> Owner then Inl forbidden
     else bind_res (lock_list lid d) (\<lambda>_.
     if is_creator \<and> cl_role cur \<noteq> Owner \<and> list_has_live_fulfillment d lid then Inl forbidden
     else
       let new_tip = (\<lambda>r. round_half_away (r_subtotal_isk r * mantissa tip) (10 ^ scale tip));
           new_total = (\<lambda>r. round_half_away (r_subtotal_isk r * (10 ^ scale tip + mantissa tip))
                              (10 ^ scale tip));
           hit = (\<lambda>r. r_list_id r = lid \<and> r_status r = RPending)
       in if \<exists>r\<in>set (reimbursements d). hit r \<and> (\<not> fits 24 (new_tip r) \<or> \<not> fits 24 (new_total r))
          then Inl db_numeric_overflow
          else Inr (d \<lparr> lists := upd_where (\<lambda>l. l_id l = lid)
                            (\<lambda>l. l \<lparr> l_tip_pct := to_numeric 4 tip \<rparr>) (lists d),
                        reimbursements := upd_where hit
                            (\<lambda>r. r \<lparr> r_tip_isk := new_tip r, r_total_isk := new_total r,
                                    r_updated_at := now \<rparr>) (reimbursements d) \<rparr>)))))"

definition set_group_default_tip :: "session \<Rightarrow> uuid \<Rightarrow> decimal \<Rightarrow> db \<Rightarrow> db res" where
  "set_group_default_tip s gid tip d =
     bind_res (current_group_ex s gid d) (\<lambda>cur.
     if cg_role cur \<noteq> Owner then Inl forbidden
     else bind_res (validate_tip_pct tip) (\<lambda>_.
     if \<not> (\<exists>g\<in>set (groups d). g_id g = gid) then Inl not_found
     else Inr (d \<lparr> groups := upd_where (\<lambda>g. g_id g = gid)
                     (\<lambda>g. g \<lparr> g_default_tip_pct := to_numeric 4 tip \<rparr>) (groups d) \<rparr>)))"

section \<open>Lemmas on amounts\<close>

lemma total_is_subtotal_plus_tip:
  assumes "0 \<le> subtotal" "0 \<le> tip_pct"
  shows "total_amount subtotal tip_pct = subtotal + tip_amount subtotal tip_pct"
proof -
  have "subtotal * (10 ^ 4 + tip_pct) = subtotal * 10 ^ 4 + subtotal * tip_pct"
    by (simp add: algebra_simps)
  then show ?thesis
    using round_half_away_add_exact [of "10 ^ 4" "subtotal * tip_pct" subtotal] assms
    by (simp add: total_amount_def tip_amount_def)
qed

lemma tip_amount_nonneg: "0 \<le> subtotal \<Longrightarrow> 0 \<le> tip_pct \<Longrightarrow> 0 \<le> tip_amount subtotal tip_pct"
  by (simp add: tip_amount_def round_half_away_nonneg)

lemma tip_amount_le:
  assumes "0 \<le> subtotal" "0 \<le> tip_pct" "tip_pct \<le> 10 ^ 4"
  shows "tip_amount subtotal tip_pct \<le> subtotal"
proof -
  have "subtotal * tip_pct \<le> subtotal * 10 ^ 4"
    using assms by (intro mult_left_mono) auto
  then have "(2 * (subtotal * tip_pct) + 10 ^ 4) div (2 * 10 ^ 4)
             \<le> (2 * (subtotal * 10 ^ 4) + 10 ^ 4) div (2 * 10 ^ 4)"
    by (intro zdiv_mono1) auto
  moreover have "\<not> subtotal * tip_pct < 0" "\<not> subtotal * 10 ^ 4 < 0"
    using assms by (simp_all add: not_less)
  ultimately have "tip_amount subtotal tip_pct \<le> round_half_away (subtotal * 10 ^ 4) (10 ^ 4)"
    unfolding tip_amount_def round_half_away_def by simp
  then show ?thesis using round_half_away_exact [of "10 ^ 4" subtotal] by simp
qed

lemma cycle_subtotal_nonneg:
  "(\<And>f. f \<in> set (fulfillments d) \<Longrightarrow> 0 \<le> f_qty f \<and> 0 \<le> f_unit_price_isk f)
   \<Longrightarrow> 0 \<le> cycle_subtotal d lid requester hauler corp"
  unfolding cycle_subtotal_def by (rule sum_where_nonneg) auto

end
