(* ===== verification/Fulfillments.thy ===== *)
theory Fulfillments
  imports Claims Reimbursements
begin

text \<open>
  Recording, reversing and delivering (\<^verbatim>\<open>api/src/fulfillment/fulfillments.rs\<close>).
\<close>

record record_fulfillment_body =
  rb_qty :: qty
  rb_unit_price_isk :: decimal
  rb_bought_at_market_id :: "uuid option"
  rb_bought_at_note :: "string option"
  rb_hauler_character_id :: "uuid option"
  rb_claim_id :: "uuid option"

text \<open>The whitespace of \<^verbatim>\<open>str::trim\<close> in the Latin-1 range of \<^typ>\<open>char\<close>.\<close>

definition is_space :: "char \<Rightarrow> bool" where
  "is_space c \<longleftrightarrow> of_char c \<in> ({9, 10, 11, 12, 13, 32, 133, 160} :: nat set)"

definition blank :: "string \<Rightarrow> bool" where
  "blank s \<longleftrightarrow> list_all is_space s"

definition check_fulfillment_body :: "record_fulfillment_body \<Rightarrow> unit res" where
  "check_fulfillment_body b =
     (if rb_qty b \<le> 0 then Inl (BadRequest ''qty must be positive'')
      else if rb_qty b > 10000000 then Inl (BadRequest ''qty must be at most 10,000,000'')
      else if dec_neg (rb_unit_price_isk b) then Inl (BadRequest ''unit_price_isk must be >= 0'')
      else if rb_bought_at_market_id b = None
      then (case rb_bought_at_note b of
              None \<Rightarrow> Inl (BadRequest ''bought_at_note is required when no market is specified'')
            | Some n \<Rightarrow> if blank n then Inl (BadRequest ''bought_at_note must not be blank'')
                        else Inr ())
      else Inr ())"

definition check_market_and_character :: "record_fulfillment_body \<Rightarrow> uuid \<Rightarrow> db \<Rightarrow> unit res" where
  "check_market_and_character b uid d =
     (let market_exists = (case rb_bought_at_market_id b of None \<Rightarrow> True
                           | Some m \<Rightarrow> \<exists>x\<in>set (markets d). mk_id x = m);
          char_owned = (case rb_hauler_character_id b of None \<Rightarrow> True
                        | Some c \<Rightarrow> \<exists>x\<in>set (characters d). ch_id x = c \<and> ch_user_id x = uid)
      in if \<not> market_exists then Inl (BadRequest ''bought_at_market_id does not exist'')
         else if \<not> char_owned then Inl (BadRequest ''hauler_character_id does not belong to you'')
         else Inr ())"

text \<open>\<^verbatim>\<open>claim_items ci JOIN claims c\<close> for the active claim of an item.\<close>

definition active_claim :: "db \<Rightarrow> uuid \<Rightarrow> (uuid \<times> uuid) option" where
  "active_claim d iid =
     (case find (\<lambda>ci. ci_list_item_id ci = iid \<and> ci_active ci) (claim_items d) of
        None \<Rightarrow> None
      | Some ci \<Rightarrow> map_option (\<lambda>c. (c_id c, c_hauler_user_id c)) (find_claim d (ci_claim_id ci)))"

definition check_active_claim ::
  "(uuid \<times> uuid) option \<Rightarrow> uuid \<Rightarrow> group_role \<Rightarrow> uuid option \<Rightarrow> unit res" where
  "check_active_claim ac uid role explicit =
     (case ac of None \<Rightarrow> Inr ()
      | Some (acid, hauler) \<Rightarrow>
          if uid \<noteq> hauler \<and> role \<noteq> Owner then Inl forbidden
          else if explicit \<noteq> None \<and> explicit \<noteq> Some acid
          then Inl (BadRequest ''claim_id does not match the active claim for this item'')
          else Inr ())"

text \<open>A claim all of whose items are bought, delivered or settled is completed.\<close>

definition claim_all_done :: "db \<Rightarrow> uuid \<Rightarrow> bool" where
  "claim_all_done d cid \<longleftrightarrow>
     \<not> (\<exists>ci\<in>set (claim_items d). ci_claim_id ci = cid
          \<and> (\<exists>i\<in>set (list_items d). li_id i = ci_list_item_id ci
               \<and> li_status i \<notin> {IBought, IDelivered, ISettled}))"

definition complete_claim_if_done ::
  "list_item_status \<Rightarrow> (uuid \<times> uuid) option \<Rightarrow> db \<Rightarrow> db" where
  "complete_claim_if_done new_status ac d =
     (if new_status = IBought \<or> new_status = ISettled then
        (case ac of None \<Rightarrow> d
         | Some (cid, _) \<Rightarrow>
             if claim_all_done d cid \<and> (\<exists>c\<in>set (claims d). c_id c = cid \<and> c_status c = CActive)
             then set_claim_status cid CCompleted None d else d)
      else d)"

definition record_fulfillment ::
  "session \<Rightarrow> uuid \<Rightarrow> uuid \<Rightarrow> record_fulfillment_body \<Rightarrow> uuid \<Rightarrow> uuid \<Rightarrow> instant \<Rightarrow> db \<Rightarrow> db res" where
  "record_fulfillment s lid iid b new_fid new_rid now d =
     bind_res (current_list_ex s lid d) (\<lambda>cur.
     bind_res (require_mutable cur) (\<lambda>_.
     let uid = cl_user_id cur in
     bind_res (check_fulfillment_body b) (\<lambda>_.
     bind_res (lock_list lid d) (\<lambda>_.
     bind_res (ok_or not_found (find (\<lambda>i. li_id i = iid \<and> li_list_id i = lid) (list_items d))) (\<lambda>i.
     let requester = li_requested_by_user_id i in
     if rb_qty b + li_qty_fulfilled i > li_qty_requested i
     then Inl (Conflict (''fulfillment qty '' @ string_of_int (rb_qty b) @ '' would exceed requested '' @
             string_of_int (li_qty_requested i) @ '' (already fulfilled: '' @
             string_of_int (li_qty_fulfilled i) @ '')''))
     else case existing_reimb_status d lid requester uid of
       Some RSettled \<Rightarrow> Inl (Conflict ''reimbursement for this requester is already settled; cannot record additional fulfillments'')
     | Some RCancelled \<Rightarrow> Inl (Conflict ''reimbursement for this requester is already cancelled; cannot record additional fulfillments'')
     | _ \<Rightarrow>
     bind_res (check_market_and_character b uid d) (\<lambda>_.
     let ac = active_claim d iid in
     bind_res (check_active_claim ac uid (cl_role cur) (rb_claim_id b)) (\<lambda>_.
     let price = to_numeric 2 (rb_unit_price_isk b) in
     if \<not> fits 20 price then Inl db_numeric_overflow
     else if new_fid \<in> f_id ` set (fulfillments d) then Inl db_unique_violation
     else bind_res (recompute_item_status iid DForbid
            (d \<lparr> fulfillments := fulfillments d @
                 [\<lparr> f_id = new_fid, f_list_item_id = iid, f_claim_id = map_option fst ac,
                    f_hauler_user_id = uid, f_hauler_character_id = rb_hauler_character_id b,
                    f_source = FManual, f_qty = rb_qty b, f_unit_price_isk = price,
                    f_bought_at_market_id = rb_bought_at_market_id b,
                    f_bought_at_note = rb_bought_at_note b, f_bought_at = now,
                    f_reversed_at = None \<rparr>] \<rparr>)) (\<lambda>(new_status, d1).
     upsert_reimbursement new_rid now lid requester uid
       (complete_claim_if_done new_status ac d1)))))))))"

text \<open>Under row-level security the first query sees the fulfillment only when the
  caller is a member of the group of its list.\<close>

definition reverse_fulfillment ::
  "session \<Rightarrow> uuid \<Rightarrow> uuid \<Rightarrow> instant \<Rightarrow> db \<Rightarrow> db res" where
  "reverse_fulfillment s fid new_rid now d =
     bind_res (current_user s) (\<lambda>uid.
     bind_res (ok_or not_found (rls_find_fulfillment d uid fid)) (\<lambda>f.
     bind_res (ok_or not_found (find_item d (f_list_item_id f))) (\<lambda>i.
     let lid = li_list_id i; requester = li_requested_by_user_id i; hauler = f_hauler_user_id f in
     bind_res (lock_list lid d) (\<lambda>_.
     bind_res (ok_or not_found (find_list d lid)) (\<lambda>l.
     if l_status l = LArchived then Inl (Conflict ''list is archived; no changes can be made'')
     else if f_reversed_at f \<noteq> None then Inl (BadRequest ''fulfillment is already reversed'')
     else bind_res (ok_or forbidden (member_role d uid (l_group_id l))) (\<lambda>role.
     if uid \<noteq> hauler \<and> role \<noteq> Owner then Inl forbidden
     else if existing_reimb_status d lid requester hauler \<notin> {None, Some RPending}
     then Inl (Conflict ''cannot reverse a fulfillment whose reimbursement is already settled'')
     else bind_res (recompute_item_status (f_list_item_id f) DAllow
            (d \<lparr> fulfillments := upd_where (\<lambda>x. f_id x = fid \<and> f_reversed_at x = None)
                   (\<lambda>x. x \<lparr> f_reversed_at := Some now \<rparr>) (fulfillments d) \<rparr>)) (\<lambda>(_, d1).
     upsert_reimbursement new_rid now lid requester hauler d1)))))))"

text \<open>\<^verbatim>\<open>ORDER BY bought_at DESC LIMIT 1\<close>: the latest purchase, the first of equals.\<close>

fun latest :: "fulfillment list \<Rightarrow> fulfillment option" where
  "latest [] = None"
| "latest (f # fs) = (case latest fs of None \<Rightarrow> Some f
                      | Some g \<Rightarrow> if f_bought_at f < f_bought_at g then Some g else Some f)"

definition last_hauler :: "db \<Rightarrow> uuid \<Rightarrow> uuid option" where
  "last_hauler d iid = map_option f_hauler_user_id
     (latest (filter (\<lambda>f. f_list_item_id f = iid \<and> f_reversed_at f = None) (fulfillments d)))"

text \<open>The nil uuid never identifies a user; an item without a live fulfillment has no
  last hauler.\<close>

definition nil_uuid :: uuid where
  "nil_uuid = 0"

definition mark_delivered :: "session \<Rightarrow> uuid \<Rightarrow> uuid \<Rightarrow> db \<Rightarrow> db res" where
  "mark_delivered s lid iid d =
     bind_res (current_list_ex s lid d) (\<lambda>cur.
     bind_res (require_mutable cur) (\<lambda>_.
     bind_res (lock_list lid d) (\<lambda>_.
     bind_res (ok_or not_found (find (\<lambda>i. li_id i = iid \<and> li_list_id i = lid) (list_items d))) (\<lambda>i.
     if li_status i \<noteq> IBought
     then Inl (BadRequest (''item must be in 'bought' status to mark delivered (currently: '' @
            list_item_status_str (li_status i) @ '')''))
     else if cl_user_id cur \<noteq> (case last_hauler d iid of None \<Rightarrow> nil_uuid | Some h \<Rightarrow> h)
             \<and> cl_role cur \<noteq> Owner then Inl forbidden
     else let d1 = d \<lparr> list_items := upd_where (\<lambda>x. li_id x = iid)
                         (\<lambda>x. x \<lparr> li_status := IDelivered \<rparr>) (list_items d) \<rparr>;
              all_done = (\<forall>x\<in>set (list_items d1). li_list_id x = lid
                            \<longrightarrow> li_status x \<in> {IDelivered, ISettled})
     in bind_res (ok_or not_found (find_user d1 (cl_user_id cur))) (\<lambda>u.
        bind_res (ok_or not_found (find_list d1 lid)) (\<lambda>l.
        Inr (if all_done
             then fire_webhook (l_group_id l)
                    (ListDelivered (unnamed_or (l_destination_label l)) (u_display_name u)) d1
             else d1)))))))"

end
