(* ===== verification/Settlement.thy ===== *)
theory Settlement
  imports Fulfillments
begin

text \<open>
  The crate \<^verbatim>\<open>settlement\<close> (\<^verbatim>\<open>settlement/src/lib.rs\<close>): contract upserts, the two
  ways to settle a reimbursement (by hand and by a finished contract), unbinding,
  wallet verification, closing of finished lists; and the API handler
  \<^verbatim>\<open>settle_reimbursement\<close> that calls the manual path.
\<close>

datatype settlement_error =
    SNotFound
  | SNotPending reimbursement_status
  | SNotDelivered nat
  | SDb string

section \<open>Contract upserts\<close>

record contract_upsert =
  cu_esi_contract_id :: int
  cu_issuer_character_id :: int
  cu_issuer_user_id :: "uuid option"
  cu_assignee_character_id :: "int option"
  cu_assignee_user_id :: "uuid option"
  cu_issuer_principal_id :: "uuid option"
  cu_assignee_principal_id :: "uuid option"
  cu_contract_type :: contract_type
  cu_status :: contract_status
  cu_price_isk :: decimal
  cu_reward_isk :: decimal
  cu_collateral_isk :: decimal
  cu_date_issued :: instant
  cu_date_expired :: "instant option"
  cu_date_accepted :: "instant option"
  cu_date_completed :: "instant option"
  cu_start_location_id :: "int option"
  cu_end_location_id :: "int option"
  cu_source_corp_id :: "uuid option"

record contract_upsert_outcome =
  co_contract_id :: uuid
  co_prior_status :: "contract_status option"
  co_current_status :: contract_status
  co_needs_items :: bool

definition status_changed :: "contract_upsert_outcome \<Rightarrow> bool" where
  "status_changed oc = (co_prior_status oc \<noteq> Some (co_current_status oc))"

definition coalesce :: "'a option \<Rightarrow> 'a option \<Rightarrow> 'a option" where
  "coalesce x y = (case x of None \<Rightarrow> y | Some _ \<Rightarrow> x)"

definition apply_upsert :: "contract_upsert \<Rightarrow> contract \<Rightarrow> contract" where
  "apply_upsert u c = c \<lparr>
     ct_issuer_character_id := cu_issuer_character_id u,
     ct_issuer_user_id := cu_issuer_user_id u,
     ct_assignee_character_id := cu_assignee_character_id u,
     ct_assignee_user_id := cu_assignee_user_id u,
     ct_contract_type := cu_contract_type u,
     ct_status := cu_status u,
     ct_price_isk := to_numeric 2 (cu_price_isk u),
     ct_reward_isk := to_numeric 2 (cu_reward_isk u),
     ct_collateral_isk := to_numeric 2 (cu_collateral_isk u),
     ct_date_issued := cu_date_issued u,
     ct_date_expired := cu_date_expired u,
     ct_date_accepted := cu_date_accepted u,
     ct_date_completed := cu_date_completed u,
     ct_start_location_id := cu_start_location_id u,
     ct_end_location_id := cu_end_location_id u,
     ct_issuer_principal_id := coalesce (cu_issuer_principal_id u) (ct_issuer_principal_id c),
     ct_assignee_principal_id := coalesce (cu_assignee_principal_id u) (ct_assignee_principal_id c),
     ct_source_corp_id := coalesce (cu_source_corp_id u) (ct_source_corp_id c) \<rparr>"

definition new_contract :: "uuid \<Rightarrow> contract_upsert \<Rightarrow> contract" where
  "new_contract cid u = \<lparr>
     ct_id = cid, ct_esi_contract_id = cu_esi_contract_id u,
     ct_issuer_character_id = cu_issuer_character_id u, ct_issuer_user_id = cu_issuer_user_id u,
     ct_assignee_character_id = cu_assignee_character_id u,
     ct_assignee_user_id = cu_assignee_user_id u,
     ct_contract_type = cu_contract_type u, ct_status = cu_status u,
     ct_price_isk = to_numeric 2 (cu_price_isk u), ct_reward_isk = to_numeric 2 (cu_reward_isk u),
     ct_collateral_isk = to_numeric 2 (cu_collateral_isk u),
     ct_expected_total_isk = None, ct_settlement_delta_isk = None,
     ct_date_issued = cu_date_issued u, ct_date_expired = cu_date_expired u,
     ct_date_accepted = cu_date_accepted u, ct_date_completed = cu_date_completed u,
     ct_start_location_id = cu_start_location_id u, ct_end_location_id = cu_end_location_id u,
     ct_items_synced_at = None, ct_issuer_principal_id = cu_issuer_principal_id u,
     ct_assignee_principal_id = cu_assignee_principal_id u,
     ct_source_corp_id = cu_source_corp_id u, ct_wallet_verified_at = None,
     ct_wallet_payout_aggregate_isk = None \<rparr>"

definition upsert_contract ::
  "uuid \<Rightarrow> contract_upsert \<Rightarrow> db \<Rightarrow> settlement_error + contract_upsert_outcome \<times> db" where
  "upsert_contract new_id u d =
     (if \<not> fits 20 (to_numeric 2 (cu_price_isk u)) \<or> \<not> fits 20 (to_numeric 2 (cu_reward_isk u))
         \<or> \<not> fits 20 (to_numeric 2 (cu_collateral_isk u))
      then Inl (SDb ''numeric field overflow'')
      else case find (\<lambda>c. ct_esi_contract_id c = cu_esi_contract_id u) (contracts d) of
        Some c \<Rightarrow>
          Inr (\<lparr> co_contract_id = ct_id c, co_prior_status = Some (ct_status c),
                 co_current_status = cu_status u,
                 co_needs_items = (ct_items_synced_at c = None) \<rparr>,
               d \<lparr> contracts := upd_where (\<lambda>x. ct_id x = ct_id c) (apply_upsert u) (contracts d) \<rparr>)
      | None \<Rightarrow>
          if new_id \<in> ct_id ` set (contracts d) then Inl (SDb ''unique violation'')
          else Inr (\<lparr> co_contract_id = new_id, co_prior_status = None,
                      co_current_status = cu_status u, co_needs_items = True \<rparr>,
                    d \<lparr> contracts := contracts d @ [new_contract new_id u] \<rparr>))"

section \<open>Expected total of a contract\<close>

definition bound_to :: "uuid \<Rightarrow> reimbursement \<Rightarrow> bool" where
  "bound_to cid r \<longleftrightarrow> r_contract_id r = Some cid"

text \<open>The functions of this crate that work on a contract run in two sessions: the worker's,
  which sees every row, and a request's, which sees the lists of the caller's groups.
  \<open>vis\<close> says of which lists the session sees the rows.\<close>

definition all_lists :: "uuid \<Rightarrow> bool" where
  "all_lists lid \<longleftrightarrow> True"

definition seen_bound :: "(uuid \<Rightarrow> bool) \<Rightarrow> uuid \<Rightarrow> reimbursement \<Rightarrow> bool" where
  "seen_bound vis cid r \<longleftrightarrow> bound_to cid r \<and> vis (r_list_id r)"

definition expected_total :: "(uuid \<Rightarrow> bool) \<Rightarrow> db \<Rightarrow> uuid \<Rightarrow> isk option" where
  "expected_total vis d cid =
     (if \<exists>r\<in>set (reimbursements d). seen_bound vis cid r
      then Some (sum_where (seen_bound vis cid) (\<lambda>r. r_subtotal_isk r + r_tip_isk r) (reimbursements d))
      else None)"

definition recompute_contract_expected_total ::
  "(uuid \<Rightarrow> bool) \<Rightarrow> uuid \<Rightarrow> db \<Rightarrow> settlement_error + db" where
  "recompute_contract_expected_total vis cid d =
     (case expected_total vis d cid of
        Some v \<Rightarrow> if \<not> fits 20 v then Inl (SDb ''numeric field overflow'')
                  else Inr (d \<lparr> contracts := upd_where (\<lambda>c. ct_id c = cid)
                                 (\<lambda>c. c \<lparr> ct_expected_total_isk := Some v \<rparr>) (contracts d) \<rparr>)
      | None \<Rightarrow> Inr (d \<lparr> contracts := upd_where (\<lambda>c. ct_id c = cid)
                            (\<lambda>c. c \<lparr> ct_expected_total_isk := None \<rparr>) (contracts d) \<rparr>))"

section \<open>Closing a finished list\<close>

definition list_complete :: "db \<Rightarrow> uuid \<Rightarrow> bool" where
  "list_complete d lid \<longleftrightarrow>
     \<not> (\<exists>i\<in>set (list_items d). li_list_id i = lid \<and> li_status i \<noteq> ISettled)"

definition auto_close_list_if_complete :: "uuid \<Rightarrow> instant \<Rightarrow> db \<Rightarrow> db" where
  "auto_close_list_if_complete lid now d =
     d \<lparr> lists := upd_where (\<lambda>l. l_id l = lid \<and> l_status l = LOpen \<and> list_complete d lid)
            (\<lambda>l. l \<lparr> l_status := LClosed, l_updated_at := now \<rparr>) (lists d) \<rparr>"

section \<open>Settling by hand\<close>

definition live_by :: "db \<Rightarrow> uuid \<Rightarrow> uuid \<Rightarrow> bool" where
  "live_by d iid hauler \<longleftrightarrow>
     (\<exists>f\<in>set (fulfillments d). f_list_item_id f = iid \<and> f_hauler_user_id f = hauler
        \<and> f_reversed_at f = None)"

definition flip_status_ok :: "bool \<Rightarrow> list_item_status \<Rightarrow> bool" where
  "flip_status_ok accept_bought st \<longleftrightarrow> st = IDelivered \<or> (accept_bought \<and> st = IBought)"

definition flip_personal_where :: "db \<Rightarrow> uuid \<Rightarrow> uuid \<Rightarrow> uuid \<Rightarrow> bool \<Rightarrow> list_item \<Rightarrow> bool" where
  "flip_personal_where d lid requester hauler accept_bought i \<longleftrightarrow>
     li_list_id i = lid \<and> li_requested_by_user_id i = requester
   \<and> flip_status_ok accept_bought (li_status i)
   \<and> live_by d (li_id i) hauler
   \<and> \<not> (\<exists>r\<in>set (reimbursements d). r_list_id r = lid \<and> r_requester_user_id r = Some requester
          \<and> r_hauler_user_id r \<noteq> hauler \<and> r_status r = RPending
          \<and> live_by d (li_id i) (r_hauler_user_id r))"

definition flip_corp_where :: "db \<Rightarrow> uuid \<Rightarrow> uuid \<Rightarrow> bool \<Rightarrow> list_item \<Rightarrow> bool" where
  "flip_corp_where d lid hauler accept_bought i \<longleftrightarrow>
     li_list_id i = lid \<and> flip_status_ok accept_bought (li_status i)
   \<and> live_by d (li_id i) hauler
   \<and> \<not> (\<exists>r\<in>set (reimbursements d). r_list_id r = lid
          \<and> r_hauler_user_id r \<noteq> hauler \<and> r_status r = RPending
          \<and> live_by d (li_id i) (r_hauler_user_id r))"

definition settle_items :: "(list_item \<Rightarrow> bool) \<Rightarrow> db \<Rightarrow> db" where
  "settle_items P d =
     d \<lparr> list_items := upd_where P (\<lambda>i. i \<lparr> li_status := ISettled \<rparr>) (list_items d) \<rparr>"

definition flip_items_to_settled :: "uuid \<Rightarrow> uuid \<Rightarrow> uuid \<Rightarrow> bool \<Rightarrow> db \<Rightarrow> db" where
  "flip_items_to_settled lid requester hauler accept_bought d =
     settle_items (flip_personal_where d lid requester hauler accept_bought) d"

definition flip_items_to_settled_corp :: "uuid \<Rightarrow> uuid \<Rightarrow> bool \<Rightarrow> db \<Rightarrow> db" where
  "flip_items_to_settled_corp lid hauler accept_bought d =
     settle_items (flip_corp_where d lid hauler accept_bought) d"

definition not_delivered_count :: "db \<Rightarrow> reimbursement \<Rightarrow> uuid option \<Rightarrow> nat" where
  "not_delivered_count d r requester =
     count_where (\<lambda>i. li_list_id i = r_list_id r
         \<and> (case requester of None \<Rightarrow> True | Some u \<Rightarrow> li_requested_by_user_id i = u)
         \<and> li_status i \<notin> {IDelivered, ISettled} \<and> live_by d (li_id i) (r_hauler_user_id r))
       (list_items d)"

definition mark_settled :: "(reimbursement \<Rightarrow> bool) \<Rightarrow> instant \<Rightarrow> uuid option \<Rightarrow> instant \<Rightarrow> db \<Rightarrow> db" where
  "mark_settled P settled_at by_user now d =
     d \<lparr> reimbursements := upd_where P
            (\<lambda>r. r \<lparr> r_status := RSettled, r_settled_at := Some settled_at,
                    r_settled_by_user_id := by_user, r_updated_at := now \<rparr>) (reimbursements d) \<rparr>"

definition settle_manual :: "uuid \<Rightarrow> uuid \<Rightarrow> instant \<Rightarrow> db \<Rightarrow> settlement_error + db" where
  "settle_manual rid by_user now d =
     (case find_reimbursement d rid of None \<Rightarrow> Inl SNotFound | Some r \<Rightarrow>
      if r_status r \<noteq> RPending then Inl (SNotPending (r_status r))
      else if r_is_corp_funded r then
        (let n = not_delivered_count d r None in
         if 0 < n then Inl (SNotDelivered n)
         else Inr (auto_close_list_if_complete (r_list_id r) now
                (flip_items_to_settled_corp (r_list_id r) (r_hauler_user_id r) False
                  (mark_settled (\<lambda>x. r_id x = rid) now (Some by_user) now d))))
      else (case r_requester_user_id r of None \<Rightarrow> Inl SNotFound | Some req \<Rightarrow>
        (let n = not_delivered_count d r (Some req) in
         if 0 < n then Inl (SNotDelivered n)
         else Inr (auto_close_list_if_complete (r_list_id r) now
                (flip_items_to_settled (r_list_id r) req (r_hauler_user_id r) False
                  (mark_settled (\<lambda>x. r_id x = rid) now (Some by_user) now d))))))"

definition of_settlement_error :: "settlement_error \<Rightarrow> api_error" where
  "of_settlement_error e = (case e of
       SNotFound \<Rightarrow> not_found
     | SNotPending st \<Rightarrow> Conflict (''reimbursement is already '' @ reimbursement_status_str st)
     | SNotDelivered n \<Rightarrow> Conflict (string_of_int (int n) @
         '' item(s) must be fully bought and delivered before settling'')
     | SDb m \<Rightarrow> Internal m)"

definition settle_reimbursement :: "session \<Rightarrow> uuid \<Rightarrow> instant \<Rightarrow> db \<Rightarrow> db res" where
  "settle_reimbursement s rid now d =
     bind_res (current_user s) (\<lambda>uid.
     bind_res (ok_or not_found (rls_find_reimbursement d uid rid)) (\<lambda>r.
     bind_res (lock_list (r_list_id r) d) (\<lambda>_.
     if r_status r \<noteq> RPending
     then Inl (Conflict (''reimbursement is already '' @ reimbursement_status_str (r_status r)))
     else if r_contract_id r \<noteq> None
     then Inl (Conflict ''this reimbursement is bound to a contract; unlink it before settling manually'')
     else bind_res (ok_or not_found (find_list d (r_list_id r))) (\<lambda>l.
     bind_res (ok_or forbidden (member_role d uid (l_group_id l))) (\<lambda>role.
     if r_requester_user_id r \<noteq> Some uid \<and> role \<noteq> Owner then Inl forbidden
     else case settle_manual rid uid now d of
       Inl e \<Rightarrow> Inl (of_settlement_error e)
     | Inr d1 \<Rightarrow>
     bind_res (case r_requester_user_id r of
                 None \<Rightarrow> Inr ''Corp''
               | Some u \<Rightarrow> bind_res (ok_or not_found (find_user d1 u)) (\<lambda>x. Inr (u_display_name x))) (\<lambda>req_name.
     bind_res (ok_or not_found (find_user d1 (r_hauler_user_id r))) (\<lambda>hu.
     Inr (fire_webhook (l_group_id l)
            (ReimbursementSettled (unnamed_or (l_destination_label l)) req_name
               (u_display_name hu) (r_total_isk r)) d1))))))))"

section \<open>Settling by a finished contract\<close>

definition principal_user :: "db \<Rightarrow> uuid \<Rightarrow> uuid option" where
  "principal_user d pid = (case find_principal d pid of
       None \<Rightarrow> None | Some p \<Rightarrow> if p_kind p = PUser then p_user_id p else None)"

definition hauled_by :: "db \<Rightarrow> uuid \<Rightarrow> uuid \<Rightarrow> bool" where
  "hauled_by d iid pid = (case principal_user d pid of None \<Rightarrow> False | Some h \<Rightarrow> live_by d iid h)"

definition contract_flip_where :: "(uuid \<Rightarrow> bool) \<Rightarrow> db \<Rightarrow> uuid \<Rightarrow> list_item \<Rightarrow> bool" where
  "contract_flip_where vis d cid i \<longleftrightarrow>
     (\<exists>r\<in>set (reimbursements d). seen_bound vis cid r \<and> li_list_id i = r_list_id r
        \<and> (r_is_corp_funded r
           \<or> principal_user d (r_requester_principal_id r) = Some (li_requested_by_user_id i))
        \<and> li_status i \<in> {IBought, IDelivered}
        \<and> hauled_by d (li_id i) (r_hauler_principal_id r)
        \<and> \<not> (\<exists>r2\<in>set (reimbursements d). r_list_id r2 = r_list_id r
               \<and> r_hauler_principal_id r2 \<noteq> r_hauler_principal_id r \<and> r_status r2 = RPending
               \<and> hauled_by d (li_id i) (r_hauler_principal_id r2)))"

record contract_settled_reimbursement =
  cs_group_id :: uuid
  cs_list_destination :: string
  cs_requester_name :: string
  cs_hauler_name :: string
  cs_total_isk :: isk

definition settled_info :: "db \<Rightarrow> reimbursement \<Rightarrow> contract_settled_reimbursement list" where
  "settled_info d r =
     (case (find_list d (r_list_id r), find_user d (r_hauler_user_id r)) of
        (Some l, Some uh) \<Rightarrow>
          [\<lparr> cs_group_id = l_group_id l, cs_list_destination = unnamed_or (l_destination_label l),
             cs_requester_name = (case r_requester_user_id r of None \<Rightarrow> ''Corp''
                | Some u \<Rightarrow> (case find_user d u of None \<Rightarrow> ''Corp'' | Some x \<Rightarrow> u_display_name x)),
             cs_hauler_name = u_display_name uh, cs_total_isk = r_total_isk r \<rparr>]
      | _ \<Rightarrow> [])"

definition contract_delta :: "contract \<Rightarrow> isk option" where
  "contract_delta c = map_option (\<lambda>e. ct_price_isk c - e) (ct_expected_total_isk c)"

definition settle_via_contract ::
  "(uuid \<Rightarrow> bool) \<Rightarrow> uuid \<Rightarrow> instant \<Rightarrow> db \<Rightarrow>
     settlement_error + contract_settled_reimbursement list \<times> db" where
  "settle_via_contract vis cid now d =
     (case find_contract d cid of None \<Rightarrow> Inl SNotFound | Some c \<Rightarrow>
      let settled_at = (case ct_date_completed c of None \<Rightarrow> now | Some t \<Rightarrow> t);
          hit = (\<lambda>r. seen_bound vis cid r \<and> r_status r = RPending);
          settled = filter hit (reimbursements d)
      in if settled = [] then Inr ([], d)
         else let d1 = mark_settled hit settled_at None now d;
                  d2 = settle_items (contract_flip_where vis d1 cid) d1
              in if (case contract_delta c of None \<Rightarrow> False | Some v \<Rightarrow> \<not> fits 20 v)
                 then Inl (SDb ''numeric field overflow'')
                 else let d3 = d2 \<lparr> contracts := upd_where (\<lambda>x. ct_id x = cid)
                                  (\<lambda>x. x \<lparr> ct_settlement_delta_isk := contract_delta x \<rparr>) (contracts d2) \<rparr>;
                          lids = remdups (map r_list_id (filter (seen_bound vis cid) (reimbursements d3)));
                          d4 = fold (\<lambda>lid. auto_close_list_if_complete lid now) lids d3
                      in Inr (concat (map (settled_info d4) settled), d4))"

section \<open>Unbinding\<close>

definition unbind_contract :: "uuid \<Rightarrow> instant \<Rightarrow> db \<Rightarrow> nat \<times> db" where
  "unbind_contract cid now d =
     (let hit = (\<lambda>r. bound_to cid r \<and> r_status r = RPending) in
      (count_where hit (reimbursements d),
       d \<lparr> reimbursements := upd_where hit
              (\<lambda>r. r \<lparr> r_contract_id := None, r_updated_at := now \<rparr>) (reimbursements d),
           suggestions := upd_where (\<lambda>g. sg_contract_id g = cid \<and> sg_state g = MPending)
              (\<lambda>g. g \<lparr> sg_state := MSuperseded, sg_decided_at := Some now \<rparr>) (suggestions d),
           contracts := upd_where (\<lambda>c. ct_id c = cid)
              (\<lambda>c. c \<lparr> ct_expected_total_isk := None \<rparr>) (contracts d) \<rparr>))"

section \<open>Wallet verification\<close>

text \<open>\<open>div_round n m\<close> is \<^verbatim>\<open>(n / m).round_dp(2)\<close> of \<^verbatim>\<open>rust_decimal\<close>, on hundredths: a parameter.\<close>

definition journal_payout :: "db \<Rightarrow> int \<Rightarrow> (journal_entry \<Rightarrow> bool) \<Rightarrow> isk option" where
  "journal_payout d esi_id scope =
     (let hit = (\<lambda>j. j_context_id j = Some esi_id \<and> j_context_id_type j = Some ''contract_id''
                   \<and> j_ref_type j = ''contract_price'' \<and> scope j)
      in if \<exists>j\<in>set (journal d). hit j then Some (sum_where hit (\<lambda>j. \<bar>j_amount j\<bar>) (journal d))
         else None)"

definition payer_of :: "db \<Rightarrow> uuid \<Rightarrow> (uuid \<times> int) option" where
  "payer_of d cid =
     (case concat (map (\<lambda>r. case find_list d (r_list_id r) of None \<Rightarrow> []
                            | Some l \<Rightarrow> (case (l_payer_corp_id l, l_payer_division l) of
                                 (Some c, Some dv) \<Rightarrow> [(c, dv)] | _ \<Rightarrow> []))
                 (filter (bound_to cid) (reimbursements d))) of
        [] \<Rightarrow> None | p # _ \<Rightarrow> Some p)"

definition wallet_delta :: "(int \<Rightarrow> int \<Rightarrow> int) \<Rightarrow> isk \<Rightarrow> isk \<Rightarrow> isk \<Rightarrow> isk" where
  "wallet_delta div_round payout sum_total tot =
     (if 0 < sum_total then div_round (payout * tot) sum_total else 0) - tot"

definition record_payout ::
  "(int \<Rightarrow> int \<Rightarrow> int) \<Rightarrow> uuid \<Rightarrow> isk \<Rightarrow> instant \<Rightarrow> db \<Rightarrow> settlement_error + db" where
  "record_payout div_round cid v now d =
     (let d1 = d \<lparr> contracts := upd_where (\<lambda>x. ct_id x = cid)
                  (\<lambda>x. x \<lparr> ct_wallet_verified_at := Some now,
                          ct_wallet_payout_aggregate_isk := Some v \<rparr>) (contracts d) \<rparr>;
          hit = (\<lambda>r. bound_to cid r \<and> r_status r \<in> {RPending, RSettled});
          tot = sum_where hit r_total_isk (reimbursements d);
          delta = (\<lambda>r. wallet_delta div_round v tot (r_total_isk r))
      in if \<not> fits 20 v then Inl (SDb ''numeric field overflow'')
         else if \<exists>r\<in>set (reimbursements d). hit r \<and> \<not> fits 20 (delta r)
         then Inl (SDb ''numeric field overflow'')
         else Inr (d1 \<lparr> reimbursements := upd_where hit
               (\<lambda>r. r \<lparr> r_verified_by_wallet := True,
                       r_wallet_settlement_delta_isk := Some (delta r),
                       r_updated_at := now \<rparr>) (reimbursements d) \<rparr>))"

definition payout_of :: "db \<Rightarrow> uuid \<Rightarrow> contract \<Rightarrow> isk option" where
  "payout_of d cid c = (case payer_of d cid of
       Some (corp, dv) \<Rightarrow> journal_payout d (ct_esi_contract_id c)
                            (\<lambda>j. j_corp_id j = corp \<and> j_division j = dv)
     | None \<Rightarrow> journal_payout d (ct_esi_contract_id c)
                 (\<lambda>j. case ct_source_corp_id c of None \<Rightarrow> True | Some s \<Rightarrow> j_corp_id j = s))"

definition verify_contract_against_journal ::
  "(int \<Rightarrow> int \<Rightarrow> int) \<Rightarrow> uuid \<Rightarrow> instant \<Rightarrow> db \<Rightarrow> settlement_error + db" where
  "verify_contract_against_journal div_round cid now d =
     (case find_contract d cid of None \<Rightarrow> Inr d | Some c \<Rightarrow>
      case payout_of d cid c of None \<Rightarrow> Inr d | Some v \<Rightarrow>
      if v \<le> 0 then Inr d else record_payout div_round cid v now d)"

end
