(* ===== verification/Lifecycle.thy ===== *)
theory Lifecycle
  imports Settlement
begin

text \<open>
  The life of an item and of the debt it creates, across the claim, fulfillment,
  tip and settlement operations: the invariant \<open>life_inv\<close> of the shared state, its
  preservation by every operation, and the transition system of requests
  (\<open>lifecycle_op\<close>, \<open>exec_op\<close>) with its reachable states.
\<close>

section \<open>The invariant\<close>

definition list_payer :: "db \<Rightarrow> uuid \<Rightarrow> uuid option option" where
  "list_payer d lid = map_option l_payer_corp_id (find_list d lid)"

definition payer_principal :: "db \<Rightarrow> uuid option \<Rightarrow> uuid \<Rightarrow> principal option" where
  "payer_principal d po requester =
     (case po of None \<Rightarrow> user_principal d requester | Some c \<Rightarrow> corp_principal d c)"

text \<open>Keys and references: every item's list exists and its payer has a principal, so
  does every paying corp and every member; fulfillments are positive and belong to an item.\<close>

definition refs_ok :: "db \<Rightarrow> bool" where
  "refs_ok d \<longleftrightarrow>
     distinct (map p_id (principals d))
   \<and> (\<forall>i\<in>set (list_items d). \<exists>po. list_payer d (li_list_id i) = Some po
        \<and> payer_principal d po (li_requested_by_user_id i) \<noteq> None)
   \<and> (\<forall>lid c u. list_payer d lid = Some (Some c) \<longrightarrow> payer_principal d (Some c) u \<noteq> None)
   \<and> (\<forall>m\<in>set (memberships d). user_principal d (gm_user_id m) \<noteq> None)
   \<and> distinct (map f_id (fulfillments d))
   \<and> (\<forall>f\<in>set (fulfillments d). 0 < f_qty f \<and> 0 \<le> f_unit_price_isk f
        \<and> f_list_item_id f \<in> li_id ` set (list_items d))"

definition items_ok :: "db \<Rightarrow> bool" where
  "items_ok d \<longleftrightarrow> distinct (map li_id (list_items d)) \<and> (\<forall>i\<in>set (list_items d). item_ok d i)"

text \<open>A reimbursement names the principals of its list's payer and of its hauler.\<close>

definition reimb_shape :: "db \<Rightarrow> reimbursement \<Rightarrow> bool" where
  "reimb_shape d r \<longleftrightarrow>
     (\<exists>po rp hp. list_payer d (r_list_id r) = Some po
        \<and> r_is_corp_funded r = (po \<noteq> None)
        \<and> (r_requester_user_id r = None) = (po \<noteq> None)
        \<and> (\<forall>u. r_requester_user_id r = Some u \<longrightarrow> user_principal d u = Some rp)
        \<and> (\<forall>c. po = Some c \<longrightarrow> corp_principal d c = Some rp)
        \<and> p_id rp = r_requester_principal_id r
        \<and> user_principal d (r_hauler_user_id r) = Some hp \<and> p_id hp = r_hauler_principal_id r)"

definition reimbs_ok :: "db \<Rightarrow> bool" where
  "reimbs_ok d \<longleftrightarrow>
     distinct (map r_id (reimbursements d)) \<and> distinct (map reimb_key (reimbursements d))
   \<and> (\<forall>r\<in>set (reimbursements d). r_status r \<noteq> RCancelled \<and> reimb_shape d r)"

definition live_on :: "db \<Rightarrow> list_item \<Rightarrow> fulfillment set" where
  "live_on d i = {f \<in> set (fulfillments d). f_list_item_id f = li_id i \<and> f_reversed_at f = None}"

definition item_cycle :: "db \<Rightarrow> list_item \<Rightarrow> fulfillment \<Rightarrow> (uuid \<times> uuid \<times> uuid) option" where
  "item_cycle d i f = cycle_key d (li_list_id i) (li_requested_by_user_id i) (f_hauler_user_id f)"

text \<open>Every live fulfillment has a reimbursement row; on a settled item, a settled one.\<close>

definition cover_ok :: "db \<Rightarrow> bool" where
  "cover_ok d \<longleftrightarrow> (\<forall>i\<in>set (list_items d). \<forall>f\<in>live_on d i.
     \<exists>r\<in>set (reimbursements d). item_cycle d i f = Some (reimb_key r))"

definition settled_ok :: "db \<Rightarrow> bool" where
  "settled_ok d \<longleftrightarrow> (\<forall>i\<in>set (list_items d). li_status i = ISettled \<longrightarrow>
     (\<forall>f\<in>live_on d i. \<exists>r\<in>set (reimbursements d).
        item_cycle d i f = Some (reimb_key r) \<and> r_status r = RSettled))"

definition life_inv :: "db \<Rightarrow> bool" where
  "life_inv d \<longleftrightarrow> refs_ok d \<and> claims_ok d \<and> items_ok d \<and> reimbs_ok d \<and> cover_ok d \<and> settled_ok d"

lemma life_invI [inv_intros]:
  "refs_ok d \<Longrightarrow> claims_ok d \<Longrightarrow> items_ok d \<Longrightarrow> reimbs_ok d \<Longrightarrow> cover_ok d \<Longrightarrow> settled_ok d
   \<Longrightarrow> life_inv d"
  by (simp add: life_inv_def)

lemma life_invD:
  assumes "life_inv d"
  shows "refs_ok d" "claims_ok d" "items_ok d" "reimbs_ok d" "cover_ok d" "settled_ok d"
  using assms by (simp_all add: life_inv_def)

section \<open>Frames\<close>

lemma user_principal_cong: "principals d' = principals d \<Longrightarrow> user_principal d' = user_principal d"
  by (simp add: user_principal_def fun_eq_iff)

lemma corp_principal_cong: "principals d' = principals d \<Longrightarrow> corp_principal d' = corp_principal d"
  by (simp add: corp_principal_def fun_eq_iff)

lemma payer_principal_cong:
  assumes "principals d' = principals d"
  shows "payer_principal d' = payer_principal d"
  unfolding payer_principal_def fun_eq_iff user_principal_cong [OF assms] corp_principal_cong [OF assms]
  by simp

lemma requester_is_payer_principal:
  "requester_principal d l u = payer_principal d (l_payer_corp_id l) u"
  by (simp add: requester_principal_def payer_principal_def)

lemma cycle_key_eq:
  "cycle_key d lid requester hauler =
     (case list_payer d lid of None \<Rightarrow> None | Some po \<Rightarrow>
        (case (payer_principal d po requester, user_principal d hauler) of
           (Some rp, Some hp) \<Rightarrow> Some (lid, p_id rp, p_id hp) | _ \<Rightarrow> None))"
  by (simp add: cycle_key_def list_payer_def requester_is_payer_principal split: option.split)

lemma cycle_key_cong:
  assumes "principals d' = principals d" "list_payer d' = list_payer d"
  shows "cycle_key d' = cycle_key d"
  unfolding cycle_key_eq fun_eq_iff payer_principal_cong [OF assms(1)]
    user_principal_cong [OF assms(1)] assms(2) by simp

lemma item_cycle_cong:
  assumes "principals d' = principals d" "list_payer d' = list_payer d"
  shows "item_cycle d' = item_cycle d"
  unfolding item_cycle_def fun_eq_iff cycle_key_cong [OF assms] by simp

lemma reimb_shape_cong:
  assumes "principals d' = principals d" "list_payer d' = list_payer d"
  shows "reimb_shape d' = reimb_shape d"
  unfolding reimb_shape_def fun_eq_iff user_principal_cong [OF assms(1)]
    corp_principal_cong [OF assms(1)] assms(2) by simp

lemma list_payer_cong: "lists d' = lists d \<Longrightarrow> list_payer d' = list_payer d"
  by (simp add: list_payer_def find_list_def fun_eq_iff)

lemma list_payer_upd:
  assumes "lists d' = upd_where P f (lists d)"
    and "\<And>l. l_id (f l) = l_id l" "\<And>l. l_payer_corp_id (f l) = l_payer_corp_id l"
  shows "list_payer d' = list_payer d"
proof -
  have "map_option l_payer_corp_id (find (\<lambda>l. l_id l = lid) (upd_where P f ls))
      = map_option l_payer_corp_id (find (\<lambda>l. l_id l = lid) ls)" for lid ls
    by (induction ls) (auto simp: assms)
  then show ?thesis using assms(1) by (simp add: list_payer_def find_list_def fun_eq_iff)
qed

lemma live_on_cong: "fulfillments d' = fulfillments d \<Longrightarrow> live_on d' = live_on d"
  by (simp add: live_on_def fun_eq_iff)

text \<open>Rows of \<open>reimbursements\<close> rewritten in place, keeping what identifies them and never
  un-settling one.\<close>

definition reimb_update :: "(reimbursement \<Rightarrow> reimbursement) \<Rightarrow> bool" where
  "reimb_update f \<longleftrightarrow> (\<forall>r. r_id (f r) = r_id r \<and> reimb_key (f r) = reimb_key r
     \<and> r_requester_user_id (f r) = r_requester_user_id r
     \<and> r_hauler_user_id (f r) = r_hauler_user_id r
     \<and> r_is_corp_funded (f r) = r_is_corp_funded r
     \<and> (r_status (f r) = r_status r \<or> r_status (f r) = RSettled))"

lemma reimb_updateD:
  assumes "reimb_update f"
  shows "r_id (f r) = r_id r" "reimb_key (f r) = reimb_key r"
    "r_requester_user_id (f r) = r_requester_user_id r"
    "r_hauler_user_id (f r) = r_hauler_user_id r" "r_is_corp_funded (f r) = r_is_corp_funded r"
    "r_status (f r) = r_status r \<or> r_status (f r) = RSettled"
  using assms by (simp_all add: reimb_update_def)

lemma reimb_shape_update:
  assumes "reimb_update f" "reimb_shape d r"
  shows "reimb_shape d (f r)"
proof -
  have "r_list_id (f r) = r_list_id r" "r_requester_principal_id (f r) = r_requester_principal_id r"
    "r_hauler_principal_id (f r) = r_hauler_principal_id r"
    using reimb_updateD(2) [OF assms(1), of r] by (simp_all add: reimb_key_def)
  with assms(2) reimb_updateD [OF assms(1), of r] show ?thesis by (simp add: reimb_shape_def)
qed

text \<open>A state that differs in the reimbursement rows by such an update, and in columns of
  other tables the invariant does not read.\<close>

definition same_life :: "db \<Rightarrow> db \<Rightarrow> bool" where
  "same_life d d' \<longleftrightarrow> principals d' = principals d \<and> memberships d' = memberships d
     \<and> list_payer d' = list_payer d \<and> list_items d' = list_items d
     \<and> fulfillments d' = fulfillments d \<and> claims d' = claims d \<and> claim_items d' = claim_items d"

lemma same_lifeD:
  assumes "same_life d d'"
  shows "principals d' = principals d" "memberships d' = memberships d"
    "list_payer d' = list_payer d" "list_items d' = list_items d"
    "fulfillments d' = fulfillments d" "claims d' = claims d" "claim_items d' = claim_items d"
    "user_principal d' = user_principal d" "payer_principal d' = payer_principal d"
    "item_cycle d' = item_cycle d" "reimb_shape d' = reimb_shape d"
    "live_on d' = live_on d" "item_ok d' = item_ok d"
  using assms
  by (simp_all only: same_life_def)
    (blast intro: user_principal_cong payer_principal_cong item_cycle_cong reimb_shape_cong
      live_on_cong item_ok_cong)+

lemma same_life_refs: "same_life d d' \<Longrightarrow> refs_ok d' = refs_ok d"
  by (simp only: refs_ok_def same_lifeD)

lemma same_life_claims: "same_life d d' \<Longrightarrow> claims_ok d' = claims_ok d"
  by (simp only: claims_ok_def same_lifeD)

lemma same_life_items: "same_life d d' \<Longrightarrow> items_ok d' = items_ok d"
  by (simp only: items_ok_def same_lifeD)

lemma same_life_reimbs:
  "same_life d d' \<Longrightarrow> reimbursements d' = reimbursements d \<Longrightarrow> reimbs_ok d' = reimbs_ok d"
  by (simp only: reimbs_ok_def same_lifeD)

lemma same_life_cover:
  "same_life d d' \<Longrightarrow> reimbursements d' = reimbursements d \<Longrightarrow> cover_ok d' = cover_ok d"
  by (simp only: cover_ok_def same_lifeD)

lemma same_life_settled:
  "same_life d d' \<Longrightarrow> reimbursements d' = reimbursements d \<Longrightarrow> settled_ok d' = settled_ok d"
  by (simp only: settled_ok_def same_lifeD)

lemma life_inv_frame:
  "same_life d d' \<Longrightarrow> reimbursements d' = reimbursements d \<Longrightarrow> life_inv d \<Longrightarrow> life_inv d'"
  by (simp only: life_inv_def same_life_refs same_life_claims same_life_items same_life_reimbs
      same_life_cover same_life_settled)

lemma reimbs_ok_update:
  assumes "same_life d d'" "reimbursements d' = upd_where P f (reimbursements d)" "reimb_update f"
    and "reimbs_ok d"
  shows "reimbs_ok d'"
proof -
  have "map r_id (reimbursements d') = map r_id (reimbursements d)"
    "map reimb_key (reimbursements d') = map reimb_key (reimbursements d)"
    using assms(2) reimb_updateD [OF assms(3)] by (simp_all add: map_upd_where_same)
  moreover have "r_status r \<noteq> RCancelled \<and> reimb_shape d' r" if "r \<in> set (reimbursements d')" for r
  proof -
    have "r \<in> set (upd_where P f (reimbursements d))" using that assms(2) by simp
    then obtain r0 where r0: "r0 \<in> set (reimbursements d)" "r = (if P r0 then f r0 else r0)"
      by (rule in_upd_whereE)
    note same_lifeD(11) [OF assms(1)]
    moreover have "r_status r0 \<noteq> RCancelled" "reimb_shape d r0"
      using assms(4) r0(1) by (auto simp: reimbs_ok_def)
    ultimately show ?thesis
      using r0(2) reimb_updateD(6) [OF assms(3), of r0] reimb_shape_update [OF assms(3)]
      by (auto split: if_splits)
  qed
  ultimately show ?thesis using assms(4) by (simp add: reimbs_ok_def)
qed

lemma cover_ok_update:
  assumes "same_life d d'" "reimbursements d' = upd_where P f (reimbursements d)" "reimb_update f"
    and "cover_ok d"
  shows "cover_ok d'"
proof -
  have "reimb_key ` set (reimbursements d') = reimb_key ` set (reimbursements d)"
    using arg_cong [OF map_upd_where_same [of P reimb_key f "reimbursements d"], of set]
      reimb_updateD(2) [OF assms(3)] assms(2) by simp
  moreover have "cover_ok d \<longleftrightarrow> (\<forall>i\<in>set (list_items d). \<forall>f\<in>live_on d i.
      \<exists>k\<in>reimb_key ` set (reimbursements d). item_cycle d i f = Some k)" for d
    by (simp add: cover_ok_def)
  ultimately show ?thesis using assms(4) by (simp only: same_lifeD [OF assms(1)])
qed

lemma settled_ok_update:
  assumes "same_life d d'" "reimbursements d' = upd_where P f (reimbursements d)" "reimb_update f"
    and "settled_ok d"
  shows "settled_ok d'"
proof -
  have key: "\<exists>r'\<in>set (reimbursements d'). k = Some (reimb_key r') \<and> r_status r' = RSettled"
    if r: "r \<in> set (reimbursements d)" "k = Some (reimb_key r)" "r_status r = RSettled" for r k
  proof (rule bexI)
    show "(if P r then f r else r) \<in> set (reimbursements d')"
      unfolding assms(2) set_upd_where using r(1) by (rule imageI)
    show "k = Some (reimb_key (if P r then f r else r)) \<and> r_status (if P r then f r else r) = RSettled"
      using r reimb_updateD [OF assms(3), of r] by auto
  qed
  show ?thesis
    unfolding settled_ok_def same_lifeD [OF assms(1)]
  proof (intro ballI impI)
    fix i g assume "i \<in> set (list_items d)" "li_status i = ISettled" "g \<in> live_on d i"
    then obtain r where "r \<in> set (reimbursements d)" "item_cycle d i g = Some (reimb_key r)"
      "r_status r = RSettled" using assms(4) unfolding settled_ok_def by blast
    then show "\<exists>r\<in>set (reimbursements d'). item_cycle d i g = Some (reimb_key r) \<and> r_status r = RSettled"
      by (rule key)
  qed
qed

lemma life_inv_reimb_update:
  assumes "same_life d d'" "reimbursements d' = upd_where P f (reimbursements d)" "reimb_update f"
    and "life_inv d"
  shows "life_inv d'"
  using assms reimbs_ok_update [OF assms(1-3)] cover_ok_update [OF assms(1-3)]
    settled_ok_update [OF assms(1-3)]
  by (simp only: life_inv_def same_life_refs [OF assms(1)] same_life_claims [OF assms(1)]
      same_life_items [OF assms(1)])

text \<open>All live fulfillments are covered, except perhaps those of one cycle.\<close>

definition cover_upto :: "db \<Rightarrow> (uuid \<times> uuid \<times> uuid) option \<Rightarrow> bool" where
  "cover_upto d k \<longleftrightarrow> (\<forall>i\<in>set (list_items d). \<forall>f\<in>live_on d i.
     (item_cycle d i f = k \<and> k \<noteq> None)
     \<or> (\<exists>r\<in>set (reimbursements d). item_cycle d i f = Some (reimb_key r)))"

lemma cover_ok_upto: "cover_ok d \<Longrightarrow> cover_upto d k"
  unfolding cover_ok_def cover_upto_def by blast

section \<open>Rewriting items in place\<close>

definition item_update :: "(list_item \<Rightarrow> list_item) \<Rightarrow> bool" where
  "item_update g \<longleftrightarrow> (\<forall>i. li_id (g i) = li_id i \<and> li_list_id (g i) = li_list_id i
     \<and> li_requested_by_user_id (g i) = li_requested_by_user_id i)"

lemma item_updateD:
  assumes "item_update g"
  shows "li_id (g i) = li_id i" "li_list_id (g i) = li_list_id i"
    "li_requested_by_user_id (g i) = li_requested_by_user_id i"
  using assms by (simp_all add: item_update_def)

definition same_books :: "db \<Rightarrow> db \<Rightarrow> bool" where
  "same_books d d' \<longleftrightarrow> principals d' = principals d \<and> memberships d' = memberships d
     \<and> list_payer d' = list_payer d \<and> fulfillments d' = fulfillments d
     \<and> reimbursements d' = reimbursements d"

lemma same_booksD:
  assumes "same_books d d'"
  shows "principals d' = principals d" "memberships d' = memberships d"
    "list_payer d' = list_payer d" "fulfillments d' = fulfillments d"
    "reimbursements d' = reimbursements d"
    "user_principal d' = user_principal d" "payer_principal d' = payer_principal d"
    "item_cycle d' = item_cycle d" "reimb_shape d' = reimb_shape d" "live_on d' = live_on d"
    "fulfilled_qty d' = fulfilled_qty d"
  using assms
  by (simp_all only: same_books_def)
    (blast intro: user_principal_cong payer_principal_cong item_cycle_cong reimb_shape_cong
      live_on_cong fulfilled_qty_cong)+

lemma reimbs_ok_books: "same_books d d' \<Longrightarrow> reimbs_ok d' = reimbs_ok d"
  by (simp only: reimbs_ok_def same_booksD)

locale item_rewrite =
  fixes d d' :: db and P :: "list_item \<Rightarrow> bool" and g :: "list_item \<Rightarrow> list_item"
  assumes books: "same_books d d'"
    and items': "list_items d' = upd_where P g (list_items d)"
    and upd: "item_update g"
begin

lemma pick_keeps [simp]:
  "li_id (if P i then g i else i) = li_id i" "li_list_id (if P i then g i else i) = li_list_id i"
  "li_requested_by_user_id (if P i then g i else i) = li_requested_by_user_id i"
  using item_updateD [OF upd] by simp_all

lemma live_on_pick [simp]: "live_on d (if P i then g i else i) = live_on d i"
  by (simp add: live_on_def)

lemma item_cycle_pick [simp]: "item_cycle d (if P i then g i else i) = item_cycle d i"
  by (simp add: item_cycle_def fun_eq_iff)

lemma ids_eq: "map li_id (list_items d') = map li_id (list_items d)"
  using items' item_updateD [OF upd] by (simp add: map_upd_where_same)

lemma id_set_eq: "li_id ` set (list_items d') = li_id ` set (list_items d)"
  using arg_cong [OF ids_eq, of set] by simp

lemma refs_eq: "refs_ok d' = refs_ok d"
  unfolding refs_ok_def id_set_eq
  unfolding items' same_booksD [OF books] ball_upd_where pick_keeps ..

lemma cover_eq: "cover_ok d' = cover_ok d"
  unfolding cover_ok_def items' same_booksD [OF books] ball_upd_where live_on_pick item_cycle_pick ..

lemma cover_upto_eq: "cover_upto d' k = cover_upto d k"
  unfolding cover_upto_def items' same_booksD [OF books] ball_upd_where live_on_pick item_cycle_pick ..

lemma settled_eq:
  assumes "\<And>i. P i \<Longrightarrow> li_status (g i) = ISettled \<longleftrightarrow> li_status i = ISettled"
  shows "settled_ok d' = settled_ok d"
proof -
  have "li_status (if P i then g i else i) = ISettled \<longleftrightarrow> li_status i = ISettled" for i
    using assms by simp
  then show ?thesis
    unfolding settled_ok_def items' same_booksD [OF books] ball_upd_where live_on_pick item_cycle_pick
    by (simp only:)
qed

lemmas rewrite_eqs = refs_eq cover_eq reimbs_ok_books [OF books]

end

text \<open>A recomputation is such a rewriting.\<close>

context item_refresh
begin

lemma update: "item_update (refresh d)"
  by (simp add: item_update_def keeps)

lemma rewrite: "item_rewrite d (apply_refresh touched refresh d) touched (refresh d)"
  by unfold_locales (simp_all add: same_books_def update list_payer_def find_list_def fun_eq_iff)

end

sublocale item_refresh \<subseteq> rw: item_rewrite d "apply_refresh touched refresh d" touched "refresh d" for d
  by (rule rewrite)

context item_refresh
begin

lemma refs_refresh: "refs_ok (apply_refresh touched refresh d) = refs_ok d"
  by (rule rw.refs_eq)

lemma cover_refresh: "cover_ok (apply_refresh touched refresh d) = cover_ok d"
  by (rule rw.cover_eq)

lemma settled_refresh: "settled_ok (apply_refresh touched refresh d) = settled_ok d"
  by (rule rw.settled_eq) (rule keeps_settled)

lemma reimbs_refresh: "reimbs_ok (apply_refresh touched refresh d) = reimbs_ok d"
  by (rule reimbs_ok_books [OF rw.books])

lemma claims_refresh: "claims_ok (apply_refresh touched refresh d) = claims_ok d"
  by (rule claims_ok_cong) simp_all

lemma items_refresh:
  assumes "distinct (map li_id (list_items d))"
    and "\<And>i. i \<in> set (list_items d) \<Longrightarrow> \<not> touched i \<Longrightarrow> item_ok d i"
    and "\<And>i. i \<in> set (list_items d) \<Longrightarrow> touched i \<Longrightarrow>
           fulfilled_qty d (li_id i) \<le> li_qty_requested i
           \<and> (li_status i \<in> kept \<longrightarrow>
                li_qty_fulfilled i = fulfilled_qty d (li_id i)
                \<and> fulfilled_qty d (li_id i) = li_qty_requested i)"
  shows "items_ok (apply_refresh touched refresh d)"
  unfolding items_ok_def ids_of_apply using assms(1) all_items_ok [OF assms(2,3)] by blast

text \<open>After a change of claims only, a recomputation of every item whose claims changed
  restores the invariant.\<close>

lemma claim_change:
  assumes inv: "life_inv d0" and books: "same_books d0 d" and items: "list_items d = list_items d0"
    and claims: "claims_ok d"
    and same: "\<And>i. i \<in> set (list_items d) \<Longrightarrow> \<not> touched i \<Longrightarrow>
        has_active_claim d (li_id i) = has_active_claim d0 (li_id i) \<or> IBought \<le> li_status i"
  shows "life_inv (apply_refresh touched refresh d)"
proof (rule life_invI)
  have ok0: "item_ok d0 i" if "i \<in> set (list_items d)" for i
    using inv that items by (simp add: life_inv_def items_ok_def)
  have rw: "item_rewrite d0 d (\<lambda>_. False) (\<lambda>i. i)"
    using books items by unfold_locales (simp_all add: item_update_def)
  show "refs_ok (apply_refresh touched refresh d)"
    using life_invD(1) [OF inv] by (simp only: refs_refresh item_rewrite.refs_eq [OF rw])
  show "cover_ok (apply_refresh touched refresh d)"
    using life_invD(5) [OF inv] by (simp only: cover_refresh item_rewrite.cover_eq [OF rw])
  have "settled_ok d" using life_invD(6) [OF inv] item_rewrite.settled_eq [OF rw] by simp
  then show "settled_ok (apply_refresh touched refresh d)" by (simp only: settled_refresh)
  show "reimbs_ok (apply_refresh touched refresh d)"
    using life_invD(4) [OF inv] by (simp only: reimbs_refresh reimbs_ok_books [OF books])
  show "claims_ok (apply_refresh touched refresh d)" using claims by (simp only: claims_refresh)
  note q = same_booksD(11) [OF books]
  show "items_ok (apply_refresh touched refresh d)"
  proof (rule items_refresh)
    show "distinct (map li_id (list_items d))"
      using inv items by (simp add: life_inv_def items_ok_def)
  next
    fix i assume i: "i \<in> set (list_items d)" "\<not> touched i"
    show "item_ok d i"
      using same [OF i] ok0 [OF i(1)] item_ok_full_indep [OF ok0 [OF i(1)], of d]
        same_booksD(4) [OF books]
      by (auto simp: item_ok_def base_status_def q)
  next
    fix i assume i: "i \<in> set (list_items d)" "touched i"
    show "fulfilled_qty d (li_id i) \<le> li_qty_requested i
           \<and> (li_status i \<in> kept \<longrightarrow>
                li_qty_fulfilled i = fulfilled_qty d (li_id i)
                \<and> fulfilled_qty d (li_id i) = li_qty_requested i)"
      using ok0 [OF i(1)] kept_late by (auto simp: item_ok_def q)
  qed
qed

end

end
