(* ===== verification/Lifecycle_Steps.thy ===== *)
theory Lifecycle_Steps
  imports Lifecycle
begin

text \<open>
  Every operation of the item lifecycle keeps \<open>life_inv\<close>: claims, recording and
  reversing fulfillments, delivery, tips, manual settlement and settlement by contract.
\<close>

section \<open>Claims\<close>

lemma fire_webhook_inv [inv_intros]: "life_inv d \<Longrightarrow> life_inv (fire_webhook gid ev d)"
  by (rule life_inv_frame [of d])
    (simp_all add: same_life_def fire_webhook_def list_payer_def find_list_def fun_eq_iff)

lemma list_payer_same [simp]:
  "list_payer (d \<lparr> claims := cs \<rparr>) = list_payer d"
  "list_payer (d \<lparr> claim_items := cis \<rparr>) = list_payer d"
  "list_payer (d \<lparr> list_items := is \<rparr>) = list_payer d"
  "list_payer (d \<lparr> fulfillments := fs \<rparr>) = list_payer d"
  "list_payer (d \<lparr> reimbursements := rs \<rparr>) = list_payer d"
  "list_payer (d \<lparr> contracts := ks \<rparr>) = list_payer d"
  "list_payer (d \<lparr> suggestions := ss \<rparr>) = list_payer d"
  by (simp_all add: list_payer_def find_list_def fun_eq_iff)

lemma insert_claim_items_inv:
  assumes inv: "life_inv d0" and d: "d = d0 \<lparr> claims := cs \<rparr>" and ok: "claims_ok d"
    and c: "c \<in> set cs" "c_id c = cid" "c_status c = CActive"
    and ins: "insert_claim_items cid ids d = Inr d'"
  shows "life_inv d'"
proof (cases "ids = []")
  case True
  have "same_books d0 d" using d by (simp add: same_books_def)
  have "life_inv (recompute_item_statuses_bulk [] d)"
    unfolding recompute_bulk_is_refresh
    using bulk.claim_change [OF inv \<open>same_books d0 d\<close> _ ok, of "[]"] d
    by (simp add: has_active_claim_def)
  then show ?thesis using ins True by (simp add: insert_claim_items_def recompute_item_statuses_bulk_def)
next
  case False
  then obtain cis where cis: "insert_claim_rows cid ids (claim_items d) = Inr cis"
    and d': "d' = recompute_item_statuses_bulk ids (d \<lparr> claim_items := cis \<rparr>)"
    using ins by (auto simp: insert_claim_items_def bind_res_eq_Inr)
  have "claims_ok (d \<lparr> claim_items := cis \<rparr>)"
    using claims_ok_insert [OF ok cis, of c] c d by simp
  moreover have "has_active_claim (d \<lparr> claim_items := cis \<rparr>) (li_id i) = has_active_claim d0 (li_id i)"
    if "li_id i \<notin> set ids" for i
    using insert_claim_rows_Inr [OF cis] that d by (auto simp: has_active_claim_def)
  ultimately show ?thesis
    unfolding d' recompute_bulk_is_refresh
    using d by (intro bulk.claim_change [OF inv] disjI1) (simp_all add: same_books_def)
qed

lemma create_claim_inv:
  assumes "life_inv d" "create_claim s lid ids note new_id now d = Inr d'"
  shows "life_inv d'"
proof -
  from assms(2) obtain uid d1 gid ev where
    fresh: "new_id \<notin> c_id ` set (claims d)"
    and ins: "insert_claim_items new_id ids (d \<lparr> claims := claims d @ [\<lparr> c_id = new_id, c_list_id = lid,
                   c_hauler_user_id = uid, c_status = CActive, c_note = note,
                   c_created_at = now, c_released_at = None \<rparr>] \<rparr>) = Inr d1"
    and d': "d' = fire_webhook gid ev d1"
    by (auto simp: create_claim_def res_simps split: if_splits)
  have "life_inv d1"
    by (rule insert_claim_items_inv [OF assms(1) refl _ _ _ _ ins])
      (use fresh life_invD(2) [OF assms(1)] in \<open>auto intro!: claims_ok_new_claim\<close>)
  then show ?thesis unfolding d' by (rule fire_webhook_inv)
qed

lemma ensure_claim_writable_Inr:
  "ensure_claim_writable uid hauler role st = Inr x \<Longrightarrow> st = CActive \<and> (uid = hauler \<or> role = Owner)"
  by (auto simp: ensure_claim_writable_def split: if_splits)

lemma add_claim_items_inv:
  assumes "life_inv d" "add_claim_items s cid ids d = Inr d'"
  shows "life_inv d'"
proof -
  from assms(2) obtain cur where cur: "current_claim_ex s cid d = Inr cur" "cc_status cur = CActive"
    and ins: "insert_claim_items cid ids d = Inr d'"
    by (auto simp: add_claim_items_def res_simps dest: ensure_claim_writable_Inr split: if_splits)
  then obtain c where c: "c \<in> set (claims d)" "c_id c = cid" "c_status c = CActive"
    using current_claim_ex_Inr [OF cur(1)] by auto
  show ?thesis
    by (rule insert_claim_items_inv [OF assms(1) _ life_invD(2) [OF assms(1)] c ins]) simp
qed

lemma remove_claim_item_inv:
  assumes "life_inv d" "remove_claim_item s cid iid d = Inr d'"
  shows "life_inv d'"
proof -
  let ?hit = "\<lambda>ci. ci_claim_id ci = cid \<and> ci_list_item_id ci = iid"
  let ?d1 = "d \<lparr> claim_items := del_where ?hit (claim_items d) \<rparr>"
  from assms(2) obtain st where rec: "recompute_item_status iid DForbid ?d1 = Inr (st, d')"
    by (auto simp: remove_claim_item_def Let_def res_simps split: if_splits prod.splits)
  have "distinct (map li_id (list_items ?d1))"
    using life_invD(3) [OF assms(1)] by (simp add: items_ok_def)
  then have d': "d' = apply_refresh (\<lambda>i. li_id i = iid) (single_refresh DForbid) ?d1"
    using recompute_single_is_refresh(1) [OF _ rec] by simp
  show ?thesis
    unfolding d'
  proof (rule single_forbid.claim_change [OF assms(1)])
    show "same_books d ?d1" by (simp add: same_books_def)
    show "claims_ok ?d1" by (rule claims_ok_delete [OF life_invD(2) [OF assms(1)]])
    show "has_active_claim ?d1 (li_id i) = has_active_claim d (li_id i) \<or> IBought \<le> li_status i"
      if "li_id i \<noteq> iid" for i using that by (auto simp: has_active_claim_def)
  qed simp
qed

lemma set_claim_status_frame [simp]:
  "principals (set_claim_status cid st rel d) = principals d"
  "memberships (set_claim_status cid st rel d) = memberships d"
  "lists (set_claim_status cid st rel d) = lists d"
  "list_items (set_claim_status cid st rel d) = list_items d"
  "fulfillments (set_claim_status cid st rel d) = fulfillments d"
  "reimbursements (set_claim_status cid st rel d) = reimbursements d"
  by (simp_all add: set_claim_status_def sync_claim_items_active_def split: option.split)

lemma set_claim_status_books: "same_books d (set_claim_status cid st rel d)"
  using list_payer_cong [of "set_claim_status cid st rel d" d] by (simp add: same_books_def)

lemma release_claim_inv:
  assumes "life_inv d" "release_claim s cid now d = Inr d'"
  shows "life_inv d'"
proof -
  let ?ids = "map ci_list_item_id (filter (\<lambda>ci. ci_claim_id ci = cid) (claim_items d))"
  let ?d1 = "set_claim_status cid CReleased (Some now) d"
  from assms(2) obtain cur where cur: "current_claim_ex s cid d = Inr cur" "cc_status cur = CActive"
    and d': "d' = recompute_item_statuses_bulk ?ids ?d1"
    by (auto simp: release_claim_def Let_def res_simps dest: ensure_claim_writable_Inr)
  obtain c where c: "c \<in> set (claims d)" "c_id c = cid" "c_status c = CActive"
    using current_claim_ex_Inr [OF cur(1)] cur(2) by auto
  have f: "find_claim d cid = Some c"
    unfolding find_claim_def using find_keyI [OF claims_okD(1) [OF life_invD(2) [OF assms(1)]] c(1,2)] .
  have same: "has_active_claim ?d1 iid = has_active_claim d iid" if "iid \<notin> set ?ids" for iid
    by (rule has_active_claim_deactivate [OF f c(3)]) (use that in auto)
  show ?thesis
    unfolding d' recompute_bulk_is_refresh
    by (rule bulk.claim_change [OF assms(1) set_claim_status_books])
      (simp_all add: claims_ok_deactivate [OF life_invD(2) [OF assms(1)] f c(3)] same del: set_map)
qed

section \<open>The reimbursement upsert\<close>

lemma upsert_cases:
  assumes "upsert_reimbursement nid now lid requester hauler d = Inr d'"
  obtains (no_cycle) "cycle_key d lid requester hauler = None" "d' = d"
  | (update) k P f where "cycle_key d lid requester hauler = Some k"
      "k \<in> reimb_key ` set (reimbursements d)" "reimb_update f"
      "d' = d \<lparr> reimbursements := upd_where P f (reimbursements d) \<rparr>"
      "\<And>r. P r \<Longrightarrow> r_status r = RPending"
  | (insert) r where "cycle_key d lid requester hauler = Some (reimb_key r)"
      "\<And>x. x \<in> set (reimbursements d) \<Longrightarrow> reimb_key x = reimb_key r \<Longrightarrow> r_status x = RCancelled"
      "r_id r \<notin> r_id ` set (reimbursements d)" "r_status r = RPending" "reimb_shape d r"
      "d' = d \<lparr> reimbursements := reimbursements d @ [r] \<rparr>"
proof (cases "cycle_key d lid requester hauler")
  case None
  then have "d' = d"
    using assms by (auto simp: upsert_reimbursement_def cycle_key_def split: option.splits)
  with None no_cycle show ?thesis by blast
next
  case (Some k)
  then obtain l rp hp where l: "find_list d lid = Some l" and rp: "requester_principal d l requester = Some rp"
    and hp: "user_principal d hauler = Some hp" and k: "k = (lid, p_id rp, p_id hp)"
    by (auto simp: cycle_key_def split: option.splits)
  let ?st = "cycle_subtotal d lid requester hauler (l_payer_corp_id l \<noteq> None)"
  let ?f = "\<lambda>r. r \<lparr> r_subtotal_isk := ?st, r_tip_isk := tip_amount ?st (l_tip_pct l),
                    r_total_isk := total_amount ?st (l_tip_pct l), r_updated_at := now \<rparr>"
  let ?hit = "\<lambda>r. reimb_key r = (lid, p_id rp, p_id hp) \<and> r_status r \<noteq> RCancelled"
  show ?thesis
  proof (cases "\<exists>r\<in>set (reimbursements d). ?hit r")
    case True
    then have "d' = d \<lparr> reimbursements := upd_where (\<lambda>r. ?hit r \<and> r_status r = RPending) ?f (reimbursements d) \<rparr>"
      using assms by (simp add: upsert_reimbursement_def l rp hp Let_def split: if_splits)
    moreover have "reimb_update ?f" by (simp add: reimb_update_def reimb_key_def)
    moreover have "k \<in> reimb_key ` set (reimbursements d)" using True k by (metis imageI)
    ultimately show ?thesis using update Some by blast
  next
    case False
    define r where "r = \<lparr> r_id = nid, r_list_id = lid,
        r_requester_user_id = (if l_payer_corp_id l \<noteq> None then None else Some requester),
        r_requester_principal_id = p_id rp, r_hauler_user_id = hauler,
        r_hauler_principal_id = p_id hp, r_subtotal_isk = ?st,
        r_tip_isk = tip_amount ?st (l_tip_pct l), r_total_isk = total_amount ?st (l_tip_pct l),
        r_status = RPending, r_settled_at = None, r_settled_by_user_id = None,
        r_contract_id = None, r_is_corp_funded = (l_payer_corp_id l \<noteq> None),
        r_verified_by_wallet = False, r_wallet_settlement_delta_isk = None, r_updated_at = now \<rparr>"
    have no_hit: "(\<exists>r\<in>set (reimbursements d). ?hit r) = False" using False by simp
    have d': "d' = d \<lparr> reimbursements := reimbursements d @ [r] \<rparr>"
      and fresh: "nid \<notin> r_id ` set (reimbursements d)"
      using assms
      by (simp_all only: upsert_reimbursement_def l rp hp Let_def r_def option.case prod.case
          no_hit if_False split: if_splits) simp_all
    have r: "r_id r \<notin> r_id ` set (reimbursements d)" "r_status r = RPending"
        "r_list_id r = lid" "r_requester_principal_id r = p_id rp" "r_hauler_principal_id r = p_id hp"
        "r_hauler_user_id r = hauler" "r_is_corp_funded r = (l_payer_corp_id l \<noteq> None)"
        "r_requester_user_id r = (if l_payer_corp_id l \<noteq> None then None else Some requester)"
      using fresh by (simp_all add: r_def)
    have key: "reimb_key r = k" using r k by (simp add: reimb_key_def)
    have "reimb_shape d r"
      using r rp hp l unfolding reimb_shape_def
      by (auto simp: list_payer_def requester_is_payer_principal payer_principal_def split: option.splits)
    moreover have "r_status x = RCancelled"
      if "x \<in> set (reimbursements d)" "reimb_key x = reimb_key r" for x
      using that False key k by auto
    moreover have "cycle_key d lid requester hauler = Some (reimb_key r)" using Some key by simp
    ultimately show ?thesis using d' r(1,2) by (intro insert)
  qed
qed

lemma same_life_reimbursements: "same_life d (d \<lparr> reimbursements := rs \<rparr>)"
  by (simp add: same_life_def)

lemma life_inv_insert_reimb:
  assumes pre: "refs_ok d" "claims_ok d" "items_ok d" "reimbs_ok d" "settled_ok d"
    and cover: "cover_upto d (Some (reimb_key r))"
    and r: "reimb_key r \<notin> reimb_key ` set (reimbursements d)" "r_id r \<notin> r_id ` set (reimbursements d)"
      "r_status r = RPending" "reimb_shape d r"
    and d': "d' = d \<lparr> reimbursements := reimbursements d @ [r] \<rparr>"
  shows "life_inv d'"
proof -
  have sl: "same_life d d'" unfolding d' by (rule same_life_reimbursements)
  have rs: "set (reimbursements d') = insert r (set (reimbursements d))"
    "reimbursements d' = reimbursements d @ [r]" using d' by auto
  have "reimbs_ok d'"
    using pre(4) r unfolding reimbs_ok_def same_lifeD(11) [OF sl] rs by auto
  moreover have "cover_ok d'"
    unfolding cover_ok_def same_lifeD [OF sl] rs(1)
  proof (intro ballI)
    fix i f assume "i \<in> set (list_items d)" "f \<in> live_on d i"
    then have "item_cycle d i f = Some (reimb_key r)
        \<or> (\<exists>x\<in>set (reimbursements d). item_cycle d i f = Some (reimb_key x))"
      using cover unfolding cover_upto_def by simp
    then show "\<exists>x\<in>insert r (set (reimbursements d)). item_cycle d i f = Some (reimb_key x)"
      by (simp only: bex_simps(5))
  qed
  moreover have "settled_ok d'"
    using pre(5) unfolding settled_ok_def same_lifeD [OF sl] rs(1) bex_simps(5) by simp
  ultimately show ?thesis
    using pre by (intro life_invI) (simp_all only: same_life_refs [OF sl] same_life_claims [OF sl]
        same_life_items [OF sl])
qed

lemma upsert_inv:
  assumes pre: "refs_ok d" "claims_ok d" "items_ok d" "reimbs_ok d" "settled_ok d"
    and cover: "cover_upto d (cycle_key d lid requester hauler)"
    and up: "upsert_reimbursement nid now lid requester hauler d = Inr d'"
  shows "life_inv d'"
  using up
proof (cases rule: upsert_cases)
  case no_cycle
  then have "cover_ok d" using cover unfolding cover_ok_def cover_upto_def by simp
  then show ?thesis using no_cycle pre by (simp add: life_inv_def)
next
  case (update k P f)
  then have "cover_ok d" using cover by (fastforce simp: cover_ok_def cover_upto_def)
  then have "life_inv d" using pre by (simp add: life_inv_def)
  then show ?thesis
    using life_inv_reimb_update [OF _ _ update(3), of d d' P] update(4) same_life_reimbursements
    by simp
next
  case (insert r)
  have "reimb_key r \<notin> reimb_key ` set (reimbursements d)"
    using insert(2) pre(4) by (auto simp: reimbs_ok_def) metis
  then show ?thesis
    using life_inv_insert_reimb [OF pre _ _ insert(3-6)] cover insert(1) by simp
qed

section \<open>Recording a fulfillment\<close>

lemma to_numeric_nonneg: "\<not> dec_neg x \<Longrightarrow> 0 \<le> to_numeric k x"
  by (simp add: to_numeric_def dec_neg_def round_half_away_nonneg)

lemma check_fulfillment_body_Inr:
  "check_fulfillment_body b = Inr x \<Longrightarrow>
     0 < rb_qty b \<and> rb_qty b \<le> 10000000 \<and> \<not> dec_neg (rb_unit_price_isk b)
     \<and> (rb_bought_at_market_id b \<noteq> None \<or> (\<exists>n. rb_bought_at_note b = Some n \<and> \<not> blank n))"
  by (auto simp: check_fulfillment_body_def split: if_splits option.splits)

lemma items_ok_claims:
  assumes "items_ok d0" "list_items d = list_items d0" "fulfillments d = fulfillments d0"
    and same: "\<And>i. i \<in> set (list_items d) \<Longrightarrow>
        has_active_claim d (li_id i) = has_active_claim d0 (li_id i) \<or> IBought \<le> li_status i"
  shows "items_ok d"
proof -
  have "item_ok d i" if i: "i \<in> set (list_items d)" for i
  proof -
    have ok0: "item_ok d0 i" using assms(1,2) i by (simp add: items_ok_def)
    show ?thesis
      using same [OF i] ok0 item_ok_full_indep [OF ok0 assms(3)] fulfilled_qty_cong [OF assms(3)]
      by (auto simp: item_ok_def base_status_def)
  qed
  then show ?thesis using assms(1,2) by (simp add: items_ok_def)
qed

lemma complete_claim_frame:
  "same_books d (complete_claim_if_done st ac d)"
  "list_items (complete_claim_if_done st ac d) = list_items d"
proof -
  have "same_books d d" by (simp add: same_books_def)
  then show "same_books d (complete_claim_if_done st ac d)"
    using set_claim_status_books by (simp add: complete_claim_if_done_def split: option.split)
  show "list_items (complete_claim_if_done st ac d) = list_items d"
    by (simp add: complete_claim_if_done_def split: option.split)
qed

lemma complete_claim_ok:
  assumes "claims_ok d" "items_ok d"
  shows "claims_ok (complete_claim_if_done st ac d) \<and> items_ok (complete_claim_if_done st ac d)"
proof (cases "\<exists>cid h c. ac = Some (cid, h) \<and> claim_all_done d cid \<and> c \<in> set (claims d) \<and> c_id c = cid
      \<and> c_status c = CActive \<and> complete_claim_if_done st ac d = set_claim_status cid CCompleted None d")
  case True
  then obtain cid c where all: "claim_all_done d cid"
    and c: "c \<in> set (claims d)" "c_id c = cid" "c_status c = CActive"
    and eq: "complete_claim_if_done st ac d = set_claim_status cid CCompleted None d" by blast
  have f: "find_claim d cid = Some c"
    unfolding find_claim_def using find_keyI [OF claims_okD(1) [OF assms(1)] c(1,2)] .
  have "items_ok (set_claim_status cid CCompleted None d)"
  proof (rule items_ok_claims [OF assms(2)])
    fix i assume "i \<in> set (list_items (set_claim_status cid CCompleted None d))"
    then have i: "i \<in> set (list_items d)" by simp
    show "has_active_claim (set_claim_status cid CCompleted None d) (li_id i) = has_active_claim d (li_id i)
        \<or> IBought \<le> li_status i"
    proof (cases "\<exists>ci\<in>set (claim_items d). ci_claim_id ci = cid \<and> ci_list_item_id ci = li_id i")
      case True
      then have "li_status i \<in> {IBought, IDelivered, ISettled}"
        using all i unfolding claim_all_done_def by metis
      then show ?thesis by (simp add: bought_le_iff)
    next
      case False
      then show ?thesis
        using has_active_claim_deactivate [OF f c(3), of CCompleted "li_id i" None] by auto
    qed
  qed simp_all
  then show ?thesis
    using claims_ok_deactivate [OF assms(1) f c(3), of CCompleted None] eq by simp
next
  case False
  then have "complete_claim_if_done st ac d = d"
    unfolding complete_claim_if_done_def by (auto split: option.splits if_splits)
  then show ?thesis using assms by simp
qed

text \<open>The state with the new fulfillment, before any recomputation.\<close>

definition new_fulfillment :: "db \<Rightarrow> list_item \<Rightarrow> fulfillment \<Rightarrow> bool" where
  "new_fulfillment d i f \<longleftrightarrow> life_inv d \<and> i \<in> set (list_items d) \<and> f_list_item_id f = li_id i
     \<and> f_qty f + li_qty_fulfilled i \<le> li_qty_requested i
     \<and> 0 < f_qty f \<and> 0 \<le> f_unit_price_isk f \<and> f_id f \<notin> f_id ` set (fulfillments d)
     \<and> f_reversed_at f = None \<and> user_principal d (f_hauler_user_id f) \<noteq> None"

abbreviation add_fulfillment :: "fulfillment \<Rightarrow> db \<Rightarrow> db" where
  "add_fulfillment f d \<equiv> d \<lparr> fulfillments := fulfillments d @ [f] \<rparr>"

lemma new_fulfillmentD:
  assumes "new_fulfillment d i f"
  shows "life_inv d" "i \<in> set (list_items d)" "f_list_item_id f = li_id i"
    "f_qty f + li_qty_fulfilled i \<le> li_qty_requested i"
    "0 < f_qty f" "0 \<le> f_unit_price_isk f" "f_id f \<notin> f_id ` set (fulfillments d)"
    "f_reversed_at f = None" "user_principal d (f_hauler_user_id f) \<noteq> None"
    "item_ok d i" "distinct (map li_id (list_items d))"
  using assms by (auto simp: new_fulfillment_def life_inv_def items_ok_def)

lemma fulfilled_new:
  assumes nf: "new_fulfillment d i f"
  shows "fulfilled_qty (add_fulfillment f d) iid
     = fulfilled_qty d iid + (if iid = li_id i then f_qty f else 0)"
  using new_fulfillmentD(3,8) [OF nf] by (simp add: fulfilled_qty_def)

lemma not_full:
  assumes nf: "new_fulfillment d i f"
  shows "\<not> IBought \<le> li_status i"
  using item_ok_full [OF new_fulfillmentD(10) [OF nf]] new_fulfillmentD(4,5,10) [OF nf] by (auto simp: item_ok_def)

lemma refs_new:
  assumes nf: "new_fulfillment d i f"
  shows "refs_ok (add_fulfillment f d)"
  using life_invD(1) [OF new_fulfillmentD(1) [OF nf]] new_fulfillmentD(2,3,5-7) [OF nf]
    payer_principal_cong [of "add_fulfillment f d" d]
    user_principal_cong [of "add_fulfillment f d" d]
  by (auto simp: refs_ok_def)

lemma cycle_new:
  assumes nf: "new_fulfillment d i f"
  shows "item_cycle (add_fulfillment f d) = item_cycle d"
  by (rule item_cycle_cong) simp_all

lemma live_new:
  assumes nf: "new_fulfillment d i f"
  shows "live_on (add_fulfillment f d) j
     = (if li_id j = li_id i then insert f (live_on d j) else live_on d j)"
  using new_fulfillmentD(3,8) [OF nf] by (auto simp: live_on_def)

lemma same_item:
  assumes nf: "new_fulfillment d i f"
  shows "j \<in> set (list_items d) \<Longrightarrow> li_id j = li_id i \<Longrightarrow> j = i"
  using distinct_map_unique [OF new_fulfillmentD(11) [OF nf]] new_fulfillmentD(2) [OF nf] by blast

lemma settled_new:
  assumes nf: "new_fulfillment d i f"
  shows "settled_ok (add_fulfillment f d)"
  unfolding settled_ok_def cycle_new [OF nf]
proof (intro ballI impI)
  fix j g assume j: "j \<in> set (list_items (add_fulfillment f d))"
    "li_status j = ISettled" "g \<in> live_on (add_fulfillment f d) j"
  then have "li_id j \<noteq> li_id i" using same_item [OF nf, of j] not_full [OF nf] by fastforce
  then have "g \<in> live_on d j" using j(3) by (simp add: live_new [OF nf])
  then show "\<exists>r\<in>set (reimbursements (add_fulfillment f d)).
      item_cycle d j g = Some (reimb_key r) \<and> r_status r = RSettled"
    using life_invD(6) [OF new_fulfillmentD(1) [OF nf]] j(1,2) unfolding settled_ok_def by simp
qed

lemma cycle_exists:
  assumes nf: "new_fulfillment d i f"
  shows "item_cycle d i f \<noteq> None"
proof -
  obtain po where "list_payer d (li_list_id i) = Some po"
    "payer_principal d po (li_requested_by_user_id i) \<noteq> None"
    using life_invD(1) [OF new_fulfillmentD(1) [OF nf]] new_fulfillmentD(2) [OF nf] unfolding refs_ok_def by blast
  then show ?thesis using new_fulfillmentD(9) [OF nf] by (auto simp: item_cycle_def cycle_key_eq)
qed

lemma cover_new:
  assumes nf: "new_fulfillment d i f"
  shows "cover_upto (add_fulfillment f d) (item_cycle d i f)"
  unfolding cover_upto_def cycle_new [OF nf]
proof (intro ballI)
  fix j g assume j: "j \<in> set (list_items (add_fulfillment f d))"
    "g \<in> live_on (add_fulfillment f d) j"
  show "item_cycle d j g = item_cycle d i f \<and> item_cycle d i f \<noteq> None
      \<or> (\<exists>r\<in>set (reimbursements (add_fulfillment f d)).
             item_cycle d j g = Some (reimb_key r))"
  proof (cases "g \<in> live_on d j")
    case True
    then show ?thesis using life_invD(5) [OF new_fulfillmentD(1) [OF nf]] j(1) unfolding cover_ok_def by simp
  next
    case False
    then have "g = f" "j = i" using j same_item [OF nf] by (auto simp: live_new [OF nf] split: if_splits)
    then show ?thesis using cycle_exists [OF nf] by simp
  qed
qed

lemma items_new:
  assumes nf: "new_fulfillment d i f"
  shows "items_ok (apply_refresh (\<lambda>x. li_id x = li_id i) (single_refresh DForbid)
     (add_fulfillment f d))"
proof (rule single_forbid.items_refresh)
  show "distinct (map li_id (list_items (add_fulfillment f d)))"
    using new_fulfillmentD(11) [OF nf] by simp
next
  fix j assume "j \<in> set (list_items (add_fulfillment f d))" "li_id j \<noteq> li_id i"
  moreover from this have "item_ok d j"
    using new_fulfillmentD(1) [OF nf] by (simp add: life_inv_def items_ok_def)
  ultimately show "item_ok (add_fulfillment f d) j"
    using item_ok_pointwise [of "add_fulfillment f d" j d]
    by (simp add: fulfilled_new [OF nf] has_active_claim_def)
next
  fix j assume "j \<in> set (list_items (add_fulfillment f d))" "li_id j = li_id i"
  then have "j = i" using same_item [OF nf] by simp
  then show "fulfilled_qty (add_fulfillment f d) (li_id j) \<le> li_qty_requested j
      \<and> (li_status j \<in> kept_by DForbid \<longrightarrow>
           li_qty_fulfilled j = fulfilled_qty (add_fulfillment f d) (li_id j)
           \<and> fulfilled_qty (add_fulfillment f d) (li_id j) = li_qty_requested j)"
    using not_full [OF nf] new_fulfillmentD(4,10) [OF nf] by (auto simp: fulfilled_new [OF nf] item_ok_def bought_le_iff kept_by_def)
qed

lemma recorded_inv:
  assumes nf: "new_fulfillment d i f"
    and rec: "recompute_item_status (li_id i) DForbid (add_fulfillment f d) = Inr (st, d1)"
    and up: "upsert_reimbursement nid now (li_list_id i) (li_requested_by_user_id i)
               (f_hauler_user_id f) (complete_claim_if_done st ac d1) = Inr d'"
  shows "life_inv d'"
proof -
  let ?d0 = "add_fulfillment f d"
  let ?d2 = "complete_claim_if_done st ac d1"
  have d1: "d1 = apply_refresh (\<lambda>x. li_id x = li_id i) (single_refresh DForbid) ?d0"
    using recompute_single_is_refresh(1) [OF _ rec] new_fulfillmentD(11) [OF nf] by simp
  have b2: "same_books d1 ?d2" and i2: "list_items ?d2 = list_items d1"
    by (rule complete_claim_frame)+
  have rw: "item_rewrite d1 ?d2 (\<lambda>_. False) (\<lambda>x. x)"
    using b2 i2 by unfold_locales (simp_all add: item_update_def)
  have claims1: "claims_ok d1"
    using life_invD(2) [OF new_fulfillmentD(1) [OF nf]] claims_ok_cong [of ?d0 d]
    by (simp only: d1 single_forbid.claims_refresh) simp
  have reimbs1: "reimbs_ok d1"
    using life_invD(4) [OF new_fulfillmentD(1) [OF nf]] reimb_shape_cong [of ?d0 d]
    by (simp only: d1 single_forbid.reimbs_refresh) (simp add: reimbs_ok_def)
  have items1: "items_ok d1" using items_new [OF nf] d1 by simp
  have cyc: "cycle_key ?d2 (li_list_id i) (li_requested_by_user_id i) (f_hauler_user_id f)
      = item_cycle d i f"
    using cycle_key_cong [OF same_booksD(1,3) [OF b2]] cycle_key_cong [of d1 ?d0] cycle_key_cong [of ?d0 d]
      list_payer_cong [of d1 ?d0] d1 by (simp add: item_cycle_def)
  show ?thesis
  proof (rule upsert_inv [OF _ _ _ _ _ _ up])
    show "refs_ok ?d2"
      using refs_new [OF nf] unfolding item_rewrite.refs_eq [OF rw]
      by (simp only: d1 single_forbid.refs_refresh)
    show "settled_ok ?d2"
      using settled_new [OF nf] item_rewrite.settled_eq [OF rw]
      by (simp add: d1 single_forbid.settled_refresh)
    show "reimbs_ok ?d2" using reimbs1 by (simp only: reimbs_ok_books [OF b2])
    show "claims_ok ?d2" "items_ok ?d2" using complete_claim_ok [OF claims1 items1] by blast+
    show "cover_upto ?d2 (cycle_key ?d2 (li_list_id i) (li_requested_by_user_id i) (f_hauler_user_id f))"
      using cover_new [OF nf] unfolding cyc item_rewrite.cover_upto_eq [OF rw]
      by (simp only: d1 single_forbid.rw.cover_upto_eq)
  qed
qed

lemma member_has_principal:
  assumes "refs_ok d" "member_role d uid gid = Some r"
  shows "user_principal d uid \<noteq> None"
  using assms member_role_Some_member [OF assms(2)] unfolding refs_ok_def is_group_member_def by blast

lemma record_fulfillment_inv:
  assumes inv: "life_inv d" and rec: "record_fulfillment s lid iid b fid rid now d = Inr d'"
  shows "life_inv d'"
proof -
  obtain cur where cur: "current_list_ex s lid d = Inr cur"
    using rec unfolding record_fulfillment_def bind_res_eq_Inr by blast
  obtain i where i: "find (\<lambda>i. li_id i = iid \<and> li_list_id i = lid) (list_items d) = Some i"
    and body: "check_fulfillment_body b = Inr ()"
    and room: "rb_qty b + li_qty_fulfilled i \<le> li_qty_requested i"
    and fid: "fid \<notin> f_id ` set (fulfillments d)"
    and rest: "bind_res (recompute_item_status iid DForbid
            (add_fulfillment \<lparr> f_id = fid, f_list_item_id = iid, f_claim_id = map_option fst (active_claim d iid),
                    f_hauler_user_id = cl_user_id cur, f_hauler_character_id = rb_hauler_character_id b,
                    f_source = FManual, f_qty = rb_qty b, f_unit_price_isk = to_numeric 2 (rb_unit_price_isk b),
                    f_bought_at_market_id = rb_bought_at_market_id b,
                    f_bought_at_note = rb_bought_at_note b, f_bought_at = now,
                    f_reversed_at = None \<rparr> d)) (\<lambda>(new_status, d1).
       upsert_reimbursement rid now lid (li_requested_by_user_id i) (cl_user_id cur)
         (complete_claim_if_done new_status (active_claim d iid) d1)) = Inr d'"
    using rec cur
    by (clarsimp simp: record_fulfillment_def Let_def bind_res_eq_Inr split: if_splits
        option.split_asm reimbursement_status.split_asm)
  let ?f = "\<lparr> f_id = fid, f_list_item_id = iid, f_claim_id = map_option fst (active_claim d iid),
      f_hauler_user_id = cl_user_id cur, f_hauler_character_id = rb_hauler_character_id b,
      f_source = FManual, f_qty = rb_qty b, f_unit_price_isk = to_numeric 2 (rb_unit_price_isk b),
      f_bought_at_market_id = rb_bought_at_market_id b, f_bought_at_note = rb_bought_at_note b,
      f_bought_at = now, f_reversed_at = None \<rparr>"
  have mem: "i \<in> set (list_items d)" "li_id i = iid" "li_list_id i = lid"
    using find_Some_memD [OF i] by auto
  have "user_principal d (cl_user_id cur) \<noteq> None"
    using member_has_principal [OF life_invD(1) [OF inv]] current_list_ex_Inr [OF cur] by blast
  then have nf: "new_fulfillment d i ?f"
    using inv mem room fid check_fulfillment_body_Inr [OF body] to_numeric_nonneg
    by (simp add: new_fulfillment_def)
  obtain st d1 where "recompute_item_status iid DForbid (add_fulfillment ?f d) = Inr (st, d1)"
    "upsert_reimbursement rid now lid (li_requested_by_user_id i) (cl_user_id cur)
       (complete_claim_if_done st (active_claim d iid) d1) = Inr d'"
    using rest by (auto simp: bind_res_eq_Inr)
  then show ?thesis using recorded_inv [OF nf] mem by simp
qed

section \<open>Reversing a fulfillment\<close>

definition reversed_state :: "uuid \<Rightarrow> instant \<Rightarrow> db \<Rightarrow> db" where
  "reversed_state fid now d =
     d \<lparr> fulfillments := upd_where (\<lambda>x. f_id x = fid \<and> f_reversed_at x = None)
            (\<lambda>x. x \<lparr> f_reversed_at := Some now \<rparr>) (fulfillments d) \<rparr>"

lemma reversed_frame [simp]:
  "principals (reversed_state fid now d) = principals d" "lists (reversed_state fid now d) = lists d"
  "memberships (reversed_state fid now d) = memberships d"
  "list_items (reversed_state fid now d) = list_items d"
  "claims (reversed_state fid now d) = claims d" "claim_items (reversed_state fid now d) = claim_items d"
  "reimbursements (reversed_state fid now d) = reimbursements d"
  "list_payer (reversed_state fid now d) = list_payer d"
  by (simp_all add: reversed_state_def)

lemma reversed_live: "live_on (reversed_state fid now d) j = {g \<in> live_on d j. f_id g \<noteq> fid}"
  by (auto simp: live_on_def reversed_state_def set_upd_where image_iff)

lemma reversed_cycle: "item_cycle (reversed_state fid now d) = item_cycle d"
  by (rule item_cycle_cong) simp_all

lemma reversed_fulfilled:
  "fulfilled_qty (reversed_state fid now d) iid
     = sum_where (\<lambda>g. f_list_item_id g = iid \<and> f_reversed_at g = None \<and> f_id g \<noteq> fid) f_qty (fulfillments d)"
  unfolding fulfilled_qty_def reversed_state_def
  by (simp add: sum_where_upd_where, rule sum_where_cong) auto

lemma sum_where_mono:
  assumes "\<And>r. r \<in> set rs \<Longrightarrow> P r \<Longrightarrow> Q r" "\<And>r. r \<in> set rs \<Longrightarrow> 0 \<le> f r"
  shows "sum_where P f rs \<le> sum_where Q f rs"
  using assms
proof (induction rs)
  case (Cons r rs)
  then have "sum_where P f rs \<le> sum_where Q f rs" by simp
  then show ?case using Cons.prems(1) [of r] Cons.prems(2) [of r] by auto
qed simp

lemma reversed_fulfilled_le:
  assumes "refs_ok d"
  shows "fulfilled_qty (reversed_state fid now d) iid \<le> fulfilled_qty d iid"
  unfolding reversed_fulfilled unfolding fulfilled_qty_def
  by (rule sum_where_mono) (use assms in \<open>auto simp: refs_ok_def\<close>)

lemma reversed_fulfilled_other:
  assumes "refs_ok d" "f \<in> set (fulfillments d)" "f_id f = fid" "f_list_item_id f \<noteq> iid"
  shows "fulfilled_qty (reversed_state fid now d) iid = fulfilled_qty d iid"
  unfolding reversed_fulfilled unfolding fulfilled_qty_def
proof (rule sum_where_cong)
  fix g assume g: "g \<in> set (fulfillments d)"
  have "g = f" if "f_id g = fid"
    using distinct_map_unique [of f_id "fulfillments d" g f] assms(1-3) g that by (simp add: refs_ok_def)
  then show "(f_list_item_id g = iid \<and> f_reversed_at g = None \<and> f_id g \<noteq> fid)
      = (f_list_item_id g = iid \<and> f_reversed_at g = None)" using assms(4) by auto
qed simp

lemma reversed_refs: "refs_ok d \<Longrightarrow> refs_ok (reversed_state fid now d)"
proof -
  assume refs: "refs_ok d"
  have "map f_id (fulfillments (reversed_state fid now d)) = map f_id (fulfillments d)"
    by (simp add: reversed_state_def map_upd_where_same)
  moreover have "\<forall>f\<in>set (fulfillments (reversed_state fid now d)). 0 < f_qty f \<and> 0 \<le> f_unit_price_isk f
        \<and> f_list_item_id f \<in> li_id ` set (list_items d)"
    using refs by (auto simp: reversed_state_def refs_ok_def set_upd_where)
  ultimately show ?thesis
    using refs payer_principal_cong [of "reversed_state fid now d" d]
      user_principal_cong [of "reversed_state fid now d" d] by (simp add: refs_ok_def)
qed

lemma settled_status_found:
  assumes inv: "life_inv d" and i: "i \<in> set (list_items d)" "li_status i = ISettled" and f: "f \<in> live_on d i"
  shows "existing_reimb_status d (li_list_id i) (li_requested_by_user_id i) (f_hauler_user_id f)
         = Some RSettled"
proof -
  obtain r where r: "r \<in> set (reimbursements d)" "item_cycle d i f = Some (reimb_key r)" "r_status r = RSettled"
    using life_invD(6) [OF inv] i f unfolding settled_ok_def by blast
  have "find (\<lambda>x. reimb_key x = reimb_key r) (reimbursements d) = Some r"
    using find_keyI [OF _ r(1) refl, of reimb_key] life_invD(4) [OF inv] by (simp add: reimbs_ok_def)
  then show ?thesis using r by (simp add: existing_reimb_status_def item_cycle_def)
qed

lemma reverse_fulfillment_Inr:
  assumes "reverse_fulfillment s fid rid now d = Inr d'"
  obtains uid f i st d1 where "rls_find_fulfillment d uid fid = Some f"
    "find_item d (f_list_item_id f) = Some i" "f_reversed_at f = None"
    "existing_reimb_status d (li_list_id i) (li_requested_by_user_id i) (f_hauler_user_id f)
       \<in> {None, Some RPending}"
    "recompute_item_status (f_list_item_id f) DAllow (reversed_state fid now d) = Inr (st, d1)"
    "upsert_reimbursement rid now (li_list_id i) (li_requested_by_user_id i) (f_hauler_user_id f) d1 = Inr d'"
  using assms unfolding reverse_fulfillment_def reversed_state_def Let_def bind_res_eq_Inr
  by (auto simp: bind_res_eq_Inr split: if_splits)

lemma rls_find_fulfillment_SomeD:
  "rls_find_fulfillment d uid fid = Some f \<Longrightarrow>
     f \<in> set (fulfillments d) \<and> f_id f = fid \<and> fulfillment_visible d uid f"
  unfolding rls_find_fulfillment_def by (drule find_Some_memD) auto

lemma reverse_fulfillment_inv:
  assumes inv: "life_inv d" and rev: "reverse_fulfillment s fid rid now d = Inr d'"
  shows "life_inv d'"
  using rev
proof (cases rule: reverse_fulfillment_Inr)
  case (1 uid f i st d1)
  let ?d0 = "reversed_state fid now d"
  note refs = life_invD(1) [OF inv]
  have f: "f \<in> set (fulfillments d)" "f_id f = fid" using rls_find_fulfillment_SomeD [OF 1(1)] by auto
  have i: "i \<in> set (list_items d)" "li_id i = f_list_item_id f"
    using 1(2) by (auto simp: find_item_def dest: find_Some_memD)
  have dist: "distinct (map li_id (list_items d))" using inv by (simp add: life_inv_def items_ok_def)
  have live: "f \<in> live_on d i" using f i 1(3) by (simp add: live_on_def)
  have uniq: "j = i" if "j \<in> set (list_items d)" "li_id j = f_list_item_id f" for j
    using distinct_map_unique [OF dist that(1) i(1)] that i by simp
  have not_settled: "li_status i \<noteq> ISettled"
    using settled_status_found [OF inv i(1) _ live] 1(4) by auto
  have d1: "d1 = apply_refresh (\<lambda>x. li_id x = f_list_item_id f) (single_refresh DAllow) ?d0"
    using recompute_single_is_refresh(1) [OF _ 1(5)] dist by simp
  have ok: "item_ok d j" if "j \<in> set (list_items d)" for j
    using inv that by (simp add: life_inv_def items_ok_def)
  have items: "items_ok d1"
    unfolding d1
  proof (rule single_allow.items_refresh)
    show "distinct (map li_id (list_items ?d0))" using dist by simp
  next
    fix j assume "j \<in> set (list_items ?d0)" "li_id j \<noteq> f_list_item_id f"
    then show "item_ok ?d0 j"
      using ok item_ok_pointwise [of ?d0 j d] reversed_fulfilled_other [OF refs f]
      by (simp add: has_active_claim_def)
  next
    fix j assume "j \<in> set (list_items ?d0)" "li_id j = f_list_item_id f"
    then have "j = i" using uniq by simp
    then show "fulfilled_qty ?d0 (li_id j) \<le> li_qty_requested j
        \<and> (li_status j \<in> kept_by DAllow \<longrightarrow> li_qty_fulfilled j = fulfilled_qty ?d0 (li_id j)
             \<and> fulfilled_qty ?d0 (li_id j) = li_qty_requested j)"
      using ok [OF i(1)] not_settled reversed_fulfilled_le [OF refs, of fid now "li_id i"]
      by (auto simp: item_ok_def kept_by_def)
  qed
  have cover: "cover_ok ?d0"
    using life_invD(5) [OF inv] unfolding cover_ok_def reversed_cycle by (simp add: reversed_live)
  have settled: "settled_ok ?d0"
    using life_invD(6) [OF inv] unfolding settled_ok_def reversed_cycle by (simp add: reversed_live)
  have reimbs: "reimbs_ok ?d0"
    using life_invD(4) [OF inv] reimb_shape_cong [of ?d0 d] by (simp add: reimbs_ok_def)
  have claims: "claims_ok ?d0" using life_invD(2) [OF inv] claims_ok_cong [of ?d0 d] by simp
  show ?thesis
    by (rule upsert_inv [OF _ _ items _ _ cover_ok_upto 1(6)])
      (unfold d1 single_allow.refs_refresh single_allow.claims_refresh single_allow.reimbs_refresh
        single_allow.settled_refresh single_allow.cover_refresh,
        rule reversed_refs [OF refs], rule claims, rule reimbs, rule settled, rule cover)
qed

section \<open>Delivery\<close>

lemma mark_delivered_inv:
  assumes inv: "life_inv d" and md: "mark_delivered s lid iid d = Inr d'"
  shows "life_inv d'"
proof -
  let ?g = "\<lambda>x. x \<lparr> li_status := IDelivered \<rparr>"
  let ?d1 = "d \<lparr> list_items := upd_where (\<lambda>x. li_id x = iid) ?g (list_items d) \<rparr>"
  obtain i where i: "i \<in> set (list_items d)" "li_id i = iid" "li_status i = IBought"
    and d': "d' = ?d1 \<or> (\<exists>gid ev. d' = fire_webhook gid ev ?d1)"
    using md by (auto simp: mark_delivered_def Let_def bind_res_eq_Inr split: if_splits
        dest!: find_Some_memD)
  have dist: "distinct (map li_id (list_items d))" using inv by (simp add: life_inv_def items_ok_def)
  have uniq: "j = i" if "j \<in> set (list_items d)" "li_id j = iid" for j
    using distinct_map_unique [OF dist that(1) i(1)] that i by simp
  have rw: "item_rewrite d ?d1 (\<lambda>x. li_id x = iid) ?g"
    by unfold_locales (simp_all add: same_books_def item_update_def)
  have ok: "item_ok d j" if "j \<in> set (list_items d)" for j
    using inv that by (simp add: life_inv_def items_ok_def)
  have "item_ok ?d1 = item_ok d" by (rule item_ok_cong) simp_all
  moreover have "item_ok d (if li_id j = iid then ?g j else j)" if "j \<in> set (list_items d)" for j
    using ok [OF that] uniq [OF that] i(3) item_ok_full [OF ok [OF i(1)]]
    by (auto simp: item_ok_def bought_le_iff)
  ultimately have "items_ok ?d1"
    using dist item_rewrite.ids_eq [OF rw] by (simp add: items_ok_def)
  moreover have "settled_ok ?d1"
  proof -
    have "settled_ok ?d1 = settled_ok d"
      unfolding settled_ok_def item_rewrite.items' [OF rw] same_booksD [OF item_rewrite.books [OF rw]]
        ball_upd_where item_rewrite.live_on_pick [OF rw] item_rewrite.item_cycle_pick [OF rw]
      using uniq i(3) by (intro ball_cong refl) auto
    then show ?thesis using life_invD(6) [OF inv] by simp
  qed
  moreover have "claims_ok ?d1" using life_invD(2) [OF inv] claims_ok_cong [of ?d1 d] by simp
  ultimately have "life_inv ?d1"
    using life_invD [OF inv] item_rewrite.rewrite_eqs [OF rw] by (intro life_invI) simp_all
  then show ?thesis using d' fire_webhook_inv by blast
qed

section \<open>Tips\<close>

lemma set_list_tip_inv:
  assumes inv: "life_inv d" and st: "set_list_tip s lid tip now d = Inr d'"
  shows "life_inv d'"
proof -
  let ?hit = "\<lambda>r. r_list_id r = lid \<and> r_status r = RPending"
  let ?f = "\<lambda>r. r \<lparr> r_tip_isk := round_half_away (r_subtotal_isk r * mantissa tip) (10 ^ scale tip),
      r_total_isk := round_half_away (r_subtotal_isk r * (10 ^ scale tip + mantissa tip)) (10 ^ scale tip),
      r_updated_at := now \<rparr>"
  let ?g = "\<lambda>l. l \<lparr> l_tip_pct := to_numeric 4 tip \<rparr>"
  have d': "d' = d \<lparr> lists := upd_where (\<lambda>l. l_id l = lid) ?g (lists d),
                  reimbursements := upd_where ?hit ?f (reimbursements d) \<rparr>"
    using st by (auto simp: set_list_tip_def Let_def bind_res_eq_Inr split: if_splits)
  have "list_payer d' = list_payer d"
    by (rule list_payer_upd [of d' "\<lambda>l. l_id l = lid" ?g]) (simp_all add: d')
  then have "same_life d d'" by (simp add: same_life_def d')
  moreover have "reimb_update ?f" by (simp add: reimb_update_def reimb_key_def)
  ultimately show ?thesis
    using life_inv_reimb_update [of d d' ?hit ?f] inv by (simp add: d')
qed

section \<open>Settlement\<close>

text \<open>What a row of the reimbursements says about the users behind its principals.\<close>

lemma user_principal_SomeD:
  "user_principal d u = Some p \<Longrightarrow> p \<in> set (principals d) \<and> p_kind p = PUser \<and> p_user_id p = Some u"
  unfolding user_principal_def by (drule find_Some_memD) auto

lemma user_principal_inj:
  assumes "refs_ok d" "user_principal d u = Some p" "user_principal d v = Some q" "p_id p = p_id q"
  shows "u = v"
proof -
  have "p = q"
    using assms user_principal_SomeD [OF assms(2)] user_principal_SomeD [OF assms(3)]
      distinct_map_unique [of p_id "principals d" p q] by (simp add: refs_ok_def)
  then show ?thesis
    using user_principal_SomeD [OF assms(2)] user_principal_SomeD [OF assms(3)] by simp
qed

lemma cycle_key_SomeD:
  assumes "cycle_key d lid u h = Some (lid', rp, hp)"
  obtains po p q where "lid' = lid" "list_payer d lid = Some po" "payer_principal d po u = Some p"
    "p_id p = rp" "user_principal d h = Some q" "p_id q = hp"
  using assms by (auto simp: cycle_key_eq split: option.splits)

lemma covering_row:
  assumes inv: "life_inv d" and i: "i \<in> set (list_items d)" and f: "f \<in> live_on d i"
  obtains r where "r \<in> set (reimbursements d)" "item_cycle d i f = Some (reimb_key r)"
    "r_list_id r = li_list_id i" "r_hauler_user_id r = f_hauler_user_id f"
    "r_is_corp_funded r \<or> r_requester_user_id r = Some (li_requested_by_user_id i)"
    "r_status r = RPending \<or> r_status r = RSettled"
proof -
  note refs = life_invD(1) [OF inv]
  obtain r where r: "r \<in> set (reimbursements d)" "item_cycle d i f = Some (reimb_key r)"
    using life_invD(5) [OF inv] i f unfolding cover_ok_def by blast
  then have shape: "reimb_shape d r" and st: "r_status r \<noteq> RCancelled"
    using life_invD(4) [OF inv] by (auto simp: reimbs_ok_def)
  obtain po p q where k: "r_list_id r = li_list_id i" "list_payer d (li_list_id i) = Some po"
    "payer_principal d po (li_requested_by_user_id i) = Some p" "p_id p = r_requester_principal_id r"
    "user_principal d (f_hauler_user_id f) = Some q" "p_id q = r_hauler_principal_id r"
    using r(2) unfolding item_cycle_def reimb_key_def by (auto elim!: cycle_key_SomeD)
  obtain rp hp where s: "r_is_corp_funded r = (po \<noteq> None)" "(r_requester_user_id r = None) = (po \<noteq> None)"
    "\<And>u. r_requester_user_id r = Some u \<Longrightarrow> user_principal d u = Some rp"
    "p_id rp = r_requester_principal_id r"
    "user_principal d (r_hauler_user_id r) = Some hp" "p_id hp = r_hauler_principal_id r"
    using shape k(1,2) unfolding reimb_shape_def by auto
  have "r_hauler_user_id r = f_hauler_user_id f"
    using user_principal_inj [OF refs s(5) k(5)] s(6) k(6) by simp
  moreover have "r_is_corp_funded r \<or> r_requester_user_id r = Some (li_requested_by_user_id i)"
  proof (cases "r_requester_user_id r")
    case None
    then show ?thesis using s by simp
  next
    case (Some u)
    then have "po = None" using s(2) by simp
    then have "user_principal d (li_requested_by_user_id i) = Some p"
      using k(3) by (simp add: payer_principal_def)
    then have "u = li_requested_by_user_id i"
      using user_principal_inj [OF refs s(3) [OF Some]] s(4) k(4) by simp
    then show ?thesis using Some by simp
  qed
  ultimately show ?thesis using that r k(1) st by (cases "r_status r") auto
qed

end
