(* ===== verification/Settlement_Steps.thy ===== *)
theory Settlement_Steps
  imports Lifecycle_Steps
begin

text \<open>
  Settlement keeps the invariant of the lifecycle: an item is flipped to settled only
  when the reimbursement of every live fulfillment on it is settled, whichever of
  the two ways the settlement took.
\<close>

section \<open>Rows with the same parties are the same row\<close>

lemma reimb_shapeE:
  assumes "reimb_shape d r"
  obtains po rp hp where "list_payer d (r_list_id r) = Some po"
    "r_is_corp_funded r = (po \<noteq> None)" "(r_requester_user_id r = None) = (po \<noteq> None)"
    "\<forall>u. r_requester_user_id r = Some u \<longrightarrow> user_principal d u = Some rp"
    "\<forall>c. po = Some c \<longrightarrow> corp_principal d c = Some rp"
    "p_id rp = r_requester_principal_id r"
    "user_principal d (r_hauler_user_id r) = Some hp" "p_id hp = r_hauler_principal_id r"
  using assms unfolding reimb_shape_def by (elim exE conjE) (rule that)

lemma reimb_same_key:
  assumes "reimb_shape d r" "reimb_shape d r'" "r_list_id r = r_list_id r'"
    "r_requester_user_id r = r_requester_user_id r'" "r_hauler_user_id r = r_hauler_user_id r'"
  shows "reimb_key r = reimb_key r'"
proof -
  obtain po rp hp where a: "list_payer d (r_list_id r) = Some po"
    "(r_requester_user_id r = None) = (po \<noteq> None)"
    "\<forall>u. r_requester_user_id r = Some u \<longrightarrow> user_principal d u = Some rp"
    "\<forall>c. po = Some c \<longrightarrow> corp_principal d c = Some rp"
    "p_id rp = r_requester_principal_id r"
    "user_principal d (r_hauler_user_id r) = Some hp" "p_id hp = r_hauler_principal_id r"
    using assms(1) by (rule reimb_shapeE)
  obtain po' rp' hp' where b: "list_payer d (r_list_id r') = Some po'"
    "\<forall>u. r_requester_user_id r' = Some u \<longrightarrow> user_principal d u = Some rp'"
    "\<forall>c. po' = Some c \<longrightarrow> corp_principal d c = Some rp'"
    "p_id rp' = r_requester_principal_id r'"
    "user_principal d (r_hauler_user_id r') = Some hp'" "p_id hp' = r_hauler_principal_id r'"
    using assms(2) by (rule reimb_shapeE)
  have "po' = po" using a(1) b(1) assms(3) by simp
  have "rp' = rp"
    using a(2-4) b(2,3) assms(4) \<open>po' = po\<close> by (cases "r_requester_user_id r"; cases po) auto
  then show ?thesis using a b assms(3,5) by (simp add: reimb_key_def)
qed

lemma same_parties_same_row:
  assumes inv: "life_inv d" and r: "r \<in> set (reimbursements d)" "r' \<in> set (reimbursements d)"
    and "r_list_id r = r_list_id r'" "r_requester_user_id r = r_requester_user_id r'"
      "r_hauler_user_id r = r_hauler_user_id r'"
  shows "r = r'"
proof -
  have "reimb_shape d r" "reimb_shape d r'" "distinct (map reimb_key (reimbursements d))"
    using life_invD(4) [OF inv] r by (auto simp: reimbs_ok_def)
  then show ?thesis using reimb_same_key assms(4-6) distinct_map_unique r by metis
qed

lemma same_list_same_funding:
  assumes inv: "life_inv d" and r: "r \<in> set (reimbursements d)" "r' \<in> set (reimbursements d)"
    and "r_list_id r = r_list_id r'"
  shows "r_is_corp_funded r = r_is_corp_funded r'"
    "(r_requester_user_id r = None) = r_is_corp_funded r"
proof -
  have "reimb_shape d r" "reimb_shape d r'"
    using life_invD(4) [OF inv] r by (auto simp: reimbs_ok_def)
  then show "r_is_corp_funded r = r_is_corp_funded r'" "(r_requester_user_id r = None) = r_is_corp_funded r"
    using assms(4) unfolding reimb_shape_def by auto
qed

section \<open>Flipping items whose debts are settled\<close>

lemma mark_settled_frame [simp]:
  "principals (mark_settled P t b now d) = principals d"
  "memberships (mark_settled P t b now d) = memberships d"
  "lists (mark_settled P t b now d) = lists d"
  "list_items (mark_settled P t b now d) = list_items d"
  "fulfillments (mark_settled P t b now d) = fulfillments d"
  "claims (mark_settled P t b now d) = claims d"
  "claim_items (mark_settled P t b now d) = claim_items d"
  "contracts (mark_settled P t b now d) = contracts d"
  by (simp_all add: mark_settled_def)

lemma mark_settled_inv: "life_inv d \<Longrightarrow> life_inv (mark_settled P t b now d)"
  by (rule life_inv_reimb_update [where d = d and P = P and
        f = "\<lambda>r. r \<lparr> r_status := RSettled, r_settled_at := Some t, r_settled_by_user_id := b, r_updated_at := now \<rparr>"])
    (simp_all add: same_life_def reimb_update_def reimb_key_def mark_settled_def)

interpretation settle: item_rewrite d "settle_items P d" P "\<lambda>i. i \<lparr> li_status := ISettled \<rparr>" for d P
  by unfold_locales (simp_all add: same_books_def item_update_def settle_items_def)

lemma settle_items_inv:
  assumes inv: "life_inv d"
    and full: "\<And>i. i \<in> set (list_items d) \<Longrightarrow> Q i \<Longrightarrow> IBought \<le> li_status i"
    and paid: "\<And>i f r. i \<in> set (list_items d) \<Longrightarrow> Q i \<Longrightarrow> f \<in> live_on d i \<Longrightarrow>
        r \<in> set (reimbursements d) \<Longrightarrow> r_hauler_user_id r = f_hauler_user_id f \<Longrightarrow>
        r_list_id r = li_list_id i \<Longrightarrow>
        r_is_corp_funded r \<or> r_requester_user_id r = Some (li_requested_by_user_id i) \<Longrightarrow>
        r_status r \<noteq> RPending"
  shows "life_inv (settle_items Q d)"
proof (rule life_invI)
  let ?d = "settle_items Q d"
  let ?g = "\<lambda>i. i \<lparr> li_status := ISettled \<rparr>"
  show "refs_ok ?d" "cover_ok ?d" "reimbs_ok ?d"
    using life_invD [OF inv] by (simp_all only: settle.rewrite_eqs)
  show "claims_ok ?d"
    using life_invD(2) [OF inv] claims_ok_cong [of ?d d] by (simp add: settle_items_def)
  have ok: "item_ok d i" if "i \<in> set (list_items d)" for i
    using inv that by (simp add: life_inv_def items_ok_def)
  have "item_ok ?d = item_ok d" by (rule item_ok_cong) (simp_all add: settle_items_def)
  moreover have "item_ok d (if Q i then ?g i else i)" if "i \<in> set (list_items d)" for i
    using ok [OF that] full [OF that] item_ok_full [OF ok [OF that]] by (auto simp: item_ok_def)
  ultimately show "items_ok ?d"
    using inv settle.ids_eq [of Q d] settle.items' [of Q d]
    by (simp add: items_ok_def life_inv_def)
  show "settled_ok ?d"
    unfolding settled_ok_def settle.items' same_booksD [OF settle.books] ball_upd_where
      settle.live_on_pick settle.item_cycle_pick
  proof (intro ballI impI)
    fix i f assume i: "i \<in> set (list_items d)" "li_status (if Q i then ?g i else i) = ISettled"
      and f: "f \<in> live_on d i"
    show "\<exists>r\<in>set (reimbursements d). item_cycle d i f = Some (reimb_key r) \<and> r_status r = RSettled"
    proof (cases "Q i")
      case True
      obtain r where r: "r \<in> set (reimbursements d)" "item_cycle d i f = Some (reimb_key r)"
        "r_list_id r = li_list_id i" "r_hauler_user_id r = f_hauler_user_id f"
        "r_is_corp_funded r \<or> r_requester_user_id r = Some (li_requested_by_user_id i)"
        "r_status r = RPending \<or> r_status r = RSettled"
        using covering_row [OF inv i(1) f] .
      then show ?thesis using paid [OF i(1) True f r(1,4,3,5)] by blast
    next
      case False
      then show ?thesis using life_invD(6) [OF inv] i f unfolding settled_ok_def by simp
    qed
  qed
qed

lemma auto_close_inv: "life_inv d \<Longrightarrow> life_inv (auto_close_list_if_complete lid now d)"
proof -
  assume inv: "life_inv d"
  let ?d = "auto_close_list_if_complete lid now d"
  have "list_payer ?d = list_payer d"
    by (rule list_payer_upd [where f = "\<lambda>l. l \<lparr> l_status := LClosed, l_updated_at := now \<rparr>"
          and P = "\<lambda>l. l_id l = lid \<and> l_status l = LOpen \<and> list_complete d lid"])
      (simp_all add: auto_close_list_if_complete_def)
  then show ?thesis
    by (intro life_inv_frame [OF _ _ inv]) (simp_all add: same_life_def auto_close_list_if_complete_def)
qed

section \<open>Manual settlement\<close>

lemma live_on_live_by: "f \<in> live_on d i \<Longrightarrow> live_by d (li_id i) (f_hauler_user_id f)"
  by (auto simp: live_on_def live_by_def)

lemma manual_flip_inv:
  assumes inv: "life_inv d" and r0: "r0 \<in> set (reimbursements d)" "r_status r0 = RSettled"
    and Q: "Q = (if r_is_corp_funded r0
                 then flip_corp_where d (r_list_id r0) (r_hauler_user_id r0) False
                 else flip_personal_where d (r_list_id r0) req (r_hauler_user_id r0) False)"
    and req: "r_is_corp_funded r0 \<or> r_requester_user_id r0 = Some req"
  shows "life_inv (settle_items Q d)"
proof (rule settle_items_inv [OF inv])
  fix i assume "Q i"
  then show "IBought \<le> li_status i"
    by (auto simp: Q flip_corp_where_def flip_personal_where_def flip_status_ok_def bought_le_iff
        split: if_splits)
next
  fix i f r
  assume i: "Q i" and f: "f \<in> live_on d i" and r: "r \<in> set (reimbursements d)"
    and h: "r_hauler_user_id r = f_hauler_user_id f" and l: "r_list_id r = li_list_id i"
    and q: "r_is_corp_funded r \<or> r_requester_user_id r = Some (li_requested_by_user_id i)"
  have li: "li_list_id i = r_list_id r0" and lb: "live_by d (li_id i) (r_hauler_user_id r)"
    using i live_on_live_by [OF f] h
    by (auto simp: Q flip_corp_where_def flip_personal_where_def split: if_splits)
  note fund = same_list_same_funding [OF inv r r0(1)] same_list_same_funding(2) [OF inv r0(1) r]
  have reqs: "r_requester_user_id r = r_requester_user_id r0"
  proof (cases "r_is_corp_funded r0")
    case True
    then show ?thesis using fund l li by simp
  next
    case False
    then show ?thesis using fund q req i l li by (auto simp: Q flip_personal_where_def)
  qed
  show "r_status r \<noteq> RPending"
  proof (cases "r_hauler_user_id r = r_hauler_user_id r0")
    case True
    then have "r = r0" using same_parties_same_row [OF inv r r0(1)] reqs l li by simp
    then show ?thesis using r0(2) by simp
  next
    case False
    then show ?thesis using i r l li lb reqs req
      by (auto simp: Q flip_corp_where_def flip_personal_where_def split: if_splits)
  qed
qed

lemma settle_manual_inv:
  assumes inv: "life_inv d" and sm: "settle_manual rid by_user now d = Inr d'"
  shows "life_inv d'"
proof -
  obtain r where r: "find_reimbursement d rid = Some r"
    using sm by (auto simp: settle_manual_def split: option.splits)
  then have mem: "r \<in> set (reimbursements d)" "r_id r = rid"
    by (auto simp: find_reimbursement_def dest: find_Some_memD)
  let ?d1 = "mark_settled (\<lambda>x. r_id x = rid) now (Some by_user) now d"
  let ?r0 = "r \<lparr> r_status := RSettled, r_settled_at := Some now, r_settled_by_user_id := Some by_user,
                r_updated_at := now \<rparr>"
  have inv1: "life_inv ?d1" by (rule mark_settled_inv [OF inv])
  have r0: "?r0 \<in> set (reimbursements ?d1)"
    using mem by (auto simp: mark_settled_def set_upd_where image_iff intro!: bexI [where x = r])
  obtain req Q where req: "r_is_corp_funded r \<or> r_requester_user_id r = Some req"
    and Q: "Q = (if r_is_corp_funded r
                 then flip_corp_where ?d1 (r_list_id r) (r_hauler_user_id r) False
                 else flip_personal_where ?d1 (r_list_id r) req (r_hauler_user_id r) False)"
    and d': "d' = auto_close_list_if_complete (r_list_id r) now (settle_items Q ?d1)"
    using sm r by (cases "r_is_corp_funded r"; cases "r_requester_user_id r")
      (auto simp: settle_manual_def Let_def flip_items_to_settled_def flip_items_to_settled_corp_def
        split: if_splits)
  have "life_inv (settle_items Q ?d1)"
    by (rule manual_flip_inv [OF inv1 r0, of Q req]) (use req Q in simp_all)
  then show ?thesis unfolding d' by (rule auto_close_inv)
qed

lemma settle_reimbursement_inv:
  assumes "life_inv d" "settle_reimbursement s rid now d = Inr d'"
  shows "life_inv d'"
proof -
  obtain uid d1 gid ev where "settle_manual rid uid now d = Inr d1" "d' = fire_webhook gid ev d1"
    using assms(2) by (auto simp: settle_reimbursement_def bind_res_eq_Inr split: if_splits sum.splits)
  then show ?thesis using settle_manual_inv [OF assms(1)] fire_webhook_inv by simp
qed

section \<open>Settlement by contract\<close>

lemma principal_user_of:
  assumes "refs_ok d" "user_principal d u = Some p"
  shows "principal_user d (p_id p) = Some u"
proof -
  have p: "p \<in> set (principals d)" "p_kind p = PUser" "p_user_id p = Some u"
    using user_principal_SomeD [OF assms(2)] by auto
  have "find_principal d (p_id p) = Some p"
    unfolding find_principal_def using find_keyI [OF _ p(1) refl, of p_id] assms(1) by (simp add: refs_ok_def)
  then show ?thesis using p by (simp add: principal_user_def)
qed

lemma shape_users:
  assumes "refs_ok d" "reimb_shape d r"
  shows "principal_user d (r_hauler_principal_id r) = Some (r_hauler_user_id r)"
    "\<not> r_is_corp_funded r \<Longrightarrow> principal_user d (r_requester_principal_id r) = r_requester_user_id r"
proof -
  obtain po rp hp where a: "list_payer d (r_list_id r) = Some po"
    "r_is_corp_funded r = (po \<noteq> None)" "(r_requester_user_id r = None) = (po \<noteq> None)"
    "\<forall>u. r_requester_user_id r = Some u \<longrightarrow> user_principal d u = Some rp"
    "p_id rp = r_requester_principal_id r"
    "user_principal d (r_hauler_user_id r) = Some hp" "p_id hp = r_hauler_principal_id r"
    using assms(2) by (rule reimb_shapeE)
  show "principal_user d (r_hauler_principal_id r) = Some (r_hauler_user_id r)"
    using principal_user_of [OF assms(1) a(6)] a(7) by simp
  show "principal_user d (r_requester_principal_id r) = r_requester_user_id r" if nc: "\<not> r_is_corp_funded r"
  proof -
    obtain u where u: "r_requester_user_id r = Some u" using nc a(2,3) by auto
    then have "user_principal d u = Some rp" using a(4) by blast
    then show ?thesis using principal_user_of [OF assms(1)] a(5) u by metis
  qed
qed

lemma contract_flip_inv:
  assumes inv: "life_inv d"
    and paid: "\<And>r. r \<in> set (reimbursements d) \<Longrightarrow> seen_bound vis cid r \<Longrightarrow> r_status r \<noteq> RPending"
  shows "life_inv (settle_items (contract_flip_where vis d cid) d)"
proof (rule settle_items_inv [OF inv])
  fix i assume "contract_flip_where vis d cid i"
  then show "IBought \<le> li_status i" by (auto simp: contract_flip_where_def bought_le_iff)
next
  fix i f r
  assume i: "contract_flip_where vis d cid i" and f: "f \<in> live_on d i" and r: "r \<in> set (reimbursements d)"
    and h: "r_hauler_user_id r = f_hauler_user_id f" and l: "r_list_id r = li_list_id i"
    and q: "r_is_corp_funded r \<or> r_requester_user_id r = Some (li_requested_by_user_id i)"
  obtain r0 where r0: "r0 \<in> set (reimbursements d)" "seen_bound vis cid r0" "li_list_id i = r_list_id r0"
    "r_is_corp_funded r0 \<or> principal_user d (r_requester_principal_id r0) = Some (li_requested_by_user_id i)"
    and others: "\<And>r2. r2 \<in> set (reimbursements d) \<Longrightarrow> r_list_id r2 = r_list_id r0 \<Longrightarrow>
        r_hauler_principal_id r2 \<noteq> r_hauler_principal_id r0 \<Longrightarrow>
        hauled_by d (li_id i) (r_hauler_principal_id r2) \<Longrightarrow> r_status r2 \<noteq> RPending"
    using i unfolding contract_flip_where_def by blast
  note refs = life_invD(1) [OF inv]
  have shapes: "reimb_shape d r" "reimb_shape d r0"
    using life_invD(4) [OF inv] r r0(1) by (auto simp: reimbs_ok_def)
  have hauled: "hauled_by d (li_id i) (r_hauler_principal_id r)"
    using shape_users(1) [OF refs shapes(1)] live_on_live_by [OF f] h by (simp add: hauled_by_def)
  show "r_status r \<noteq> RPending"
  proof (cases "r_hauler_principal_id r = r_hauler_principal_id r0")
    case False
    then show ?thesis using others [OF r _ False hauled] l r0(3) by simp
  next
    case True
    have "r_hauler_user_id r = r_hauler_user_id r0"
      using shape_users(1) [OF refs shapes(1)] shape_users(1) [OF refs shapes(2)] True by simp
    moreover have "r_requester_user_id r = r_requester_user_id r0"
      using same_list_same_funding [OF inv r r0(1)] same_list_same_funding(2) [OF inv r0(1) r]
        l r0(3,4) q shape_users(2) [OF refs shapes(2)] by (cases "r_is_corp_funded r0") auto
    ultimately have "r = r0" using same_parties_same_row [OF inv r r0(1)] l r0(3) by simp
    then show ?thesis using paid r0 by blast
  qed
qed

lemma fold_auto_close_inv:
  "life_inv d \<Longrightarrow> life_inv (fold (\<lambda>lid. auto_close_list_if_complete lid now) lids d)"
  by (induction lids arbitrary: d) (simp_all add: auto_close_inv)

lemma contracts_update_inv: "life_inv d \<Longrightarrow> life_inv (d \<lparr> contracts := cs \<rparr>)"
  by (rule life_inv_frame [of d]) (simp_all add: same_life_def)

lemma settle_via_contract_inv:
  assumes inv: "life_inv d" and sc: "settle_via_contract vis cid now d = Inr (info, d')"
  shows "life_inv d'"
proof -
  let ?hit = "\<lambda>r. seen_bound vis cid r \<and> r_status r = RPending"
  obtain c where c: "find_contract d cid = Some c"
    using sc by (auto simp: settle_via_contract_def split: option.splits)
  show ?thesis
  proof (cases "filter ?hit (reimbursements d) = []")
    case True
    then show ?thesis using sc c inv by (simp add: settle_via_contract_def Let_def)
  next
    case False
    obtain t cs lids where d': "d' = fold (\<lambda>lid. auto_close_list_if_complete lid now) lids
        ((settle_items (contract_flip_where vis (mark_settled ?hit t None now d) cid)
            (mark_settled ?hit t None now d)) \<lparr> contracts := cs \<rparr>)"
      using sc c False by (auto simp: settle_via_contract_def Let_def split: if_splits)
    have "life_inv (mark_settled ?hit t None now d)" by (rule mark_settled_inv [OF inv])
    moreover have "r_status r \<noteq> RPending"
      if "r \<in> set (reimbursements (mark_settled ?hit t None now d))" "seen_bound vis cid r" for r
      using that by (auto simp: mark_settled_def set_upd_where seen_bound_def bound_to_def split: if_splits)
    ultimately show ?thesis
      unfolding d' by (intro fold_auto_close_inv contracts_update_inv contract_flip_inv)
  qed
qed

lemma unbind_contract_inv:
  assumes "life_inv d"
  shows "life_inv (snd (unbind_contract cid now d))"
  by (rule life_inv_reimb_update [where d = d and P = "\<lambda>r. bound_to cid r \<and> r_status r = RPending" and
        f = "\<lambda>r. r \<lparr> r_contract_id := None, r_updated_at := now \<rparr>"])
    (simp_all add: unbind_contract_def Let_def same_life_def reimb_update_def reimb_key_def assms)

end
