(* ===== verification/Contract_Link.thy ===== *)
theory Contract_Link
  imports Settlement
begin

text \<open>
  Linking contracts to reimbursements (\<^verbatim>\<open>api/src/contracts.rs\<close>): confirming or
  rejecting a suggestion of the matcher, linking by hand and unlinking.  All four run in
  a request, so they see contracts, suggestions and reimbursements through the
  row-level security policies, and what they call of the crate \<^verbatim>\<open>settlement\<close> does too.
\<close>

section \<open>The locked row\<close>

record link_lock_row =
  lk_suggestion_state :: "contract_match_state option"
  lk_contract_id :: uuid
  lk_contract_type :: contract_type
  lk_contract_status :: contract_status
  lk_issuer_user_id :: "uuid option"
  lk_issuer_principal_id :: "uuid option"
  lk_assignee_user_id :: "uuid option"
  lk_assignee_principal_id :: "uuid option"
  lk_reimbursement_id :: uuid
  lk_reimbursement_status :: reimbursement_status
  lk_reimbursement_contract_id :: "uuid option"
  lk_hauler_user_id :: uuid
  lk_hauler_principal_id :: uuid
  lk_requester_user_id :: "uuid option"
  lk_requester_principal_id :: uuid
  lk_group_id :: uuid

definition link_row :: "contract_match_state option \<Rightarrow> contract \<Rightarrow> reimbursement \<Rightarrow> shopping_list \<Rightarrow> link_lock_row" where
  "link_row st c r l = \<lparr>
     lk_suggestion_state = st, lk_contract_id = ct_id c, lk_contract_type = ct_contract_type c,
     lk_contract_status = ct_status c, lk_issuer_user_id = ct_issuer_user_id c,
     lk_issuer_principal_id = ct_issuer_principal_id c,
     lk_assignee_user_id = ct_assignee_user_id c,
     lk_assignee_principal_id = ct_assignee_principal_id c,
     lk_reimbursement_id = r_id r, lk_reimbursement_status = r_status r,
     lk_reimbursement_contract_id = r_contract_id r, lk_hauler_user_id = r_hauler_user_id r,
     lk_hauler_principal_id = r_hauler_principal_id r,
     lk_requester_user_id = r_requester_user_id r,
     lk_requester_principal_id = r_requester_principal_id r, lk_group_id = l_group_id l \<rparr>"

text \<open>The join of a visible contract, a visible reimbursement and its list.\<close>

definition joined_row ::
  "db \<Rightarrow> uuid \<Rightarrow> contract_match_state option \<Rightarrow> uuid \<Rightarrow> uuid \<Rightarrow> link_lock_row option" where
  "joined_row d uid st cid rid =
     (case (rls_find_contract d uid cid, rls_find_reimbursement d uid rid) of
        (Some c, Some r) \<Rightarrow>
          (case rls_find_list d uid (r_list_id r) of None \<Rightarrow> None | Some l \<Rightarrow> Some (link_row st c r l))
      | _ \<Rightarrow> None)"

definition suggestion_row :: "db \<Rightarrow> uuid \<Rightarrow> uuid \<Rightarrow> link_lock_row option" where
  "suggestion_row d uid sid =
     (case rls_find_suggestion d uid sid of None \<Rightarrow> None
      | Some g \<Rightarrow> joined_row d uid (Some (sg_state g)) (sg_contract_id g) (sg_reimbursement_id g))"

section \<open>Validation\<close>

definition validate_link :: "db \<Rightarrow> link_lock_row \<Rightarrow> uuid \<Rightarrow> unit res" where
  "validate_link d ctx uid =
     (if lk_contract_type ctx \<noteq> ItemExchange
      then Inl (Conflict ''contract is not item_exchange'')
      else if lk_reimbursement_status ctx \<noteq> RPending \<or> lk_reimbursement_contract_id ctx \<noteq> None
      then Inl (Conflict ''reimbursement is no longer eligible'')
      else if lk_hauler_user_id ctx \<noteq> uid then Inl forbidden
      else if lk_issuer_user_id ctx \<noteq> None \<and> lk_issuer_user_id ctx \<noteq> Some uid then Inl forbidden
      else if lk_issuer_principal_id ctx \<noteq> Some (lk_hauler_principal_id ctx)
      then Inl (Conflict ''contract issuer does not match the reimbursement's hauler'')
      else if (case lk_assignee_principal_id ctx of None \<Rightarrow> False
               | Some a \<Rightarrow> a \<noteq> lk_requester_principal_id ctx)
      then Inl (Conflict ''contract assignee does not match the reimbursement's requester'')
      else if \<not> is_group_member d uid (lk_group_id ctx) then Inl forbidden
      else Inr ())"

section \<open>Confirming a suggestion\<close>

definition already_confirmed :: api_error where
  "already_confirmed = Conflict ''reimbursement already confirmed against another contract''"

text \<open>The unique index \<^verbatim>\<open>one_confirmed_suggestion_per_reimbursement\<close>: another confirmed row
  of the same reimbursement.\<close>

definition other_confirmed :: "db \<Rightarrow> uuid \<Rightarrow> (suggestion \<Rightarrow> bool) \<Rightarrow> bool" where
  "other_confirmed d rid other \<longleftrightarrow>
     (\<exists>g\<in>set (suggestions d). sg_reimbursement_id g = rid \<and> sg_state g = MConfirmed \<and> other g)"

definition decide :: "contract_match_state \<Rightarrow> instant \<Rightarrow> uuid \<Rightarrow> suggestion \<Rightarrow> suggestion" where
  "decide st now uid g =
     g \<lparr> sg_state := st, sg_decided_at := Some now, sg_decided_by_user_id := Some uid \<rparr>"

definition finalize_link ::
  "uuid \<Rightarrow> link_lock_row \<Rightarrow> instant \<Rightarrow> db \<Rightarrow> (bool \<times> contract_settled_reimbursement list \<times> db) res" where
  "finalize_link uid ctx now d =
     (let vis = is_list_member d uid;
          d1 = d \<lparr> reimbursements := upd_where (\<lambda>r. r_id r = lk_reimbursement_id ctx)
                 (\<lambda>r. r \<lparr> r_contract_id := Some (lk_contract_id ctx), r_updated_at := now \<rparr>)
                 (reimbursements d) \<rparr>
      in case recompute_contract_expected_total vis (lk_contract_id ctx) d1 of
           Inl _ \<Rightarrow> Inl (Internal ''recompute_contract_expected_total'')
         | Inr d2 \<Rightarrow>
             if is_terminal_success (lk_contract_status ctx)
             then (case settle_via_contract vis (lk_contract_id ctx) now d2 of
                     Inl _ \<Rightarrow> Inl (Internal ''settle_via_contract'')
                   | Inr (info, d3) \<Rightarrow> Inr (True, info, d3))
             else Inr (False, [], d2))"

record suggestion_decision =
  sd_suggestion_id :: uuid
  sd_state :: string
  sd_settled :: bool

definition do_confirm ::
  "uuid \<Rightarrow> uuid \<Rightarrow> instant \<Rightarrow> db \<Rightarrow>
     (suggestion_decision \<times> contract_settled_reimbursement list \<times> db) res" where
  "do_confirm uid sid now d =
     bind_res (ok_or not_found (suggestion_row d uid sid)) (\<lambda>ctx.
     if lk_suggestion_state ctx \<noteq> Some MPending
     then Inl (Conflict (''suggestion is already '' @
            (case lk_suggestion_state ctx of None \<Rightarrow> ''(unknown)''
             | Some st \<Rightarrow> contract_match_state_str st)))
     else bind_res (validate_link d ctx uid) (\<lambda>_.
     if other_confirmed d (lk_reimbursement_id ctx) (\<lambda>g. sg_id g \<noteq> sid) then Inl already_confirmed
     else bind_res (finalize_link uid ctx now
        (d \<lparr> suggestions := upd_where (\<lambda>g. sg_id g = sid) (decide MConfirmed now uid) (suggestions d) \<rparr>))
     (\<lambda>(settled, info, d').
     Inr (\<lparr> sd_suggestion_id = sid, sd_state = ''confirmed'', sd_settled = settled \<rparr>, info, d'))))"

definition settled_event :: "contract_settled_reimbursement \<Rightarrow> webhook_event" where
  "settled_event i = ReimbursementSettled (cs_list_destination i) (cs_requester_name i)
     (cs_hauler_name i) (cs_total_isk i)"

definition fire_settlement_webhooks :: "contract_settled_reimbursement list \<Rightarrow> db \<Rightarrow> db" where
  "fire_settlement_webhooks infos d =
     fold (\<lambda>i. fire_webhook (cs_group_id i) (settled_event i)) infos d"

definition confirm_suggestion :: "session \<Rightarrow> uuid \<Rightarrow> instant \<Rightarrow> db \<Rightarrow> db res" where
  "confirm_suggestion s sid now d =
     bind_res (current_user s) (\<lambda>uid.
     bind_res (do_confirm uid sid now d) (\<lambda>(_, info, d'). Inr (fire_settlement_webhooks info d')))"

section \<open>Rejecting a suggestion\<close>

definition do_reject :: "uuid \<Rightarrow> uuid \<Rightarrow> instant \<Rightarrow> db \<Rightarrow> (suggestion_decision \<times> db) res" where
  "do_reject uid sid now d =
     bind_res (ok_or not_found (suggestion_row d uid sid)) (\<lambda>ctx.
     if lk_suggestion_state ctx \<noteq> Some MPending
     then Inl (Conflict (''suggestion is already '' @
            (case lk_suggestion_state ctx of None \<Rightarrow> []
             | Some st \<Rightarrow> contract_match_state_str st)))
     else if \<not> (case lk_issuer_user_id ctx of Some i \<Rightarrow> i = uid | None \<Rightarrow> lk_hauler_user_id ctx = uid)
     then Inl forbidden
     else if \<not> is_group_member d uid (lk_group_id ctx) then Inl forbidden
     else Inr (\<lparr> sd_suggestion_id = sid, sd_state = ''rejected'', sd_settled = False \<rparr>,
        d \<lparr> suggestions := upd_where (\<lambda>g. sg_id g = sid) (decide MRejected now uid) (suggestions d) \<rparr>))"

definition reject_suggestion :: "session \<Rightarrow> uuid \<Rightarrow> instant \<Rightarrow> db \<Rightarrow> db res" where
  "reject_suggestion s sid now d =
     bind_res (current_user s) (\<lambda>uid. bind_res (do_reject uid sid now d) (\<lambda>(_, d'). Inr d'))"

section \<open>Linking by hand\<close>

text \<open>\<^verbatim>\<open>INSERT .. ON CONFLICT (contract_id, reimbursement_id) DO UPDATE\<close>; the score 1.0000 is
  10000 ten-thousandths.\<close>

definition confirm_pair :: "uuid \<Rightarrow> uuid \<Rightarrow> uuid \<Rightarrow> uuid \<Rightarrow> instant \<Rightarrow> db \<Rightarrow> db res" where
  "confirm_pair new_id cid rid uid now d =
     (let same = (\<lambda>g. sg_contract_id g = cid \<and> sg_reimbursement_id g = rid) in
      if other_confirmed d rid (\<lambda>g. sg_contract_id g \<noteq> cid) then Inl already_confirmed
      else if \<exists>g\<in>set (suggestions d). same g
      then Inr (d \<lparr> suggestions := upd_where same (decide MConfirmed now uid) (suggestions d) \<rparr>)
      else if new_id \<in> sg_id ` set (suggestions d) then Inl db_unique_violation
      else Inr (d \<lparr> suggestions := suggestions d @
             [\<lparr> sg_id = new_id, sg_contract_id = cid, sg_reimbursement_id = rid, sg_score = 10000,
                sg_exact_match = False, sg_state = MConfirmed, sg_decided_at = Some now,
                sg_decided_by_user_id = Some uid \<rparr>] \<rparr>))"

definition do_manual_link ::
  "uuid \<Rightarrow> uuid \<Rightarrow> uuid \<Rightarrow> uuid \<Rightarrow> instant \<Rightarrow> db \<Rightarrow>
     (suggestion_decision \<times> contract_settled_reimbursement list \<times> db) res" where
  "do_manual_link uid cid rid new_id now d =
     bind_res (ok_or not_found (joined_row d uid None cid rid)) (\<lambda>ctx.
     bind_res (validate_link d ctx uid) (\<lambda>_.
     bind_res (confirm_pair new_id (lk_contract_id ctx) (lk_reimbursement_id ctx) uid now d) (\<lambda>d1.
     bind_res (finalize_link uid ctx now d1) (\<lambda>(settled, info, d').
     Inr (\<lparr> sd_suggestion_id = lk_reimbursement_id ctx, sd_state = ''confirmed'',
            sd_settled = settled \<rparr>, info, d')))))"

definition manual_link :: "session \<Rightarrow> uuid \<Rightarrow> uuid \<Rightarrow> uuid \<Rightarrow> instant \<Rightarrow> db \<Rightarrow> db res" where
  "manual_link s cid rid new_id now d =
     bind_res (current_user s) (\<lambda>uid.
     bind_res (do_manual_link uid cid rid new_id now d)
       (\<lambda>(_, info, d'). Inr (fire_settlement_webhooks info d')))"

section \<open>Unlinking\<close>

definition active_ambassador :: "db \<Rightarrow> uuid \<Rightarrow> uuid \<Rightarrow> bool" where
  "active_ambassador d uid corp \<longleftrightarrow>
     is_corp_member d uid corp
   \<and> (\<exists>ca\<in>set (ambassadors d). ca_corp_id ca = corp \<and> ca_disabled_at ca = None
        \<and> (\<exists>ch\<in>set (characters d). ch_id ch = ca_character_id ca \<and> ch_user_id ch = uid))"

definition may_unlink :: "db \<Rightarrow> uuid \<Rightarrow> contract \<Rightarrow> bool" where
  "may_unlink d uid c =
     (case ct_issuer_user_id c of
        Some i \<Rightarrow> i = uid
      | None \<Rightarrow> if ct_assignee_user_id c = Some uid then True
                else (case ct_source_corp_id c of Some corp \<Rightarrow> active_ambassador d uid corp
                      | None \<Rightarrow> False))"

text \<open>The isolation query joins \<^verbatim>\<open>reimbursements\<close> and \<^verbatim>\<open>lists\<close>, both behind their policies.\<close>

definition outside_group :: "db \<Rightarrow> uuid \<Rightarrow> uuid \<Rightarrow> bool" where
  "outside_group d uid cid \<longleftrightarrow>
     (\<exists>r\<in>set (reimbursements d). seen_bound (is_list_member d uid) cid r
        \<and> (\<exists>l\<in>set (lists d). l_id l = r_list_id r \<and> is_group_member d uid (l_group_id l)
             \<and> \<not> (\<exists>m\<in>set (memberships d). gm_group_id m = l_group_id l \<and> gm_user_id m = uid)))"

definition do_unlink :: "uuid \<Rightarrow> uuid \<Rightarrow> instant \<Rightarrow> db \<Rightarrow> (suggestion_decision \<times> db) res" where
  "do_unlink uid cid now d =
     bind_res (ok_or not_found (rls_find_contract d uid cid)) (\<lambda>c.
     if \<not> may_unlink d uid c then Inl forbidden
     else if outside_group d uid cid then Inl forbidden
     else if is_terminal_success (ct_status c)
     then Inl (Conflict ''cannot unlink a finished contract; that would unwind a settlement'')
     else let vis = is_list_member d uid;
              d1 = d \<lparr> reimbursements := upd_where
                     (\<lambda>r. seen_bound vis cid r \<and> r_status r = RPending)
                     (\<lambda>r. r \<lparr> r_contract_id := None, r_updated_at := now \<rparr>) (reimbursements d),
                     suggestions := upd_where
                     (\<lambda>g. suggestion_visible d uid g \<and> sg_contract_id g = cid \<and> sg_state g = MConfirmed)
                     (\<lambda>g. g \<lparr> sg_state := MSuperseded, sg_decided_at := Some now \<rparr>) (suggestions d) \<rparr>
          in case recompute_contract_expected_total vis cid d1 of
               Inl _ \<Rightarrow> Inl (Internal ''recompute_contract_expected_total'')
             | Inr d2 \<Rightarrow> Inr (\<lparr> sd_suggestion_id = cid, sd_state = ''unlinked'', sd_settled = False \<rparr>, d2))"

definition unlink_contract :: "session \<Rightarrow> uuid \<Rightarrow> instant \<Rightarrow> db \<Rightarrow> db res" where
  "unlink_contract s cid now d =
     bind_res (current_user s) (\<lambda>uid. bind_res (do_unlink uid cid now d) (\<lambda>(_, d'). Inr d'))"

section \<open>What a successful link was checked for\<close>

lemma rls_find_contract_SomeD:
  "rls_find_contract d uid cid = Some c \<Longrightarrow> c \<in> set (contracts d) \<and> ct_id c = cid \<and> contract_visible d uid c"
  unfolding rls_find_contract_def by (drule find_Some_memD) auto

lemma rls_find_reimbursement_SomeD:
  "rls_find_reimbursement d uid rid = Some r \<Longrightarrow>
     r \<in> set (reimbursements d) \<and> r_id r = rid \<and> is_list_member d uid (r_list_id r)"
  unfolding rls_find_reimbursement_def by (drule find_Some_memD) auto

lemma rls_find_suggestion_SomeD:
  "rls_find_suggestion d uid sid = Some g \<Longrightarrow>
     g \<in> set (suggestions d) \<and> sg_id g = sid \<and> suggestion_visible d uid g"
  unfolding rls_find_suggestion_def by (drule find_Some_memD) auto

lemma joined_row_SomeD:
  assumes "joined_row d uid st cid rid = Some ctx"
  obtains c r l where "c \<in> set (contracts d)" "ct_id c = cid" "contract_visible d uid c"
    "r \<in> set (reimbursements d)" "r_id r = rid"
    "l \<in> set (lists d)" "l_id l = r_list_id r" "is_group_member d uid (l_group_id l)"
    "ctx = link_row st c r l"
  using assms
  by (auto simp: joined_row_def split: option.splits
      dest!: rls_find_contract_SomeD rls_find_reimbursement_SomeD rls_find_list_SomeD)

lemma validate_link_Inr:
  "validate_link d ctx uid = Inr x \<longleftrightarrow>
     lk_contract_type ctx = ItemExchange \<and> lk_reimbursement_status ctx = RPending
   \<and> lk_reimbursement_contract_id ctx = None \<and> lk_hauler_user_id ctx = uid
   \<and> (lk_issuer_user_id ctx = None \<or> lk_issuer_user_id ctx = Some uid)
   \<and> lk_issuer_principal_id ctx = Some (lk_hauler_principal_id ctx)
   \<and> (lk_assignee_principal_id ctx = None
        \<or> lk_assignee_principal_id ctx = Some (lk_requester_principal_id ctx))
   \<and> is_group_member d uid (lk_group_id ctx)"
  by (cases "lk_assignee_principal_id ctx") (auto simp: validate_link_def)

lemma outside_group_never: "\<not> outside_group d uid cid"
  by (auto simp: outside_group_def is_group_member_def)

end
