(* ===== verification/Contract_Worker.thy ===== *)
theory Contract_Worker
  imports Contract_Link "HOL-Library.AList" "HOL-Library.Option_ord"
begin

text \<open>
  The worker's contract jobs (\<^verbatim>\<open>worker/src/jobs/contracts.rs\<close>,
  \<^verbatim>\<open>corp_contracts.rs\<close>, \<^verbatim>\<open>contracts_common.rs\<close>) and the resolution of ESI
  parties to principals (\<^verbatim>\<open>domain/src/principals.rs\<close>).  What the ESI client answers, the
  random part of the jitter and the generated keys are arguments.  The worker's database
  role bypasses row-level security.
\<close>

section \<open>ESI answers\<close>

record esi_contract =
  ec_contract_id :: int
  ec_contract_type :: string
  ec_status :: string
  ec_issuer_id :: int
  ec_issuer_corporation_id :: int
  ec_for_corporation :: bool
  ec_assignee_id :: "int option"
  ec_price :: "decimal option"
  ec_reward :: "decimal option"
  ec_collateral :: "decimal option"
  ec_date_issued :: instant
  ec_date_expired :: instant
  ec_date_accepted :: "instant option"
  ec_date_completed :: "instant option"
  ec_start_location_id :: "int option"
  ec_end_location_id :: "int option"

text \<open>A call through a stored token: no usable token, an answer, 403, or another error.\<close>

datatype 'a esi_reply = NoClient | EsiOk 'a | Esi403 | EsiError

definition isk_or_zero :: "decimal option \<Rightarrow> decimal" where
  "isk_or_zero v = (case v of None \<Rightarrow> Dec 0 0 | Some x \<Rightarrow> x)"

definition jitter_secs :: "int \<Rightarrow> int \<Rightarrow> int" where
  "jitter_secs base rnd =
     (if base = 0 then 0
      else let span = max (base div 10) 1 in rnd mod (2 * span + 1) - span)"

section \<open>Principal resolution\<close>

record principal_index =
  pi_corp_by_esi_id :: "(int \<times> uuid) list"
  pi_user_by_character_id :: "(int \<times> uuid) list"
  pi_principal_by_user_id :: "(uuid \<times> principal) list"
  pi_principal_by_corp_id :: "(uuid \<times> principal) list"

definition empty_index :: principal_index where
  "empty_index = \<lparr> pi_corp_by_esi_id = [], pi_user_by_character_id = [],
     pi_principal_by_user_id = [], pi_principal_by_corp_id = [] \<rparr>"

definition add_user :: "int \<Rightarrow> uuid \<Rightarrow> principal \<Rightarrow> principal_index \<Rightarrow> principal_index" where
  "add_user ch uid p idx = idx \<lparr>
     pi_user_by_character_id := AList.update ch uid (pi_user_by_character_id idx),
     pi_principal_by_user_id := AList.update uid p (pi_principal_by_user_id idx) \<rparr>"

definition add_corp :: "int \<Rightarrow> uuid \<Rightarrow> principal \<Rightarrow> principal_index \<Rightarrow> principal_index" where
  "add_corp esi corp p idx = idx \<lparr>
     pi_corp_by_esi_id := AList.update esi corp (pi_corp_by_esi_id idx),
     pi_principal_by_corp_id := AList.update corp p (pi_principal_by_corp_id idx) \<rparr>"

record esi_contract_parties =
  ep_issuer_id :: int
  ep_issuer_corporation_id :: int
  ep_for_corporation :: bool
  ep_assignee_id :: "int option"

record resolved_parties =
  rp_issuer_principal_id :: "uuid option"
  rp_assignee_principal_id :: "uuid option"
  rp_assignee_unknown :: bool

definition corp_lookup :: "principal_index \<Rightarrow> uuid \<Rightarrow> uuid option" where
  "corp_lookup idx corp = map_option p_id (map_of (pi_principal_by_corp_id idx) corp)"

definition user_lookup :: "principal_index \<Rightarrow> uuid \<Rightarrow> uuid option" where
  "user_lookup idx uid = map_option p_id (map_of (pi_principal_by_user_id idx) uid)"

definition resolve_contract_parties :: "esi_contract_parties \<Rightarrow> principal_index \<Rightarrow> resolved_parties" where
  "resolve_contract_parties c idx =
     (let issuer =
            (if ep_for_corporation c
             then Option.bind (map_of (pi_corp_by_esi_id idx) (ep_issuer_corporation_id c)) (corp_lookup idx)
             else Option.bind (map_of (pi_user_by_character_id idx) (ep_issuer_id c)) (user_lookup idx));
          (assignee, unknown) =
            (case ep_assignee_id c of
               None \<Rightarrow> (None, False)
             | Some e \<Rightarrow>
                 (case map_of (pi_corp_by_esi_id idx) e of
                    Some corp \<Rightarrow> (corp_lookup idx corp, corp_lookup idx corp = None)
                  | None \<Rightarrow>
                      (case map_of (pi_user_by_character_id idx) e of
                         Some uid \<Rightarrow> (user_lookup idx uid, user_lookup idx uid = None)
                       | None \<Rightarrow> (None, True))))
      in \<lparr> rp_issuer_principal_id = issuer, rp_assignee_principal_id = assignee,
           rp_assignee_unknown = unknown \<rparr>)"

text \<open>Building the index: characters and corps among the given ids whose owner has a principal.\<close>

definition index_character :: "db \<Rightarrow> character \<Rightarrow> principal_index \<Rightarrow> principal_index" where
  "index_character d ch idx =
     (case user_principal d (ch_user_id ch) of
        None \<Rightarrow> idx
      | Some p \<Rightarrow> add_user (ch_character_id ch) (ch_user_id ch)
          \<lparr> p_id = p_id p, p_kind = PUser, p_user_id = Some (ch_user_id ch), p_corp_id = None \<rparr> idx)"

definition index_corp :: "db \<Rightarrow> corp \<Rightarrow> principal_index \<Rightarrow> principal_index" where
  "index_corp d cp idx =
     (case corp_principal d (cp_id cp) of
        None \<Rightarrow> idx
      | Some p \<Rightarrow> add_corp (cp_esi_corporation_id cp) (cp_id cp)
          \<lparr> p_id = p_id p, p_kind = PCorp, p_user_id = None, p_corp_id = Some (cp_id cp) \<rparr> idx)"

definition build_principal_index :: "db \<Rightarrow> int list \<Rightarrow> principal_index" where
  "build_principal_index d eve_ids =
     fold (index_corp d) (filter (\<lambda>cp. cp_esi_corporation_id cp \<in> set eve_ids) (corps d))
       (fold (index_character d) (filter (\<lambda>ch. ch_character_id ch \<in> set eve_ids) (characters d))
          empty_index)"

definition find_user_for_principal :: "principal_index \<Rightarrow> uuid \<Rightarrow> uuid option" where
  "find_user_for_principal idx pid =
     Option.bind (find (\<lambda>p. p_id p = pid) (map snd (pi_principal_by_user_id idx))) p_user_id"

section \<open>Storing polled contracts\<close>

record upserted_contract =
  uc_contract_id :: uuid
  uc_esi_contract_id :: int
  uc_status :: contract_status
  uc_status_changed :: bool

definition eve_ids :: "esi_contract list \<Rightarrow> int list" where
  "eve_ids cs = concat (map (\<lambda>c. ec_issuer_id c #
     (case ec_assignee_id c of None \<Rightarrow> [] | Some a \<Rightarrow> [a]) @ [ec_issuer_corporation_id c]) cs)"

definition upsert_of ::
  "principal_index \<Rightarrow> uuid option \<Rightarrow> contract_type \<Rightarrow> contract_status \<Rightarrow> esi_contract \<Rightarrow> contract_upsert" where
  "upsert_of idx src ty st c =
     (let parties = resolve_contract_parties
            \<lparr> ep_issuer_id = ec_issuer_id c, ep_issuer_corporation_id = ec_issuer_corporation_id c,
              ep_for_corporation = ec_for_corporation c, ep_assignee_id = ec_assignee_id c \<rparr> idx
      in \<lparr> cu_esi_contract_id = ec_contract_id c,
           cu_issuer_character_id = ec_issuer_id c,
           cu_issuer_user_id = Option.bind (rp_issuer_principal_id parties) (find_user_for_principal idx),
           cu_assignee_character_id = ec_assignee_id c,
           cu_assignee_user_id = Option.bind (rp_assignee_principal_id parties) (find_user_for_principal idx),
           cu_issuer_principal_id = rp_issuer_principal_id parties,
           cu_assignee_principal_id = rp_assignee_principal_id parties,
           cu_contract_type = ty, cu_status = st,
           cu_price_isk = isk_or_zero (ec_price c), cu_reward_isk = isk_or_zero (ec_reward c),
           cu_collateral_isk = isk_or_zero (ec_collateral c),
           cu_date_issued = ec_date_issued c, cu_date_expired = Some (ec_date_expired c),
           cu_date_accepted = ec_date_accepted c, cu_date_completed = ec_date_completed c,
           cu_start_location_id = ec_start_location_id c, cu_end_location_id = ec_end_location_id c,
           cu_source_corp_id = src \<rparr>)"

text \<open>One iteration of the loop: \<open>Inr None\<close> is a contract that is skipped.  \<open>keep\<close> is the
  affiliation guard of the corp job.\<close>

definition ingest_one ::
  "principal_index \<Rightarrow> uuid option \<Rightarrow> (esi_contract \<Rightarrow> bool) \<Rightarrow> uuid \<Rightarrow> esi_contract \<Rightarrow> db \<Rightarrow>
     settlement_error + upserted_contract option \<times> db" where
  "ingest_one idx src keep new_id c d =
     (case contract_type_from_str (ec_contract_type c) of Inl _ \<Rightarrow> Inr (None, d) | Inr ty \<Rightarrow>
      if ty \<noteq> ItemExchange then Inr (None, d)
      else case contract_status_from_str (ec_status c) of Inl _ \<Rightarrow> Inr (None, d) | Inr st \<Rightarrow>
      if \<not> keep c then Inr (None, d)
      else let u = upsert_of idx src ty st c in
      if cu_issuer_principal_id u = None \<and> cu_assignee_principal_id u = None then Inr (None, d)
      else bind_res (upsert_contract new_id u d) (\<lambda>(oc, d').
        Inr (Some \<lparr> uc_contract_id = co_contract_id oc, uc_esi_contract_id = ec_contract_id c,
                    uc_status = co_current_status oc, uc_status_changed = status_changed oc \<rparr>, d')))"

fun ingest_all ::
  "principal_index \<Rightarrow> uuid option \<Rightarrow> (esi_contract \<Rightarrow> bool) \<Rightarrow> (uuid \<times> esi_contract) list \<Rightarrow> db \<Rightarrow>
     settlement_error + upserted_contract list \<times> db" where
  "ingest_all idx src keep [] d = Inr ([], d)"
| "ingest_all idx src keep ((new_id, c) # cs) d =
     bind_res (ingest_one idx src keep new_id c d) (\<lambda>(x, d1).
     bind_res (ingest_all idx src keep cs d1) (\<lambda>(xs, d2).
     Inr ((case x of None \<Rightarrow> xs | Some u \<Rightarrow> u # xs), d2)))"

section \<open>Polling a character\<close>

definition CONTRACTS_SCOPE :: string where
  "CONTRACTS_SCOPE = ''esi-contracts.read_character_contracts.v1''"

definition advance_cursor :: "uuid \<Rightarrow> int \<Rightarrow> int \<Rightarrow> instant \<Rightarrow> db \<Rightarrow> db" where
  "advance_cursor chid interval rnd now d =
     d \<lparr> characters := upd_where (\<lambda>ch. ch_id ch = chid)
            (\<lambda>ch. ch \<lparr> ch_contracts_last_polled_at := Some now,
                      ch_contracts_next_poll_at := Some (now + interval + jitter_secs interval rnd) \<rparr>)
            (characters d) \<rparr>"

text \<open>The answer is the error or the upserted contracts, with the state that was committed:
  the cursor moves also when ESI fails.\<close>

definition poll_one_character ::
  "bool \<Rightarrow> (uuid \<times> esi_contract) list esi_reply \<Rightarrow> uuid \<Rightarrow> int \<Rightarrow> int \<Rightarrow> instant \<Rightarrow> db \<Rightarrow>
     (unit + upserted_contract list) \<times> db" where
  "poll_one_character has_budget reply chid interval rnd now d =
     (if \<not> has_budget then (Inr [], d)
      else case reply of
        NoClient \<Rightarrow> (Inl (), d)
      | Esi403 \<Rightarrow>
          (Inr [], d \<lparr> characters := upd_where (\<lambda>ch. ch_id ch = chid)
             (\<lambda>ch. ch \<lparr> ch_scopes := filter (\<lambda>sc. sc \<noteq> CONTRACTS_SCOPE) (ch_scopes ch),
                       ch_contracts_next_poll_at := None \<rparr>) (characters d) \<rparr>)
      | EsiError \<Rightarrow> (Inl (), advance_cursor chid interval rnd now d)
      | EsiOk cs \<Rightarrow>
          (case ingest_all (build_principal_index d (eve_ids (map snd cs))) None (\<lambda>_. True) cs d of
             Inl _ \<Rightarrow> (Inl (), d)
           | Inr (out, d1) \<Rightarrow> (Inr out, advance_cursor chid interval rnd now d1)))"

section \<open>Polling a corporation\<close>

definition CORP_CONTRACTS_SCOPE :: string where
  "CORP_CONTRACTS_SCOPE = ''esi-contracts.read_corporation_contracts.v1''"

definition MAX_BACKOFF_SECS :: int where
  "MAX_BACKOFF_SECS = 86400"

definition usable_ambassadors :: "db \<Rightarrow> uuid \<Rightarrow> string \<Rightarrow> instant \<Rightarrow> corp_ambassador list" where
  "usable_ambassadors d corp scope now =
     take 5 (sort_key ca_last_used_at (filter (\<lambda>ca.
       ca_corp_id ca = corp \<and> ca_disabled_at ca = None
     \<and> (\<exists>ch\<in>set (characters d). ch_id ch = ca_character_id ca \<and> scope \<in> set (ch_scopes ch))
     \<and> (case ca_last_auth_error_at ca of None \<Rightarrow> True | Some t \<Rightarrow> t < now - 3600)) (ambassadors d)))"

definition mark_ambassador ::
  "(corp_ambassador \<Rightarrow> corp_ambassador) \<Rightarrow> uuid \<Rightarrow> uuid \<Rightarrow> db \<Rightarrow> db" where
  "mark_ambassador f corp chid d =
     d \<lparr> ambassadors := upd_where (\<lambda>ca. ca_corp_id ca = corp \<and> ca_character_id ca = chid) f
            (ambassadors d) \<rparr>"

definition advance_corp_cursor :: "uuid \<Rightarrow> int \<Rightarrow> int \<Rightarrow> instant \<Rightarrow> db \<Rightarrow> db" where
  "advance_corp_cursor corp interval rnd now d =
     d \<lparr> corps := upd_where (\<lambda>cp. cp_id cp = corp)
            (\<lambda>cp. cp \<lparr> cp_contracts_last_polled_at := Some now,
                      cp_contracts_next_poll_at := Some (now + interval + jitter_secs interval rnd) \<rparr>)
            (corps d) \<rparr>"

text \<open>The ambassadors are tried in turn; \<open>Inl ()\<close> is an error other than 403, which ends the poll.\<close>

fun try_ambassadors ::
  "(uuid \<Rightarrow> 'a esi_reply) \<Rightarrow> uuid \<Rightarrow> instant \<Rightarrow> corp_ambassador list \<Rightarrow> db \<Rightarrow> (unit + 'a option) \<times> db" where
  "try_ambassadors reply corp now [] d = (Inr None, d)"
| "try_ambassadors reply corp now (ca # cas) d =
     (case reply (ca_character_id ca) of
        NoClient \<Rightarrow> try_ambassadors reply corp now cas d
      | EsiOk v \<Rightarrow> (Inr (Some v), mark_ambassador (\<lambda>x. x \<lparr> ca_last_used_at := Some now \<rparr>)
                      corp (ca_character_id ca) d)
      | Esi403 \<Rightarrow> try_ambassadors reply corp now cas
                   (mark_ambassador (\<lambda>x. x \<lparr> ca_last_auth_error_at := Some now \<rparr>)
                      corp (ca_character_id ca) d)
      | EsiError \<Rightarrow> (Inl (), d))"

definition affiliated :: "int \<Rightarrow> esi_contract \<Rightarrow> bool" where
  "affiliated esi_corp c \<longleftrightarrow> ec_issuer_corporation_id c = esi_corp \<or> ec_assignee_id c = Some esi_corp"

definition poll_one_corp ::
  "bool \<Rightarrow> (uuid \<Rightarrow> (uuid \<times> esi_contract) list esi_reply) \<Rightarrow> uuid \<Rightarrow> int \<Rightarrow> int \<Rightarrow> int \<Rightarrow> instant \<Rightarrow> db \<Rightarrow>
     (unit + upserted_contract list) \<times> db" where
  "poll_one_corp has_budget reply corp esi_corp interval rnd now d =
     (if \<not> has_budget then (Inr [], d)
      else let cas = usable_ambassadors d corp CORP_CONTRACTS_SCOPE now in
      if cas = [] then (Inr [], advance_corp_cursor corp interval rnd now d)
      else case try_ambassadors reply corp now cas d of
        (Inl _, d1) \<Rightarrow> (Inl (), advance_corp_cursor corp interval rnd now d1)
      | (Inr None, d1) \<Rightarrow>
          (Inr [], advance_corp_cursor corp (min interval MAX_BACKOFF_SECS) rnd now
             (d1 \<lparr> corps := upd_where (\<lambda>cp. cp_id cp = corp)
                      (\<lambda>cp. cp \<lparr> cp_last_auth_error_at := Some now \<rparr>) (corps d1) \<rparr>))
      | (Inr (Some cs), d1) \<Rightarrow>
          (case ingest_all (build_principal_index d1 (eve_ids (map snd cs))) (Some corp)
                  (affiliated esi_corp) cs d1 of
             Inl _ \<Rightarrow> (Inl (), d1)
           | Inr (out, d2) \<Rightarrow> (Inr out, advance_corp_cursor corp interval rnd now d2)))"

section \<open>Storing the items of a contract\<close>

record esi_contract_item =
  ei_record_id :: int
  ei_type_id :: int
  ei_quantity :: int
  ei_is_included :: bool

definition store_items :: "uuid \<Rightarrow> esi_contract_item list \<Rightarrow> instant \<Rightarrow> db \<Rightarrow> settlement_error + db" where
  "store_items cid items now d =
     (if \<not> distinct (map ei_record_id items) then Inl (SDb ''unique violation'')
      else Inr (d \<lparr> contract_items := del_where (\<lambda>x. cti_contract_id x = cid) (contract_items d) @
             map (\<lambda>it. \<lparr> cti_contract_id = cid, cti_record_id = ei_record_id it,
                         cti_type_id = ei_type_id it, cti_quantity = ei_quantity it,
                         cti_is_included = ei_is_included it \<rparr>) items,
           contracts := upd_where (\<lambda>c. ct_id c = cid)
             (\<lambda>c. c \<lparr> ct_items_synced_at := Some now \<rparr>) (contracts d) \<rparr>))"

definition sync_items_for ::
  "bool \<Rightarrow> (uuid \<Rightarrow> esi_contract_item list esi_reply) \<Rightarrow> contract \<Rightarrow> instant \<Rightarrow> db \<Rightarrow> (unit + bool) \<times> db" where
  "sync_items_for has_budget reply row now d =
     (if \<not> has_budget then (Inr False, d)
      else
        let candidates = ct_issuer_character_id row #
              (case ct_assignee_character_id row of None \<Rightarrow> [] | Some a \<Rightarrow> [a]);
            pick = find (\<lambda>ch. ch_character_id ch \<in> set candidates \<and> CONTRACTS_SCOPE \<in> set (ch_scopes ch))
                     (characters d);
            via = (case pick of
                Some ch \<Rightarrow> Some (ch_id ch)
              | None \<Rightarrow> (case ct_source_corp_id row of
                    Some corp \<Rightarrow> (case usable_ambassadors d corp CORP_CONTRACTS_SCOPE now of
                        ca # _ \<Rightarrow> Some (ca_character_id ca) | [] \<Rightarrow> None)
                  | None \<Rightarrow> None))
        in case via of
             None \<Rightarrow> (Inr False, d)
           | Some chid \<Rightarrow>
               (case reply chid of
                  EsiOk items \<Rightarrow>
                    (case store_items (ct_id row) items now d of
                       Inl _ \<Rightarrow> (Inl (), d) | Inr d' \<Rightarrow> (Inr True, d'))
                | _ \<Rightarrow> (Inl (), d)))"

section \<open>Terminal contracts\<close>

text \<open>The two branches are one transaction each; an error rolls it back.\<close>

definition handle_contract_terminal :: "upserted_contract \<Rightarrow> instant \<Rightarrow> db \<Rightarrow> settlement_error + db" where
  "handle_contract_terminal u now d =
     (if is_terminal_success (uc_status u)
      then bind_res (settle_via_contract all_lists (uc_contract_id u) now d)
             (\<lambda>(infos, d'). Inr (fire_settlement_webhooks infos d'))
      else if is_terminal_failure (uc_status u)
      then Inr (snd (unbind_contract (uc_contract_id u) now d))
      else Inr d)"

definition handle_upserts :: "upserted_contract list \<Rightarrow> instant \<Rightarrow> db \<Rightarrow> db" where
  "handle_upserts us now d =
     fold (\<lambda>u d. if \<not> uc_status_changed u then d
                 else case handle_contract_terminal u now d of Inl _ \<Rightarrow> d | Inr d' \<Rightarrow> d') us d"

end
