(* ===== verification/Matcher.thy ===== *)
theory Matcher
  imports Contract_Worker
begin

text \<open>
  The contract matcher (\<^verbatim>\<open>worker/src/jobs/contracts/match.rs\<close>): it compares the items
  of a contract with what was bought under each pending, unbound reimbursement between
  the contract's parties, and stores a suggestion for every pair that covers at least half.

  A score is kept as the pair of the covered and the fulfilled quantity.  The code divides
  them as \<^verbatim>\<open>f64\<close> and compares with 0.5; for sums below \<open>2 ^ 53\<close> that comparison is the exact
  one used here.  The stored score, \<^verbatim>\<open>Decimal::from_f64_retain(..).round_dp(4)\<close>, is the
  parameter \<open>round4\<close>, in ten-thousandths.
\<close>

section \<open>Totals by type\<close>

definition totals :: "(int \<times> qty) list \<Rightarrow> (int \<times> qty) list" where
  "totals ps = map (\<lambda>t. (t, sum_where (\<lambda>p. fst p = t) snd ps)) (remdups (map fst ps))"

definition contract_totals :: "db \<Rightarrow> uuid \<Rightarrow> (int \<times> qty) list" where
  "contract_totals d cid =
     totals (map (\<lambda>x. (cti_type_id x, cti_quantity x))
       (filter (\<lambda>x. cti_contract_id x = cid \<and> cti_is_included x) (contract_items d)))"

text \<open>The live fulfillments under a reimbursement, with the type of the item: on a
  personal row the items of the requester, on a corp-funded row all items of the list.\<close>

definition covered_item :: "db \<Rightarrow> reimbursement \<Rightarrow> list_item \<Rightarrow> bool" where
  "covered_item d r i \<longleftrightarrow> li_list_id i = r_list_id r
     \<and> (r_is_corp_funded r \<or> principal_user d (r_requester_principal_id r) = Some (li_requested_by_user_id i))"

definition hauler_of :: "db \<Rightarrow> reimbursement \<Rightarrow> uuid option" where
  "hauler_of d r = Option.bind (find_principal d (r_hauler_principal_id r)) p_user_id"

definition bought_rows :: "db \<Rightarrow> reimbursement \<Rightarrow> (int \<times> qty) list" where
  "bought_rows d r =
     concat (map (\<lambda>i. map (\<lambda>f. (li_type_id i, f_qty f))
         (filter (\<lambda>f. f_list_item_id f = li_id i \<and> Some (f_hauler_user_id f) = hauler_of d r
                    \<and> f_reversed_at f = None) (fulfillments d)))
       (filter (covered_item d r) (list_items d)))"

definition fulfillment_totals :: "db \<Rightarrow> reimbursement \<Rightarrow> (int \<times> qty) list" where
  "fulfillment_totals d r = filter (\<lambda>p. 0 < snd p) (totals (bought_rows d r))"

section \<open>Scoring\<close>

record match_score =
  ms_covered :: qty
  ms_fulfilled :: qty
  ms_exact :: bool

definition total_of :: "(int \<times> qty) list \<Rightarrow> int \<Rightarrow> qty" where
  "total_of ts t = (case map_of ts t of None \<Rightarrow> 0 | Some q \<Rightarrow> q)"

definition score_match :: "(int \<times> qty) list \<Rightarrow> (int \<times> qty) list \<Rightarrow> match_score option" where
  "score_match cs fs =
     (if fs = [] then None
      else let f_sum = sum_list (map snd fs);
               covered = sum_list (map (\<lambda>(t, fq). min (total_of cs t) fq) fs);
               surplus = (\<exists>t\<in>set (map fst cs). t \<notin> set (map fst fs))
           in Some \<lparr> ms_covered = covered, ms_fulfilled = f_sum,
                     ms_exact = (covered = f_sum \<and> \<not> surplus) \<rparr>)"

definition below_threshold :: "match_score \<Rightarrow> bool" where
  "below_threshold s \<longleftrightarrow> 2 * ms_covered s < ms_fulfilled s"

section \<open>Running the matcher on a contract\<close>

definition candidate :: "uuid \<Rightarrow> uuid \<Rightarrow> reimbursement \<Rightarrow> bool" where
  "candidate issuer assignee r \<longleftrightarrow> r_hauler_principal_id r = issuer
     \<and> r_requester_principal_id r = assignee \<and> r_contract_id r = None \<and> r_status r = RPending"

definition match_rows :: "db \<Rightarrow> uuid \<Rightarrow> uuid \<Rightarrow> uuid \<Rightarrow> (uuid \<times> match_score) list" where
  "match_rows d cid issuer assignee =
     concat (map (\<lambda>r. case score_match (contract_totals d cid) (fulfillment_totals d r) of
                        None \<Rightarrow> []
                      | Some s \<Rightarrow> if below_threshold s then [] else [(r_id r, s)])
       (filter (candidate issuer assignee) (reimbursements d)))"

definition upsert_suggestion ::
  "(int \<Rightarrow> int \<Rightarrow> int) \<Rightarrow> (uuid \<Rightarrow> uuid) \<Rightarrow> uuid \<Rightarrow> uuid \<times> match_score \<Rightarrow> db \<Rightarrow> settlement_error + db" where
  "upsert_suggestion round4 new_id cid p d =
     (let rid = fst p; sc = round4 (ms_covered (snd p)) (ms_fulfilled (snd p));
          same = (\<lambda>g. sg_contract_id g = cid \<and> sg_reimbursement_id g = rid)
      in if sc < 0 \<or> 10000 < sc then Inl (SDb ''check violation'')
         else if \<exists>g\<in>set (suggestions d). same g
         then Inr (d \<lparr> suggestions := upd_where (\<lambda>g. same g \<and> sg_state g = MPending)
                 (\<lambda>g. g \<lparr> sg_score := sc, sg_exact_match := ms_exact (snd p) \<rparr>) (suggestions d) \<rparr>)
         else if new_id rid \<in> sg_id ` set (suggestions d) then Inl (SDb ''unique violation'')
         else Inr (d \<lparr> suggestions := suggestions d @
                [\<lparr> sg_id = new_id rid, sg_contract_id = cid, sg_reimbursement_id = rid, sg_score = sc,
                   sg_exact_match = ms_exact (snd p), sg_state = MPending, sg_decided_at = None,
                   sg_decided_by_user_id = None \<rparr>] \<rparr>))"

fun upsert_suggestions ::
  "(int \<Rightarrow> int \<Rightarrow> int) \<Rightarrow> (uuid \<Rightarrow> uuid) \<Rightarrow> uuid \<Rightarrow> (uuid \<times> match_score) list \<Rightarrow> db \<Rightarrow> settlement_error + db" where
  "upsert_suggestions round4 new_id cid [] d = Inr d"
| "upsert_suggestions round4 new_id cid (p # ps) d =
     bind_res (upsert_suggestion round4 new_id cid p d) (upsert_suggestions round4 new_id cid ps)"

text \<open>\<open>text_of\<close> is what the database driver yields for the enum column \<^verbatim>\<open>contract_type\<close> read as
  a string; \<open>None\<close> is its decode error.\<close>

definition run_one ::
  "(contract_type \<Rightarrow> string option) \<Rightarrow> (int \<Rightarrow> int \<Rightarrow> int) \<Rightarrow> (uuid \<Rightarrow> uuid) \<Rightarrow> uuid \<Rightarrow> db \<Rightarrow>
     settlement_error + db" where
  "run_one text_of round4 new_id cid d =
     (case find_contract d cid of None \<Rightarrow> Inr d | Some c \<Rightarrow>
      case text_of (ct_contract_type c) of None \<Rightarrow> Inl (SDb ''column decode'') | Some ty \<Rightarrow>
      if ty \<noteq> ''item_exchange'' \<or> ct_items_synced_at c = None then Inr d
      else case (ct_issuer_principal_id c, ct_assignee_principal_id c) of
        (Some issuer, Some assignee) \<Rightarrow>
          if contract_totals d cid = [] then Inr d
          else upsert_suggestions round4 new_id cid (match_rows d cid issuer assignee) d
      | _ \<Rightarrow> Inr d)"

definition run_for_contracts ::
  "(contract_type \<Rightarrow> string option) \<Rightarrow> (int \<Rightarrow> int \<Rightarrow> int) \<Rightarrow> (uuid \<Rightarrow> uuid \<Rightarrow> uuid) \<Rightarrow> uuid list \<Rightarrow> db \<Rightarrow> db" where
  "run_for_contracts text_of round4 new_id cids d =
     fold (\<lambda>cid d. case run_one text_of round4 (new_id cid) cid d of Inl _ \<Rightarrow> d | Inr d' \<Rightarrow> d') cids d"

section \<open>Scores\<close>

lemma totals_distinct [simp]: "distinct (map fst (totals ps))"
  by (simp add: totals_def comp_def)

lemma map_of_totals:
  "map_of (totals ps) t = (if t \<in> fst ` set ps then Some (sum_where (\<lambda>p. fst p = t) snd ps) else None)"
  unfolding totals_def map_of_map_restrict by (simp add: restrict_map_def)

lemma total_of_totals: "total_of (totals ps) t = sum_where (\<lambda>p. fst p = t) snd ps"
proof (cases "t \<in> fst ` set ps")
  case False
  then have "filter (\<lambda>p. fst p = t) ps = []" by (auto simp: filter_empty_conv)
  then show ?thesis using False by (simp add: total_of_def map_of_totals sum_where_def)
qed (simp add: total_of_def map_of_totals)

lemma sum_list_min_le: "sum_list (map (\<lambda>(t, q). min (g t) q) fs) \<le> sum_list (map snd (fs :: (int \<times> int) list))"
  by (induction fs) auto

lemma sum_list_min_eq:
  fixes fs :: "(int \<times> int) list"
  shows "sum_list (map (\<lambda>(t, q). min (g t) q) fs) = sum_list (map snd fs) \<longleftrightarrow> (\<forall>(t, q)\<in>set fs. q \<le> g t)"
proof (induction fs)
  case (Cons p fs)
  obtain t q where p: "p = (t, q)" by (cases p)
  have "sum_list (map (\<lambda>(t, q). min (g t) q) fs) \<le> sum_list (map snd fs)" by (rule sum_list_min_le)
  then show ?case using Cons by (auto simp: p min_def)
qed simp

lemma score_match_covered_le:
  assumes "score_match cs fs = Some s"
  shows "ms_covered s \<le> ms_fulfilled s"
  using assms sum_list_min_le by (auto simp: score_match_def Let_def split: if_splits)

lemma score_match_exact_iff:
  assumes "score_match cs fs = Some s"
  shows "ms_exact s \<longleftrightarrow> (\<forall>(t, q)\<in>set fs. q \<le> total_of cs t) \<and> fst ` set cs \<subseteq> fst ` set fs"
proof -
  have "ms_exact s \<longleftrightarrow> sum_list (map (\<lambda>(t, q). min (total_of cs t) q) fs) = sum_list (map snd fs)
      \<and> (\<forall>p\<in>set cs. fst p \<in> fst ` set fs)"
    using assms by (clarsimp simp: score_match_def Let_def split: if_splits)
  then show ?thesis unfolding sum_list_min_eq by (simp only: image_subset_iff)
qed

section \<open>Which suggestions the matcher may write\<close>

lemma match_rows_memD:
  assumes "(rid, s) \<in> set (match_rows d cid issuer assignee)"
  obtains r where "r \<in> set (reimbursements d)" "r_id r = rid" "candidate issuer assignee r"
    "score_match (contract_totals d cid) (fulfillment_totals d r) = Some s" "\<not> below_threshold s"
  using assms by (auto simp: match_rows_def split: option.splits if_splits)

text \<open>A decided suggestion stays; whatever is new is pending and comes from \<open>ps\<close>.\<close>

definition suggestions_grow :: "uuid \<Rightarrow> uuid set \<Rightarrow> db \<Rightarrow> db \<Rightarrow> bool" where
  "suggestions_grow cid rids d d' \<longleftrightarrow>
     (\<forall>g\<in>set (suggestions d). sg_state g \<noteq> MPending \<longrightarrow> g \<in> set (suggestions d'))
   \<and> (\<forall>g\<in>set (suggestions d'). g \<in> set (suggestions d)
        \<or> sg_state g = MPending \<and> sg_contract_id g = cid \<and> sg_reimbursement_id g \<in> rids)"

lemma upsert_suggestion_frame:
  assumes "upsert_suggestion round4 new_id cid p d = Inr d'"
  obtains gs where "d' = d \<lparr> suggestions := gs \<rparr>" "suggestions_grow cid {fst p} d (d \<lparr> suggestions := gs \<rparr>)"
proof -
  let ?same = "\<lambda>g. sg_contract_id g = cid \<and> sg_reimbursement_id g = fst p"
  show ?thesis
  proof (cases "\<exists>g\<in>set (suggestions d). ?same g")
    case True
    define gs where "gs = upd_where (\<lambda>g. ?same g \<and> sg_state g = MPending)
        (\<lambda>g. g \<lparr> sg_score := round4 (ms_covered (snd p)) (ms_fulfilled (snd p)),
                 sg_exact_match := ms_exact (snd p) \<rparr>) (suggestions d)"
    have "d' = d \<lparr> suggestions := gs \<rparr>"
      using assms True by (auto simp: upsert_suggestion_def Let_def gs_def split: if_splits)
    moreover have "suggestions_grow cid {fst p} d (d \<lparr> suggestions := gs \<rparr>)"
      by (auto simp: suggestions_grow_def gs_def set_upd_where image_iff)
    ultimately show ?thesis by (rule that)
  next
    case False
    then show ?thesis using assms that
      by (auto simp: upsert_suggestion_def Let_def suggestions_grow_def split: if_splits)
  qed
qed

lemma upsert_suggestions_frame:
  assumes "upsert_suggestions round4 new_id cid ps d = Inr d'"
  shows "\<exists>gs. d' = d \<lparr> suggestions := gs \<rparr> \<and> suggestions_grow cid (fst ` set ps) d d'"
  using assms
proof (induction ps arbitrary: d)
  case Nil
  then show ?case
    by (intro exI [of _ "suggestions d"]) (auto simp: suggestions_grow_def)
next
  case (Cons p ps)
  obtain d1 where d1: "upsert_suggestion round4 new_id cid p d = Inr d1"
    "upsert_suggestions round4 new_id cid ps d1 = Inr d'"
    using Cons.prems by (auto simp: bind_res_eq_Inr)
  obtain gs where gs: "d1 = d \<lparr> suggestions := gs \<rparr>" "suggestions_grow cid {fst p} d d1"
    using upsert_suggestion_frame [OF d1(1)] by metis
  obtain gs' where gs': "d' = d1 \<lparr> suggestions := gs' \<rparr>" "suggestions_grow cid (fst ` set ps) d1 d'"
    using Cons.IH [OF d1(2)] by blast
  have "suggestions_grow cid (fst ` set (p # ps)) d d'"
    using gs(2) gs'(2) unfolding suggestions_grow_def by auto
  then show ?case using gs(1) gs'(1) by auto
qed

lemma run_one_frame:
  assumes "run_one text_of round4 new_id cid d = Inr d'"
  obtains gs where "d' = d \<lparr> suggestions := gs \<rparr>"
  using assms upsert_suggestions_frame that [of "suggestions d"]
  by (force simp: run_one_def split: option.splits if_splits)

end
