(* ===== verification/Contract_Steps.thy ===== *)
theory Contract_Steps
  imports Settlement_Steps Matcher
begin

text \<open>
  Linking contracts and the worker's contract jobs keep the invariant of the lifecycle.
  Most of them touch no table the invariant reads, which is one relation, \<open>same_books_rows\<close>;
  the others rewrite reimbursements in place or settle them.
\<close>

section \<open>Jobs that leave the books alone\<close>

definition same_books_rows :: "db \<Rightarrow> db \<Rightarrow> bool" where
  "same_books_rows d d' \<longleftrightarrow> principals d' = principals d \<and> memberships d' = memberships d
     \<and> lists d' = lists d \<and> list_items d' = list_items d \<and> fulfillments d' = fulfillments d
     \<and> claims d' = claims d \<and> claim_items d' = claim_items d \<and> reimbursements d' = reimbursements d
     \<and> groups d' = groups d"

lemma same_books_rows_refl [simp]: "same_books_rows d d"
  by (simp add: same_books_rows_def)

lemma same_books_rows_trans: "same_books_rows d d1 \<Longrightarrow> same_books_rows d1 d2 \<Longrightarrow> same_books_rows d d2"
  by (simp add: same_books_rows_def)

lemma same_books_rows_inv:
  assumes "same_books_rows d d'" "life_inv d"
  shows "life_inv d'"
proof -
  have "list_payer d' = list_payer d"
    by (rule list_payer_cong) (use assms(1) in \<open>simp add: same_books_rows_def\<close>)
  with assms(1) have "same_life d d'" "reimbursements d' = reimbursements d"
    by (simp_all add: same_books_rows_def same_life_def)
  then show ?thesis using assms(2) by (rule life_inv_frame)
qed

lemma same_books_rows_updates [intro, simp]:
  "same_books_rows d (d \<lparr> contracts := cs \<rparr>)"
  "same_books_rows d (d \<lparr> suggestions := gs \<rparr>)"
  "same_books_rows d (d \<lparr> characters := chs \<rparr>)"
  "same_books_rows d (d \<lparr> ambassadors := cas \<rparr>)"
  "same_books_rows d (d \<lparr> corps := cps \<rparr>)"
  "same_books_rows d (fire_webhook gid ev d)"
  by (simp_all add: same_books_rows_def fire_webhook_def)

lemma fold_fire_same: "same_books_rows d (fire_settlement_webhooks infos d)"
  unfolding fire_settlement_webhooks_def
proof (induction infos arbitrary: d)
  case (Cons i infos)
  then show ?case using same_books_rows_trans by (simp, blast)
qed simp

lemma recompute_expected_same:
  "recompute_contract_expected_total vis cid d = Inr d' \<Longrightarrow> same_books_rows d d'"
  by (auto simp: recompute_contract_expected_total_def split: option.splits if_splits)

lemma upsert_contract_same: "upsert_contract nid u d = Inr (oc, d') \<Longrightarrow> same_books_rows d d'"
  by (auto simp: upsert_contract_def split: option.splits if_splits)

lemma ingest_one_same: "ingest_one idx src keep nid c d = Inr (x, d') \<Longrightarrow> same_books_rows d d'"
  by (auto simp: ingest_one_def Let_def bind_res_eq_Inr split: sum.splits if_splits
      dest: upsert_contract_same)

lemma ingest_all_same: "ingest_all idx src keep cs d = Inr (xs, d') \<Longrightarrow> same_books_rows d d'"
proof (induction idx src keep cs d arbitrary: xs rule: ingest_all.induct)
  case (2 idx src keep nid c cs d)
  obtain x d1 xs1 where "ingest_one idx src keep nid c d = Inr (x, d1)"
    "ingest_all idx src keep cs d1 = Inr (xs1, d')"
    using 2(2) by (auto simp: bind_res_eq_Inr)
  then show ?case using 2(1) ingest_one_same same_books_rows_trans by blast
qed simp

lemma advance_cursor_same: "same_books_rows d (advance_cursor chid iv rnd now d)"
  by (simp add: advance_cursor_def)

lemma advance_corp_cursor_same: "same_books_rows d (advance_corp_cursor corp iv rnd now d)"
  by (simp add: advance_corp_cursor_def)

lemma poll_one_character_same: "same_books_rows d (snd (poll_one_character hb reply chid iv rnd now d))"
  using same_books_rows_trans [OF ingest_all_same advance_cursor_same]
  by (auto simp: poll_one_character_def advance_cursor_same split: esi_reply.split sum.split)

lemma try_ambassadors_same: "same_books_rows d (snd (try_ambassadors reply corp now cas d))"
proof (induction reply corp now cas d rule: try_ambassadors.induct)
  case (2 reply corp now ca cas d)
  have m: "same_books_rows d (mark_ambassador f corp (ca_character_id ca) d)" for f
    by (simp add: mark_ambassador_def)
  show ?case using 2 same_books_rows_trans [OF m] m
    by (auto split: esi_reply.split)
qed simp

lemma poll_one_corp_same: "same_books_rows d (snd (poll_one_corp hb reply corp esi iv rnd now d))"
proof -
  obtain r d1 where t: "try_ambassadors reply corp now (usable_ambassadors d corp CORP_CONTRACTS_SCOPE now) d = (r, d1)"
    by (cases "try_ambassadors reply corp now (usable_ambassadors d corp CORP_CONTRACTS_SCOPE now) d")
  have d1: "same_books_rows d d1" using try_ambassadors_same [of d reply corp now] t by (metis snd_conv)
  have adv: "same_books_rows d (advance_corp_cursor corp iv' rnd now d2)" if "same_books_rows d d2" for iv' d2
    using same_books_rows_trans [OF that advance_corp_cursor_same] .
  have err: "same_books_rows d (d1 \<lparr> corps := cps \<rparr>)" for cps
    using same_books_rows_trans [OF d1] by blast
  show ?thesis
    using t d1 adv err same_books_rows_trans [OF d1 ingest_all_same]
    by (auto simp: poll_one_corp_def Let_def split: prod.split sum.split option.split)
qed

lemma sync_items_same: "same_books_rows d (snd (sync_items_for hb reply row now d))"
  by (auto simp: sync_items_for_def Let_def store_items_def same_books_rows_def
      split: option.split esi_reply.split sum.split if_splits)

lemma run_one_same: "run_one text_of round4 new_id cid d = Inr d' \<Longrightarrow> same_books_rows d d'"
  by (erule run_one_frame) simp

section \<open>Linking\<close>

lemma bind_reimbursement_inv:
  "life_inv d \<Longrightarrow> life_inv (d \<lparr> reimbursements := upd_where P
     (\<lambda>r. r \<lparr> r_contract_id := c, r_updated_at := now \<rparr>) (reimbursements d) \<rparr>)"
  by (rule life_inv_reimb_update [where d = d and P = P and
        f = "\<lambda>r. r \<lparr> r_contract_id := c, r_updated_at := now \<rparr>"])
    (simp_all add: same_life_def reimb_update_def reimb_key_def)

lemma finalize_link_cases:
  assumes "finalize_link uid ctx now d = Inr (st, info, d')"
  obtains d2 where "recompute_contract_expected_total (is_list_member d uid) (lk_contract_id ctx)
      (d \<lparr> reimbursements := upd_where (\<lambda>r. r_id r = lk_reimbursement_id ctx)
         (\<lambda>r. r \<lparr> r_contract_id := Some (lk_contract_id ctx), r_updated_at := now \<rparr>) (reimbursements d) \<rparr>) = Inr d2"
    "if is_terminal_success (lk_contract_status ctx)
     then settle_via_contract (is_list_member d uid) (lk_contract_id ctx) now d2 = Inr (info, d')
     else d' = d2 \<and> info = []"
  using assms by (auto simp: finalize_link_def Let_def split: sum.splits if_splits)

lemma finalize_link_inv:
  assumes "life_inv d" "finalize_link uid ctx now d = Inr (st, info, d')"
  shows "life_inv d'"
  using assms(2)
proof (cases rule: finalize_link_cases)
  case (1 d2)
  have "life_inv d2"
    using same_books_rows_inv [OF recompute_expected_same [OF 1(1)]] bind_reimbursement_inv [OF assms(1)] .
  then show ?thesis using 1(2) settle_via_contract_inv by (auto split: if_splits)
qed

lemma do_confirm_cases:
  assumes "do_confirm uid sid now d = Inr (dec, info, d')"
  obtains ctx st where "suggestion_row d uid sid = Some ctx" "lk_suggestion_state ctx = Some MPending"
    "validate_link d ctx uid = Inr ()"
    "\<not> other_confirmed d (lk_reimbursement_id ctx) (\<lambda>g. sg_id g \<noteq> sid)"
    "finalize_link uid ctx now (d \<lparr> suggestions := upd_where (\<lambda>g. sg_id g = sid)
        (decide MConfirmed now uid) (suggestions d) \<rparr>) = Inr (st, info, d')"
  using assms by (auto simp: do_confirm_def bind_res_eq_Inr split: if_splits)

lemma confirm_pair_same: "confirm_pair nid cid rid uid now d = Inr d' \<Longrightarrow> \<exists>gs. d' = d \<lparr> suggestions := gs \<rparr>"
  by (auto simp: confirm_pair_def Let_def split: if_splits)

lemma do_manual_link_cases:
  assumes "do_manual_link uid cid rid nid now d = Inr (dec, info, d')"
  obtains ctx st gs where "joined_row d uid None cid rid = Some ctx" "validate_link d ctx uid = Inr ()"
    "confirm_pair nid (lk_contract_id ctx) (lk_reimbursement_id ctx) uid now d = Inr (d \<lparr> suggestions := gs \<rparr>)"
    "finalize_link uid ctx now (d \<lparr> suggestions := gs \<rparr>) = Inr (st, info, d')"
  using assms confirm_pair_same
  by (clarsimp simp: do_manual_link_def bind_res_eq_Inr split: prod.splits) blast

lemma suggestions_update_inv: "life_inv d \<Longrightarrow> life_inv (d \<lparr> suggestions := gs \<rparr>)"
  by (rule same_books_rows_inv [of d]) simp_all

lemma confirm_suggestion_inv:
  assumes "life_inv d" "confirm_suggestion s sid now d = Inr d'"
  shows "life_inv d'"
proof -
  obtain uid dec info d1 where c: "do_confirm uid sid now d = Inr (dec, info, d1)"
    and d': "d' = fire_settlement_webhooks info d1"
    using assms(2) by (auto simp: confirm_suggestion_def bind_res_eq_Inr)
  from c have "life_inv d1"
    by (rule do_confirm_cases) (rule finalize_link_inv [OF suggestions_update_inv [OF assms(1)]])
  then show ?thesis unfolding d' by (rule same_books_rows_inv [OF fold_fire_same])
qed

lemma manual_link_inv:
  assumes "life_inv d" "manual_link s cid rid nid now d = Inr d'"
  shows "life_inv d'"
proof -
  obtain uid dec info d1 where c: "do_manual_link uid cid rid nid now d = Inr (dec, info, d1)"
    and d': "d' = fire_settlement_webhooks info d1"
    using assms(2) by (auto simp: manual_link_def bind_res_eq_Inr)
  from c have "life_inv d1"
    by (rule do_manual_link_cases) (rule finalize_link_inv [OF suggestions_update_inv [OF assms(1)]])
  then show ?thesis unfolding d' by (rule same_books_rows_inv [OF fold_fire_same])
qed

lemma reject_suggestion_same: "reject_suggestion s sid now d = Inr d' \<Longrightarrow> same_books_rows d d'"
  by (auto simp: reject_suggestion_def do_reject_def bind_res_eq_Inr split: if_splits option.splits)

lemma unlink_cases:
  assumes "unlink_contract s cid now d = Inr d'"
  obtains uid c gs where "s = Some uid" "rls_find_contract d uid cid = Some c" "may_unlink d uid c"
    "\<not> is_terminal_success (ct_status c)"
    "recompute_contract_expected_total (is_list_member d uid) cid
      (d \<lparr> reimbursements := upd_where (\<lambda>r. seen_bound (is_list_member d uid) cid r \<and> r_status r = RPending)
             (\<lambda>r. r \<lparr> r_contract_id := None, r_updated_at := now \<rparr>) (reimbursements d),
           suggestions := gs \<rparr>) = Inr d'"
  using assms
  by (auto simp: unlink_contract_def do_unlink_def current_user_def Let_def bind_res_eq_Inr
      split: if_splits sum.splits)

lemma unlink_contract_inv:
  assumes "life_inv d" "unlink_contract s cid now d = Inr d'"
  shows "life_inv d'"
  using assms(2)
proof (cases rule: unlink_cases)
  case (1 uid c gs)
  show ?thesis
    using same_books_rows_inv [OF recompute_expected_same [OF 1(5)]]
      suggestions_update_inv [OF bind_reimbursement_inv [OF assms(1)]] by simp
qed

section \<open>Terminal contracts and the wallet\<close>

lemma handle_contract_terminal_inv:
  assumes "life_inv d" "handle_contract_terminal u now d = Inr d'"
  shows "life_inv d'"
proof (cases "is_terminal_success (uc_status u)")
  case True
  then obtain infos d1 where d1: "settle_via_contract all_lists (uc_contract_id u) now d = Inr (infos, d1)"
    and d': "d' = fire_settlement_webhooks infos d1"
    using assms(2) by (auto simp: handle_contract_terminal_def bind_res_eq_Inr)
  show ?thesis unfolding d'
    by (rule same_books_rows_inv [OF fold_fire_same settle_via_contract_inv [OF assms(1) d1]])
next
  case False
  then have "d' = d \<or> d' = snd (unbind_contract (uc_contract_id u) now d)"
    using assms(2) by (auto simp: handle_contract_terminal_def split: if_splits)
  then show ?thesis using assms(1) unbind_contract_inv [OF assms(1)] by auto
qed

lemma record_payout_Inr:
  assumes "record_payout dv cid v now d = Inr d'"
  obtains cs P w where "d' = d \<lparr> contracts := cs, reimbursements := upd_where P
        (\<lambda>r. r \<lparr> r_verified_by_wallet := True, r_wallet_settlement_delta_isk := Some (w r),
                 r_updated_at := now \<rparr>) (reimbursements d) \<rparr>"
proof -
  let ?hit = "\<lambda>r. bound_to cid r \<and> r_status r \<in> {RPending, RSettled}"
  let ?cs = "upd_where (\<lambda>x. ct_id x = cid) (\<lambda>x. x \<lparr> ct_wallet_verified_at := Some now,
      ct_wallet_payout_aggregate_isk := Some v \<rparr>) (contracts d)"
  let ?w = "\<lambda>r. wallet_delta dv v (sum_where ?hit r_total_isk (reimbursements d)) (r_total_isk r)"
  show thesis
    by (rule that [where cs = ?cs and P = ?hit and w = ?w]) (use assms in \<open>simp add: record_payout_def Let_def split: if_split_asm\<close>)
qed

lemma verify_cases:
  assumes "verify_contract_against_journal dv cid now d = Inr d'"
  obtains (same) "d' = d" | (verified) v where "record_payout dv cid v now d = Inr d'"
proof -
  have "d' = d \<or> (\<exists>v. record_payout dv cid v now d = Inr d')"
    using assms unfolding verify_contract_against_journal_def
    by (simp split: option.split_asm if_split_asm) blast
  then show thesis using same verified by blast
qed

lemma verify_inv:
  assumes "life_inv d" "verify_contract_against_journal dv cid now d = Inr d'"
  shows "life_inv d'"
  using assms(2)
proof (cases rule: verify_cases)
  case (verified v)
  then obtain cs P w where d': "d' = d \<lparr> contracts := cs, reimbursements := upd_where P
        (\<lambda>r. r \<lparr> r_verified_by_wallet := True, r_wallet_settlement_delta_isk := Some (w r),
                 r_updated_at := now \<rparr>) (reimbursements d) \<rparr>" by (rule record_payout_Inr)
  show ?thesis
    by (rule life_inv_reimb_update [where d = d and P = P and
          f = "\<lambda>r. r \<lparr> r_verified_by_wallet := True, r_wallet_settlement_delta_isk := Some (w r),
                   r_updated_at := now \<rparr>"])
      (simp_all add: d' same_life_def reimb_update_def reimb_key_def assms(1))
qed (use assms in simp)

end
