(* ===== verification/Multibuy.thy ===== *)
theory Multibuy
  imports Prelude
begin

text \<open>
  The MultiBuy paste parser (\<^verbatim>\<open>domain/src/multibuy.rs\<close>).  Text is a list of characters up to
  U+00FF, which holds the no-break space and the other blanks the parser meets;
  \<open>is_blank\<close>, \<open>lower\<close>, \<open>split_lines\<close> and the two number syntaxes are those of the Rust
  standard library on these characters.  The hash map with its separate insertion order
  is an association list in insertion order.
\<close>

section \<open>Characters and splitting\<close>

definition NBSP :: char where "NBSP = CHR 0xA0"
definition TAB :: char where "TAB = CHR 0x09"
definition LF :: char where "LF = CHR 0x0A"
definition CR :: char where "CR = CHR 0x0D"

definition is_blank :: "char \<Rightarrow> bool" where
  "is_blank c \<longleftrightarrow> (let n = of_char c :: int in (9 \<le> n \<and> n \<le> 13) \<or> n = 32 \<or> n = 133 \<or> n = 160)"

definition lower :: "char \<Rightarrow> char" where
  "lower c = (let n = of_char c :: int in
     if (65 \<le> n \<and> n \<le> 90) \<or> (192 \<le> n \<and> n \<le> 222 \<and> n \<noteq> 215) then char_of (n + 32) else c)"

definition trim :: "string \<Rightarrow> string" where
  "trim s = rev (dropWhile is_blank (rev (dropWhile is_blank s)))"

definition nbsp_to_space :: "string \<Rightarrow> string" where
  "nbsp_to_space s = map (\<lambda>c. if c = NBSP then CHR '' '' else c) s"

text \<open>\<open>split_on p s\<close> is \<^verbatim>\<open>str::split\<close>: the pieces between the characters that satisfy \<open>p\<close>.\<close>

fun split_on :: "(char \<Rightarrow> bool) \<Rightarrow> string \<Rightarrow> string list" where
  "split_on p [] = [[]]"
| "split_on p (c # s) =
     (if p c then [] # split_on p s
      else case split_on p s of [] \<Rightarrow> [[c]] | w # ws \<Rightarrow> (c # w) # ws)"

definition split_whitespace :: "string \<Rightarrow> string list" where
  "split_whitespace s = filter (\<lambda>w. w \<noteq> []) (split_on is_blank s)"

definition strip_cr :: "string \<Rightarrow> string" where
  "strip_cr l = (if l \<noteq> [] \<and> last l = CR then butlast l else l)"

text \<open>\<^verbatim>\<open>str::lines\<close>: a carriage return goes with the line feed it precedes; a last line that
  is empty is no line.\<close>

definition split_lines :: "string \<Rightarrow> string list" where
  "split_lines s =
     (let ps = split_on (\<lambda>c. c = LF) s
      in map strip_cr (butlast ps) @ (if last ps = [] then [] else [last ps]))"

section \<open>Numbers\<close>

definition is_digit :: "char \<Rightarrow> bool" where
  "is_digit c \<longleftrightarrow> (let n = of_char c :: int in 48 \<le> n \<and> n \<le> 57)"

definition digit_val :: "char \<Rightarrow> int" where
  "digit_val c = of_char c - 48"

definition digits_val :: "string \<Rightarrow> int" where
  "digits_val ds = foldl (\<lambda>a c. 10 * a + digit_val c) 0 ds"

definition i64_max :: int where
  "i64_max = 9223372036854775807"

definition i64_min :: int where
  "i64_min = - 9223372036854775808"

definition unsign :: "string \<Rightarrow> bool \<times> string" where
  "unsign s = (case s of [] \<Rightarrow> (False, [])
     | c # r \<Rightarrow> if c = CHR ''-'' then (True, r) else if c = CHR ''+'' then (False, r) else (False, s))"

definition parse_i64 :: "string \<Rightarrow> int option" where
  "parse_i64 s =
     (let (neg, ds) = unsign s
      in if ds = [] \<or> \<not> list_all is_digit ds then None
         else let v = (if neg then - digits_val ds else digits_val ds)
              in if i64_min \<le> v \<and> v \<le> i64_max then Some v else None)"

definition strip_commas :: "string \<Rightarrow> string" where
  "strip_commas s = filter (\<lambda>c. c \<noteq> CHR '','') s"

definition parse_qty :: "string \<Rightarrow> int option" where
  "parse_qty s = (case parse_i64 (strip_commas s) of
     Some q \<Rightarrow> if 0 < q then Some q else None | None \<Rightarrow> None)"

text \<open>The grammar of \<^verbatim>\<open>f64::from_str\<close>: an optional sign, then \<^verbatim>\<open>inf\<close>, \<^verbatim>\<open>infinity\<close> or \<^verbatim>\<open>nan\<close> in any
  case, or digits with an optional fraction and exponent, with at least one digit.\<close>

definition is_exponent :: "string \<Rightarrow> bool" where
  "is_exponent s =
     (case s of [] \<Rightarrow> True
      | c # r \<Rightarrow> lower c = CHR ''e'' \<and> (let ds = snd (unsign r) in ds \<noteq> [] \<and> list_all is_digit ds))"

definition is_f64_number :: "string \<Rightarrow> bool" where
  "is_f64_number s =
     (let ip = takeWhile is_digit s; r = dropWhile is_digit s
      in case r of
           c # r' \<Rightarrow> if c = CHR ''.''
                     then (ip \<noteq> [] \<or> takeWhile is_digit r' \<noteq> []) \<and> is_exponent (dropWhile is_digit r')
                     else ip \<noteq> [] \<and> is_exponent r
         | [] \<Rightarrow> ip \<noteq> [])"

definition is_f64 :: "string \<Rightarrow> bool" where
  "is_f64 s = (let b = snd (unsign s) in
     map lower b \<in> {''inf'', ''infinity'', ''nan''} \<or> is_f64_number b)"

definition is_numeric_token :: "string \<Rightarrow> bool" where
  "is_numeric_token s = (let cleaned = strip_commas s in cleaned \<noteq> [] \<and> is_f64 cleaned)"

section \<open>The parser\<close>

record parsed_line =
  pl_line_nos :: "int list"
  pl_name :: string
  pl_qty :: int

record line_error =
  le_line_no :: int
  le_raw :: string
  le_reason :: string

record parsed_multibuy =
  pm_lines :: "parsed_line list"
  pm_errors :: "line_error list"

definition name_key :: "string \<Rightarrow> string" where
  "name_key name = map lower (trim (nbsp_to_space name))"

definition bad_qty :: "string \<Rightarrow> string" where
  "bad_qty tok = ''quantity must be a positive integer (got '' @ quoted tok @ '')''"

definition parse_tab_line :: "string \<Rightarrow> string + string \<times> int" where
  "parse_tab_line line =
     (let cols = map trim (split_on (\<lambda>c. c = TAB) line)
      in case cols of
           name # q # _ \<Rightarrow>
             if name = [] then Inl ''missing item name''
             else (case parse_qty q of None \<Rightarrow> Inl (bad_qty q) | Some n \<Rightarrow> Inr (name, n))
         | _ \<Rightarrow> Inl ''tab line needs at least name and qty'')"

fun join_spaces :: "string list \<Rightarrow> string" where
  "join_spaces [] = []"
| "join_spaces [w] = w"
| "join_spaces (w # ws) = w @ [CHR '' ''] @ join_spaces ws"

definition numeric_suffix :: "string list \<Rightarrow> string list" where
  "numeric_suffix ts = rev (takeWhile is_numeric_token (rev ts))"

definition parse_whitespace_line :: "string \<Rightarrow> string + string \<times> int" where
  "parse_whitespace_line line =
     (let tokens = split_whitespace line
      in if length tokens < 2 then Inl ''need at least an item name and a quantity''
         else let nums = numeric_suffix tokens;
                  names = take (length tokens - length nums) tokens
              in case nums of
                   [] \<Rightarrow> Inl ''no trailing quantity column found''
                 | q # _ \<Rightarrow>
                     if names = [] then Inl ''missing item name''
                     else (case parse_qty q of None \<Rightarrow> Inl (bad_qty q)
                           | Some n \<Rightarrow> let name = join_spaces names
                                       in if name = [] then Inl ''missing item name'' else Inr (name, n)))"

definition parse_line :: "string \<Rightarrow> string + string \<times> int" where
  "parse_line line = (if TAB \<in> set line then parse_tab_line line else parse_whitespace_line line)"

definition MAX_LINE_NOS_PER_KEY :: nat where
  "MAX_LINE_NOS_PER_KEY = 1024"

definition line_number :: "nat \<Rightarrow> int" where
  "line_number idx = min (min (int idx) 4294967295 + 1) 4294967295"

definition add_line :: "int \<Rightarrow> string \<Rightarrow> int \<Rightarrow> (string \<times> parsed_line) list \<Rightarrow> (string \<times> parsed_line) list" where
  "add_line no name q agg =
     (let key = name_key name in
      if key \<in> set (map fst agg)
      then map (\<lambda>(k, l). if k = key
                 then (k, l \<lparr> pl_qty := min (pl_qty l + q) i64_max,
                              pl_line_nos := (if length (pl_line_nos l) < MAX_LINE_NOS_PER_KEY
                                              then pl_line_nos l @ [no] else pl_line_nos l) \<rparr>)
                 else (k, l)) agg
      else agg @ [(key, \<lparr> pl_line_nos = [no], pl_name = name, pl_qty = q \<rparr>)])"

type_synonym parse_state = "(string \<times> parsed_line) list \<times> line_error list"

definition parse_step :: "nat \<times> string \<Rightarrow> parse_state \<Rightarrow> parse_state" where
  "parse_step ir st =
     (let (idx, raw) = ir; (agg, errs) = st; no = line_number idx;
          trimmed = trim (nbsp_to_space raw);
          err = (\<lambda>reason. (agg, errs @ [\<lparr> le_line_no = no, le_raw = raw, le_reason = reason \<rparr>]))
      in if trimmed = [] then (agg, errs)
         else case parse_line trimmed of
           Inl reason \<Rightarrow> err reason
         | Inr (name, q) \<Rightarrow>
             if name_key name = [] then err ''missing item name'' else (add_line no name q agg, errs))"

definition parse_multibuy :: "string \<Rightarrow> parsed_multibuy" where
  "parse_multibuy input =
     (let (agg, errs) = fold parse_step (enumerate 0 (split_lines input)) ([], [])
      in \<lparr> pm_lines = map snd agg, pm_errors = errs \<rparr>)"

section \<open>What one line contributes\<close>

definition classify :: "nat \<times> string \<Rightarrow> (line_error + int \<times> string \<times> int) option" where
  "classify ir =
     (let (idx, raw) = ir; no = line_number idx; trimmed = trim (nbsp_to_space raw);
          err = (\<lambda>reason. Some (Inl \<lparr> le_line_no = no, le_raw = raw, le_reason = reason \<rparr>))
      in if trimmed = [] then None
         else case parse_line trimmed of
           Inl reason \<Rightarrow> err reason
         | Inr (name, q) \<Rightarrow> if name_key name = [] then err ''missing item name'' else Some (Inr (no, name, q)))"

definition good_lines :: "(nat \<times> string) list \<Rightarrow> (int \<times> string \<times> int) list" where
  "good_lines xs = concat (map (\<lambda>ir. case classify ir of Some (Inr x) \<Rightarrow> [x] | _ \<Rightarrow> []) xs)"

definition bad_lines :: "(nat \<times> string) list \<Rightarrow> line_error list" where
  "bad_lines xs = concat (map (\<lambda>ir. case classify ir of Some (Inl e) \<Rightarrow> [e] | _ \<Rightarrow> []) xs)"

abbreviation numbered :: "string \<Rightarrow> (nat \<times> string) list" where
  "numbered input \<equiv> enumerate 0 (split_lines input)"

abbreviation add_good :: "int \<times> string \<times> int \<Rightarrow> (string \<times> parsed_line) list \<Rightarrow> (string \<times> parsed_line) list" where
  "add_good x \<equiv> add_line (fst x) (fst (snd x)) (snd (snd x))"

abbreviation key_of :: "int \<times> string \<times> int \<Rightarrow> string" where
  "key_of x \<equiv> name_key (fst (snd x))"

lemma parse_step_classify:
  "parse_step ir (agg, errs) = (case classify ir of
       None \<Rightarrow> (agg, errs)
     | Some (Inl e) \<Rightarrow> (agg, errs @ [e])
     | Some (Inr x) \<Rightarrow> (add_good x agg, errs))"
  by (simp add: parse_step_def classify_def Let_def split: prod.split sum.split)

lemma fold_parse_step:
  "fold parse_step xs (agg, errs) = (fold add_good (good_lines xs) agg, errs @ bad_lines xs)"
proof (induction xs arbitrary: agg errs)
  case (Cons x xs)
  show ?case
  proof (cases "classify x")
    case None
    then show ?thesis using Cons by (simp add: parse_step_classify good_lines_def bad_lines_def)
  next
    case (Some y)
    then show ?thesis using Cons
      by (cases y) (simp_all add: parse_step_classify good_lines_def bad_lines_def)
  qed
qed (simp add: good_lines_def bad_lines_def)

lemma parse_multibuy_eq:
  "parse_multibuy input = \<lparr> pm_lines = map snd (fold add_good (good_lines (numbered input)) []),
     pm_errors = bad_lines (numbered input) \<rparr>"
  by (simp add: parse_multibuy_def fold_parse_step)

section \<open>Quantities\<close>

lemma parse_qty_bounds: "parse_qty s = Some q \<Longrightarrow> 0 < q \<and> q \<le> i64_max"
  by (auto simp: parse_qty_def parse_i64_def Let_def split: option.splits if_splits prod.splits)

lemma parse_line_bounds: "parse_line l = Inr (name, q) \<Longrightarrow> 0 < q \<and> q \<le> i64_max"
  by (auto simp: parse_line_def parse_tab_line_def parse_whitespace_line_def Let_def
      split: if_splits list.splits option.splits dest: parse_qty_bounds)

lemma classify_good:
  "classify (idx, raw) = Some (Inr (no, name, q)) \<longleftrightarrow>
     no = line_number idx \<and> trim (nbsp_to_space raw) \<noteq> []
   \<and> parse_line (trim (nbsp_to_space raw)) = Inr (name, q) \<and> name_key name \<noteq> []"
  by (auto simp: classify_def Let_def split: sum.splits if_splits prod.splits)

lemma good_lines_mem:
  "x \<in> set (good_lines xs) \<longleftrightarrow> (\<exists>ir\<in>set xs. classify ir = Some (Inr x))"
  by (cases x) (force simp: good_lines_def split: option.splits sum.splits)

lemma good_lines_bounds:
  assumes "(no, name, q) \<in> set (good_lines xs)"
  shows "0 < q \<and> q \<le> i64_max" "name_key name \<noteq> []"
  using assms by (auto simp: good_lines_mem classify_good dest: parse_line_bounds)

section \<open>Aggregation\<close>

definition merged :: "int \<Rightarrow> string \<Rightarrow> int \<Rightarrow> parsed_line option \<Rightarrow> parsed_line" where
  "merged no name q prev = (case prev of
       None \<Rightarrow> \<lparr> pl_line_nos = [no], pl_name = name, pl_qty = q \<rparr>
     | Some l \<Rightarrow> l \<lparr> pl_qty := min (pl_qty l + q) i64_max,
                     pl_line_nos := (if length (pl_line_nos l) < MAX_LINE_NOS_PER_KEY
                                     then pl_line_nos l @ [no] else pl_line_nos l) \<rparr>)"

lemma map_of_modify:
  "map_of (map (\<lambda>(k, l). if k = key then (k, f l) else (k, l)) agg) k'
     = (if k' = key then map_option f (map_of agg k') else map_of agg k')"
  by (induction agg) auto

lemma map_of_add_line:
  "map_of (add_line no name q agg) k =
     (if k = name_key name then Some (merged no name q (map_of agg k)) else map_of agg k)"
proof (cases "name_key name \<in> set (map fst agg)")
  case True
  then have "map_of agg (name_key name) \<noteq> None" by (simp add: map_of_eq_None_iff)
  then show ?thesis using True by (auto simp: add_line_def Let_def map_of_modify merged_def)
next
  case False
  then have "map_of agg (name_key name) = None" by (simp add: map_of_eq_None_iff)
  then show ?thesis using False
    by (auto simp: add_line_def Let_def merged_def map_add_def split: option.split)
qed

lemma keys_add_line:
  "map fst (add_line no name q agg) =
     (if name_key name \<in> set (map fst agg) then map fst agg else map fst agg @ [name_key name])"
  by (auto simp: add_line_def Let_def comp_def split_beta intro!: map_cong)

lemma add_line_distinct: "distinct (map fst agg) \<Longrightarrow> distinct (map fst (add_line no name q agg))"
  unfolding keys_add_line by auto

text \<open>The reference: the quantity of a key is the sum of its lines, capped at the largest
  64-bit integer; its name is the one of its first line.\<close>

definition key_sum :: "string \<Rightarrow> (int \<times> string \<times> int) list \<Rightarrow> int" where
  "key_sum k xs = sum_where (\<lambda>x. key_of x = k) (\<lambda>x. snd (snd x)) xs"

lemma key_sum_nonneg: "(\<And>x. x \<in> set xs \<Longrightarrow> 0 < snd (snd x)) \<Longrightarrow> 0 \<le> key_sum k xs"
  unfolding key_sum_def by (rule sum_where_nonneg) (auto intro: less_imp_le)

definition agg_ok :: "(int \<times> string \<times> int) list \<Rightarrow> (string \<times> parsed_line) list \<Rightarrow> bool" where
  "agg_ok xs agg \<longleftrightarrow>
     distinct (map fst agg) \<and> set (map fst agg) = key_of ` set xs
   \<and> (\<forall>k l. map_of agg k = Some l \<longrightarrow>
        pl_qty l = min (key_sum k xs) i64_max
      \<and> name_key (pl_name l) = k \<and> pl_line_nos l \<noteq> []
      \<and> Some (pl_name l) = map_option (\<lambda>x. fst (snd x)) (find (\<lambda>x. key_of x = k) xs))"

lemma find_snoc: "find P (xs @ [x]) = (case find P xs of None \<Rightarrow> if P x then Some x else None | Some y \<Rightarrow> Some y)"
  by (induction xs) auto

lemma agg_ok_step:
  assumes ok: "agg_ok xs agg" and pos: "\<And>y. y \<in> set xs \<Longrightarrow> 0 < snd (snd y)"
    and x: "0 < snd (snd x)" "snd (snd x) \<le> i64_max"
  shows "agg_ok (xs @ [x]) (add_good x agg)"
  unfolding agg_ok_def
proof (intro conjI allI impI)
  let ?no = "fst x" and ?n = "fst (snd x)" and ?q = "snd (snd x)"
  have keys: "set (map fst agg) = key_of ` set xs" using ok by (simp add: agg_ok_def)
  show "distinct (map fst (add_good x agg))"
    using ok by (intro add_line_distinct) (simp add: agg_ok_def)
  show "set (map fst (add_good x agg)) = key_of ` set (xs @ [x])"
    unfolding keys_add_line using keys by auto
  fix k l assume l: "map_of (add_good x agg) k = Some l"
  have sum: "key_sum k (xs @ [x]) = key_sum k xs + (if key_of x = k then ?q else 0)"
    by (simp add: key_sum_def)
  have sum0: "key_sum k xs = 0 \<and> find (\<lambda>y. key_of y = k) xs = None" if "map_of agg k = None"
  proof -
    have "\<forall>y\<in>set xs. key_of y \<noteq> k" using that keys by (auto simp: map_of_eq_None_iff)
    then show ?thesis by (auto simp: key_sum_def sum_where_def find_None_iff filter_empty_conv)
  qed
  have old: "pl_qty l0 = min (key_sum k xs) i64_max" "name_key (pl_name l0) = k" "pl_line_nos l0 \<noteq> []"
    "\<exists>y. find (\<lambda>y. key_of y = k) xs = Some y \<and> pl_name l0 = fst (snd y)" if "map_of agg k = Some l0" for l0
    using ok that unfolding agg_ok_def by (auto simp: eq_commute [of "Some _"])
  show "pl_qty l = min (key_sum k (xs @ [x])) i64_max"
    using l key_sum_nonneg [OF pos, of xs k] x sum sum0 old(1)
    by (cases "map_of agg k") (auto simp: map_of_add_line merged_def min_def split: if_splits)
  show "name_key (pl_name l) = k"
    using l old(2) by (cases "map_of agg k") (auto simp: map_of_add_line merged_def split: if_splits)
  show "pl_line_nos l \<noteq> []"
    using l old(3) by (cases "map_of agg k") (auto simp: map_of_add_line merged_def split: if_splits)
  show "Some (pl_name l) = map_option (\<lambda>x. fst (snd x)) (find (\<lambda>x. key_of x = k) (xs @ [x]))"
    using l old(4) sum0
    by (cases "map_of agg k") (auto simp: map_of_add_line merged_def find_snoc split: if_splits)
qed

lemma agg_ok_fold:
  assumes "\<And>y. y \<in> set xs \<Longrightarrow> 0 < snd (snd y) \<and> snd (snd y) \<le> i64_max"
  shows "agg_ok xs (fold add_good xs [])"
  using assms
proof (induction xs rule: rev_induct)
  case Nil
  show ?case by (simp add: agg_ok_def)
next
  case (snoc x xs)
  then show ?case using agg_ok_step [of xs "fold add_good xs []" x] by simp
qed

lemma parse_agg_ok:
  "agg_ok (good_lines (numbered input)) (fold add_good (good_lines (numbered input)) [])"
  by (rule agg_ok_fold) (metis good_lines_bounds(1) prod.collapse)

lemma parsed_line_mem:
  assumes "l \<in> set (pm_lines (parse_multibuy input))"
  obtains k where "map_of (fold add_good (good_lines (numbered input)) []) k = Some l"
proof -
  let ?agg = "fold add_good (good_lines (numbered input)) []"
  obtain k where "(k, l) \<in> set ?agg" using assms by (auto simp: parse_multibuy_eq)
  moreover have "distinct (map fst ?agg)" using parse_agg_ok by (simp add: agg_ok_def)
  ultimately have "map_of ?agg k = Some l" by (rule map_of_is_SomeI [rotated])
  then show ?thesis by (rule that)
qed

lemma key_sum_pos:
  assumes "\<And>y. y \<in> set xs \<Longrightarrow> 0 < snd (snd y)" "x \<in> set xs" "key_of x = k"
  shows "0 < key_sum k xs"
  using assms
proof (induction xs)
  case (Cons y ys)
  have "0 \<le> key_sum k ys" using Cons.prems(1) by (intro key_sum_nonneg) simp
  moreover have "0 < snd (snd y)" using Cons.prems(1) by (meson list.set_intros(1))
  moreover have "key_sum k (y # ys) = (if key_of y = k then snd (snd y) else 0) + key_sum k ys"
    by (simp add: key_sum_def)
  moreover have "0 < key_sum k ys" if "x \<noteq> y"
    using Cons.IH Cons.prems that by (meson list.set_intros(2) set_ConsD)
  ultimately show ?case using Cons.prems(3) by (cases "x = y") (simp_all add: add_pos_nonneg)
qed simp

lemma parsed_line_spec:
  assumes "l \<in> set (pm_lines (parse_multibuy input))"
  shows "pl_qty l = min (key_sum (name_key (pl_name l)) (good_lines (numbered input))) i64_max"
    "0 < key_sum (name_key (pl_name l)) (good_lines (numbered input))"
proof -
  let ?xs = "good_lines (numbered input)"
  obtain k where k: "map_of (fold add_good ?xs []) k = Some l" using assms by (rule parsed_line_mem)
  then have ok: "pl_qty l = min (key_sum k ?xs) i64_max" "name_key (pl_name l) = k"
    "Some (pl_name l) = map_option (\<lambda>x. fst (snd x)) (find (\<lambda>x. key_of x = k) ?xs)"
    using parse_agg_ok [of input] unfolding agg_ok_def by blast+
  show "pl_qty l = min (key_sum (name_key (pl_name l)) ?xs) i64_max" using ok(1,2) by simp
  obtain x where "find (\<lambda>x. key_of x = k) ?xs = Some x"
    using ok(3) by (cases "find (\<lambda>x. key_of x = k) ?xs") simp_all
  then have "x \<in> set ?xs" "key_of x = k" by (auto dest: find_Some_memD)
  moreover have "0 < snd (snd y)" if "y \<in> set ?xs" for y
    using that good_lines_bounds(1) by (metis prod.collapse)
  ultimately show "0 < key_sum (name_key (pl_name l)) ?xs" using ok(2) by (intro key_sum_pos [of _ x]) auto
qed

lemma parsed_line_qty: "l \<in> set (pm_lines (parse_multibuy input)) \<Longrightarrow> 0 < pl_qty l"
  using parsed_line_spec [of l input] by (simp add: i64_max_def)

section \<open>Printing and parsing back\<close>

definition clean_name :: "string \<Rightarrow> bool" where
  "clean_name n \<longleftrightarrow> n \<noteq> [] \<and> \<not> is_blank (hd n) \<and> \<not> is_blank (last n)
     \<and> TAB \<notin> set n \<and> LF \<notin> set n \<and> NBSP \<notin> set n"

definition print_line :: "string \<times> int \<Rightarrow> string" where
  "print_line p = fst p @ [TAB] @ digits_of_nat (nat (snd p))"

definition print_multibuy :: "(string \<times> int) list \<Rightarrow> string" where
  "print_multibuy ps = concat (map (\<lambda>p. print_line p @ [LF]) ps)"

definition printable :: "string \<times> int \<Rightarrow> bool" where
  "printable p \<longleftrightarrow> clean_name (fst p) \<and> 0 < snd p \<and> snd p \<le> i64_max"

lemma of_char_digit: "n < 10 \<Longrightarrow> (of_char (char_of (n + 48 :: nat)) :: int) = int n + 48"
proof -
  assume "n < 10"
  then have "(of_char (char_of (n + 48 :: nat)) :: nat) = n + 48" by simp
  then have "int (of_char (char_of (n + 48 :: nat))) = int n + 48" by (simp only: of_nat_add of_nat_numeral)
  then show ?thesis by (simp only: of_nat_of_char)
qed

lemma digits_all: "list_all is_digit (digits_of_nat n)"
proof (induction n rule: digits_of_nat.induct)
  case (1 n)
  have "is_digit (char_of (m + 48 :: nat))" if "m < 10" for m
    using of_char_digit [OF that] that by (simp add: is_digit_def)
  then show ?case using 1 by (subst digits_of_nat.simps) simp
qed

lemma digits_nonempty: "digits_of_nat n \<noteq> []"
  by (subst digits_of_nat.simps) simp

lemma digits_val_snoc: "digits_val (ds @ [c]) = 10 * digits_val ds + digit_val c"
  by (simp add: digits_val_def)

lemma digits_val_print: "digits_val (digits_of_nat n) = int n"
proof (induction n rule: digits_of_nat.induct)
  case (1 n)
  show ?case
  proof (cases "n < 10")
    case True
    then show ?thesis
      by (subst digits_of_nat.simps) (simp add: digits_val_def digit_val_def of_char_digit)
  next
    case False
    have "digits_of_nat n = digits_of_nat (n div 10) @ [char_of (n mod 10 + 48)]"
      using False by (subst digits_of_nat.simps) simp
    then show ?thesis using 1 False
      by (simp add: digits_val_snoc digit_val_def of_char_digit zdiv_int zmod_int)
  qed
qed

lemma digit_not:
  assumes "is_digit c"
  shows "\<not> is_blank c" "c \<noteq> CHR '',''" "c \<noteq> CHR ''-''" "c \<noteq> CHR ''+''" "c \<noteq> TAB" "c \<noteq> LF" "c \<noteq> CR" "c \<noteq> NBSP"
  using assms by (auto simp: is_digit_def is_blank_def Let_def TAB_def LF_def CR_def NBSP_def)

lemma digits_not:
  "\<forall>c\<in>set (digits_of_nat n). \<not> is_blank c \<and> c \<noteq> CHR '','' \<and> c \<noteq> CHR ''-'' \<and> c \<noteq> CHR ''+''
     \<and> c \<noteq> TAB \<and> c \<noteq> LF \<and> c \<noteq> CR \<and> c \<noteq> NBSP"
  using digits_all [of n] digit_not by (auto simp: list_all_iff)

lemma parse_qty_digits:
  assumes "0 < q" "q \<le> i64_max"
  shows "parse_qty (digits_of_nat (nat q)) = Some q"
proof -
  let ?ds = "digits_of_nat (nat q)"
  have "strip_commas ?ds = ?ds"
    unfolding strip_commas_def using digits_not by (intro filter_True) blast
  moreover have "unsign ?ds = (False, ?ds)"
    using digits_nonempty [of "nat q"] digits_not [of "nat q"]
    by (cases ?ds) (auto simp: unsign_def)
  moreover have "digits_val ?ds = q" using assms by (simp add: digits_val_print)
  moreover have "i64_min \<le> q" using assms by (simp add: i64_min_def)
  ultimately have "parse_i64 ?ds = Some q"
    unfolding parse_i64_def using assms digits_all digits_nonempty by simp
  then show ?thesis using \<open>strip_commas ?ds = ?ds\<close> assms by (simp add: parse_qty_def)
qed

lemma trim_id: "w \<noteq> [] \<Longrightarrow> \<not> is_blank (hd w) \<Longrightarrow> \<not> is_blank (last w) \<Longrightarrow> trim w = w"
proof -
  assume w: "w \<noteq> []" "\<not> is_blank (hd w)" "\<not> is_blank (last w)"
  then have "dropWhile is_blank w = w" by (cases w) simp_all
  moreover have "dropWhile is_blank (rev w) = rev w" using w by (cases w rule: rev_cases) simp_all
  ultimately show ?thesis by (simp add: trim_def)
qed

lemma nbsp_id: "NBSP \<notin> set w \<Longrightarrow> nbsp_to_space w = w"
  unfolding nbsp_to_space_def by (rule map_idI) auto

lemma split_on_hit: "\<forall>c\<in>set w. \<not> p c \<Longrightarrow> p x \<Longrightarrow> split_on p (w @ x # s) = w # split_on p s"
  by (induction w) simp_all

lemma split_on_miss: "\<forall>c\<in>set w. \<not> p c \<Longrightarrow> split_on p w = [w]"
  by (induction w) simp_all

lemma digits_last: "last (digits_of_nat n) \<in> set (digits_of_nat n)"
  using digits_nonempty by (rule last_in_set)

lemma print_line_shape:
  assumes "printable p"
  shows "print_line p \<noteq> []" "\<not> is_blank (hd (print_line p))" "\<not> is_blank (last (print_line p))"
    "LF \<notin> set (print_line p)" "NBSP \<notin> set (print_line p)" "strip_cr (print_line p) = print_line p"
  using assms digits_not [of "nat (snd p)"] digits_last [of "nat (snd p)"] digits_nonempty [of "nat (snd p)"]
  by (auto simp: printable_def clean_name_def print_line_def strip_cr_def hd_append TAB_def LF_def NBSP_def)

lemma parse_print_line:
  assumes "printable p"
  shows "parse_line (print_line p) = Inr p"
proof -
  have n: "clean_name (fst p)" "0 < snd p" "snd p \<le> i64_max" using assms by (simp_all add: printable_def)
  have split: "split_on (\<lambda>c. c = TAB) (print_line p) = [fst p, digits_of_nat (nat (snd p))]"
  proof -
    have "split_on (\<lambda>c. c = TAB) (fst p @ TAB # digits_of_nat (nat (snd p)))
        = fst p # split_on (\<lambda>c. c = TAB) (digits_of_nat (nat (snd p)))"
      using n(1) by (intro split_on_hit) (auto simp: clean_name_def)
    then have "split_on (\<lambda>c. c = TAB) (print_line p)
        = fst p # split_on (\<lambda>c. c = TAB) (digits_of_nat (nat (snd p)))" by (simp add: print_line_def)
    also have "split_on (\<lambda>c. c = TAB) (digits_of_nat (nat (snd p))) = [digits_of_nat (nat (snd p))]"
      using digits_not by (intro split_on_miss) blast
    finally show ?thesis .
  qed
  have "trim (fst p) = fst p" using n(1) by (intro trim_id) (simp_all add: clean_name_def)
  moreover have "trim (digits_of_nat (nat (snd p))) = digits_of_nat (nat (snd p))"
    using digits_not [of "nat (snd p)"] digits_last [of "nat (snd p)"]
      hd_in_set [OF digits_nonempty [of "nat (snd p)"]] digits_nonempty [of "nat (snd p)"]
    by (intro trim_id) simp_all
  moreover have "fst p \<noteq> []" using n(1) by (simp add: clean_name_def)
  ultimately have "parse_tab_line (print_line p) = Inr p"
    unfolding parse_tab_line_def split by (simp add: parse_qty_digits n)
  then show ?thesis by (simp add: parse_line_def print_line_def)
qed

lemma split_lines_print:
  assumes "list_all printable ps"
  shows "split_lines (print_multibuy ps) = map print_line ps"
proof -
  have "split_on (\<lambda>c. c = LF) (print_multibuy ps) = map print_line ps @ [[]]"
    using assms
  proof (induction ps)
    case (Cons p ps)
    then have "split_on (\<lambda>c. c = LF) (print_line p @ LF # print_multibuy ps)
        = print_line p # split_on (\<lambda>c. c = LF) (print_multibuy ps)"
      using print_line_shape(4) [of p] by (intro split_on_hit) auto
    then show ?case using Cons by (simp add: print_multibuy_def)
  qed (simp add: print_multibuy_def)
  moreover have "map strip_cr (map print_line ps) = map print_line ps"
    using assms by (induction ps) (simp_all add: print_line_shape)
  ultimately show ?thesis by (simp add: split_lines_def Let_def)
qed

lemma name_key_clean: "clean_name n \<Longrightarrow> name_key n \<noteq> []"
  by (simp add: name_key_def nbsp_id trim_id clean_name_def)

lemma classify_print:
  assumes "printable p"
  shows "classify (idx, print_line p) = Some (Inr (line_number idx, fst p, snd p))"
proof -
  have "parse_line (print_line p) = Inr (fst p, snd p)" using parse_print_line [OF assms] by simp
  then show ?thesis
    using print_line_shape(1) [OF assms] name_key_clean [of "fst p"] assms
    unfolding classify_good nbsp_id [OF print_line_shape(5) [OF assms]]
      trim_id [OF print_line_shape(1-3) [OF assms]] by (simp add: printable_def)
qed

lemma good_lines_print:
  assumes "list_all printable ps"
  shows "good_lines (enumerate k (map print_line ps)) = map (\<lambda>(i, p). (line_number i, fst p, snd p)) (enumerate k ps)
    \<and> bad_lines (enumerate k (map print_line ps)) = []"
  using assms
  by (induction ps arbitrary: k) (simp_all add: good_lines_def bad_lines_def classify_print)

lemma fold_add_fresh:
  assumes "distinct (map key_of xs)" "key_of ` set xs \<inter> set (map fst agg) = {}"
  shows "fold add_good xs agg = agg @ map (\<lambda>x. (key_of x, \<lparr> pl_line_nos = [fst x], pl_name = fst (snd x),
     pl_qty = snd (snd x) \<rparr>)) xs"
  using assms
proof (induction xs arbitrary: agg)
  case (Cons x xs)
  have "add_good x agg = agg @ [(key_of x, \<lparr> pl_line_nos = [fst x], pl_name = fst (snd x), pl_qty = snd (snd x) \<rparr>)]"
    using Cons.prems(2) by (simp add: add_line_def Let_def)
  then show ?case using Cons by simp
qed simp

lemma map_enumerate_snd: "map (\<lambda>(i, p). f p) (enumerate k ps) = map f ps"
  by (induction ps arbitrary: k) simp_all

text \<open>C21: a list printed one item per line, name and quantity separated by a tab, is read back
  line by line: same names, same quantities, same order, no errors.\<close>

theorem parse_print_multibuy:
  assumes "list_all printable ps" "distinct (map (\<lambda>p. name_key (fst p)) ps)"
  shows "parse_multibuy (print_multibuy ps) = \<lparr>
     pm_lines = map (\<lambda>(i, p). \<lparr> pl_line_nos = [line_number i], pl_name = fst p, pl_qty = snd p \<rparr>) (enumerate 0 ps),
     pm_errors = [] \<rparr>"
proof -
  let ?g = "map (\<lambda>(i, p). (line_number i, fst p, snd p)) (enumerate 0 ps)"
  have "map key_of ?g = map (\<lambda>p. name_key (fst p)) ps"
    using map_enumerate_snd [of "\<lambda>p. name_key (fst p)" 0 ps] by (simp add: comp_def case_prod_unfold)
  then have "fold add_good ?g [] = map (\<lambda>x. (key_of x, \<lparr> pl_line_nos = [fst x], pl_name = fst (snd x),
     pl_qty = snd (snd x) \<rparr>)) ?g"
    using fold_add_fresh [of ?g "[]"] assms(2) by simp
  then show ?thesis
    by (simp add: parse_multibuy_eq split_lines_print [OF assms(1)] good_lines_print [OF assms(1)]
        comp_def case_prod_unfold)
qed

theorem parse_print_multibuy_witness:
  "pm_errors (parse_multibuy (print_multibuy [(''Tritanium'', 5), (''Large Shield Extender II'', 9223372036854775807)])) = []
   \<and> map pl_qty (pm_lines (parse_multibuy (print_multibuy
        [(''Tritanium'', 5), (''Large Shield Extender II'', 9223372036854775807)]))) = [5, 9223372036854775807]"
proof -
  let ?ps = "[(''Tritanium'', 5), (''Large Shield Extender II'', 9223372036854775807 :: int)]"
  have "list_all printable ?ps" by code_simp
  moreover have "distinct (map (\<lambda>p. name_key (fst p)) ?ps)" by code_simp
  ultimately show ?thesis using parse_print_multibuy [of ?ps] by (simp add: numeral_2_eq_2)
qed

text \<open>C20: a paste is aggregated by item name, ignoring case and surrounding space: there is one
  line per name that occurs on a readable line, its quantity is the sum of the quantities
  of that name, capped at the largest 64-bit integer and always positive, and the lines
  that cannot be read are exactly the errors.\<close>

theorem parse_multibuy_sums:
  "distinct (map (\<lambda>l. name_key (pl_name l)) (pm_lines (parse_multibuy input)))
   \<and> (\<lambda>l. name_key (pl_name l)) ` set (pm_lines (parse_multibuy input)) = key_of ` set (good_lines (numbered input))
   \<and> (\<forall>l\<in>set (pm_lines (parse_multibuy input)).
        pl_qty l = min (key_sum (name_key (pl_name l)) (good_lines (numbered input))) i64_max \<and> 0 < pl_qty l)
   \<and> pm_errors (parse_multibuy input) = bad_lines (numbered input)"
proof -
  let ?xs = "good_lines (numbered input)" and ?agg = "fold add_good (good_lines (numbered input)) []"
  have ok: "distinct (map fst ?agg)" "set (map fst ?agg) = key_of ` set ?xs"
    using parse_agg_ok [of input] by (simp_all add: agg_ok_def)
  have key: "name_key (pl_name (snd kl)) = fst kl" if "kl \<in> set ?agg" for kl
  proof -
    have "map_of ?agg (fst kl) = Some (snd kl)" using map_of_is_SomeI [OF ok(1)] that by simp
    then show ?thesis using parse_agg_ok [of input] unfolding agg_ok_def by blast
  qed
  then have keys: "map (\<lambda>l. name_key (pl_name l)) (pm_lines (parse_multibuy input)) = map fst ?agg"
    by (simp add: parse_multibuy_eq)
  have "(\<lambda>l. name_key (pl_name l)) ` set (pm_lines (parse_multibuy input)) = key_of ` set ?xs"
    using arg_cong [OF keys, of set] ok(2) by simp
  moreover have "distinct (map (\<lambda>l. name_key (pl_name l)) (pm_lines (parse_multibuy input)))"
    unfolding keys by (rule ok(1))
  moreover have "pm_errors (parse_multibuy input) = bad_lines (numbered input)" by (simp add: parse_multibuy_eq)
  ultimately show ?thesis using parsed_line_spec(1) parsed_line_qty by blast
qed

theorem parse_multibuy_sums_witness:
  "\<exists>l\<in>set (pm_lines (parse_multibuy (''Tritanium 5'' @ [LF] @ ''TRITANIUM'' @ [TAB] @ ''7''))).
     name_key (pl_name l) = ''tritanium'' \<and> pl_qty l = 12"
proof -
  let ?in = "''Tritanium 5'' @ [LF] @ ''TRITANIUM'' @ [TAB] @ ''7''"
  have xs: "good_lines (numbered ?in) = [(1, ''Tritanium'', 5), (2, ''TRITANIUM'', 7)]" by code_simp
  have k: "name_key ''Tritanium'' = ''tritanium''" "name_key ''TRITANIUM'' = ''tritanium''" by code_simp+
  note p = parse_multibuy_sums [of ?in, unfolded xs]
  have "''tritanium'' \<in> (\<lambda>l. name_key (pl_name l)) ` set (pm_lines (parse_multibuy ?in))"
    using p by (simp add: k)
  then obtain l where l: "l \<in> set (pm_lines (parse_multibuy ?in))" "name_key (pl_name l) = ''tritanium''"
    by (rule imageE) (rule that, simp_all only:)
  have "pl_qty l = min (key_sum (name_key (pl_name l)) [(1, ''Tritanium'', 5), (2, ''TRITANIUM'', 7)]) i64_max"
    by (rule conjunct1 [OF bspec [OF p [THEN conjunct2, THEN conjunct2, THEN conjunct1] l(1)]])
  then have "pl_qty l = 12" unfolding l(2) by (simp add: key_sum_def k i64_max_def)
  with l show ?thesis by (intro bexI conjI)
qed

end
