(* ===== verification/Pricing.thy ===== *)
theory Pricing
  imports Item_Status Multibuy
begin

text \<open>
  Name resolution and prices for the list handlers: \<^verbatim>\<open>market/src/types.rs\<close>,
  \<^verbatim>\<open>market/src/prices.rs\<close> and \<^verbatim>\<open>api/src/lists/pricing.rs\<close>.  ESI is an argument: the names
  it recognises and the orders it lists.  A price is a \<^verbatim>\<open>Decimal\<close> with its own scale.
\<close>

section \<open>Arithmetic of decimals\<close>

definition dec_less :: "decimal \<Rightarrow> decimal \<Rightarrow> bool" where
  "dec_less x y \<longleftrightarrow> mantissa x * 10 ^ scale y < mantissa y * 10 ^ scale x"

definition dec_max :: "decimal \<Rightarrow> decimal \<Rightarrow> decimal" where
  "dec_max x y = (if dec_less y x then x else y)"

definition dec_min :: "decimal \<Rightarrow> decimal \<Rightarrow> decimal" where
  "dec_min x y = (if dec_less y x then y else x)"

definition dec_add :: "decimal \<Rightarrow> decimal \<Rightarrow> decimal" where
  "dec_add x y = Dec (mantissa x * 10 ^ scale y + mantissa y * 10 ^ scale x) (scale x + scale y)"

definition dec_times :: "decimal \<Rightarrow> int \<Rightarrow> decimal" where
  "dec_times x n = Dec (mantissa x * n) (scale x)"

definition dec_zero :: decimal where
  "dec_zero = Dec 0 0"

section \<open>Resolving item names\<close>

record resolved_type =
  rt_type_id :: int
  rt_type_name :: string

text \<open>\<^verbatim>\<open>id as i32\<close> keeps the low 32 bits, signed.\<close>

definition as_i32 :: "int \<Rightarrow> int" where
  "as_i32 n = (n + 2147483648) mod 4294967296 - 2147483648"

fun requested_names :: "string list \<Rightarrow> string list \<Rightarrow> (string \<times> string) list" where
  "requested_names seen [] = []"
| "requested_names seen (n # ns) =
     (let key = name_key n in
      if key = [] \<or> key \<in> set seen then requested_names seen ns
      else (key, nbsp_to_space (trim n)) # requested_names (key # seen) ns)"

text \<open>\<open>cache\<close> is the table \<^verbatim>\<open>type_cache\<close> by name key; \<open>esi\<close> gives the inventory types it knows among
  the names sent, or an error.  The result also says what is stored in the cache.\<close>

definition resolve_type_ids ::
  "(string \<times> resolved_type) list \<Rightarrow> (string list \<Rightarrow> (int \<times> string) list option) \<Rightarrow> string list \<Rightarrow>
     ((string \<times> resolved_type) list \<times> string list \<times> (string \<times> resolved_type) list) option" where
  "resolve_type_ids cache esi names =
     (let requested = requested_names [] names;
          cached = concat (map (\<lambda>(k, _). case map_of cache k of None \<Rightarrow> [] | Some r \<Rightarrow> [(k, r)]) requested);
          missing = filter (\<lambda>(k, _). map_of cache k = None) requested
      in if requested = [] then Some ([], [], [])
         else if missing = [] then Some (cached, [], [])
         else case esi (map snd missing) of None \<Rightarrow> None | Some found \<Rightarrow>
           let echoed = rev (map (\<lambda>(i, n). (name_key n, (i, n))) found);
               fresh = concat (map (\<lambda>(k, _). case map_of echoed k of
                   None \<Rightarrow> [] | Some (i, n) \<Rightarrow> [(k, \<lparr> rt_type_id = as_i32 i, rt_type_name = n \<rparr>)]) missing);
               unresolved = concat (map (\<lambda>(k, orig). if map_of echoed k = None then [orig] else []) missing)
           in Some (cached @ fresh, unresolved, fresh))"

section \<open>Order books\<close>

record esi_order =
  eo_order_id :: int
  eo_is_buy :: bool
  eo_price :: decimal
  eo_volume_remain :: int
  eo_location_id :: int
  eo_type_id :: int

record price_aggregate =
  pa_best_sell :: "decimal option"
  pa_best_buy :: "decimal option"
  pa_sell_volume :: int
  pa_buy_volume :: int
  pa_computed_at :: instant

definition sat_add :: "int \<Rightarrow> int \<Rightarrow> int" where
  "sat_add a b = max i64_min (min i64_max (a + b))"

definition opt_with :: "(decimal \<Rightarrow> decimal \<Rightarrow> decimal) \<Rightarrow> decimal option \<Rightarrow> decimal \<Rightarrow> decimal option" where
  "opt_with f cur p = Some (case cur of None \<Rightarrow> p | Some c \<Rightarrow> f c p)"

definition add_order :: "esi_order \<Rightarrow> price_aggregate \<Rightarrow> price_aggregate" where
  "add_order ord a =
     (if eo_is_buy ord
      then a \<lparr> pa_buy_volume := sat_add (pa_buy_volume a) (eo_volume_remain ord),
               pa_best_buy := opt_with dec_max (pa_best_buy a) (eo_price ord) \<rparr>
      else a \<lparr> pa_sell_volume := sat_add (pa_sell_volume a) (eo_volume_remain ord),
               pa_best_sell := opt_with dec_min (pa_best_sell a) (eo_price ord) \<rparr>)"

definition empty_aggregate :: "instant \<Rightarrow> price_aggregate" where
  "empty_aggregate now = \<lparr> pa_best_sell = None, pa_best_buy = None, pa_sell_volume = 0,
     pa_buy_volume = 0, pa_computed_at = now \<rparr>"

definition aggregate_orders :: "esi_order list \<Rightarrow> instant \<Rightarrow> price_aggregate" where
  "aggregate_orders ords now = fold add_order ords (empty_aggregate now)"

text \<open>A stored price is rounded to hundredths; reading it back gives a decimal of scale 2.\<close>

definition price_row :: "uuid \<Rightarrow> int \<Rightarrow> price_aggregate \<Rightarrow> market_price" where
  "price_row mid ty a = \<lparr> mp_market_id = mid, mp_type_id = ty,
     mp_best_sell = map_option (to_numeric 2) (pa_best_sell a),
     mp_best_buy = map_option (to_numeric 2) (pa_best_buy a),
     mp_sell_volume = pa_sell_volume a, mp_buy_volume = pa_buy_volume a,
     mp_computed_at = pa_computed_at a \<rparr>"

definition row_aggregate :: "market_price \<Rightarrow> price_aggregate" where
  "row_aggregate r = \<lparr> pa_best_sell = map_option (\<lambda>v. Dec v 2) (mp_best_sell r),
     pa_best_buy = map_option (\<lambda>v. Dec v 2) (mp_best_buy r),
     pa_sell_volume = mp_sell_volume r, pa_buy_volume = mp_buy_volume r,
     pa_computed_at = mp_computed_at r \<rparr>"

definition opt_fits :: "isk option \<Rightarrow> bool" where
  "opt_fits v = (case v of None \<Rightarrow> True | Some x \<Rightarrow> fits 20 x)"

definition upsert_price_row :: "uuid \<Rightarrow> int \<Rightarrow> price_aggregate \<Rightarrow> db \<Rightarrow> unit + db" where
  "upsert_price_row mid ty a d =
     (let row = price_row mid ty a;
          same = (\<lambda>r. mp_market_id r = mid \<and> mp_type_id r = ty)
      in if \<not> opt_fits (mp_best_sell row) \<or> \<not> opt_fits (mp_best_buy row) then Inl ()
         else if \<exists>r\<in>set (market_prices d). same r
         then Inr (d \<lparr> market_prices := upd_where same (\<lambda>_. row) (market_prices d) \<rparr>)
         else Inr (d \<lparr> market_prices := market_prices d @ [row] \<rparr>))"

definition fits_i32 :: "int \<Rightarrow> bool" where
  "fits_i32 n \<longleftrightarrow> - 2147483648 \<le> n \<and> n \<le> 2147483647"

text \<open>\<open>orders region type\<close> is ESI's answer for a region and a type.\<close>

definition refresh_one ::
  "(int \<Rightarrow> int \<Rightarrow> esi_order list option) \<Rightarrow> market \<Rightarrow> int \<Rightarrow> instant \<Rightarrow> db \<Rightarrow> unit + price_aggregate \<times> db" where
  "refresh_one orders m ty now d =
     (case mk_region_id m of None \<Rightarrow> Inl () | Some region \<Rightarrow>
      if \<not> fits_i32 region \<or> \<not> fits_i32 ty then Inl ()
      else case orders region ty of None \<Rightarrow> Inl () | Some ords \<Rightarrow>
        let agg = aggregate_orders (filter (\<lambda>ord. eo_location_id ord = mk_esi_location_id m) ords) now
        in bind_res (upsert_price_row (mk_id m) ty agg d) (\<lambda>d'. Inr (agg, d')))"

definition read_cached_prices :: "db \<Rightarrow> uuid \<Rightarrow> int list \<Rightarrow> int \<Rightarrow> instant \<Rightarrow> (int \<times> price_aggregate) list" where
  "read_cached_prices d mid tys ttl now =
     map (\<lambda>r. (mp_type_id r, row_aggregate r))
       (filter (\<lambda>r. mp_market_id r = mid \<and> mp_type_id r \<in> set tys \<and> now - max ttl 0 \<le> mp_computed_at r)
          (market_prices d))"

text \<open>The stale types are fetched one by one; a failed one is logged and left out.\<close>

definition refresh_stale ::
  "(int \<Rightarrow> int \<Rightarrow> esi_order list option) \<Rightarrow> market \<Rightarrow> instant \<Rightarrow> int \<Rightarrow>
     (int \<times> price_aggregate) list \<times> db \<Rightarrow> (int \<times> price_aggregate) list \<times> db" where
  "refresh_stale orders m now ty acc =
     (case refresh_one orders m ty now (snd acc) of
        Inl _ \<Rightarrow> acc | Inr (a, d') \<Rightarrow> (fst acc @ [(ty, a)], d'))"

definition get_or_refresh_prices ::
  "(int \<Rightarrow> int \<Rightarrow> esi_order list option) \<Rightarrow> market \<Rightarrow> int list \<Rightarrow> int \<Rightarrow> instant \<Rightarrow> db \<Rightarrow>
     (int \<times> price_aggregate) list \<times> db" where
  "get_or_refresh_prices orders m tys ttl now d =
     (if tys = [] then ([], d)
      else let out = read_cached_prices d (mk_id m) tys ttl now;
               stale = filter (\<lambda>t. t \<notin> set (map fst out)) tys
           in fold (refresh_stale orders m now) stale (out, d))"

text \<open>A citadel's whole order book: repeated order ids are counted once, and every
  requested type gets a row, priced or not.\<close>

fun dedup_orders :: "int list \<Rightarrow> esi_order list \<Rightarrow> esi_order list" where
  "dedup_orders seen [] = []"
| "dedup_orders seen (ord # ords) =
     (if eo_order_id ord \<in> set seen then dedup_orders seen ords
      else ord # dedup_orders (eo_order_id ord # seen) ords)"

definition citadel_aggregate :: "esi_order list \<Rightarrow> int \<Rightarrow> instant \<Rightarrow> price_aggregate" where
  "citadel_aggregate ords ty now =
     aggregate_orders (filter (\<lambda>ord. eo_type_id ord = ty) (dedup_orders [] ords)) now"

fun store_aggregates :: "uuid \<Rightarrow> esi_order list \<Rightarrow> instant \<Rightarrow> int list \<Rightarrow> db \<Rightarrow> unit + db" where
  "store_aggregates mid ords now [] d = Inr d"
| "store_aggregates mid ords now (ty # tys) d =
     bind_res (upsert_price_row mid ty (citadel_aggregate ords ty now) d) (store_aggregates mid ords now tys)"

definition refresh_many_for_citadel ::
  "esi_order list option \<Rightarrow> uuid \<Rightarrow> int list \<Rightarrow> instant \<Rightarrow> db \<Rightarrow> unit + (int \<times> price_aggregate) list \<times> db" where
  "refresh_many_for_citadel orders mid tys now d =
     (case orders of None \<Rightarrow> Inl () | Some ords \<Rightarrow>
      bind_res (store_aggregates mid ords now tys d) (\<lambda>d1.
      Inr (map (\<lambda>ty. (ty, citadel_aggregate ords ty now)) tys,
           d1 \<lparr> markets := upd_where (\<lambda>m. mk_id m = mid)
                  (\<lambda>m. m \<lparr> mk_last_orders_synced_at := Some now \<rparr>) (markets d1) \<rparr>)))"

section \<open>Prices for a list\<close>

definition dedup_type_ids :: "int list \<Rightarrow> int list" where
  "dedup_type_ids ts = remdups (sort ts)"

definition STRUCTURE_MARKETS_SCOPE :: string where
  "STRUCTURE_MARKETS_SCOPE = ''esi-markets.structure_markets.v1''"

definition accessible_market_ids :: "db \<Rightarrow> uuid \<Rightarrow> uuid list \<Rightarrow> uuid list" where
  "accessible_market_ids d gid ids =
     map mk_id (filter (\<lambda>m. mk_id m \<in> set ids
       \<and> (mk_kind m = NpcHub
          \<or> (\<exists>ch\<in>set (characters d). is_group_member d (ch_user_id ch) gid
               \<and> STRUCTURE_MARKETS_SCOPE \<in> set (ch_scopes ch)
               \<and> (\<exists>sa\<in>set (structure_accesses d). sa_character_id sa = ch_id ch
                    \<and> sa_market_id sa = mk_id m \<and> sa_market_status sa = SaOk)))) (markets d))"

definition read_group_citadel_prices ::
  "db \<Rightarrow> market \<Rightarrow> int list \<Rightarrow> int \<Rightarrow> instant \<Rightarrow> uuid list \<Rightarrow> (int \<times> price_aggregate) list" where
  "read_group_citadel_prices d m tys ttl now accessible =
     (if \<not> mk_is_public m \<or> tys = [] \<or> mk_id m \<notin> set accessible then []
      else read_cached_prices d (mk_id m) tys ttl now)"

type_synonym price_map = "(uuid \<times> (int \<times> price_aggregate) list) list"

text \<open>\<open>npc\<close> is what \<open>get_or_refresh_prices\<close> answered for a hub on its own connection.\<close>

definition fetch_prices_for_markets ::
  "(market \<Rightarrow> int list \<Rightarrow> (int \<times> price_aggregate) list) \<Rightarrow> int \<Rightarrow> instant \<Rightarrow> uuid \<Rightarrow>
     market list \<Rightarrow> int list \<Rightarrow> db \<Rightarrow> price_map" where
  "fetch_prices_for_markets npc citadel_ttl now gid ms tys d =
     (let citadels = map mk_id (filter (\<lambda>m. mk_kind m = PublicStructure) ms);
          accessible = (if citadels = [] then [] else accessible_market_ids d gid citadels)
      in map (\<lambda>m. (mk_id m,
            case mk_kind m of
              NpcHub \<Rightarrow> npc m tys
            | PublicStructure \<Rightarrow> read_group_citadel_prices d m tys citadel_ttl now accessible)) ms)"

text \<open>\<^verbatim>\<open>Iterator::min_by_key\<close> keeps the first of several equal minima.\<close>

fun min_offer :: "(decimal \<times> uuid) list \<Rightarrow> (decimal \<times> uuid) option" where
  "min_offer [] = None"
| "min_offer (x # xs) = (case min_offer xs of None \<Rightarrow> Some x
     | Some y \<Rightarrow> if dec_less (fst y) (fst x) then Some y else Some x)"

definition sell_offers :: "market list \<Rightarrow> price_map \<Rightarrow> int \<Rightarrow> (decimal \<times> uuid) list" where
  "sell_offers ms prices ty =
     concat (map (\<lambda>m. case Option.bind (Option.bind (map_of prices (mk_id m)) (\<lambda>t. map_of t ty)) pa_best_sell of
                        None \<Rightarrow> [] | Some p \<Rightarrow> [(p, mk_id m)]) ms)"

definition pick_cheapest :: "market list \<Rightarrow> price_map \<Rightarrow> int \<Rightarrow> decimal option \<times> uuid option" where
  "pick_cheapest ms prices ty =
     (case min_offer (sell_offers ms prices ty) of
        Some (p, i) \<Rightarrow> (Some p, Some i) | None \<Rightarrow> (None, None))"

section \<open>The order of decimals\<close>

definition dec_le :: "decimal \<Rightarrow> decimal \<Rightarrow> bool" where
  "dec_le x y \<longleftrightarrow> \<not> dec_less y x"

lemma dec_le_refl [simp]: "dec_le x x"
  by (simp add: dec_le_def dec_less_def)

lemma dec_less_irrefl [simp]: "\<not> dec_less x x"
  by (simp add: dec_less_def)

lemma dec_less_imp_le: "dec_less x y \<Longrightarrow> dec_le x y"
  by (simp add: dec_le_def dec_less_def)

lemma dec_le_trans:
  assumes "dec_le x y" "dec_le y z"
  shows "dec_le x z"
proof -
  let ?A = "10 ^ scale x :: int" and ?B = "10 ^ scale y :: int" and ?C = "10 ^ scale z :: int"
  have 1: "mantissa x * ?B \<le> mantissa y * ?A" and 2: "mantissa y * ?C \<le> mantissa z * ?B"
    using assms by (simp_all add: dec_le_def dec_less_def not_less)
  have "mantissa x * ?C * ?B = (mantissa x * ?B) * ?C" by simp
  also have "\<dots> \<le> (mantissa y * ?A) * ?C" using 1 by (intro mult_right_mono) simp_all
  also have "\<dots> = (mantissa y * ?C) * ?A" by simp
  also have "\<dots> \<le> (mantissa z * ?B) * ?A" using 2 by (intro mult_right_mono) simp_all
  also have "\<dots> = mantissa z * ?A * ?B" by simp
  finally have "mantissa x * ?C \<le> mantissa z * ?A" by (simp add: mult_le_cancel_right)
  then show ?thesis by (simp add: dec_le_def dec_less_def not_less)
qed

lemma dec_le_total: "dec_le x y \<or> dec_le y x"
  by (auto simp: dec_le_def dec_less_def)

lemma dec_min_le: "dec_le (dec_min x y) x" "dec_le (dec_min x y) y"
  using dec_le_total [of x y] by (auto simp: dec_min_def dec_less_imp_le dec_le_def)

lemma dec_max_ge: "dec_le x (dec_max x y)" "dec_le y (dec_max x y)"
  using dec_le_total [of x y] by (auto simp: dec_max_def dec_less_imp_le dec_le_def)

section \<open>The cheapest offer\<close>

lemma min_offer_None: "min_offer xs = None \<longleftrightarrow> xs = []"
  by (cases xs) (auto split: option.splits)

lemma min_offer_Some:
  assumes "min_offer xs = Some x"
  shows "x \<in> set xs \<and> (\<forall>y\<in>set xs. dec_le (fst x) (fst y))"
  using assms
proof (induction xs arbitrary: x)
  case (Cons a xs)
  show ?case
  proof (cases "min_offer xs")
    case None
    then show ?thesis using Cons.prems by (simp add: min_offer_None)
  next
    case (Some b)
    have b: "b \<in> set xs" "\<forall>y\<in>set xs. dec_le (fst b) (fst y)" using Cons.IH [OF Some] by simp_all
    show ?thesis
    proof (cases "dec_less (fst b) (fst a)")
      case True
      then show ?thesis using Cons.prems Some b dec_less_imp_le by auto
    next
      case False
      then have "x = a" "dec_le (fst a) (fst b)" using Cons.prems Some by (simp_all add: dec_le_def)
      then show ?thesis using b(2) dec_le_trans by auto
    qed
  qed
qed simp

lemma sell_offers_mem:
  "(p, i) \<in> set (sell_offers ms prices ty) \<longleftrightarrow>
     (\<exists>m\<in>set ms. \<exists>t a. mk_id m = i \<and> map_of prices i = Some t \<and> map_of t ty = Some a
        \<and> pa_best_sell a = Some p)"
proof -
  have "(p, i) \<in> set (case x of None \<Rightarrow> [] | Some q \<Rightarrow> [(q, j)]) \<longleftrightarrow> x = Some p \<and> j = i" for x and j :: uuid
    by (cases x) auto
  then show ?thesis
    by (auto simp: sell_offers_def Option.bind_eq_Some_conv)
qed

section \<open>Aggregates of an order book\<close>

lemma add_order_frame:
  "pa_best_sell (add_order ord a) = (if eo_is_buy ord then pa_best_sell a else opt_with dec_min (pa_best_sell a) (eo_price ord))"
  "pa_best_buy (add_order ord a) = (if eo_is_buy ord then opt_with dec_max (pa_best_buy a) (eo_price ord) else pa_best_buy a)"
  by (simp_all add: add_order_def)

lemma best_sell_fold:
  "pa_best_sell (fold add_order ords a) =
     fold (\<lambda>ord b. opt_with dec_min b (eo_price ord)) (filter (\<lambda>ord. \<not> eo_is_buy ord) ords) (pa_best_sell a)"
  by (induction ords arbitrary: a) (simp_all add: add_order_frame)

lemma best_buy_fold:
  "pa_best_buy (fold add_order ords a) =
     fold (\<lambda>ord b. opt_with dec_max b (eo_price ord)) (filter eo_is_buy ords) (pa_best_buy a)"
  by (induction ords arbitrary: a) (simp_all add: add_order_frame)

text \<open>One induction for both sides of the book: \<open>f\<close> picks one of two prices, and \<open>le\<close> says what it
  does not lose.\<close>

lemma fold_opt_with:
  assumes pick: "\<And>x y. f x y = x \<or> f x y = y"
    and le: "\<And>x y. le (f x y) x" "\<And>x y. le (f x y) y" "\<And>x. le x x" "transp le"
    and res: "fold (\<lambda>ord b. opt_with f b (g ord)) ords start = Some p"
  shows "(p \<in> g ` set ords \<or> start = Some p) \<and> (\<forall>ord\<in>set ords. le p (g ord)) \<and> (\<forall>q. start = Some q \<longrightarrow> le p q)"
  using res
proof (induction ords arbitrary: start)
  case Nil
  then show ?case using le(3) by simp
next
  case (Cons ord ords)
  let ?b = "case start of None \<Rightarrow> g ord | Some c \<Rightarrow> f c (g ord)"
  have "fold (\<lambda>ord b. opt_with f b (g ord)) ords (Some ?b) = Some p"
    using Cons.prems by (simp add: opt_with_def)
  then have IH: "p \<in> g ` set ords \<or> ?b = p" "\<forall>ord\<in>set ords. le p (g ord)" "le p ?b"
    using Cons.IH by blast+
  have "le ?b (g ord)" using le by (cases start) auto
  moreover have "\<forall>q. start = Some q \<longrightarrow> le ?b q" using le by (cases start) auto
  moreover have "?b = g ord \<or> start = Some ?b" using pick [of _ "g ord"] by (cases start) (auto simp: eq_commute)
  ultimately show ?case using IH transpD [OF le(4)] by auto
qed

lemma dec_min_pick: "dec_min x y = x \<or> dec_min x y = y"
  by (simp add: dec_min_def)

lemma dec_max_pick: "dec_max x y = x \<or> dec_max x y = y"
  by (simp add: dec_max_def)

lemma best_sell_is_min:
  assumes "pa_best_sell (aggregate_orders ords now) = Some p"
  shows "(\<exists>ord\<in>set ords. \<not> eo_is_buy ord \<and> eo_price ord = p)
    \<and> (\<forall>ord\<in>set ords. \<not> eo_is_buy ord \<longrightarrow> dec_le p (eo_price ord))"
proof -
  have "fold (\<lambda>ord b. opt_with dec_min b (eo_price ord)) (filter (\<lambda>ord. \<not> eo_is_buy ord) ords) None = Some p"
    using assms by (simp add: aggregate_orders_def best_sell_fold empty_aggregate_def)
  from fold_opt_with [where f = dec_min and le = dec_le, OF dec_min_pick dec_min_le dec_le_refl _ this]
  show ?thesis using dec_le_trans by (auto simp: transp_def)
qed

lemma best_buy_is_max:
  assumes "pa_best_buy (aggregate_orders ords now) = Some p"
  shows "(\<exists>ord\<in>set ords. eo_is_buy ord \<and> eo_price ord = p)
    \<and> (\<forall>ord\<in>set ords. eo_is_buy ord \<longrightarrow> dec_le (eo_price ord) p)"
proof -
  have "fold (\<lambda>ord b. opt_with dec_max b (eo_price ord)) (filter eo_is_buy ords) None = Some p"
    using assms by (simp add: aggregate_orders_def best_buy_fold empty_aggregate_def)
  from fold_opt_with [where f = dec_max and le = "\<lambda>x y. dec_le y x",
      OF dec_max_pick dec_max_ge dec_le_refl _ this]
  show ?thesis using dec_le_trans by (auto simp: transp_def)
qed

lemma dedup_orders_set:
  "set (dedup_orders seen ords) \<subseteq> set ords"
  "ord \<in> set ords \<Longrightarrow> eo_order_id ord \<in> set seen \<union> eo_order_id ` set (dedup_orders seen ords)"
  by (induction seen ords rule: dedup_orders.induct) auto

lemma dedup_orders_distinct:
  "distinct (map eo_order_id (dedup_orders seen ords))
   \<and> eo_order_id ` set (dedup_orders seen ords) \<inter> set seen = {}"
  by (induction seen ords rule: dedup_orders.induct) auto

section \<open>Every name is resolved or reported\<close>

text \<open>The contract of name resolution the list handlers rely on: when nothing is reported as
  unresolved, every name that is not blank has a type.\<close>

locale type_resolver =
  fixes resolve :: "string list \<Rightarrow> ((string \<times> resolved_type) list \<times> string list) option"
  assumes covers: "resolve names = Some (m, []) \<Longrightarrow> n \<in> set names \<Longrightarrow> name_key n \<noteq> [] \<Longrightarrow>
     map_of m (name_key n) \<noteq> None"
begin

lemma all_resolved:
  assumes "resolve names = Some (m, [])" "\<forall>n\<in>set names. name_key n \<noteq> []"
  shows "\<forall>n\<in>set names. \<exists>r. map_of m (name_key n) = Some r"
  using covers [OF assms(1)] assms(2) by blast

end

definition resolve_names ::
  "(string \<times> resolved_type) list \<Rightarrow> (string list \<Rightarrow> (int \<times> string) list option) \<Rightarrow> string list \<Rightarrow>
     ((string \<times> resolved_type) list \<times> string list) option" where
  "resolve_names cache esi names = map_option (\<lambda>(m, un, _). (m, un)) (resolve_type_ids cache esi names)"

lemma requested_names_cover:
  "n \<in> set ns \<Longrightarrow> name_key n \<noteq> [] \<Longrightarrow> name_key n \<in> set seen \<or> name_key n \<in> fst ` set (requested_names seen ns)"
  by (induction seen ns rule: requested_names.induct) (auto simp: Let_def)

lemma resolve_names_covers:
  assumes "resolve_names cache esi names = Some (m, [])" "n \<in> set names" "name_key n \<noteq> []"
  shows "map_of m (name_key n) \<noteq> None"
proof -
  let ?req = "requested_names [] names"
  let ?miss = "filter (\<lambda>(k, _). map_of cache k = None) ?req"
  let ?cached = "concat (map (\<lambda>(k, _). case map_of cache k of None \<Rightarrow> [] | Some r \<Rightarrow> [(k, r)]) ?req)"
  obtain w where w: "(name_key n, w) \<in> set ?req"
    using requested_names_cover [OF assms(2,3), of "[]"] by auto
  have pre: "\<exists>rest. m = ?cached @ rest"
    using assms(1) w unfolding resolve_names_def resolve_type_ids_def Let_def
    by (auto split: if_splits option.splits)
  show ?thesis
  proof (cases "map_of cache (name_key n)")
    case (Some r)
    then have "(name_key n, r) \<in> set ?cached" using w by (auto intro!: bexI [OF _ w])
    moreover obtain rest where "m = ?cached @ rest" using pre by blast
    ultimately have "(name_key n, r) \<in> set m" by (simp only: set_append) (rule UnI1)
    then have "name_key n \<in> fst ` set m" by (rule image_eqI [rotated]) simp
    then show ?thesis by (simp add: map_of_eq_None_iff)
  next
    case None
    then have miss: "(name_key n, w) \<in> set ?miss" using w by simp
    then have ne: "?miss \<noteq> []" "?req \<noteq> []" using w by (auto simp only: list.set empty_iff)
    then obtain found where found: "esi (map snd ?miss) = Some found"
      using assms(1) by (auto simp: resolve_names_def resolve_type_ids_def Let_def
          split: if_splits option.splits)
    define ech where "ech = rev (map (\<lambda>(i, n). (name_key n, (i, n))) found)"
    define fresh where "fresh = concat (map (\<lambda>(k, _). case map_of ech k of
                   None \<Rightarrow> [] | Some (i, n) \<Rightarrow> [(k, \<lparr> rt_type_id = as_i32 i, rt_type_name = n \<rparr>)]) ?miss)"
    have m: "m = ?cached @ fresh"
      and un: "concat (map (\<lambda>(k, orig). if map_of ech k = None then [orig] else []) ?miss) = []"
      using assms(1) found ne unfolding resolve_names_def resolve_type_ids_def Let_def fresh_def ech_def
      by (auto split: if_splits)
    have "map_of ech (name_key n) \<noteq> None" using un miss by (auto split: if_splits)
    then have "name_key n \<in> fst ` set fresh"
      unfolding fresh_def using miss by (force simp: image_iff split: option.splits)
    then show ?thesis unfolding m by (simp add: map_of_eq_None_iff image_Un)
  qed
qed

interpretation names: type_resolver "resolve_names cache esi" for cache esi
  by unfold_locales (rule resolve_names_covers)

end
