(* ===== verification/Lists.thy ===== *)
theory Lists
  imports Pricing
begin

text \<open>
  Lists and their items (\<^verbatim>\<open>api/src/lists.rs\<close>, \<^verbatim>\<open>lists/crud.rs\<close>, \<^verbatim>\<open>lists/items.rs\<close>,
  \<^verbatim>\<open>lists/pricing.rs\<close>): creating a list from a paste, editing it, its markets and its
  items, and the estimate that is recomputed after every edit.  \<open>list_env\<close> holds what the
  handlers take from outside the request: the name resolver, the hub prices, the
  configured limits.  The response body (\<^verbatim>\<open>load_list_detail\<close>) is in \<^verbatim>\<open>List_Views\<close>.
\<close>

record list_env =
  env_resolve :: "string list \<Rightarrow> ((string \<times> resolved_type) list \<times> string list) option"
  env_npc :: "market \<Rightarrow> int list \<Rightarrow> (int \<times> price_aggregate) list"
  env_citadel_ttl :: int
  env_items_per_list :: int
  env_lists_per_group :: int

section \<open>Limits\<close>

definition MAX_MULTIBUY_BYTES :: int where "MAX_MULTIBUY_BYTES = 65536"
definition MAX_PARSED_LINES :: int where "MAX_PARSED_LINES = 5000"
definition MAX_DISTINCT_NAMES :: int where "MAX_DISTINCT_NAMES = 1000"
definition MAX_MARKET_IDS :: int where "MAX_MARKET_IDS = 8"

definition len :: "'a list \<Rightarrow> int" where
  "len xs = int (length xs)"

text \<open>The byte length of a string is that of its UTF-8 form.\<close>

definition utf8_len :: "string \<Rightarrow> int" where
  "utf8_len s = sum_list (map (\<lambda>c. if (of_char c :: int) < 128 then 1 else 2) s)"

definition validate_multibuy_size :: "string \<Rightarrow> unit res" where
  "validate_multibuy_size mb =
     (if MAX_MULTIBUY_BYTES < utf8_len mb
      then Inl (BadRequest (''multibuy too large ('' @ string_of_int (utf8_len mb) @ '' bytes); max ''
                 @ string_of_int MAX_MULTIBUY_BYTES))
      else Inr ())"

definition validate_market_ids_size :: "uuid list \<Rightarrow> unit res" where
  "validate_market_ids_size ids =
     (if ids = [] then Inl (BadRequest ''market_ids must not be empty'')
      else if MAX_MARKET_IDS < len ids
      then Inl (BadRequest (''too many market_ids ('' @ string_of_int (len ids) @ ''); max ''
                 @ string_of_int MAX_MARKET_IDS))
      else if length (remdups ids) \<noteq> length ids
      then Inl (BadRequest ''market_ids contains duplicates'')
      else Inr ())"

definition load_markets :: "uuid list \<Rightarrow> db \<Rightarrow> market list res" where
  "load_markets ids d =
     (let rows = filter (\<lambda>m. mk_id m \<in> set ids) (markets d)
      in if length rows \<noteq> length ids then Inl (BadRequest ''one or more market_ids do not exist'')
         else Inr rows)"

definition market_label :: "market \<Rightarrow> string" where
  "market_label m = (case mk_short_label m of None \<Rightarrow> ''(unnamed)'' | Some l \<Rightarrow> l)"

definition validate_market :: "db \<Rightarrow> uuid \<Rightarrow> market \<Rightarrow> unit res" where
  "validate_market d gid m =
     (if \<not> mk_is_public m then Inl (BadRequest (''market '' @ market_label m @ '' is not public''))
      else case mk_kind m of
        NpcHub \<Rightarrow> if \<not> mk_is_hub m
                  then Inl (BadRequest (''market '' @ market_label m @
                         '' is marked as NPC hub but is_hub=false''))
                  else Inr ()
      | PublicStructure \<Rightarrow>
          if \<not> (\<exists>t\<in>set (tracked_markets d). tm_group_id t = gid \<and> tm_market_id t = mk_id m)
          then Inl (BadRequest (''citadel '' @ quoted (market_label m) @ '' is not tracked by this group''))
          else Inr ())"

fun validate_markets_for_group :: "db \<Rightarrow> uuid \<Rightarrow> market list \<Rightarrow> unit res" where
  "validate_markets_for_group d gid [] = Inr ()"
| "validate_markets_for_group d gid (m # ms) =
     bind_res (validate_market d gid m) (\<lambda>_. validate_markets_for_group d gid ms)"

definition check_lists_quota :: "uuid \<Rightarrow> int \<Rightarrow> db \<Rightarrow> unit res" where
  "check_lists_quota gid cap d =
     (let n = int (count_where (\<lambda>l. l_group_id l = gid \<and> l_status l \<noteq> LArchived) (lists d))
      in if cap \<le> n
         then Inl (QuotaExceeded (''this group already has '' @ string_of_int n @ '' active lists (cap '' @
                string_of_int cap @ ''); archive some before adding more''))
         else Inr ())"

section \<open>Estimates\<close>

definition RECOMPUTE_RETRY_LIMIT :: nat where
  "RECOMPUTE_RETRY_LIMIT = 3"

definition list_market_rows :: "db \<Rightarrow> uuid \<Rightarrow> market list" where
  "list_market_rows d lid =
     concat (map (\<lambda>lm. filter (\<lambda>m. mk_id m = lm_market_id lm) (markets d))
       (filter (\<lambda>lm. lm_list_id lm = lid) (list_markets d)))"

definition estimate_total :: "(int \<Rightarrow> decimal option \<times> uuid option) \<Rightarrow> list_item list \<Rightarrow> decimal" where
  "estimate_total pick its =
     foldl (\<lambda>t i. case fst (pick (li_type_id i)) of None \<Rightarrow> t
                  | Some u \<Rightarrow> dec_add t (dec_times u (li_qty_requested i))) dec_zero its"

definition set_estimate :: "(int \<Rightarrow> decimal option \<times> uuid option) \<Rightarrow> list_item \<Rightarrow> list_item" where
  "set_estimate pick i =
     i \<lparr> li_est_unit_price_isk := map_option (to_numeric 2) (fst (pick (li_type_id i))),
         li_est_priced_market_id := snd (pick (li_type_id i)) \<rparr>"

definition store_total :: "uuid \<Rightarrow> decimal \<Rightarrow> instant \<Rightarrow> shopping_list \<Rightarrow> shopping_list" where
  "store_total lid t now l =
     l \<lparr> l_total_estimate_isk := to_numeric 2 t,
         l_updated_at := (if dec_less (Dec (l_total_estimate_isk l) 2) t \<or> dec_less t (Dec (l_total_estimate_isk l) 2)
                          then now else l_updated_at l) \<rparr>"

text \<open>One pass, once the row is known not to have moved.\<close>

definition write_estimates :: "list_env \<Rightarrow> uuid \<Rightarrow> uuid \<Rightarrow> instant \<Rightarrow> db \<Rightarrow> db res" where
  "write_estimates env lid gid now d =
     (let ms = list_market_rows d lid;
          its = filter (\<lambda>i. li_list_id i = lid) (list_items d);
          prices = fetch_prices_for_markets (env_npc env) (env_citadel_ttl env) now gid ms
                     (dedup_type_ids (map li_type_id its)) d;
          pick = pick_cheapest ms prices;
          t = estimate_total pick its
      in if \<exists>i\<in>set its. \<not> opt_fits (li_est_unit_price_isk (set_estimate pick i)) then Inl db_numeric_overflow
         else if \<not> fits 24 (to_numeric 2 t) then Inl db_numeric_overflow
         else Inr (d \<lparr> list_items := upd_where (\<lambda>i. li_list_id i = lid) (set_estimate pick) (list_items d),
                       lists := upd_where (\<lambda>l. l_id l = lid) (store_total lid t now) (lists d) \<rparr>))"

text \<open>The optimistic loop: \<open>n\<close> attempts, each reading \<^verbatim>\<open>updated_at\<close> again.\<close>

fun recompute_loop :: "nat \<Rightarrow> list_env \<Rightarrow> uuid \<Rightarrow> uuid \<Rightarrow> instant \<Rightarrow> instant \<Rightarrow> db \<Rightarrow> db res" where
  "recompute_loop 0 env uid lid after now d =
     Inl (Conflict ''list was concurrently modified; please retry'')"
| "recompute_loop (Suc n) env uid lid after now d =
     bind_res (ok_or not_found (rls_find_list d uid lid)) (\<lambda>l.
     if l_updated_at l \<noteq> after then recompute_loop n env uid lid (l_updated_at l) now d
     else write_estimates env lid (l_group_id l) now d)"

definition recompute_estimates :: "list_env \<Rightarrow> uuid \<Rightarrow> uuid \<Rightarrow> instant \<Rightarrow> instant \<Rightarrow> db \<Rightarrow> db res" where
  "recompute_estimates env uid lid after now d = recompute_loop RECOMPUTE_RETRY_LIMIT env uid lid after now d"

definition touch_list :: "uuid \<Rightarrow> instant \<Rightarrow> db \<Rightarrow> db" where
  "touch_list lid now d =
     d \<lparr> lists := upd_where (\<lambda>l. l_id l = lid) (\<lambda>l. l \<lparr> l_updated_at := now \<rparr>) (lists d) \<rparr>"

section \<open>Lines of a paste\<close>

definition bad_lines_error :: "parsed_multibuy \<Rightarrow> api_error" where
  "bad_lines_error p = BadRequest (string_of_int (len (pm_errors p)) @ '' multibuy line(s) failed to parse'')"

definition too_many :: "string \<Rightarrow> int \<Rightarrow> int \<Rightarrow> api_error" where
  "too_many what n cap = BadRequest (''too many '' @ what @ '' ('' @ string_of_int n @ ''); max '' @ string_of_int cap)"

definition checked_lines :: "string \<Rightarrow> parsed_line list res" where
  "checked_lines mb =
     (let p = parse_multibuy mb in
      if pm_errors p \<noteq> [] then Inl (bad_lines_error p)
      else if pm_lines p = [] then Inl (BadRequest ''multibuy is empty'')
      else if MAX_PARSED_LINES < len (pm_lines p)
      then Inl (too_many ''parsed lines'' (len (pm_lines p)) MAX_PARSED_LINES)
      else Inr (pm_lines p))"

definition first_line_no :: "parsed_line \<Rightarrow> int" where
  "first_line_no l = (case pl_line_nos l of [] \<Rightarrow> 0 | n # _ \<Rightarrow> n)"

fun join_commas :: "string list \<Rightarrow> string" where
  "join_commas [] = []"
| "join_commas [w] = w"
| "join_commas (w # ws) = w @ '', '' @ join_commas ws"

definition resolve_all :: "list_env \<Rightarrow> string list \<Rightarrow> (string \<times> resolved_type) list res" where
  "resolve_all env names =
     bind_res (ok_or (Internal ''resolve_type_ids'') (env_resolve env names)) (\<lambda>(m, un).
     if un \<noteq> [] then Inl (BadRequest (''unknown item(s): '' @ join_commas un)) else Inr m)"

definition resolved_for :: "(string \<times> resolved_type) list \<Rightarrow> string \<Rightarrow> resolved_type res" where
  "resolved_for m name = ok_or (Internal (''resolved missing for '' @ name)) (map_of m (name_key name))"

fun resolve_lines ::
  "(string \<times> resolved_type) list \<Rightarrow> (string \<times> int \<times> int) list \<Rightarrow> (resolved_type \<times> int \<times> int) list res" where
  "resolve_lines m [] = Inr []"
| "resolve_lines m ((name, q, no) # ls) =
     bind_res (resolved_for m name) (\<lambda>r.
     bind_res (resolve_lines m ls) (\<lambda>rs. Inr ((r, q, no) # rs)))"

text \<open>The rows of new items; \<open>new_id\<close> gives the generated keys.\<close>

definition new_items ::
  "(nat \<Rightarrow> uuid) \<Rightarrow> uuid \<Rightarrow> uuid \<Rightarrow> (int \<Rightarrow> decimal option \<times> uuid option) \<Rightarrow>
     (resolved_type \<times> int \<times> int) list \<Rightarrow> list_item list" where
  "new_items new_id lid uid pick rs =
     map (\<lambda>(k, (r, q, no)). set_estimate pick
        \<lparr> li_id = new_id k, li_list_id = lid, li_type_id = rt_type_id r, li_type_name = rt_type_name r,
          li_qty_requested = q, li_qty_fulfilled = 0, li_est_unit_price_isk = None,
          li_est_priced_market_id = None, li_requested_by_user_id = uid, li_status = IOpen,
          li_source_line_no = Some no \<rparr>) (enumerate 0 rs)"

text \<open>A claim item and a fulfillment name an existing item, so a key in use there is a key in use.\<close>

definition item_keys :: "db \<Rightarrow> uuid set" where
  "item_keys d = li_id ` set (list_items d) \<union> ci_list_item_id ` set (claim_items d)
     \<union> f_list_item_id ` set (fulfillments d)"

definition insert_items :: "list_item list \<Rightarrow> db \<Rightarrow> db res" where
  "insert_items its d =
     (if \<not> distinct (map li_id its) \<or> li_id ` set its \<inter> item_keys d \<noteq> {}
      then Inl db_unique_violation
      else if \<exists>i\<in>set its. \<not> opt_fits (li_est_unit_price_isk i) then Inl db_numeric_overflow
      else Inr (d \<lparr> list_items := list_items d @ its \<rparr>))"

section \<open>Creating a list\<close>

record create_body =
  cb_destination_label :: "string option"
  cb_notes :: "string option"
  cb_market_ids :: "uuid list"
  cb_primary_market_id :: uuid
  cb_multibuy :: string

definition market_links :: "uuid \<Rightarrow> uuid \<Rightarrow> market list \<Rightarrow> list_market list" where
  "market_links lid primary ms =
     map (\<lambda>m. \<lparr> lm_list_id = lid, lm_market_id = mk_id m, lm_is_primary = (mk_id m = primary) \<rparr>) ms"

definition new_list_row :: "create_body \<Rightarrow> uuid \<Rightarrow> uuid \<Rightarrow> uuid \<Rightarrow> group \<Rightarrow> decimal \<Rightarrow> instant \<Rightarrow> shopping_list" where
  "new_list_row b new_list gid uid g t now =
     \<lparr> l_id = new_list, l_group_id = gid, l_created_by_user_id = uid,
       l_destination_label = cb_destination_label b, l_notes = cb_notes b, l_status = LOpen,
       l_total_estimate_isk = to_numeric 2 t, l_tip_pct = g_default_tip_pct g,
       l_payer_corp_id = None, l_payer_division = None, l_created_at = now, l_updated_at = now \<rparr>"

definition create_list ::
  "list_env \<Rightarrow> session \<Rightarrow> uuid \<Rightarrow> create_body \<Rightarrow> uuid \<Rightarrow> (nat \<Rightarrow> uuid) \<Rightarrow> instant \<Rightarrow> db \<Rightarrow> db res" where
  "create_list env s gid b new_list new_id now d =
     bind_res (current_group_ex s gid d) (\<lambda>cur.
     bind_res (validate_multibuy_size (cb_multibuy b)) (\<lambda>_.
     bind_res (validate_market_ids_size (cb_market_ids b)) (\<lambda>_.
     if cb_primary_market_id b \<notin> set (cb_market_ids b)
     then Inl (BadRequest ''primary_market_id must be in market_ids'')
     else bind_res (checked_lines (cb_multibuy b)) (\<lambda>ls.
     if MAX_DISTINCT_NAMES < len ls then Inl (too_many ''distinct items'' (len ls) MAX_DISTINCT_NAMES)
     else if env_items_per_list env < len ls
     then Inl (QuotaExceeded (''list has '' @ string_of_int (len ls) @ '' items; per-list cap is '' @
            string_of_int (env_items_per_list env)))
     else bind_res (check_lists_quota gid (env_lists_per_group env) d) (\<lambda>_.
     bind_res (load_markets (cb_market_ids b) d) (\<lambda>ms.
     bind_res (validate_markets_for_group d gid ms) (\<lambda>_.
     bind_res (resolve_all env (map pl_name ls)) (\<lambda>m.
     bind_res (resolve_lines m (map (\<lambda>l. (pl_name l, pl_qty l, first_line_no l)) ls)) (\<lambda>rs.
     let tys = dedup_type_ids (map (\<lambda>(_, r). rt_type_id r) m);
         prices = fetch_prices_for_markets (env_npc env) (env_citadel_ttl env) now gid ms tys d;
         pick = pick_cheapest ms prices;
         its = new_items new_id new_list (cg_user_id cur) pick rs;
         t = estimate_total pick its
     in bind_res (ok_or (Internal ''null value in column tip_pct'') (find (\<lambda>g. g_id g = gid) (groups d))) (\<lambda>g.
     if new_list \<in> l_id ` set (lists d) then Inl db_unique_violation
     else if \<not> fits 24 (to_numeric 2 t) then Inl db_numeric_overflow
     else bind_res (insert_items its
        (d \<lparr> lists := lists d @ [new_list_row b new_list gid (cg_user_id cur) g t now],
             list_markets := list_markets d @ market_links new_list (cb_primary_market_id b) ms \<rparr>)) (\<lambda>d1.
     bind_res (ok_or not_found (find_user d1 (cg_user_id cur))) (\<lambda>u.
     Inr (fire_webhook gid (ListCreated
            (case cb_destination_label b of None \<Rightarrow> ''(unnamed)'' | Some x \<Rightarrow> x)
            (len its) t (u_display_name u)) d1)))))))))))))"

section \<open>Editing a list\<close>

record patch_list_body =
  pb_destination_label :: "string option option"
  pb_notes :: "string option option"
  pb_status :: "list_status option"

definition opt_set :: "'a option \<Rightarrow> 'a \<Rightarrow> 'a" where
  "opt_set new old = (case new of None \<Rightarrow> old | Some x \<Rightarrow> x)"

definition patch_list :: "session \<Rightarrow> uuid \<Rightarrow> patch_list_body \<Rightarrow> instant \<Rightarrow> db \<Rightarrow> db res" where
  "patch_list s lid b now d =
     bind_res (current_list_ex s lid d) (\<lambda>cur.
     if pb_destination_label b = None \<and> pb_notes b = None \<and> pb_status b = None
     then Inl (BadRequest ''nothing to update'')
     else bind_res (if pb_status b = None then require_mutable cur else Inr ()) (\<lambda>_.
     bind_res (if pb_status b \<noteq> None then require_can_manage cur else Inr ()) (\<lambda>_.
     Inr (d \<lparr> lists := upd_where (\<lambda>l. l_id l = lid \<and> l_group_id l = cl_group_id cur)
            (\<lambda>l. l \<lparr> l_updated_at := now,
                    l_destination_label := opt_set (pb_destination_label b) (l_destination_label l),
                    l_notes := opt_set (pb_notes b) (l_notes l),
                    l_status := opt_set (pb_status b) (l_status l) \<rparr>) (lists d) \<rparr>))))"

definition do_patch_list_status :: "uuid \<Rightarrow> uuid \<Rightarrow> list_status \<Rightarrow> instant \<Rightarrow> db \<Rightarrow> db res" where
  "do_patch_list_status lid uid st now d =
     bind_res (ok_or not_found (rls_find_list d uid lid)) (\<lambda>l.
     bind_res (ok_or forbidden (member_role d uid (l_group_id l))) (\<lambda>role.
     if uid \<noteq> l_created_by_user_id l \<and> role \<noteq> Owner then Inl forbidden
     else Inr (d \<lparr> lists := upd_where (\<lambda>x. l_id x = lid)
            (\<lambda>x. x \<lparr> l_status := st, l_updated_at := now \<rparr>) (lists d) \<rparr>)))"

text \<open>Deleting a list cascades to its items, markets, claims and reimbursements, and from
  these to claim items, fulfillments and suggestions.\<close>

definition delete_list_rows :: "uuid \<Rightarrow> db \<Rightarrow> db" where
  "delete_list_rows lid d =
     (let gone_items = set (map li_id (filter (\<lambda>i. li_list_id i = lid) (list_items d)));
          gone_claims = set (map c_id (filter (\<lambda>c. c_list_id c = lid) (claims d)));
          gone_reimbs = set (map r_id (filter (\<lambda>r. r_list_id r = lid) (reimbursements d)))
      in d \<lparr> lists := del_where (\<lambda>l. l_id l = lid) (lists d),
             list_items := del_where (\<lambda>i. li_list_id i = lid) (list_items d),
             list_markets := del_where (\<lambda>lm. lm_list_id lm = lid) (list_markets d),
             claims := del_where (\<lambda>c. c_list_id c = lid) (claims d),
             claim_items := del_where (\<lambda>ci. ci_claim_id ci \<in> gone_claims \<or> ci_list_item_id ci \<in> gone_items)
               (claim_items d),
             fulfillments := upd_where (\<lambda>f. \<exists>c\<in>gone_claims. f_claim_id f = Some c)
               (\<lambda>f. f \<lparr> f_claim_id := None \<rparr>)
               (del_where (\<lambda>f. f_list_item_id f \<in> gone_items) (fulfillments d)),
             reimbursements := del_where (\<lambda>r. r_list_id r = lid) (reimbursements d),
             suggestions := del_where (\<lambda>g. sg_reimbursement_id g \<in> gone_reimbs) (suggestions d) \<rparr>)"

definition delete_list :: "session \<Rightarrow> uuid \<Rightarrow> db \<Rightarrow> db res" where
  "delete_list s lid d =
     bind_res (current_list_ex s lid d) (\<lambda>cur.
     if cl_created_by_user_id cur \<noteq> cl_user_id cur \<and> cl_role cur \<noteq> Owner then Inl forbidden
     else if \<not> (\<exists>l\<in>set (lists d). l_id l = lid \<and> l_group_id l = cl_group_id cur) then Inl not_found
     else Inr (delete_list_rows lid d))"

definition replace_markets ::
  "list_env \<Rightarrow> session \<Rightarrow> uuid \<Rightarrow> uuid list \<Rightarrow> uuid \<Rightarrow> instant \<Rightarrow> db \<Rightarrow> db res" where
  "replace_markets env s lid ids primary now d =
     bind_res (current_list_ex s lid d) (\<lambda>cur.
     bind_res (require_mutable cur) (\<lambda>_.
     bind_res (validate_market_ids_size ids) (\<lambda>_.
     if primary \<notin> set ids then Inl (BadRequest ''primary_market_id must be in market_ids'')
     else bind_res (load_markets ids d) (\<lambda>ms.
     bind_res (validate_markets_for_group d (cl_group_id cur) ms) (\<lambda>_.
     bind_res (lock_list lid d) (\<lambda>_.
     recompute_estimates env (cl_user_id cur) lid now now
       (touch_list lid now (d \<lparr> list_markets :=
          del_where (\<lambda>lm. lm_list_id lm = lid) (list_markets d) @ market_links lid primary ms \<rparr>))))))))"

section \<open>Editing items\<close>

record add_items_body =
  ab_multibuy :: "string option"
  ab_type_name :: "string option"
  ab_qty :: "int option"

definition requested_lines :: "add_items_body \<Rightarrow> (string \<times> int \<times> int) list res" where
  "requested_lines b =
     (case (ab_multibuy b, ab_type_name b, ab_qty b) of
        (Some mb, _, _) \<Rightarrow>
          bind_res (validate_multibuy_size mb) (\<lambda>_.
          bind_res (checked_lines mb) (\<lambda>ls.
          Inr (map (\<lambda>l. (pl_name l, pl_qty l, first_line_no l)) ls)))
      | (None, Some name, Some q) \<Rightarrow>
          if q \<le> 0 then Inl (BadRequest ''qty must be positive'') else Inr [(name, q, 0)]
      | _ \<Rightarrow> Inl (BadRequest ''provide either {multibuy} or {type_name, qty}''))"

definition add_items ::
  "list_env \<Rightarrow> session \<Rightarrow> uuid \<Rightarrow> add_items_body \<Rightarrow> (nat \<Rightarrow> uuid) \<Rightarrow> instant \<Rightarrow> db \<Rightarrow> db res" where
  "add_items env s lid b new_id now d =
     bind_res (current_list_ex s lid d) (\<lambda>cur.
     if cl_status cur \<noteq> LOpen
     then Inl (Conflict (''list is '' @ list_status_str (cl_status cur) @
            ''; items can only be added to open lists''))
     else bind_res (requested_lines b) (\<lambda>ls.
     if MAX_DISTINCT_NAMES < len ls then Inl (too_many ''distinct items'' (len ls) MAX_DISTINCT_NAMES)
     else bind_res (resolve_all env (map fst ls)) (\<lambda>m.
     bind_res (lock_list lid d) (\<lambda>_.
     let n = int (count_where (\<lambda>i. li_list_id i = lid) (list_items d)) in
     if env_items_per_list env < n + len ls
     then Inl (QuotaExceeded (''adding '' @ string_of_int (len ls) @
            '' items would push the list past its per-list cap ('' @ string_of_int n @ '' of '' @
            string_of_int (env_items_per_list env) @ '')''))
     else bind_res (resolve_lines m ls) (\<lambda>rs.
     bind_res (insert_items (new_items new_id lid (cl_user_id cur) (\<lambda>_. (None, None)) rs) d) (\<lambda>d1.
     recompute_estimates env (cl_user_id cur) lid now now (touch_list lid now d1)))))))"

definition item_in_list :: "db \<Rightarrow> uuid \<Rightarrow> uuid \<Rightarrow> list_item option" where
  "item_in_list d lid iid = find (\<lambda>i. li_id i = iid \<and> li_list_id i = lid) (list_items d)"

definition locked_item :: "string \<Rightarrow> list_item_status \<Rightarrow> api_error" where
  "locked_item verb st = Conflict (''cannot '' @ verb @ '' item with status '' @ quoted (list_item_status_str st) @
     ''; release the claim or reverse fulfillments first'')"

definition resolve_patch :: "list_env \<Rightarrow> string option \<Rightarrow> resolved_type option res" where
  "resolve_patch env name =
     (case name of None \<Rightarrow> Inr None | Some n \<Rightarrow>
        bind_res (ok_or (Internal ''resolve_type_ids'') (env_resolve env [n])) (\<lambda>(m, un).
        if un \<noteq> [] then Inl (BadRequest (''unknown item: '' @ n))
        else bind_res (resolved_for m n) (\<lambda>r. Inr (Some r))))"

definition patch_item ::
  "list_env \<Rightarrow> session \<Rightarrow> uuid \<Rightarrow> uuid \<Rightarrow> int option \<Rightarrow> string option \<Rightarrow> instant \<Rightarrow> db \<Rightarrow> db res" where
  "patch_item env s lid iid qreq tname now d =
     bind_res (current_list_ex s lid d) (\<lambda>cur.
     bind_res (require_mutable cur) (\<lambda>_.
     if qreq = None \<and> tname = None then Inl (BadRequest ''nothing to update'')
     else bind_res (resolve_patch env tname) (\<lambda>rt.
     if (case qreq of None \<Rightarrow> False | Some q \<Rightarrow> q \<le> 0)
     then Inl (BadRequest ''qty_requested must be positive'')
     else bind_res (lock_list lid d) (\<lambda>_.
     bind_res (ok_or not_found (item_in_list d lid iid)) (\<lambda>i.
     if li_status i \<noteq> IOpen then Inl (locked_item ''edit'' (li_status i))
     else recompute_estimates env (cl_user_id cur) lid now now (touch_list lid now
       (d \<lparr> list_items := upd_where (\<lambda>x. li_id x = iid \<and> li_list_id x = lid)
              (\<lambda>x. x \<lparr> li_qty_requested := opt_set qreq (li_qty_requested x),
                      li_type_id := (case rt of None \<Rightarrow> li_type_id x | Some r \<Rightarrow> rt_type_id r),
                      li_type_name := (case rt of None \<Rightarrow> li_type_name x | Some r \<Rightarrow> rt_type_name r) \<rparr>)
              (list_items d) \<rparr>)))))))"

definition delete_item :: "list_env \<Rightarrow> session \<Rightarrow> uuid \<Rightarrow> uuid \<Rightarrow> instant \<Rightarrow> db \<Rightarrow> db res" where
  "delete_item env s lid iid now d =
     bind_res (current_list_ex s lid d) (\<lambda>cur.
     bind_res (require_mutable cur) (\<lambda>_.
     bind_res (lock_list lid d) (\<lambda>_.
     bind_res (ok_or not_found (item_in_list d lid iid)) (\<lambda>i.
     if li_status i \<noteq> IOpen then Inl (locked_item ''delete'' (li_status i))
     else recompute_estimates env (cl_user_id cur) lid now now (touch_list lid now
       (d \<lparr> list_items := del_where (\<lambda>x. li_id x = iid \<and> li_list_id x = lid) (list_items d),
            fulfillments := del_where (\<lambda>f. f_list_item_id f = iid) (fulfillments d),
            claim_items := del_where (\<lambda>ci. ci_list_item_id ci = iid) (claim_items d) \<rparr>))))))"

end
