(* ===== verification/List_Steps.thy ===== *)
theory List_Steps
  imports Lifecycle_Steps Lists
begin

text \<open>
  Creating and editing lists keeps the invariant of the lifecycle: a new estimate
  rewrites columns the invariant does not read, a list keeps its payer, and the items
  a list gains are open, positive and unknown to every claim and fulfillment.
\<close>

section \<open>Lists rewritten in place\<close>

lemma lists_update_inv:
  assumes "life_inv d" "\<And>l. l_id (f l) = l_id l" "\<And>l. l_payer_corp_id (f l) = l_payer_corp_id l"
  shows "life_inv (d \<lparr> lists := upd_where P f (lists d), list_markets := lms \<rparr>)"
proof -
  let ?d = "d \<lparr> lists := upd_where P f (lists d), list_markets := lms \<rparr>"
  have "list_payer ?d = list_payer d" by (rule list_payer_upd [where P = P and f = f]) (simp_all add: assms)
  then show ?thesis by (intro life_inv_frame [OF _ _ assms(1)]) (simp_all add: same_life_def)
qed

lemma list_markets_inv: "life_inv d \<Longrightarrow> life_inv (d \<lparr> list_markets := lms \<rparr>)"
  using lists_update_inv [of d "\<lambda>l. l" lms "\<lambda>_. False"] by simp

lemma touch_list_inv: "life_inv d \<Longrightarrow> life_inv (touch_list lid now d)"
  using lists_update_inv [of d "\<lambda>l. l \<lparr> l_updated_at := now \<rparr>" "list_markets d" "\<lambda>l. l_id l = lid"]
  by (simp add: touch_list_def)

section \<open>Estimates\<close>

lemma set_estimate_keeps [simp]:
  "li_id (set_estimate pick i) = li_id i" "li_list_id (set_estimate pick i) = li_list_id i"
  "li_requested_by_user_id (set_estimate pick i) = li_requested_by_user_id i"
  "li_qty_requested (set_estimate pick i) = li_qty_requested i"
  "li_qty_fulfilled (set_estimate pick i) = li_qty_fulfilled i"
  "li_status (set_estimate pick i) = li_status i"
  by (simp_all add: set_estimate_def)

definition estimated :: "uuid \<Rightarrow> (int \<Rightarrow> decimal option \<times> uuid option) \<Rightarrow> db \<Rightarrow> db" where
  "estimated lid pick d = d \<lparr> list_items := upd_where (\<lambda>i. li_list_id i = lid) (set_estimate pick) (list_items d) \<rparr>"

interpretation estimate: item_rewrite d "estimated lid pick d" "\<lambda>i. li_list_id i = lid" "set_estimate pick"
  for d lid pick
  by unfold_locales (simp_all add: same_books_def item_update_def estimated_def)

lemma estimated_inv:
  assumes inv: "life_inv d"
  shows "life_inv (estimated lid pick d)"
proof (rule life_invI)
  let ?d = "estimated lid pick d"
  show "refs_ok ?d" "cover_ok ?d" "reimbs_ok ?d"
    using life_invD [OF inv] by (simp_all only: estimate.rewrite_eqs)
  show "settled_ok ?d" using life_invD(6) [OF inv] estimate.settled_eq [of lid pick d] by simp
  show "claims_ok ?d"
    using life_invD(2) [OF inv] claims_ok_cong [of ?d d] by (simp add: estimated_def)
  have "item_ok ?d = item_ok d" by (rule item_ok_cong) (simp_all add: estimated_def)
  moreover have "item_ok d (if li_list_id i = lid then set_estimate pick i else i) = item_ok d i" for i
    by (simp add: item_ok_def base_status_def)
  ultimately show "items_ok ?d"
    using life_invD(3) [OF inv] estimate.ids_eq [of lid pick d] estimate.items' [of lid pick d]
    by (simp add: items_ok_def)
qed

lemma write_estimates_Inr:
  assumes "write_estimates env lid gid now d = Inr d'"
  obtains pick t where "d' = estimated lid pick d \<lparr> lists := upd_where (\<lambda>l. l_id l = lid) (store_total lid t now)
      (lists (estimated lid pick d)) \<rparr>"
  using assms by (auto simp: write_estimates_def Let_def estimated_def split: if_splits)

lemma write_estimates_inv:
  assumes "life_inv d" "write_estimates env lid gid now d = Inr d'"
  shows "life_inv d'"
  using assms(2)
proof (cases rule: write_estimates_Inr)
  case (1 pick t)
  show ?thesis
    using lists_update_inv [OF estimated_inv [OF assms(1)], of "store_total lid t now"
        "list_markets (estimated lid pick d)" "\<lambda>l. l_id l = lid" lid pick]
    by (simp add: 1 store_total_def)
qed

lemma recompute_loop_Inr:
  "recompute_loop n env uid lid after now d = Inr d' \<Longrightarrow> \<exists>gid. write_estimates env lid gid now d = Inr d'"
  by (induction n arbitrary: after) (auto simp: bind_res_eq_Inr split: if_splits)

lemma recompute_estimates_inv:
  "life_inv d \<Longrightarrow> recompute_estimates env uid lid after now d = Inr d' \<Longrightarrow> life_inv d'"
  unfolding recompute_estimates_def by (drule recompute_loop_Inr) (auto intro: write_estimates_inv)

section \<open>New items\<close>

lemma append_items_inv:
  assumes inv: "life_inv d"
    and fresh: "distinct (map li_id its)" "li_id ` set its \<inter> item_keys d = {}"
    and new: "\<And>i. i \<in> set its \<Longrightarrow> li_status i = IOpen \<and> li_qty_fulfilled i = 0 \<and> 0 < li_qty_requested i
        \<and> (\<exists>po. list_payer d (li_list_id i) = Some po \<and> payer_principal d po (li_requested_by_user_id i) \<noteq> None)"
  shows "life_inv (d \<lparr> list_items := list_items d @ its \<rparr>)"
proof (rule life_invI)
  let ?d = "d \<lparr> list_items := list_items d @ its \<rparr>"
  have books: "same_books d ?d" by (simp add: same_books_def)
  have empty: "live_on d i = {}" "fulfilled_qty d (li_id i) = 0" "\<not> has_active_claim d (li_id i)"
    if "i \<in> set its" for i
  proof -
    have no: "li_id i \<notin> item_keys d" using fresh(2) that by auto
    then show "live_on d i = {}" "\<not> has_active_claim d (li_id i)"
      unfolding item_keys_def live_on_def has_active_claim_def by force+
    have none: "\<forall>f\<in>set (fulfillments d). f_list_item_id f \<noteq> li_id i" using no unfolding item_keys_def by force
    show "fulfilled_qty d (li_id i) = 0"
      using none by (auto simp: fulfilled_qty_def sum_where_def filter_empty_conv intro!: sum_list_0)
  qed
  show "refs_ok ?d"
    using life_invD(1) [OF inv] new unfolding refs_ok_def same_booksD [OF books] by auto
  show "claims_ok ?d" using life_invD(2) [OF inv] claims_ok_cong [of ?d d] by simp
  show "reimbs_ok ?d" using life_invD(4) [OF inv] by (simp only: reimbs_ok_books [OF books])
  show "cover_ok ?d"
    using life_invD(5) [OF inv] empty(1) unfolding cover_ok_def same_booksD [OF books] by auto
  show "settled_ok ?d"
    using life_invD(6) [OF inv] empty(1) unfolding settled_ok_def same_booksD [OF books] by auto
  have "item_ok ?d = item_ok d" by (rule item_ok_cong) simp_all
  moreover have "item_ok d i" if "i \<in> set its" for i
    using empty [OF that] new [OF that] by (simp add: item_ok_def base_status_def)
  ultimately show "items_ok ?d"
    using life_invD(3) [OF inv] fresh by (auto simp: items_ok_def item_keys_def)
qed

lemma insert_items_Inr:
  assumes "insert_items its d = Inr d'"
  shows "distinct (map li_id its)" "li_id ` set its \<inter> item_keys d = {}"
    "d' = d \<lparr> list_items := list_items d @ its \<rparr>"
  using assms by (simp_all add: insert_items_def split: if_splits)

lemma new_items_mem:
  assumes "i \<in> set (new_items new_id lid uid pick rs)"
  shows "li_list_id i = lid \<and> li_requested_by_user_id i = uid \<and> li_status i = IOpen
    \<and> li_qty_fulfilled i = 0 \<and> (\<exists>r q no. (r, q, no) \<in> set rs \<and> li_qty_requested i = q)"
  using assms by (auto simp: new_items_def in_set_enumerate_eq) (metis nth_mem)

lemma resolve_lines_qty:
  assumes "resolve_lines m ls = Inr rs" "(r, q, no) \<in> set rs"
  shows "\<exists>name. (name, q, no) \<in> set ls"
  using assms
proof (induction m ls arbitrary: rs rule: resolve_lines.induct)
  case (2 m name q' no' ls)
  then obtain r' rs' where "rs = (r', q', no') # rs'" "resolve_lines m ls = Inr rs'"
    by (auto simp: bind_res_eq_Inr)
  with 2 show ?case by auto
qed simp

lemma checked_lines_qty:
  assumes "checked_lines mb = Inr ls" "l \<in> set ls"
  shows "0 < pl_qty l"
proof -
  have "l \<in> set (pm_lines (parse_multibuy mb))"
    using assms by (simp add: checked_lines_def Let_def split: if_splits)
  then show ?thesis by (rule parsed_line_qty)
qed

lemma requested_lines_qty:
  assumes "requested_lines b = Inr ls" "(name, q, no) \<in> set ls"
  shows "0 < q"
  using assms checked_lines_qty
  by (auto simp: requested_lines_def bind_res_eq_Inr split: option.splits if_splits)

text \<open>A member of a list's group may be named as the requester of an item on it.\<close>

lemma list_payer_mem: "l \<in> set (lists d) \<Longrightarrow> l_id l = lid \<Longrightarrow> \<exists>po. list_payer d lid = Some po"
  by (cases "find_list d lid") (auto simp: list_payer_def find_list_def find_None_iff)

lemma requester_payable:
  assumes "life_inv d" "current_list_ex s lid d = Inr cur"
  shows "\<exists>po. list_payer d lid = Some po \<and> payer_principal d po (cl_user_id cur) \<noteq> None"
proof -
  note cur = current_list_ex_Inr [OF assms(2)]
  then obtain po where po: "list_payer d lid = Some po" using list_payer_mem by blast
  have "user_principal d (cl_user_id cur) \<noteq> None" using member_has_principal [OF life_invD(1) [OF assms(1)]] cur by blast
  then have "payer_principal d po (cl_user_id cur) \<noteq> None"
    using life_invD(1) [OF assms(1)] po by (cases po) (auto simp: refs_ok_def payer_principal_def)
  with po show ?thesis by blast
qed

section \<open>The handlers\<close>

lemma add_items_inv:
  assumes inv: "life_inv d" and ok: "add_items env s lid b new_id now d = Inr d'"
  shows "life_inv d'"
proof -
  obtain cur ls m rs d1 where cur: "current_list_ex s lid d = Inr cur"
    and ls: "requested_lines b = Inr ls" and rs: "resolve_lines m ls = Inr rs"
    and d1: "insert_items (new_items new_id lid (cl_user_id cur) (\<lambda>_. (None, None)) rs) d = Inr d1"
    and d': "recompute_estimates env (cl_user_id cur) lid now now (touch_list lid now d1) = Inr d'"
    using ok by (auto simp: add_items_def Let_def bind_res_eq_Inr split: if_splits)
  note ins = insert_items_Inr [OF d1]
  have "life_inv d1"
    unfolding ins(3)
  proof (rule append_items_inv [OF inv ins(1,2)])
    fix i assume "i \<in> set (new_items new_id lid (cl_user_id cur) (\<lambda>_. (None, None)) rs)"
    note i = new_items_mem [OF this]
    then have "0 < li_qty_requested i" using resolve_lines_qty [OF rs] requested_lines_qty [OF ls] by blast
    with i show "li_status i = IOpen \<and> li_qty_fulfilled i = 0 \<and> 0 < li_qty_requested i
        \<and> (\<exists>po. list_payer d (li_list_id i) = Some po \<and> payer_principal d po (li_requested_by_user_id i) \<noteq> None)"
      using requester_payable [OF inv cur] by simp
  qed
  then show ?thesis using recompute_estimates_inv [OF touch_list_inv d'] by blast
qed

lemma patch_list_inv:
  assumes "life_inv d" "patch_list s lid b now d = Inr d'"
  shows "life_inv d'"
proof -
  obtain P f where d': "d' = d \<lparr> lists := upd_where P f (lists d) \<rparr>"
    and f: "\<And>l. l_id (f l) = l_id l" "\<And>l. l_payer_corp_id (f l) = l_payer_corp_id l"
    using assms(2) by (auto simp: patch_list_def bind_res_eq_Inr split: if_splits)
  show ?thesis using lists_update_inv [OF assms(1) f, of "list_markets d" P] by (simp add: d')
qed

lemma replace_markets_inv:
  assumes "life_inv d" "replace_markets env s lid ids primary now d = Inr d'"
  shows "life_inv d'"
proof -
  obtain uid lms where "recompute_estimates env uid lid now now (touch_list lid now (d \<lparr> list_markets := lms \<rparr>)) = Inr d'"
    using assms(2) by (auto simp: replace_markets_def bind_res_eq_Inr split: if_splits)
  with recompute_estimates_inv [OF touch_list_inv [OF list_markets_inv [OF assms(1)]]] show ?thesis .
qed

text \<open>A list that is new: nobody referred to it, and its creator pays.\<close>

lemma find_snoc_fresh:
  "l_id l \<notin> l_id ` set ls \<Longrightarrow>
     find (\<lambda>x. l_id x = lid) (ls @ [l]) = (if lid = l_id l then Some l else find (\<lambda>x. l_id x = lid) ls)"
  by (induction ls) auto

lemma new_list_inv:
  assumes inv: "life_inv d" and fresh: "l_id l \<notin> l_id ` set (lists d)" and payer: "l_payer_corp_id l = None"
  shows "life_inv (d \<lparr> lists := lists d @ [l], list_markets := lms \<rparr>)"
proof -
  let ?d = "d \<lparr> lists := lists d @ [l], list_markets := lms \<rparr>"
  have lp: "list_payer ?d lid = (if lid = l_id l then Some None else list_payer d lid)" for lid
    using payer by (simp add: list_payer_def find_list_def find_snoc_fresh [OF fresh])
  have none: "list_payer d (l_id l) = None"
    using fresh unfolding list_payer_def find_list_def option.map_disc_iff find_None_iff by (auto simp: image_iff)
  have keep: "list_payer ?d lid = Some po" if "list_payer d lid = Some po" for lid po
    using that none lp [of lid] by (cases "lid = l_id l") simp_all
  have pr: "principals ?d = principals d" by simp
  note pp = payer_principal_cong [OF pr] user_principal_cong [OF pr] corp_principal_cong [OF pr]
  have cyc: "item_cycle ?d i f = Some k" if "item_cycle d i f = Some k" for i f k
    using that keep unfolding item_cycle_def cycle_key_eq pp by (auto split: option.splits)
  have live: "live_on ?d = live_on d" by (rule live_on_cong) simp
  have ok: "item_ok ?d = item_ok d" by (rule item_ok_cong) simp_all
  note r = life_invD(1) [OF inv, unfolded refs_ok_def]
  have refs: "\<forall>i\<in>set (list_items d). \<exists>po. list_payer ?d (li_list_id i) = Some po
        \<and> payer_principal d po (li_requested_by_user_id i) \<noteq> None" using r keep by blast
  have corp: "list_payer ?d lid = Some (Some c) \<Longrightarrow> payer_principal d (Some c) u \<noteq> None" for lid c u
  proof -
    assume c: "list_payer ?d lid = Some (Some c)"
    then have "list_payer d lid = Some (Some c)" using lp [of lid] by (cases "lid = l_id l") simp_all
    then show "payer_principal d (Some c) u \<noteq> None" using r by blast
  qed
  show ?thesis
  proof (rule life_invI)
    show "refs_ok ?d"
      using life_invD(1) [OF inv] refs corp unfolding refs_ok_def pp by simp
    show "claims_ok ?d" using life_invD(2) [OF inv] claims_ok_cong [of ?d d] by simp
    show "items_ok ?d" using life_invD(3) [OF inv] by (simp add: items_ok_def ok)
    have "reimb_shape ?d r" if "reimb_shape d r" for r
      using that unfolding reimb_shape_def pp by (elim exE conjE) (intro exI conjI, (rule keep | assumption)+)
    then show "reimbs_ok ?d" using life_invD(4) [OF inv] by (simp add: reimbs_ok_def)
    show "cover_ok ?d"
      using life_invD(5) [OF inv] cyc unfolding cover_ok_def live by (simp, blast)
    show "settled_ok ?d"
      using life_invD(6) [OF inv] cyc unfolding settled_ok_def live by (simp, blast)
  qed
qed

lemma create_list_cases:
  assumes "create_list env s gid b new_list new_id now d = Inr d'"
  obtains cur ls m rs pick g t lms d1 ev where
    "current_group_ex s gid d = Inr cur" "checked_lines (cb_multibuy b) = Inr ls"
    "resolve_lines m (map (\<lambda>l. (pl_name l, pl_qty l, first_line_no l)) ls) = Inr rs"
    "new_list \<notin> l_id ` set (lists d)" "g \<in> set (groups d)"
    "insert_items (new_items new_id new_list (cg_user_id cur) pick rs)
        (d \<lparr> lists := lists d @ [new_list_row b new_list gid (cg_user_id cur) g t now],
             list_markets := lms \<rparr>) = Inr d1"
    "d' = fire_webhook gid ev d1"
  using assms by (clarsimp simp: create_list_def Let_def bind_res_eq_Inr split: if_splits)
    (drule find_Some_memD, blast)

lemma create_list_inv:
  assumes inv: "life_inv d" and ok: "create_list env s gid b new_list new_id now d = Inr d'"
  shows "life_inv d'"
  using ok
proof (cases rule: create_list_cases)
  case (1 cur ls m rs pick g t lms d1 ev)
  note cur = 1(1) and ls = 1(2) and rs = 1(3) and new = 1(4) and d1 = 1(6) and d' = 1(7)
  let ?l = "new_list_row b new_list gid (cg_user_id cur) g t now"
  have l: "l_id ?l \<notin> l_id ` set (lists d)" "l_id ?l = new_list" "l_payer_corp_id ?l = None"
    using new by (simp_all add: new_list_row_def)
  let ?d = "d \<lparr> lists := lists d @ [?l], list_markets := lms \<rparr>"
  have inv1: "life_inv ?d" by (rule new_list_inv [OF inv l(1,3)])
  have pay: "list_payer ?d new_list = Some None"
    using l by (simp add: list_payer_def find_list_def find_snoc_fresh [OF l(1)])
  have "user_principal ?d (cg_user_id cur) \<noteq> None"
    using member_has_principal [OF life_invD(1) [OF inv]] cur user_principal_cong [of ?d d]
    by (auto simp: current_group_ex_def current_user_def bind_res_eq_Inr)
  note ins = insert_items_Inr [OF d1]
  have "life_inv d1"
    unfolding ins(3)
  proof (rule append_items_inv [OF inv1 ins(1,2)])
    fix i assume "i \<in> set (new_items new_id new_list (cg_user_id cur) pick rs)"
    note i = new_items_mem [OF this]
    then have "0 < li_qty_requested i"
      using resolve_lines_qty [OF rs] checked_lines_qty [OF ls] by fastforce
    with i show "li_status i = IOpen \<and> li_qty_fulfilled i = 0 \<and> 0 < li_qty_requested i
        \<and> (\<exists>po. list_payer ?d (li_list_id i) = Some po \<and> payer_principal ?d po (li_requested_by_user_id i) \<noteq> None)"
      using pay \<open>user_principal ?d (cg_user_id cur) \<noteq> None\<close>
      by (auto simp: payer_principal_def)
  qed
  then show ?thesis unfolding d' by (rule fire_webhook_inv)
qed

end
