(* ===== verification/System.thy ===== *)
theory System
  imports Contract_Steps List_Steps
begin

text \<open>
  The transition system.  \<open>lifecycle_op\<close> lists the requests of the API and the jobs of the
  worker that act on lists, claims, fulfillments, reimbursements and contracts;
  \<open>exec_op\<close> runs one of them, inside the transaction of \<^verbatim>\<open>tx_middleware\<close>;
  \<open>life_reach\<close> is what a sequence of them reaches.  Three requests are not steps of it:
  deleting a list, and editing or deleting an open item (see \<open>Item_Edits\<close>).
\<close>

datatype lifecycle_op =
    CreateList list_env session uuid create_body uuid "nat \<Rightarrow> uuid" instant
  | AddItems list_env session uuid add_items_body "nat \<Rightarrow> uuid" instant
  | PatchList session uuid patch_list_body instant
  | ReplaceMarkets list_env session uuid "uuid list" uuid instant
  | CreateClaim session uuid "uuid list" "string option" uuid instant
  | AddClaimItems session uuid "uuid list"
  | RemoveClaimItem session uuid uuid
  | ReleaseClaim session uuid instant
  | RecordFulfillment session uuid uuid record_fulfillment_body uuid uuid instant
  | ReverseFulfillment session uuid uuid instant
  | MarkDelivered session uuid uuid
  | SetListTip session uuid decimal instant
  | SetGroupDefaultTip session uuid decimal
  | SettleReimbursement session uuid instant
  | ConfirmSuggestion session uuid instant
  | RejectSuggestion session uuid instant
  | ManualLink session uuid uuid uuid instant
  | UnlinkContract session uuid instant
  | PollCharacter bool "(uuid \<times> esi_contract) list esi_reply" uuid int int instant
  | PollCorp bool "uuid \<Rightarrow> (uuid \<times> esi_contract) list esi_reply" uuid int int int instant
  | SyncItems bool "uuid \<Rightarrow> esi_contract_item list esi_reply" contract instant
  | MatchContract "contract_type \<Rightarrow> string option" "int \<Rightarrow> int \<Rightarrow> int" "uuid \<Rightarrow> uuid" uuid
  | HandleTerminal upserted_contract instant
  | VerifyContract "int \<Rightarrow> int \<Rightarrow> int" uuid instant

text \<open>A job of the worker logs an error; its transaction is rolled back like a request's.\<close>

definition job :: "settlement_error + db \<Rightarrow> db res" where
  "job r = (case r of Inl e \<Rightarrow> Inl (of_settlement_error e) | Inr d \<Rightarrow> Inr d)"

lemma job_eq_Inr [simp]: "job r = Inr d \<longleftrightarrow> r = Inr d"
  by (simp add: job_def split: sum.split)

fun exec_op :: "lifecycle_op \<Rightarrow> db \<Rightarrow> db res" where
  "exec_op (CreateList env s gid b new_list new_id now) d = create_list env s gid b new_list new_id now d"
| "exec_op (AddItems env s lid b new_id now) d = add_items env s lid b new_id now d"
| "exec_op (PatchList s lid b now) d = patch_list s lid b now d"
| "exec_op (ReplaceMarkets env s lid ids primary now) d = replace_markets env s lid ids primary now d"
| "exec_op (CreateClaim s lid ids note new_id now) d = create_claim s lid ids note new_id now d"
| "exec_op (AddClaimItems s cid ids) d = add_claim_items s cid ids d"
| "exec_op (RemoveClaimItem s cid iid) d = remove_claim_item s cid iid d"
| "exec_op (ReleaseClaim s cid now) d = release_claim s cid now d"
| "exec_op (RecordFulfillment s lid iid b fid rid now) d = record_fulfillment s lid iid b fid rid now d"
| "exec_op (ReverseFulfillment s fid rid now) d = reverse_fulfillment s fid rid now d"
| "exec_op (MarkDelivered s lid iid) d = mark_delivered s lid iid d"
| "exec_op (SetListTip s lid tip now) d = set_list_tip s lid tip now d"
| "exec_op (SetGroupDefaultTip s gid tip) d = set_group_default_tip s gid tip d"
| "exec_op (SettleReimbursement s rid now) d = settle_reimbursement s rid now d"
| "exec_op (ConfirmSuggestion s sid now) d = confirm_suggestion s sid now d"
| "exec_op (RejectSuggestion s sid now) d = reject_suggestion s sid now d"
| "exec_op (ManualLink s cid rid new_id now) d = manual_link s cid rid new_id now d"
| "exec_op (UnlinkContract s cid now) d = unlink_contract s cid now d"
| "exec_op (PollCharacter hb reply chid iv rnd now) d = Inr (snd (poll_one_character hb reply chid iv rnd now d))"
| "exec_op (PollCorp hb reply corp esi iv rnd now) d = Inr (snd (poll_one_corp hb reply corp esi iv rnd now d))"
| "exec_op (SyncItems hb reply row now) d = Inr (snd (sync_items_for hb reply row now d))"
| "exec_op (MatchContract text_of round4 new_id cid) d = job (run_one text_of round4 new_id cid d)"
| "exec_op (HandleTerminal u now) d = job (handle_contract_terminal u now d)"
| "exec_op (VerifyContract dv cid now) d = job (verify_contract_against_journal dv cid now d)"

inductive life_step :: "db \<Rightarrow> db \<Rightarrow> bool" where
  request: "snd (tx_middleware (exec_op oper) d) = d' \<Longrightarrow> life_step d d'"

inductive_cases life_stepE [elim!]: "life_step d d'"

inductive life_reach :: "db \<Rightarrow> db \<Rightarrow> bool" where
  reach_refl: "life_reach d d"
| reach_step: "life_reach d d' \<Longrightarrow> life_step d' d'' \<Longrightarrow> life_reach d d''"

text \<open>The interface of a system of transactional requests: an operation that succeeds keeps
  the invariant.  Then so does every request, whatever it answers, and every run.\<close>

locale transactional =
  fixes exec :: "'o \<Rightarrow> db \<Rightarrow> db res" and invariant :: "db \<Rightarrow> bool"
  assumes exec_inv: "invariant d \<Longrightarrow> exec oper d = Inr d' \<Longrightarrow> invariant d'"
begin

lemma request_inv: "invariant d \<Longrightarrow> invariant (snd (tx_middleware (exec oper) d))"
  by (auto simp: tx_middleware_def split: sum.split intro: exec_inv)

lemma run_inv: "invariant d \<Longrightarrow> invariant (fold (\<lambda>oper d. snd (tx_middleware (exec oper) d)) opers d)"
  by (induction opers arbitrary: d) (simp_all add: request_inv)

end

text \<open>The operations that leave the books alone.\<close>

fun leaves_books :: "lifecycle_op \<Rightarrow> bool" where
  "leaves_books (RejectSuggestion _ _ _) = True"
| "leaves_books (PollCharacter _ _ _ _ _ _) = True"
| "leaves_books (PollCorp _ _ _ _ _ _ _) = True"
| "leaves_books (SyncItems _ _ _ _) = True"
| "leaves_books (MatchContract _ _ _ _) = True"
| "leaves_books _ = False"

lemma leaves_books_same:
  assumes "leaves_books oper" "exec_op oper d = Inr d'"
  shows "same_books_rows d d'"
  using assms poll_one_character_same [of d] poll_one_corp_same [of d] sync_items_same [of d]
  by (cases oper) (auto dest: reject_suggestion_same run_one_same)

lemma set_group_default_tip_Inr:
  assumes "set_group_default_tip s gid tip d = Inr d'"
  obtains "\<not> dec_neg tip" "\<not> dec_gt_one tip"
    "d' = d \<lparr> groups := upd_where (\<lambda>g. g_id g = gid) (\<lambda>g. g \<lparr> g_default_tip_pct := to_numeric 4 tip \<rparr>) (groups d) \<rparr>"
  using assms by (auto simp: set_group_default_tip_def validate_tip_pct_def bind_res_eq_Inr split: if_splits)

lemma set_group_default_tip_inv:
  assumes "life_inv d" "set_group_default_tip s gid tip d = Inr d'"
  shows "life_inv d'"
  using assms(2)
proof (cases rule: set_group_default_tip_Inr)
  case 1
  have "list_payer d' = list_payer d" by (rule list_payer_cong) (simp add: 1)
  then show ?thesis by (intro life_inv_frame [OF _ _ assms(1)]) (simp_all add: 1 same_life_def)
qed

lemmas op_invs = set_group_default_tip_inv create_list_inv add_items_inv patch_list_inv replace_markets_inv
  create_claim_inv add_claim_items_inv remove_claim_item_inv release_claim_inv
  record_fulfillment_inv reverse_fulfillment_inv mark_delivered_inv set_list_tip_inv
  settle_reimbursement_inv confirm_suggestion_inv manual_link_inv unlink_contract_inv
  handle_contract_terminal_inv verify_inv

lemma exec_op_inv:
  assumes "life_inv d" "exec_op oper d = Inr d'"
  shows "life_inv d'"
proof (cases "leaves_books oper")
  case True
  then show ?thesis using same_books_rows_inv [OF leaves_books_same [OF True assms(2)] assms(1)] by blast
next
  case False
  then show ?thesis using assms(2)
    by (cases oper) (simp_all, (erule op_invs [OF assms(1)])+)
qed

interpretation life: transactional exec_op life_inv
  by unfold_locales (rule exec_op_inv)

lemma life_reach_inv: "life_reach d d' \<Longrightarrow> life_inv d \<Longrightarrow> life_inv d'"
  by (induction rule: life_reach.induct) (auto intro: life.request_inv)

end
