(* ===== verification/Lifecycle_Facts.thy ===== *)
theory Lifecycle_Facts
  imports System
begin

text \<open>
  Items never lose identity or request: every operation of the system keeps each item,
  what was requested and where, and leaves a settled item settled.
\<close>

section \<open>Items never lose identity, and settled is final\<close>

definition items_follow :: "db \<Rightarrow> db \<Rightarrow> bool" where
  "items_follow d d' \<longleftrightarrow> (\<forall>i\<in>set (list_items d). \<exists>i'\<in>set (list_items d'). li_id i' = li_id i
     \<and> li_qty_requested i' = li_qty_requested i \<and> li_list_id i' = li_list_id i
     \<and> li_requested_by_user_id i' = li_requested_by_user_id i
     \<and> (li_status i = ISettled \<longrightarrow> li_status i' = ISettled))"

lemma items_followI:
  assumes "list_items d' = upd_where P g (list_items d)"
    and "\<And>i. li_id (g i) = li_id i" "\<And>i. li_qty_requested (g i) = li_qty_requested i"
      "\<And>i. li_list_id (g i) = li_list_id i" "\<And>i. li_requested_by_user_id (g i) = li_requested_by_user_id i"
      "\<And>i. i \<in> set (list_items d) \<Longrightarrow> P i \<Longrightarrow> li_status i = ISettled \<Longrightarrow> li_status (g i) = ISettled"
  shows "items_follow d d'"
  unfolding items_follow_def
proof
  fix i assume i: "i \<in> set (list_items d)"
  show "\<exists>i'\<in>set (list_items d'). li_id i' = li_id i
     \<and> li_qty_requested i' = li_qty_requested i \<and> li_list_id i' = li_list_id i
     \<and> li_requested_by_user_id i' = li_requested_by_user_id i
     \<and> (li_status i = ISettled \<longrightarrow> li_status i' = ISettled)"
    by (rule bexI [where x = "if P i then g i else i"])
      (use assms i in \<open>auto simp: set_upd_where\<close>)
qed

lemma items_follow_trans: "items_follow d d1 \<Longrightarrow> items_follow d1 d2 \<Longrightarrow> items_follow d d2"
  unfolding items_follow_def by fastforce

lemma items_follow_append: "list_items d' = list_items d @ its \<Longrightarrow> items_follow d d'"
  by (auto simp: items_follow_def)

lemma items_follow_same: "list_items d' = list_items d \<Longrightarrow> items_follow d d'"
  by (rule items_followI [where P = "\<lambda>_. False" and g = "\<lambda>i. i"]) simp_all

lemma items_follow_left: "list_items d1 = list_items d \<Longrightarrow> items_follow d1 d' \<Longrightarrow> items_follow d d'"
  by (simp add: items_follow_def)

lemma items_follow_right: "items_follow d d1 \<Longrightarrow> list_items d' = list_items d1 \<Longrightarrow> items_follow d d'"
  by (simp add: items_follow_def)

lemma items_follow_single:
  assumes "distinct (map li_id (list_items d))" "recompute_item_status iid dem d = Inr (st, d')"
  shows "items_follow d d'"
  unfolding recompute_single_is_refresh(1) [OF assms]
  by (rule items_followI [of _ "\<lambda>i. li_id i = iid" "single_refresh dem d"])
    (simp_all add: single_refresh_settled)

lemma items_follow_bulk: "items_follow d (recompute_item_statuses_bulk ids d)"
  unfolding recompute_bulk_is_refresh
  by (rule items_followI [of _ "\<lambda>i. li_id i \<in> set ids" "bulk_refresh d"])
    (simp_all add: bulk_refresh_settled)

lemma upsert_items: "upsert_reimbursement nid now lid u h d = Inr d' \<Longrightarrow> list_items d' = list_items d"
  by (erule upsert_cases) simp_all

lemma insert_claim_items_follow:
  assumes "insert_claim_items cid ids d = Inr d'"
  shows "items_follow d d'"
proof (cases "ids = []")
  case True
  then show ?thesis using assms by (simp add: insert_claim_items_def items_follow_same)
next
  case False
  then obtain cis where "d' = recompute_item_statuses_bulk ids (d \<lparr> claim_items := cis \<rparr>)"
    using assms by (auto simp: insert_claim_items_def bind_res_eq_Inr)
  then show ?thesis using items_follow_left [OF _ items_follow_bulk] by simp
qed

lemma fire_webhook_items [simp]: "list_items (fire_webhook gid ev d) = list_items d"
  by (simp add: fire_webhook_def)

lemma settle_items_follow: "items_follow d (settle_items P d)"
  by (rule items_followI [of _ P "\<lambda>i. i \<lparr> li_status := ISettled \<rparr>"]) (simp_all add: settle_items_def)

lemma auto_close_items [simp]: "list_items (auto_close_list_if_complete lid now d) = list_items d"
  by (simp add: auto_close_list_if_complete_def)

lemma fold_auto_close_items [simp]:
  "list_items (fold (\<lambda>lid. auto_close_list_if_complete lid now) lids d) = list_items d"
  by (induction lids arbitrary: d) simp_all

lemma create_claim_follow:
  assumes "create_claim s lid ids note nid now d = Inr d'"
  shows "items_follow d d'"
proof -
  obtain cs d1 gid ev where ins: "insert_claim_items nid ids (d \<lparr> claims := cs \<rparr>) = Inr d1"
    and d': "d' = fire_webhook gid ev d1"
    using assms by (auto simp: create_claim_def bind_res_eq_Inr split: if_splits)
  have "items_follow d d1"
    using items_follow_left [OF _ insert_claim_items_follow [OF ins]] by simp
  then show ?thesis by (rule items_follow_right) (simp add: d')
qed

lemma add_claim_items_follow: "add_claim_items s cid ids d = Inr d' \<Longrightarrow> items_follow d d'"
  by (auto simp: add_claim_items_def bind_res_eq_Inr split: if_splits intro: insert_claim_items_follow)

lemma remove_claim_item_follow:
  assumes "life_inv d" "remove_claim_item s cid iid d = Inr d'"
  shows "items_follow d d'"
proof -
  obtain cis st where rec: "recompute_item_status iid DForbid (d \<lparr> claim_items := cis \<rparr>) = Inr (st, d')"
    using assms(2) by (auto simp: remove_claim_item_def Let_def bind_res_eq_Inr split: if_splits)
  have "distinct (map li_id (list_items (d \<lparr> claim_items := cis \<rparr>)))"
    using assms(1) by (simp add: life_inv_def items_ok_def)
  from items_follow_left [OF _ items_follow_single [OF this rec]] show ?thesis by simp
qed

lemma release_claim_follow: "release_claim s cid now d = Inr d' \<Longrightarrow> items_follow d d'"
  using items_follow_left [OF _ items_follow_bulk]
  by (auto simp: release_claim_def Let_def bind_res_eq_Inr)

lemma record_follow:
  assumes "life_inv d" "record_fulfillment s lid iid b fid rid now d = Inr d'"
  shows "items_follow d d'"
proof -
  obtain f st d1 ac req uid where
    rec: "recompute_item_status iid DForbid (add_fulfillment f d) = Inr (st, d1)"
    and up: "upsert_reimbursement rid now lid req uid (complete_claim_if_done st ac d1) = Inr d'"
    using assms(2)
    by (clarsimp simp: record_fulfillment_def Let_def bind_res_eq_Inr split: if_splits
        option.split_asm reimbursement_status.split_asm)
  have "distinct (map li_id (list_items (add_fulfillment f d)))"
    using assms(1) by (simp add: life_inv_def items_ok_def)
  from items_follow_single [OF this rec] have "items_follow d d1"
    by (rule items_follow_left [rotated]) simp
  then show ?thesis
    by (rule items_follow_right) (simp add: upsert_items [OF up] complete_claim_frame)
qed

lemma reverse_follow:
  assumes "life_inv d" "reverse_fulfillment s fid rid now d = Inr d'"
  shows "items_follow d d'"
  using assms(2)
proof (cases rule: reverse_fulfillment_Inr)
  case (1 uid f i st d1)
  have "distinct (map li_id (list_items (reversed_state fid now d)))"
    using assms(1) by (simp add: life_inv_def items_ok_def)
  from items_follow_single [OF this 1(5)] have "items_follow d d1"
    by (rule items_follow_left [rotated]) simp
  then show ?thesis by (rule items_follow_right) (simp add: upsert_items [OF 1(6)])
qed

lemma mark_delivered_follow:
  assumes inv: "life_inv d" and md: "mark_delivered s lid iid d = Inr d'"
  shows "items_follow d d'"
proof -
  let ?g = "\<lambda>x. x \<lparr> li_status := IDelivered \<rparr>"
  obtain i where i: "i \<in> set (list_items d)" "li_id i = iid" "li_status i = IBought"
    and d': "list_items d' = upd_where (\<lambda>x. li_id x = iid) ?g (list_items d)"
    using md by (auto simp: mark_delivered_def Let_def bind_res_eq_Inr split: if_splits
        dest!: find_Some_memD)
  have dist: "distinct (map li_id (list_items d))" using inv by (simp add: life_inv_def items_ok_def)
  have uniq: "j = i" if "j \<in> set (list_items d)" "li_id j = iid" for j
    using distinct_map_unique [OF dist that(1) i(1)] that(2) i(2) by simp
  have "li_status (?g j) = ISettled" if "j \<in> set (list_items d)" "li_id j = iid" "li_status j = ISettled" for j
    using uniq [OF that(1,2)] that(3) i(3) by simp
  then show ?thesis by (intro items_followI [OF d']) simp_all
qed

lemma set_list_tip_follow: "set_list_tip s lid tip now d = Inr d' \<Longrightarrow> items_follow d d'"
  by (rule items_follow_same) (auto simp: set_list_tip_def Let_def bind_res_eq_Inr split: if_splits)

lemma items_follow_settled: "list_items d1 = list_items d \<Longrightarrow> items_follow d (settle_items P d1)"
  using items_follow_left [OF _ settle_items_follow] by blast

lemma items_follow_closed:
  "items_follow d d1 \<Longrightarrow> items_follow d (auto_close_list_if_complete lid now d1)"
  by (rule items_follow_right) simp_all

lemma items_follow_folded:
  "items_follow d d1 \<Longrightarrow> items_follow d (fold (\<lambda>lid. auto_close_list_if_complete lid now) lids (d1 \<lparr> contracts := cs \<rparr>))"
  by (rule items_follow_right) simp_all

lemma settle_manual_follow: "settle_manual rid u now d = Inr d' \<Longrightarrow> items_follow d d'"
  by (auto simp: settle_manual_def Let_def flip_items_to_settled_def flip_items_to_settled_corp_def
      split: option.splits if_splits intro!: items_follow_closed items_follow_settled)

lemma settle_reimbursement_follow:
  assumes "settle_reimbursement s rid now d = Inr d'"
  shows "items_follow d d'"
proof -
  obtain uid d1 gid ev where "settle_manual rid uid now d = Inr d1" "d' = fire_webhook gid ev d1"
    using assms by (auto simp: settle_reimbursement_def bind_res_eq_Inr split: if_splits sum.splits)
  then show ?thesis using items_follow_right [OF settle_manual_follow] by simp
qed

lemma settle_via_contract_follow:
  "settle_via_contract vis cid now d = Inr (info, d') \<Longrightarrow> items_follow d d'"
  by (auto simp: settle_via_contract_def Let_def items_follow_same split: option.splits if_splits
      intro!: items_follow_folded items_follow_settled)

lemma estimates_follow:
  assumes "recompute_estimates env uid lid after now d = Inr d'"
  shows "items_follow d d'"
proof -
  obtain gid where "write_estimates env lid gid now d = Inr d'"
    using recompute_loop_Inr assms unfolding recompute_estimates_def by blast
  then obtain pick t where "d' = estimated lid pick d \<lparr> lists := upd_where (\<lambda>l. l_id l = lid) (store_total lid t now)
      (lists (estimated lid pick d)) \<rparr>" by (rule write_estimates_Inr)
  then show ?thesis
    by (intro items_followI [of _ "\<lambda>i. li_list_id i = lid" "set_estimate pick"]) (simp_all add: estimated_def)
qed

lemma touched_estimates_follow:
  "recompute_estimates env uid lid after now (touch_list lid now d) = Inr d' \<Longrightarrow> items_follow d d'"
  by (drule estimates_follow, erule items_follow_left [rotated]) (simp add: touch_list_def)

lemma create_list_follow: "create_list env s gid b nl nid now d = Inr d' \<Longrightarrow> items_follow d d'"
  by (erule create_list_cases) (auto dest!: insert_items_Inr(3) intro!: items_follow_append)

lemma add_items_follow:
  assumes "add_items env s lid b nid now d = Inr d'"
  shows "items_follow d d'"
proof -
  obtain its d1 uid where "insert_items its d = Inr d1"
    and up: "recompute_estimates env uid lid now now (touch_list lid now d1) = Inr d'"
    using assms by (auto simp: add_items_def Let_def bind_res_eq_Inr split: if_splits)
  then have "items_follow d d1" by (auto dest!: insert_items_Inr(3) intro!: items_follow_append)
  then show ?thesis using items_follow_trans touched_estimates_follow [OF up] by blast
qed

lemma patch_list_follow: "patch_list s lid b now d = Inr d' \<Longrightarrow> items_follow d d'"
  by (rule items_follow_same) (auto simp: patch_list_def bind_res_eq_Inr split: if_splits)

lemma replace_markets_follow:
  assumes "replace_markets env s lid ids primary now d = Inr d'"
  shows "items_follow d d'"
proof -
  obtain uid lms where "recompute_estimates env uid lid now now (touch_list lid now (d \<lparr> list_markets := lms \<rparr>)) = Inr d'"
    using assms by (auto simp: replace_markets_def bind_res_eq_Inr split: if_splits)
  from items_follow_left [OF _ touched_estimates_follow [OF this]] show ?thesis by simp
qed

lemma same_rows_follow: "same_books_rows d d' \<Longrightarrow> items_follow d d'"
  by (rule items_follow_same) (simp add: same_books_rows_def)

lemma finalize_link_follow:
  assumes "finalize_link uid ctx now d = Inr (st, info, d')"
  shows "items_follow d d'"
  using assms
proof (cases rule: finalize_link_cases)
  case (1 d2)
  have "items_follow d d2"
    using items_follow_left [OF _ same_rows_follow [OF recompute_expected_same [OF 1(1)]]] by simp
  then show ?thesis
    using 1(2) items_follow_trans settle_via_contract_follow by (fastforce split: if_splits)
qed

lemma fired_follow: "items_follow d d1 \<Longrightarrow> items_follow d (fire_settlement_webhooks info d1)"
  using items_follow_trans same_rows_follow [OF fold_fire_same] by blast

lemma confirm_suggestion_follow:
  assumes "confirm_suggestion s sid now d = Inr d'"
  shows "items_follow d d'"
proof -
  obtain uid dec info d1 where c: "do_confirm uid sid now d = Inr (dec, info, d1)"
    and d': "d' = fire_settlement_webhooks info d1"
    using assms by (auto simp: confirm_suggestion_def bind_res_eq_Inr)
  from c have "items_follow d d1"
    by (rule do_confirm_cases) (drule finalize_link_follow, erule items_follow_left [rotated], simp)
  then show ?thesis unfolding d' by (rule fired_follow)
qed

lemma manual_link_follow:
  assumes "manual_link s cid rid nid now d = Inr d'"
  shows "items_follow d d'"
proof -
  obtain uid dec info d1 where c: "do_manual_link uid cid rid nid now d = Inr (dec, info, d1)"
    and d': "d' = fire_settlement_webhooks info d1"
    using assms by (auto simp: manual_link_def bind_res_eq_Inr)
  from c have "items_follow d d1"
    by (rule do_manual_link_cases) (drule finalize_link_follow, erule items_follow_left [rotated], simp)
  then show ?thesis unfolding d' by (rule fired_follow)
qed

lemma unlink_contract_follow:
  assumes "unlink_contract s cid now d = Inr d'"
  shows "items_follow d d'"
  using assms
proof (cases rule: unlink_cases)
  case (1 uid c gs)
  from items_follow_left [OF _ same_rows_follow [OF recompute_expected_same [OF 1(5)]]] show ?thesis by simp
qed

lemma handle_terminal_follow:
  assumes "handle_contract_terminal u now d = Inr d'"
  shows "items_follow d d'"
proof (cases "is_terminal_success (uc_status u)")
  case True
  then show ?thesis using assms settle_via_contract_follow
    by (auto simp: handle_contract_terminal_def bind_res_eq_Inr intro!: fired_follow)
next
  case False
  then show ?thesis using assms
    by (intro items_follow_same) (auto simp: handle_contract_terminal_def unbind_contract_def Let_def split: if_splits)
qed

lemma verify_follow:
  assumes "verify_contract_against_journal dv cid now d = Inr d'"
  shows "items_follow d d'"
  using assms
proof (cases rule: verify_cases)
  case (verified v)
  then obtain cs P w where "d' = d \<lparr> contracts := cs, reimbursements := upd_where P
        (\<lambda>r. r \<lparr> r_verified_by_wallet := True, r_wallet_settlement_delta_isk := Some (w r),
                 r_updated_at := now \<rparr>) (reimbursements d) \<rparr>" by (rule record_payout_Inr)
  then show ?thesis by (intro items_follow_same) simp
qed (simp add: items_follow_same)

lemma set_group_default_tip_follow: "set_group_default_tip s gid tip d = Inr d' \<Longrightarrow> items_follow d d'"
  by (erule set_group_default_tip_Inr) (simp add: items_follow_same)

lemmas op_follows = set_group_default_tip_follow create_claim_follow add_claim_items_follow
  release_claim_follow set_list_tip_follow
  settle_reimbursement_follow create_list_follow add_items_follow patch_list_follow
  replace_markets_follow confirm_suggestion_follow manual_link_follow unlink_contract_follow
  handle_terminal_follow verify_follow

lemmas op_follows_inv = remove_claim_item_follow record_follow reverse_follow mark_delivered_follow

lemma exec_op_follow:
  assumes "life_inv d" "exec_op oper d = Inr d'"
  shows "items_follow d d'"
proof (cases "leaves_books oper")
  case True
  then show ?thesis using assms(2) leaves_books_same same_rows_follow by blast
next
  case False
  then show ?thesis using assms(2)
    by (cases oper) (simp_all, (erule op_follows op_follows_inv [OF assms(1)])+)
qed

lemma request_follow:
  assumes "life_inv d"
  shows "items_follow d (snd (tx_middleware (exec_op oper) d))"
  using assms exec_op_follow
  by (auto simp: tx_middleware_def items_follow_same split: sum.split)

lemma reach_items: "life_reach d d' \<Longrightarrow> life_inv d \<Longrightarrow> items_follow d d'"
proof (induction rule: life_reach.induct)
  case (reach_step d d' d'')
  have "items_follow d' d''"
    using reach_step.hyps(2) request_follow [OF life_reach_inv [OF reach_step.hyps(1) reach_step.prems(1)]]
    by (auto elim: life_stepE)
  then show ?case using reach_step items_follow_trans by blast
qed (simp add: items_follow_same)

end
