(* ===== verification/Ledger_Facts.thy ===== *)
theory Ledger_Facts
  imports Lifecycle_Facts
begin

text \<open>
  Settled reimbursements are final: every operation of the system keeps the entry of a
  settled row, its parties, amounts, contract and the record of its settlement.  Only the
  wallet check adds its notes to it.
\<close>

section \<open>Settled reimbursements never change\<close>

text \<open>Everything of a reimbursement except what the wallet check notes on it.\<close>

definition ledger_entry :: "reimbursement \<Rightarrow> reimbursement" where
  "ledger_entry r = r \<lparr> r_verified_by_wallet := False, r_wallet_settlement_delta_isk := None, r_updated_at := 0 \<rparr>"

lemma ledger_entry_status: "ledger_entry r' = ledger_entry r \<Longrightarrow> r_status r' = r_status r"
  unfolding ledger_entry_def by (drule arg_cong [where f = r_status]) simp

definition keeps_settled_rows :: "db \<Rightarrow> db \<Rightarrow> bool" where
  "keeps_settled_rows d d' \<longleftrightarrow>
     (\<forall>r\<in>set (reimbursements d). r_status r = RSettled \<longrightarrow>
        (\<exists>r'\<in>set (reimbursements d'). ledger_entry r' = ledger_entry r))"

lemma keeps_rows_trans:
  assumes "keeps_settled_rows d d1" "keeps_settled_rows d1 d2"
  shows "keeps_settled_rows d d2"
  unfolding keeps_settled_rows_def
proof (intro ballI impI)
  fix r assume "r \<in> set (reimbursements d)" "r_status r = RSettled"
  then obtain r1 where r1: "r1 \<in> set (reimbursements d1)" "ledger_entry r1 = ledger_entry r"
    using assms(1) unfolding keeps_settled_rows_def by blast
  with \<open>r_status r = RSettled\<close> have "r_status r1 = RSettled" using ledger_entry_status by metis
  then show "\<exists>r'\<in>set (reimbursements d2). ledger_entry r' = ledger_entry r"
    using assms(2) r1 unfolding keeps_settled_rows_def by metis
qed

lemma keeps_rows_same: "reimbursements d' = reimbursements d \<Longrightarrow> keeps_settled_rows d d'"
  by (auto simp: keeps_settled_rows_def)

lemma keeps_rows_left:
  "reimbursements d1 = reimbursements d \<Longrightarrow> keeps_settled_rows d1 d' \<Longrightarrow> keeps_settled_rows d d'"
  by (simp add: keeps_settled_rows_def)

lemma keeps_rows_right:
  "keeps_settled_rows d d1 \<Longrightarrow> reimbursements d' = reimbursements d1 \<Longrightarrow> keeps_settled_rows d d'"
  by (simp add: keeps_settled_rows_def)

lemma keeps_rows_upd_entries:
  assumes "reimbursements d' = upd_where P f (reimbursements d)"
    and "\<And>r. r \<in> set (reimbursements d) \<Longrightarrow> P r \<Longrightarrow> r_status r = RSettled \<Longrightarrow> ledger_entry (f r) = ledger_entry r"
  shows "keeps_settled_rows d d'"
  unfolding keeps_settled_rows_def
proof (intro ballI impI)
  fix r assume r: "r \<in> set (reimbursements d)" "r_status r = RSettled"
  show "\<exists>r'\<in>set (reimbursements d'). ledger_entry r' = ledger_entry r"
    by (rule bexI [where x = "if P r then f r else r"])
      (use assms r in \<open>auto simp: set_upd_where\<close>)
qed

lemma keeps_rows_upd:
  assumes "reimbursements d' = upd_where P f (reimbursements d)"
    and "\<And>r. r \<in> set (reimbursements d) \<Longrightarrow> P r \<Longrightarrow> r_status r \<noteq> RSettled"
  shows "keeps_settled_rows d d'"
  by (rule keeps_rows_upd_entries [OF assms(1)]) (use assms(2) in blast)

lemma upsert_keeps_rows:
  assumes "upsert_reimbursement nid now lid u h d = Inr d'"
  shows "keeps_settled_rows d d'"
  using assms
proof (cases rule: upsert_cases)
  case (update k P f)
  then show ?thesis by (intro keeps_rows_upd [of d' P f d]) auto
qed (auto simp: keeps_settled_rows_def)

lemma insert_claim_items_rows:
  "insert_claim_items cid ids d = Inr d' \<Longrightarrow> reimbursements d' = reimbursements d"
  by (auto simp: insert_claim_items_def bind_res_eq_Inr recompute_bulk_is_refresh split: if_splits)

lemma recompute_rows:
  "recompute_item_status iid dem d = Inr (st, d') \<Longrightarrow> reimbursements d' = reimbursements d"
  by (auto simp: recompute_item_status_def bind_res_eq_Inr split: if_splits)

lemma fire_webhook_rows [simp]: "reimbursements (fire_webhook gid ev d) = reimbursements d"
  by (simp add: fire_webhook_def)

lemma create_claim_rows:
  assumes "create_claim s lid ids note nid now d = Inr d'"
  shows "reimbursements d' = reimbursements d"
proof -
  obtain cs d1 gid ev where ins: "insert_claim_items nid ids (d \<lparr> claims := cs \<rparr>) = Inr d1"
    and d': "d' = fire_webhook gid ev d1"
    using assms by (auto simp: create_claim_def bind_res_eq_Inr split: if_splits)
  then show ?thesis using insert_claim_items_rows [OF ins] by simp
qed

lemma claim_ops_rows:
  "add_claim_items s cid ids d = Inr d' \<Longrightarrow> reimbursements d' = reimbursements d"
  "remove_claim_item s cid iid d = Inr d' \<Longrightarrow> reimbursements d' = reimbursements d"
  "release_claim s cid now d = Inr d' \<Longrightarrow> reimbursements d' = reimbursements d"
  "mark_delivered s lid iid d = Inr d' \<Longrightarrow> reimbursements d' = reimbursements d"
     apply (auto simp: add_claim_items_def bind_res_eq_Inr split: if_splits dest: insert_claim_items_rows)[1]
    apply (auto simp: remove_claim_item_def Let_def bind_res_eq_Inr split: if_splits dest: recompute_rows)[1]
   apply (auto simp: release_claim_def Let_def bind_res_eq_Inr recompute_bulk_is_refresh)[1]
  apply (auto simp: mark_delivered_def Let_def bind_res_eq_Inr split: if_splits)[1]
  done

lemma record_rows:
  assumes "record_fulfillment s lid iid b fid rid now d = Inr d'"
  shows "keeps_settled_rows d d'"
proof -
  obtain f st d1 ac req uid where
    rec: "recompute_item_status iid DForbid (add_fulfillment f d) = Inr (st, d1)"
    and up: "upsert_reimbursement rid now lid req uid (complete_claim_if_done st ac d1) = Inr d'"
    using assms
    by (clarsimp simp: record_fulfillment_def Let_def bind_res_eq_Inr split: if_splits
        option.split_asm reimbursement_status.split_asm)
  have "reimbursements (complete_claim_if_done st ac d1) = reimbursements d"
    using recompute_rows [OF rec] same_booksD(5) [OF complete_claim_frame(1)] by simp
  then show ?thesis using keeps_rows_left [OF _ upsert_keeps_rows [OF up]] by simp
qed

lemma reverse_rows:
  assumes "reverse_fulfillment s fid rid now d = Inr d'"
  shows "keeps_settled_rows d d'"
  using assms
proof (cases rule: reverse_fulfillment_Inr)
  case (1 uid f i st d1)
  then show ?thesis
    using keeps_rows_left [OF _ upsert_keeps_rows [OF 1(6)]] recompute_rows [OF 1(5)] by simp
qed

lemma set_list_tip_rows:
  assumes "set_list_tip s lid tip now d = Inr d'"
  shows "keeps_settled_rows d d'"
proof -
  obtain f where "reimbursements d' = upd_where (\<lambda>r. r_list_id r = lid \<and> r_status r = RPending) f (reimbursements d)"
    using assms by (auto simp: set_list_tip_def Let_def bind_res_eq_Inr split: if_splits)
  then show ?thesis by (rule keeps_rows_upd) simp
qed

lemma mark_settled_rows:
  "(\<And>r. r \<in> set (reimbursements d) \<Longrightarrow> P r \<Longrightarrow> r_status r \<noteq> RSettled)
   \<Longrightarrow> keeps_settled_rows d (mark_settled P t b now d)"
  by (rule keeps_rows_upd [of _ P "\<lambda>r. r \<lparr> r_status := RSettled, r_settled_at := Some t,
        r_settled_by_user_id := b, r_updated_at := now \<rparr>"]) (simp_all add: mark_settled_def)

lemma keeps_rows_settle:
  "keeps_settled_rows d d1 \<Longrightarrow> keeps_settled_rows d (auto_close_list_if_complete lid now (settle_items P d1))"
  by (rule keeps_rows_right) (simp_all add: auto_close_list_if_complete_def settle_items_def)

lemma settle_manual_rows:
  assumes inv: "life_inv d" and sm: "settle_manual rid u now d = Inr d'"
  shows "keeps_settled_rows d d'"
proof -
  obtain r where r: "r \<in> set (reimbursements d)" "r_id r = rid" "r_status r = RPending"
    using sm by (auto simp: settle_manual_def find_reimbursement_def split: option.splits if_splits
        dest!: find_Some_memD)
  have "distinct (map r_id (reimbursements d))" using life_invD(4) [OF inv] by (simp add: reimbs_ok_def)
  from distinct_map_unique [OF this _ r(1)] r(2,3)
  have "keeps_settled_rows d (mark_settled (\<lambda>x. r_id x = rid) now (Some u) now d)"
    by (intro mark_settled_rows) auto
  then show ?thesis
    using sm by (auto simp: settle_manual_def Let_def flip_items_to_settled_def
        flip_items_to_settled_corp_def split: option.splits if_splits intro!: keeps_rows_settle)
qed

lemma settle_reimbursement_rows:
  assumes "life_inv d" "settle_reimbursement s rid now d = Inr d'"
  shows "keeps_settled_rows d d'"
proof -
  obtain uid d1 gid ev where "settle_manual rid uid now d = Inr d1" "d' = fire_webhook gid ev d1"
    using assms(2) by (auto simp: settle_reimbursement_def bind_res_eq_Inr split: if_splits sum.splits)
  then show ?thesis using keeps_rows_right [OF settle_manual_rows [OF assms(1)]] by simp
qed

lemma fold_auto_close_rows [simp]:
  "reimbursements (fold (\<lambda>lid. auto_close_list_if_complete lid now) lids d) = reimbursements d"
  by (induction lids arbitrary: d) (simp_all add: auto_close_list_if_complete_def)

lemma keeps_rows_contract:
  "keeps_settled_rows d d1 \<Longrightarrow> keeps_settled_rows d
     (fold (\<lambda>lid. auto_close_list_if_complete lid now) lids ((settle_items P d1) \<lparr> contracts := cs \<rparr>))"
  by (rule keeps_rows_right) (simp_all add: settle_items_def)

lemma settle_via_contract_rows:
  "settle_via_contract vis cid now d = Inr (info, d') \<Longrightarrow> keeps_settled_rows d d'"
  by (auto simp: settle_via_contract_def Let_def keeps_rows_same split: option.splits if_splits
      intro!: keeps_rows_contract mark_settled_rows)

lemma estimates_rows:
  assumes "recompute_estimates env uid lid after now d = Inr d'"
  shows "reimbursements d' = reimbursements d"
proof -
  obtain gid where "write_estimates env lid gid now d = Inr d'"
    using recompute_loop_Inr assms unfolding recompute_estimates_def by blast
  then obtain pick t where "d' = estimated lid pick d \<lparr> lists := upd_where (\<lambda>l. l_id l = lid) (store_total lid t now)
      (lists (estimated lid pick d)) \<rparr>" by (rule write_estimates_Inr)
  then show ?thesis by (simp add: estimated_def)
qed

lemma list_ops_rows:
  "create_list env s gid b nl nid now d = Inr d' \<Longrightarrow> reimbursements d' = reimbursements d"
  "patch_list s lid pb now d = Inr d' \<Longrightarrow> reimbursements d' = reimbursements d"
  "add_items env s lid ab nid now d = Inr d' \<Longrightarrow> reimbursements d' = reimbursements d"
  "replace_markets env s lid ids primary now d = Inr d' \<Longrightarrow> reimbursements d' = reimbursements d"
     apply (erule create_list_cases, auto dest!: insert_items_Inr(3))[1]
    apply (auto simp: patch_list_def bind_res_eq_Inr split: if_splits)[1]
   apply (auto simp: add_items_def Let_def bind_res_eq_Inr touch_list_def split: if_splits
      dest!: insert_items_Inr(3) estimates_rows)[1]
  apply (auto simp: replace_markets_def bind_res_eq_Inr touch_list_def split: if_splits dest!: estimates_rows)[1]
  done

lemma same_rows_keep: "same_books_rows d d' \<Longrightarrow> keeps_settled_rows d d'"
  by (rule keeps_rows_same) (simp add: same_books_rows_def)

lemma fired_rows: "keeps_settled_rows d d1 \<Longrightarrow> keeps_settled_rows d (fire_settlement_webhooks info d1)"
  using keeps_rows_trans same_rows_keep [OF fold_fire_same] by blast

text \<open>A link binds a pending reimbursement, so no settled one.\<close>

lemma finalize_link_rows:
  assumes "finalize_link uid ctx now d = Inr (st, info, d')"
    and "\<And>r. r \<in> set (reimbursements d) \<Longrightarrow> r_id r = lk_reimbursement_id ctx \<Longrightarrow> r_status r \<noteq> RSettled"
  shows "keeps_settled_rows d d'"
  using assms(1)
proof (cases rule: finalize_link_cases)
  case (1 d2)
  let ?f = "\<lambda>r. r \<lparr> r_contract_id := Some (lk_contract_id ctx), r_updated_at := now \<rparr>"
  have "keeps_settled_rows d (d \<lparr> reimbursements := upd_where (\<lambda>r. r_id r = lk_reimbursement_id ctx) ?f (reimbursements d) \<rparr>)"
    by (rule keeps_rows_upd [of _ "\<lambda>r. r_id r = lk_reimbursement_id ctx" ?f]) (use assms(2) in auto)
  then have "keeps_settled_rows d d2"
    using keeps_rows_trans same_rows_keep [OF recompute_expected_same [OF 1(1)]] by blast
  then show ?thesis
    using 1(2) keeps_rows_trans settle_via_contract_rows by (fastforce split: if_splits)
qed

lemma link_target_pending:
  assumes "life_inv d" "joined_row d uid st cid rid = Some ctx" "validate_link d ctx uid = Inr ()"
    and "r \<in> set (reimbursements d)" "r_id r = lk_reimbursement_id ctx"
  shows "r_status r \<noteq> RSettled"
proof -
  obtain c r0 l where r0: "r0 \<in> set (reimbursements d)" "ctx = link_row st c r0 l"
    using assms(2) by (rule joined_row_SomeD)
  have "distinct (map r_id (reimbursements d))" using life_invD(4) [OF assms(1)] by (simp add: reimbs_ok_def)
  then have "r = r0" using distinct_map_unique [OF _ assms(4) r0(1)] assms(5) r0(2) by (simp add: link_row_def)
  then show ?thesis using assms(3) r0(2) by (simp add: validate_link_Inr link_row_def)
qed

lemma suggestion_row_joined:
  "suggestion_row d uid sid = Some ctx \<Longrightarrow> \<exists>st cid rid. joined_row d uid st cid rid = Some ctx"
  by (auto simp: suggestion_row_def split: option.splits)

lemma confirm_suggestion_rows:
  assumes "life_inv d" "confirm_suggestion s sid now d = Inr d'"
  shows "keeps_settled_rows d d'"
proof -
  obtain uid dec info d1 where c: "do_confirm uid sid now d = Inr (dec, info, d1)"
    and d': "d' = fire_settlement_webhooks info d1"
    using assms(2) by (auto simp: confirm_suggestion_def bind_res_eq_Inr)
  from c have "keeps_settled_rows d d1"
  proof (cases rule: do_confirm_cases)
    case (1 ctx st)
    obtain st' cid rid where "joined_row d uid st' cid rid = Some ctx" using suggestion_row_joined [OF 1(1)] by blast
    from link_target_pending [OF assms(1) this 1(3)] show ?thesis
      using keeps_rows_left [OF _ finalize_link_rows [OF 1(5)]] by simp
  qed
  then show ?thesis unfolding d' by (rule fired_rows)
qed

lemma manual_link_rows:
  assumes "life_inv d" "manual_link s cid rid nid now d = Inr d'"
  shows "keeps_settled_rows d d'"
proof -
  obtain uid dec info d1 where c: "do_manual_link uid cid rid nid now d = Inr (dec, info, d1)"
    and d': "d' = fire_settlement_webhooks info d1"
    using assms(2) by (auto simp: manual_link_def bind_res_eq_Inr)
  from c have "keeps_settled_rows d d1"
  proof (cases rule: do_manual_link_cases)
    case (1 ctx st gs)
    from link_target_pending [OF assms(1) 1(1,2)] show ?thesis
      using keeps_rows_left [OF _ finalize_link_rows [OF 1(4)]] by simp
  qed
  then show ?thesis unfolding d' by (rule fired_rows)
qed

lemma unlink_contract_rows:
  assumes "unlink_contract s cid now d = Inr d'"
  shows "keeps_settled_rows d d'"
  using assms
proof (cases rule: unlink_cases)
  case (1 uid c gs)
  let ?P = "\<lambda>r. seen_bound (is_list_member d uid) cid r \<and> r_status r = RPending"
  let ?f = "\<lambda>r. r \<lparr> r_contract_id := None, r_updated_at := now \<rparr>"
  have "keeps_settled_rows d (d \<lparr> reimbursements := upd_where ?P ?f (reimbursements d), suggestions := gs \<rparr>)"
    by (rule keeps_rows_upd [of _ ?P ?f]) simp_all
  then show ?thesis using keeps_rows_trans same_rows_keep [OF recompute_expected_same [OF 1(5)]] by blast
qed

lemma unbind_rows: "keeps_settled_rows d (snd (unbind_contract cid now d))"
  by (rule keeps_rows_upd [of _ "\<lambda>r. bound_to cid r \<and> r_status r = RPending"
        "\<lambda>r. r \<lparr> r_contract_id := None, r_updated_at := now \<rparr>"]) (simp_all add: unbind_contract_def Let_def)

lemma handle_terminal_rows:
  assumes "handle_contract_terminal u now d = Inr d'"
  shows "keeps_settled_rows d d'"
proof (cases "is_terminal_success (uc_status u)")
  case True
  then show ?thesis using assms settle_via_contract_rows
    by (auto simp: handle_contract_terminal_def bind_res_eq_Inr intro!: fired_rows)
next
  case False
  then show ?thesis using assms unbind_rows
    by (auto simp: handle_contract_terminal_def keeps_rows_same split: if_splits)
qed

lemma verify_rows:
  assumes "verify_contract_against_journal dv cid now d = Inr d'"
  shows "keeps_settled_rows d d'"
  using assms
proof (cases rule: verify_cases)
  case (verified v)
  then obtain cs P w where d': "d' = d \<lparr> contracts := cs, reimbursements := upd_where P
        (\<lambda>r. r \<lparr> r_verified_by_wallet := True, r_wallet_settlement_delta_isk := Some (w r),
                 r_updated_at := now \<rparr>) (reimbursements d) \<rparr>" by (rule record_payout_Inr)
  show ?thesis
    by (rule keeps_rows_upd_entries [of _ P "\<lambda>r. r \<lparr> r_verified_by_wallet := True,
          r_wallet_settlement_delta_isk := Some (w r), r_updated_at := now \<rparr>"])
      (simp_all add: d' ledger_entry_def)
qed (simp add: keeps_rows_same)

lemma set_group_default_tip_rows: "set_group_default_tip s gid tip d = Inr d' \<Longrightarrow> reimbursements d' = reimbursements d"
  by (erule set_group_default_tip_Inr) simp

lemmas same_row_ops = set_group_default_tip_rows create_claim_rows claim_ops_rows list_ops_rows

lemmas op_rows = record_rows reverse_rows set_list_tip_rows unlink_contract_rows
  handle_terminal_rows verify_rows same_row_ops [THEN keeps_rows_same]

lemmas op_rows_inv = settle_reimbursement_rows confirm_suggestion_rows manual_link_rows

lemma exec_op_rows:
  assumes "life_inv d" "exec_op oper d = Inr d'"
  shows "keeps_settled_rows d d'"
proof (cases "leaves_books oper")
  case True
  then show ?thesis using assms(2) leaves_books_same same_rows_keep by blast
next
  case False
  then show ?thesis using assms(2)
    by (cases oper) (simp_all, (erule op_rows op_rows_inv [OF assms(1)])+)
qed

lemma reach_rows: "life_reach d d' \<Longrightarrow> life_inv d \<Longrightarrow> keeps_settled_rows d d'"
proof (induction rule: life_reach.induct)
  case (reach_step d d' d'')
  from reach_step.hyps(2) have "keeps_settled_rows d' d''"
    using exec_op_rows [OF life_reach_inv [OF reach_step.hyps(1) reach_step.prems(1)]]
    by (auto simp: tx_middleware_def keeps_rows_same split: sum.splits)
  then show ?case using reach_step keeps_rows_trans by blast
qed (simp add: keeps_rows_same)

end
