(* ===== verification/Money.thy ===== *)
theory Money
  imports Ledger_Facts
begin

text \<open>
  The books balance: in every reachable state a reimbursement's subtotal is the sum of
  what its hauler spent, over live fulfillments of the requester's items, and its total
  is that subtotal plus a tip between nothing and the subtotal.
\<close>

section \<open>The invariant\<close>

definition all_tips :: "db \<Rightarrow> int set" where
  "all_tips d = l_tip_pct ` set (lists d) \<union> g_default_tip_pct ` set (groups d)"

definition tips_ok :: "db \<Rightarrow> bool" where
  "tips_ok d \<longleftrightarrow> (\<forall>t\<in>all_tips d. 0 \<le> t \<and> t \<le> 10 ^ 4)"

definition spent :: "db \<Rightarrow> reimbursement \<Rightarrow> isk" where
  "spent d r = cycle_subtotal d (r_list_id r)
     (case r_requester_user_id r of None \<Rightarrow> 0 | Some u \<Rightarrow> u) (r_hauler_user_id r) (r_is_corp_funded r)"

definition row_ok :: "db \<Rightarrow> reimbursement \<Rightarrow> bool" where
  "row_ok d r \<longleftrightarrow> r_subtotal_isk r = spent d r \<and> r_total_isk r = r_subtotal_isk r + r_tip_isk r
     \<and> 0 \<le> r_tip_isk r \<and> r_tip_isk r \<le> r_subtotal_isk r"

definition money_ok :: "db \<Rightarrow> bool" where
  "money_ok d \<longleftrightarrow> life_inv d \<and> tips_ok d \<and> (\<forall>r\<in>set (reimbursements d). row_ok d r)"

section \<open>Operations that move no money\<close>

definition amounts :: "reimbursement \<Rightarrow> uuid \<times> uuid option \<times> uuid \<times> bool \<times> isk \<times> isk \<times> isk" where
  "amounts r = (r_list_id r, r_requester_user_id r, r_hauler_user_id r, r_is_corp_funded r,
     r_subtotal_isk r, r_tip_isk r, r_total_isk r)"

definition keeps_money :: "db \<Rightarrow> db \<Rightarrow> bool" where
  "keeps_money d d' \<longleftrightarrow> fulfillments d' = fulfillments d \<and> all_tips d' \<subseteq> all_tips d
     \<and> amounts ` set (reimbursements d') \<subseteq> amounts ` set (reimbursements d)"

lemma keeps_money_trans: "keeps_money d d1 \<Longrightarrow> keeps_money d1 d2 \<Longrightarrow> keeps_money d d2"
  unfolding keeps_money_def by (metis subset_trans)

lemma keeps_money_same:
  assumes "fulfillments d' = fulfillments d" "reimbursements d' = reimbursements d"
    "lists d' = lists d" "groups d' = groups d"
  shows "keeps_money d d'"
  using assms by (simp add: keeps_money_def all_tips_def)

lemma keeps_money_rows:
  assumes "fulfillments d' = fulfillments d" "reimbursements d' = upd_where P f (reimbursements d)"
    "lists d' = lists d" "groups d' = groups d" "\<And>r. amounts (f r) = amounts r"
  shows "keeps_money d d'"
  using assms(1,3,4) assms(5) unfolding keeps_money_def all_tips_def assms(2) set_upd_where
  by (auto simp: image_iff) 

lemma keeps_money_lists:
  assumes "fulfillments d' = fulfillments d" "reimbursements d' = reimbursements d"
    "lists d' = upd_where P f (lists d)" "groups d' = groups d" "\<And>l. l_tip_pct (f l) = l_tip_pct l"
  shows "keeps_money d d'"
  using assms(1,2,4,5) unfolding keeps_money_def all_tips_def assms(3) set_upd_where by auto

lemma keeps_money_books: "same_books_rows d d' \<Longrightarrow> keeps_money d d'"
  by (rule keeps_money_same) (simp_all add: same_books_rows_def)

text \<open>What was spent depends on the live fulfillments and on whose items they are.\<close>

lemma spent_follow:
  assumes inv: "life_inv d" "life_inv d'" and follow: "items_follow d d'"
    and ful: "fulfillments d' = fulfillments d"
  shows "cycle_subtotal d' lid u h corp = cycle_subtotal d lid u h corp"
  unfolding cycle_subtotal_def ful
proof (rule sum_where_cong)
  fix f assume f: "f \<in> set (fulfillments d)"
  let ?mine = "\<lambda>i. li_list_id i = lid \<and> (corp \<or> li_requested_by_user_id i = u)"
  obtain i0 where i0: "i0 \<in> set (list_items d)" "li_id i0 = f_list_item_id f"
    using life_invD(1) [OF inv(1)] f by (auto simp: refs_ok_def)
  obtain i1 where i1: "i1 \<in> set (list_items d')" "li_id i1 = li_id i0" "li_list_id i1 = li_list_id i0"
    "li_requested_by_user_id i1 = li_requested_by_user_id i0"
    using follow i0(1) unfolding items_follow_def by blast
  have dist: "distinct (map li_id (list_items d))" "distinct (map li_id (list_items d'))"
    using inv by (simp_all add: life_inv_def items_ok_def)
  have "(\<exists>i\<in>set (list_items d). li_id i = f_list_item_id f \<and> ?mine i) \<longleftrightarrow> ?mine i0"
    using i0 distinct_map_unique [OF dist(1) _ i0(1)] by (metis (no_types, lifting))
  moreover have "(\<exists>i\<in>set (list_items d'). li_id i = f_list_item_id f \<and> ?mine i) \<longleftrightarrow> ?mine i1"
    using i0 i1 distinct_map_unique [OF dist(2) _ i1(1)] by (metis (no_types, lifting))
  ultimately show "(f_hauler_user_id f = h \<and> f_reversed_at f = None \<and>
        (\<exists>i\<in>set (list_items d'). li_id i = f_list_item_id f \<and> ?mine i)) =
      (f_hauler_user_id f = h \<and> f_reversed_at f = None \<and>
        (\<exists>i\<in>set (list_items d). li_id i = f_list_item_id f \<and> ?mine i))"
    using i1(3,4) by simp
qed simp

lemma row_ok_amounts: "amounts r' = amounts r \<Longrightarrow> row_ok d r' = row_ok d r"
  by (simp add: amounts_def row_ok_def spent_def)

lemma keeps_money_ok:
  assumes ok: "money_ok d" and inv: "life_inv d'" and keep: "keeps_money d d'" "items_follow d d'"
  shows "money_ok d'"
  unfolding money_ok_def
proof (intro conjI ballI)
  show "tips_ok d'" using ok keep(1) unfolding money_ok_def tips_ok_def keeps_money_def by blast
  fix r' assume "r' \<in> set (reimbursements d')"
  then obtain r where r: "r \<in> set (reimbursements d)" "amounts r' = amounts r"
    using keep(1) unfolding keeps_money_def by blast
  have "spent d' r = spent d r"
    unfolding spent_def using ok keep by (intro spent_follow inv) (simp_all add: money_ok_def keeps_money_def)
  moreover have "row_ok d r" using ok r(1) unfolding money_ok_def by blast
  ultimately have "row_ok d' r" unfolding row_ok_def by auto
  then show "row_ok d' r'" using row_ok_amounts [OF r(2)] by simp
qed (rule inv)

section \<open>The frames of the operations\<close>

lemma apply_refresh_groups [simp]: "groups (apply_refresh touched refresh d) = groups d"
  by (simp add: apply_refresh_def)

lemma insert_claim_items_money: "insert_claim_items cid ids d = Inr d' \<Longrightarrow> keeps_money d d'"
  by (rule keeps_money_same)
    (auto simp: insert_claim_items_def bind_res_eq_Inr recompute_bulk_is_refresh split: if_splits)

lemma recompute_money: "recompute_item_status iid dem d = Inr (st, d') \<Longrightarrow> keeps_money d d'"
  by (rule keeps_money_same) (auto simp: recompute_item_status_def bind_res_eq_Inr split: if_splits)

lemma keeps_money_left:
  assumes "keeps_money d1 d'" "fulfillments d1 = fulfillments d" "reimbursements d1 = reimbursements d"
    "lists d1 = lists d" "groups d1 = groups d"
  shows "keeps_money d d'"
  using keeps_money_trans [OF keeps_money_same [OF assms(2-5)] assms(1)] .

lemma fire_money: "keeps_money d d1 \<Longrightarrow> keeps_money d (fire_webhook gid ev d1)"
  using keeps_money_trans [OF _ keeps_money_books] same_books_rows_updates(6) by blast

lemma fired_money: "keeps_money d d1 \<Longrightarrow> keeps_money d (fire_settlement_webhooks infos d1)"
  using keeps_money_trans [OF _ keeps_money_books [OF fold_fire_same]] .

lemma create_claim_money:
  assumes "create_claim s lid ids note nid now d = Inr d'"
  shows "keeps_money d d'"
proof -
  obtain cs d1 gid ev where ins: "insert_claim_items nid ids (d \<lparr> claims := cs \<rparr>) = Inr d1"
    and d': "d' = fire_webhook gid ev d1"
    using assms by (auto simp: create_claim_def bind_res_eq_Inr split: if_splits)
  show ?thesis unfolding d' by (rule fire_money, rule keeps_money_left [OF insert_claim_items_money [OF ins]]) simp_all
qed

lemma add_claim_items_money: "add_claim_items s cid ids d = Inr d' \<Longrightarrow> keeps_money d d'"
  by (auto simp: add_claim_items_def bind_res_eq_Inr split: if_splits intro: insert_claim_items_money)

lemma remove_claim_item_money: "remove_claim_item s cid iid d = Inr d' \<Longrightarrow> keeps_money d d'"
  by (auto simp: remove_claim_item_def Let_def bind_res_eq_Inr split: if_splits
      dest!: recompute_money elim!: keeps_money_left)

lemma set_claim_status_groups [simp]: "groups (set_claim_status cid st rel d) = groups d"
  by (simp add: set_claim_status_def sync_claim_items_active_def split: option.split)

lemma release_claim_money: "release_claim s cid now d = Inr d' \<Longrightarrow> keeps_money d d'"
  by (rule keeps_money_same)
    (auto simp: release_claim_def Let_def bind_res_eq_Inr recompute_bulk_is_refresh)

lemma mark_delivered_money: "mark_delivered s lid iid d = Inr d' \<Longrightarrow> keeps_money d d'"
  by (auto simp: mark_delivered_def Let_def bind_res_eq_Inr split: if_splits
      intro!: fire_money keeps_money_same)

lemma mark_settled_money: "keeps_money d (mark_settled P t b now d)"
  by (rule keeps_money_rows [of _ _ P "\<lambda>r. r \<lparr> r_status := RSettled, r_settled_at := Some t,
        r_settled_by_user_id := b, r_updated_at := now \<rparr>"]) (simp_all add: mark_settled_def amounts_def)

lemma settle_items_money: "keeps_money d d1 \<Longrightarrow> keeps_money d (settle_items P d1)"
  using keeps_money_trans [OF _ keeps_money_same] by (simp add: settle_items_def)

lemma auto_close_money: "keeps_money d d1 \<Longrightarrow> keeps_money d (auto_close_list_if_complete lid now d1)"
  by (erule keeps_money_trans, rule keeps_money_lists [of _ _ "\<lambda>l. l_id l = lid \<and> l_status l = LOpen \<and> list_complete d1 lid"
        "\<lambda>l. l \<lparr> l_status := LClosed, l_updated_at := now \<rparr>"]) (simp_all add: auto_close_list_if_complete_def)

lemma fold_auto_close_money:
  "keeps_money d d1 \<Longrightarrow> keeps_money d (fold (\<lambda>lid. auto_close_list_if_complete lid now) lids d1)"
  by (induction lids arbitrary: d1) (simp_all add: auto_close_money)

lemma contracts_money: "keeps_money d d1 \<Longrightarrow> keeps_money d (d1 \<lparr> contracts := cs \<rparr>)"
  using keeps_money_trans [OF _ keeps_money_books] same_books_rows_updates(1) by blast

lemma settle_manual_money: "settle_manual rid u now d = Inr d' \<Longrightarrow> keeps_money d d'"
  by (auto simp: settle_manual_def Let_def flip_items_to_settled_def flip_items_to_settled_corp_def
      split: option.splits if_splits intro!: auto_close_money settle_items_money mark_settled_money)

lemma settle_reimbursement_money:
  assumes "settle_reimbursement s rid now d = Inr d'"
  shows "keeps_money d d'"
proof -
  obtain uid d1 gid ev where "settle_manual rid uid now d = Inr d1" "d' = fire_webhook gid ev d1"
    using assms by (auto simp: settle_reimbursement_def bind_res_eq_Inr split: if_splits sum.splits)
  then show ?thesis using fire_money [OF settle_manual_money] by simp
qed

lemma settle_via_contract_money: "settle_via_contract vis cid now d = Inr (info, d') \<Longrightarrow> keeps_money d d'"
  by (auto simp: settle_via_contract_def Let_def keeps_money_same split: option.splits if_splits
      intro!: fold_auto_close_money contracts_money settle_items_money mark_settled_money)

lemma estimates_money:
  assumes "recompute_estimates env uid lid after now d = Inr d'"
  shows "keeps_money d d'"
proof -
  obtain gid where "write_estimates env lid gid now d = Inr d'"
    using recompute_loop_Inr assms unfolding recompute_estimates_def by blast
  then obtain pick t where "d' = estimated lid pick d \<lparr> lists := upd_where (\<lambda>l. l_id l = lid) (store_total lid t now)
      (lists (estimated lid pick d)) \<rparr>" by (rule write_estimates_Inr)
  then show ?thesis
    by (intro keeps_money_lists [of _ _ "\<lambda>l. l_id l = lid" "store_total lid t now"])
      (simp_all add: estimated_def store_total_def)
qed

lemma touch_list_money: "keeps_money d (touch_list lid now d)"
  by (rule keeps_money_lists [of _ _ "\<lambda>l. l_id l = lid" "\<lambda>l. l \<lparr> l_updated_at := now \<rparr>"])
    (simp_all add: touch_list_def)

lemma add_items_money:
  assumes "add_items env s lid b nid now d = Inr d'"
  shows "keeps_money d d'"
proof -
  obtain its d1 uid where "insert_items its d = Inr d1"
    and up: "recompute_estimates env uid lid now now (touch_list lid now d1) = Inr d'"
    using assms by (auto simp: add_items_def Let_def bind_res_eq_Inr split: if_splits)
  then have "keeps_money d d1" by (auto dest!: insert_items_Inr(3) intro!: keeps_money_same)
  then show ?thesis using keeps_money_trans touch_list_money estimates_money [OF up] by blast
qed

lemma replace_markets_money:
  assumes "replace_markets env s lid ids primary now d = Inr d'"
  shows "keeps_money d d'"
proof -
  obtain uid lms where up: "recompute_estimates env uid lid now now (touch_list lid now (d \<lparr> list_markets := lms \<rparr>)) = Inr d'"
    using assms by (auto simp: replace_markets_def bind_res_eq_Inr split: if_splits)
  have "keeps_money d (d \<lparr> list_markets := lms \<rparr>)" by (rule keeps_money_same) simp_all
  then show ?thesis using keeps_money_trans touch_list_money estimates_money [OF up] by blast
qed

lemma patch_list_money: "patch_list s lid b now d = Inr d' \<Longrightarrow> keeps_money d d'"
  by (auto simp: patch_list_def bind_res_eq_Inr keeps_money_def all_tips_def set_upd_where split: if_splits)

lemma create_list_money:
  assumes "create_list env s gid b nl nid now d = Inr d'"
  shows "keeps_money d d'"
  using assms
proof (cases rule: create_list_cases)
  case (1 cur ls m rs pick g t lms d1 ev)
  have "keeps_money d d1"
    unfolding insert_items_Inr(3) [OF 1(6)] keeps_money_def all_tips_def
    using 1(5) by (auto simp: new_list_row_def)
  then show ?thesis unfolding 1(7) by (rule fire_money)
qed

lemma finalize_link_money:
  assumes "finalize_link uid ctx now d = Inr (st, info, d')"
  shows "keeps_money d d'"
  using assms
proof (cases rule: finalize_link_cases)
  case (1 d2)
  let ?f = "\<lambda>r. r \<lparr> r_contract_id := Some (lk_contract_id ctx), r_updated_at := now \<rparr>"
  have "keeps_money d (d \<lparr> reimbursements := upd_where (\<lambda>r. r_id r = lk_reimbursement_id ctx) ?f (reimbursements d) \<rparr>)"
    by (rule keeps_money_rows [of _ _ "\<lambda>r. r_id r = lk_reimbursement_id ctx" ?f]) (simp_all add: amounts_def)
  then have "keeps_money d d2"
    using keeps_money_trans keeps_money_books [OF recompute_expected_same [OF 1(1)]] by blast
  then show ?thesis
    using 1(2) keeps_money_trans settle_via_contract_money by (fastforce split: if_splits)
qed

lemma confirm_suggestion_money:
  assumes "confirm_suggestion s sid now d = Inr d'"
  shows "keeps_money d d'"
proof -
  obtain uid dec info d1 where c: "do_confirm uid sid now d = Inr (dec, info, d1)"
    and d': "d' = fire_settlement_webhooks info d1"
    using assms by (auto simp: confirm_suggestion_def bind_res_eq_Inr)
  from c have "keeps_money d d1"
    by (rule do_confirm_cases) (drule finalize_link_money, erule keeps_money_left, simp_all)
  then show ?thesis unfolding d' by (rule fired_money)
qed

lemma manual_link_money:
  assumes "manual_link s cid rid nid now d = Inr d'"
  shows "keeps_money d d'"
proof -
  obtain uid dec info d1 where c: "do_manual_link uid cid rid nid now d = Inr (dec, info, d1)"
    and d': "d' = fire_settlement_webhooks info d1"
    using assms by (auto simp: manual_link_def bind_res_eq_Inr)
  from c have "keeps_money d d1"
    by (rule do_manual_link_cases) (drule finalize_link_money, erule keeps_money_left, simp_all)
  then show ?thesis unfolding d' by (rule fired_money)
qed

lemma unlink_contract_money:
  assumes "unlink_contract s cid now d = Inr d'"
  shows "keeps_money d d'"
  using assms
proof (cases rule: unlink_cases)
  case (1 uid c gs)
  let ?P = "\<lambda>r. seen_bound (is_list_member d uid) cid r \<and> r_status r = RPending"
  let ?f = "\<lambda>r. r \<lparr> r_contract_id := None, r_updated_at := now \<rparr>"
  have "keeps_money d (d \<lparr> reimbursements := upd_where ?P ?f (reimbursements d), suggestions := gs \<rparr>)"
    by (rule keeps_money_rows [of _ _ ?P ?f]) (simp_all add: amounts_def)
  then show ?thesis using keeps_money_trans keeps_money_books [OF recompute_expected_same [OF 1(5)]] by blast
qed

lemma unbind_money: "keeps_money d (snd (unbind_contract cid now d))"
  by (rule keeps_money_rows [of _ _ "\<lambda>r. bound_to cid r \<and> r_status r = RPending"
        "\<lambda>r. r \<lparr> r_contract_id := None, r_updated_at := now \<rparr>"])
    (simp_all add: unbind_contract_def Let_def amounts_def)

lemma handle_terminal_money:
  assumes "handle_contract_terminal u now d = Inr d'"
  shows "keeps_money d d'"
proof (cases "is_terminal_success (uc_status u)")
  case True
  then show ?thesis using assms settle_via_contract_money
    by (auto simp: handle_contract_terminal_def bind_res_eq_Inr intro!: fired_money)
next
  case False
  then show ?thesis using assms unbind_money
    by (auto simp: handle_contract_terminal_def keeps_money_same split: if_splits)
qed

lemma verify_money:
  assumes "verify_contract_against_journal dv cid now d = Inr d'"
  shows "keeps_money d d'"
  using assms
proof (cases rule: verify_cases)
  case (verified v)
  then obtain cs P w where d': "d' = d \<lparr> contracts := cs, reimbursements := upd_where P
        (\<lambda>r. r \<lparr> r_verified_by_wallet := True, r_wallet_settlement_delta_isk := Some (w r),
                 r_updated_at := now \<rparr>) (reimbursements d) \<rparr>" by (rule record_payout_Inr)
  show ?thesis
    by (rule keeps_money_rows [of _ _ P "\<lambda>r. r \<lparr> r_verified_by_wallet := True,
          r_wallet_settlement_delta_isk := Some (w r), r_updated_at := now \<rparr>"])
      (simp_all add: d' amounts_def)
qed (simp add: keeps_money_same)

lemmas op_moneys = create_list_money add_items_money patch_list_money replace_markets_money
  create_claim_money add_claim_items_money remove_claim_item_money release_claim_money
  mark_delivered_money settle_reimbursement_money confirm_suggestion_money manual_link_money
  unlink_contract_money handle_terminal_money verify_money

section \<open>Operations that move money\<close>

text \<open>The fulfillments a reimbursement pays for are those of its cycle.\<close>

definition in_cycle :: "db \<Rightarrow> reimbursement \<Rightarrow> fulfillment \<Rightarrow> bool" where
  "in_cycle d r f \<longleftrightarrow> f_hauler_user_id f = r_hauler_user_id r
     \<and> (\<exists>i\<in>set (list_items d). li_id i = f_list_item_id f \<and> li_list_id i = r_list_id r
           \<and> (r_is_corp_funded r \<or> r_requester_user_id r = Some (li_requested_by_user_id i)))"

lemma row_requester:
  assumes "life_inv d" "r \<in> set (reimbursements d)"
  shows "r_is_corp_funded r \<longleftrightarrow> r_requester_user_id r = None"
  using assms by (auto simp: life_inv_def reimbs_ok_def reimb_shape_def)

lemma spent_eq:
  assumes "r_is_corp_funded r \<longleftrightarrow> r_requester_user_id r = None"
  shows "spent d r = sum_where (\<lambda>f. in_cycle d r f \<and> f_reversed_at f = None)
     (\<lambda>f. f_qty f * f_unit_price_isk f) (fulfillments d)"
  unfolding spent_def cycle_subtotal_def
  by (rule sum_where_cong) (use assms in \<open>auto simp: in_cycle_def split: option.splits\<close>)

lemma in_cycle_key:
  assumes inv: "life_inv d" and r: "r \<in> set (reimbursements d)" and i: "i \<in> set (list_items d)"
    and f: "f_list_item_id f = li_id i" "in_cycle d r f"
  shows "item_cycle d i f = Some (reimb_key r)"
proof -
  obtain po rp hp where a: "list_payer d (r_list_id r) = Some po"
    "r_is_corp_funded r = (po \<noteq> None)" "(r_requester_user_id r = None) = (po \<noteq> None)"
    "\<forall>u. r_requester_user_id r = Some u \<longrightarrow> user_principal d u = Some rp"
    "\<forall>c. po = Some c \<longrightarrow> corp_principal d c = Some rp"
    "p_id rp = r_requester_principal_id r"
    "user_principal d (r_hauler_user_id r) = Some hp" "p_id hp = r_hauler_principal_id r"
    using inv r unfolding life_inv_def reimbs_ok_def reimb_shape_def by blast
  have "distinct (map li_id (list_items d))" using inv by (simp add: life_inv_def items_ok_def)
  then have mine: "li_list_id i = r_list_id r" "f_hauler_user_id f = r_hauler_user_id r"
    "r_is_corp_funded r \<or> r_requester_user_id r = Some (li_requested_by_user_id i)"
    using f distinct_map_unique [OF _ _ i, of li_id] by (auto simp: in_cycle_def)
  have "payer_principal d po (li_requested_by_user_id i) = Some rp"
    using a(2-5) mine(3) by (cases po) (auto simp: payer_principal_def)
  then show ?thesis
    using a mine by (simp add: item_cycle_def cycle_key_eq reimb_key_def)
qed

lemma key_parties:
  assumes inv: "life_inv d" and r: "r \<in> set (reimbursements d)"
    and l: "find_list d lid = Some l" and rp: "requester_principal d l u = Some rp"
    and hp: "user_principal d h = Some hp" and key: "reimb_key r = (lid, p_id rp, p_id hp)"
  shows "r_list_id r = lid" "r_hauler_user_id r = h" "r_is_corp_funded r = (l_payer_corp_id l \<noteq> None)"
    "r_requester_user_id r = (if l_payer_corp_id l \<noteq> None then None else Some u)"
proof -
  note refs = life_invD(1) [OF inv]
  have shape: "reimb_shape d r" using inv r by (simp add: life_inv_def reimbs_ok_def)
  show lid: "r_list_id r = lid" using key by (simp add: reimb_key_def)
  have "principal_user d (p_id hp) = Some h" using principal_user_of [OF refs hp] .
  then show "r_hauler_user_id r = h" using shape_users(1) [OF refs shape] key by (simp add: reimb_key_def)
  have lp: "list_payer d lid = Some (l_payer_corp_id l)" using l by (simp add: list_payer_def)
  then show corp: "r_is_corp_funded r = (l_payer_corp_id l \<noteq> None)"
    using shape lid unfolding reimb_shape_def by auto
  show "r_requester_user_id r = (if l_payer_corp_id l \<noteq> None then None else Some u)"
  proof (cases "l_payer_corp_id l")
    case None
    then have "user_principal d u = Some rp" using rp by (simp add: requester_principal_def)
    then have "principal_user d (p_id rp) = Some u" by (rule principal_user_of [OF refs])
    then show ?thesis using shape_users(2) [OF refs shape] key None corp by (simp add: reimb_key_def)
  next
    case (Some c)
    then show ?thesis using row_requester [OF inv r] corp by simp
  qed
qed

lemma upsert_detail:
  assumes "upsert_reimbursement nid now lid u h d = Inr d'" "cycle_key d lid u h = Some k"
  obtains l rp hp st tip total where "find_list d lid = Some l" "requester_principal d l u = Some rp"
    "user_principal d h = Some hp" "k = (lid, p_id rp, p_id hp)"
    "st = cycle_subtotal d lid u h (l_payer_corp_id l \<noteq> None)"
    "tip = tip_amount st (l_tip_pct l)" "total = total_amount st (l_tip_pct l)"
    "d' = d \<lparr> reimbursements := upd_where (\<lambda>r. (reimb_key r = k \<and> r_status r \<noteq> RCancelled) \<and> r_status r = RPending)
        (\<lambda>r. r \<lparr> r_subtotal_isk := st, r_tip_isk := tip, r_total_isk := total, r_updated_at := now \<rparr>)
        (reimbursements d) \<rparr>
     \<or> (\<exists>r. d' = d \<lparr> reimbursements := reimbursements d @ [r] \<rparr> \<and> amounts r =
          (lid, if l_payer_corp_id l \<noteq> None then None else Some u, h, l_payer_corp_id l \<noteq> None, st, tip, total)
          \<and> (\<forall>x\<in>set (reimbursements d). reimb_key x = k \<longrightarrow> r_status x = RCancelled))"
proof -
  obtain l rp hp where l: "find_list d lid = Some l" and rp: "requester_principal d l u = Some rp"
    and hp: "user_principal d h = Some hp" and k: "k = (lid, p_id rp, p_id hp)"
    using assms(2) by (auto simp: cycle_key_def split: option.splits)
  show thesis
    by (rule that [OF l rp hp k refl refl refl])
      (use assms(1) in \<open>auto simp: upsert_reimbursement_def l rp hp k Let_def amounts_def split: if_splits\<close>)
qed

lemma item_refs_cycle:
  assumes "fulfillments d' = fulfillments d"
    and "(\<lambda>i. (li_id i, li_list_id i, li_requested_by_user_id i)) ` set (list_items d')
       = (\<lambda>i. (li_id i, li_list_id i, li_requested_by_user_id i)) ` set (list_items d)"
  shows "cycle_subtotal d' lid u h corp = cycle_subtotal d lid u h corp"
proof -
  let ?ref = "\<lambda>i. (li_id i, li_list_id i, li_requested_by_user_id i)"
  have eq: "(\<exists>i\<in>set (list_items e). li_id i = x \<and> li_list_id i = lid \<and> (corp \<or> li_requested_by_user_id i = u))
      \<longleftrightarrow> (\<exists>(a, b, c)\<in>?ref ` set (list_items e). a = x \<and> b = lid \<and> (corp \<or> c = u))" for e x
    by auto
  show ?thesis unfolding cycle_subtotal_def eq assms ..
qed

text \<open>An upsert after a change to the fulfillments of its cycle alone.\<close>

lemma upsert_money:
  assumes ok: "money_ok d" and inv': "life_inv d'"
    and same: "principals d2 = principals d" "lists d2 = lists d" "groups d2 = groups d"
      "reimbursements d2 = reimbursements d"
    and pos: "\<And>f. f \<in> set (fulfillments d2) \<Longrightarrow> 0 \<le> f_qty f \<and> 0 \<le> f_unit_price_isk f"
    and cyc: "cycle_key d lid u h = Some k"
    and others: "\<And>r. r \<in> set (reimbursements d) \<Longrightarrow> reimb_key r \<noteq> k \<Longrightarrow> spent d2 r = spent d r"
    and pending: "\<And>r. r \<in> set (reimbursements d) \<Longrightarrow> reimb_key r = k \<Longrightarrow> r_status r = RPending"
    and up: "upsert_reimbursement nid now lid u h d2 = Inr d'"
  shows "money_ok d'"
proof -
  have inv: "life_inv d" using ok by (simp add: money_ok_def)
  have cyc2: "cycle_key d2 lid u h = Some k"
    using cyc cycle_key_cong [OF same(1) list_payer_cong [OF same(2)]] by simp
  from up cyc2 show ?thesis
  proof (cases rule: upsert_detail)
    case (1 l rp hp st tip total)
    have l: "find_list d lid = Some l" "requester_principal d l u = Some rp" "user_principal d h = Some hp"
      using 1(1-3) unfolding find_list_def requester_principal_def same(2)
        user_principal_cong [OF same(1)] corp_principal_cong [OF same(1)] by simp_all
    have "l \<in> set (lists d)" using l(1) by (auto simp: find_list_def dest: find_Some_memD)
    then have tips: "0 \<le> l_tip_pct l" "l_tip_pct l \<le> 10 ^ 4"
      using ok by (auto simp: money_ok_def tips_ok_def all_tips_def)
    have st0: "0 \<le> st" unfolding 1(5) using cycle_subtotal_nonneg [OF pos] .
    have new: "total = st + tip" "0 \<le> tip" "tip \<le> st"
      unfolding 1(6,7) using total_is_subtotal_plus_tip tip_amount_nonneg tip_amount_le st0 tips by auto
    have d': "fulfillments d' = fulfillments d2" "list_items d' = list_items d2" "lists d' = lists d"
      "groups d' = groups d" using 1(8) same by auto
    have spent': "spent d' r = spent d2 r" for r
      unfolding spent_def by (rule item_refs_cycle) (simp_all add: d')
    have fresh_ok: "row_ok d' r" if "amounts r =
        (lid, if l_payer_corp_id l \<noteq> None then None else Some u, h, l_payer_corp_id l \<noteq> None, st, tip, total)" for r
    proof -
      have "spent d2 r = st"
        using that unfolding spent_def 1(5) by (auto simp: amounts_def cycle_subtotal_def)
      then show ?thesis using that new spent' by (simp add: row_ok_def amounts_def)
    qed
    have old_ok: "row_ok d' r" if "r \<in> set (reimbursements d)" "reimb_key r \<noteq> k" for r
      using ok that others [OF that] spent' [of r] by (auto simp: money_ok_def row_ok_def)
    have "row_ok d' r'" if r': "r' \<in> set (reimbursements d')" for r'
      using 1(8)
    proof
      assume upd: "d' = d2 \<lparr> reimbursements := upd_where (\<lambda>r. (reimb_key r = k \<and> r_status r \<noteq> RCancelled) \<and> r_status r = RPending)
        (\<lambda>r. r \<lparr> r_subtotal_isk := st, r_tip_isk := tip, r_total_isk := total, r_updated_at := now \<rparr>)
        (reimbursements d2) \<rparr>"
      then obtain r where r: "r \<in> set (reimbursements d)" "r' = (if (reimb_key r = k \<and> r_status r \<noteq> RCancelled) \<and> r_status r = RPending
          then r \<lparr> r_subtotal_isk := st, r_tip_isk := tip, r_total_isk := total, r_updated_at := now \<rparr> else r)"
        using r' same(4) by (auto elim: in_upd_whereE)
      show ?thesis
      proof (cases "reimb_key r = k")
        case True
        then have "amounts r' = (lid, if l_payer_corp_id l \<noteq> None then None else Some u, h,
            l_payer_corp_id l \<noteq> None, st, tip, total)"
          using key_parties [OF inv r(1) l] pending [OF r(1)] r(2) 1(4) by (simp add: amounts_def)
        then show ?thesis by (rule fresh_ok)
      next
        case False
        then show ?thesis using old_ok [OF r(1)] r(2) by simp
      qed
    next
      assume "\<exists>r. d' = d2 \<lparr> reimbursements := reimbursements d2 @ [r] \<rparr> \<and> amounts r =
          (lid, if l_payer_corp_id l \<noteq> None then None else Some u, h, l_payer_corp_id l \<noteq> None, st, tip, total)
          \<and> (\<forall>x\<in>set (reimbursements d2). reimb_key x = k \<longrightarrow> r_status x = RCancelled)"
      then show ?thesis using r' same(4) fresh_ok old_ok pending by fastforce
    qed
    moreover have "tips_ok d'" using ok d'(3,4) by (simp add: money_ok_def tips_ok_def all_tips_def)
    ultimately show ?thesis using inv' by (simp add: money_ok_def)
  qed
qed

lemma existing_pending:
  assumes inv: "life_inv d" and st: "existing_reimb_status d lid u h \<in> {None, Some RPending}"
    and cyc: "cycle_key d lid u h = Some k" and r: "r \<in> set (reimbursements d)" "reimb_key r = k"
  shows "r_status r = RPending"
proof -
  have "distinct (map reimb_key (reimbursements d))" using inv by (simp add: life_inv_def reimbs_ok_def)
  then have "find (\<lambda>r. reimb_key r = k) (reimbursements d) = Some r" using find_keyI [where key = reimb_key, OF _ r] by simp
  then show ?thesis using st cyc by (simp add: existing_reimb_status_def)
qed

lemma refresh_refs:
  assumes "\<And>i. li_id (refresh d i) = li_id i" "\<And>i. li_list_id (refresh d i) = li_list_id i"
    "\<And>i. li_requested_by_user_id (refresh d i) = li_requested_by_user_id i"
  shows "(\<lambda>i. (li_id i, li_list_id i, li_requested_by_user_id i)) ` set (list_items (apply_refresh touched refresh d))
       = (\<lambda>i. (li_id i, li_list_id i, li_requested_by_user_id i)) ` set (list_items d)"
proof -
  let ?ref = "\<lambda>i. (li_id i, li_list_id i, li_requested_by_user_id i)"
  have "map ?ref (list_items (apply_refresh touched refresh d)) = map ?ref (list_items d)"
    by (simp add: apply_refresh_def map_upd_where_same assms)
  from arg_cong [OF this, of set] show ?thesis by simp
qed

lemma spent_refresh:
  assumes "distinct (map li_id (list_items d))" "recompute_item_status iid dem d = Inr (st, d')"
    "fulfillments d2 = fulfillments d'" "list_items d2 = list_items d'"
  shows "spent d2 r = spent d r"
  unfolding spent_def
proof (rule item_refs_cycle)
  note d' = recompute_single_is_refresh(1) [OF assms(1,2)]
  show "fulfillments d2 = fulfillments d" by (simp add: assms(3) d')
  show "(\<lambda>i. (li_id i, li_list_id i, li_requested_by_user_id i)) ` set (list_items d2)
      = (\<lambda>i. (li_id i, li_list_id i, li_requested_by_user_id i)) ` set (list_items d)"
    unfolding assms(4) d' by (rule refresh_refs) simp_all
qed

text \<open>Recording and reversing change the spending of no other cycle.\<close>

lemma spent_add_other:
  assumes "money_ok d" "r \<in> set (reimbursements d)" "i \<in> set (list_items d)"
    "f_list_item_id f = li_id i" "item_cycle d i f \<noteq> Some (reimb_key r)"
  shows "spent (add_fulfillment f d) r = spent d r"
proof -
  have inv: "life_inv d" using assms(1) by (simp add: money_ok_def)
  have "\<not> in_cycle d r f" using in_cycle_key [OF inv assms(2-4)] assms(5) by blast
  moreover have "in_cycle (add_fulfillment f d) r = in_cycle d r" by (simp add: in_cycle_def fun_eq_iff)
  ultimately show ?thesis
    unfolding spent_eq [OF row_requester [OF inv assms(2)]] by simp
qed

lemma spent_reverse_other:
  assumes "money_ok d" "r \<in> set (reimbursements d)" "i \<in> set (list_items d)"
    "f \<in> set (fulfillments d)" "f_id f = fid"
    "f_list_item_id f = li_id i" "item_cycle d i f \<noteq> Some (reimb_key r)"
  shows "spent (reversed_state fid now d) r = spent d r"
proof -
  have inv: "life_inv d" using assms(1) by (simp add: money_ok_def)
  have no: "\<not> in_cycle d r f" using in_cycle_key [OF inv assms(2,3,6)] assms(7) by blast
  have cyc: "in_cycle (reversed_state fid now d) r = in_cycle d r" by (simp add: in_cycle_def fun_eq_iff)
  have dist: "distinct (map f_id (fulfillments d))" using life_invD(1) [OF inv] by (simp add: refs_ok_def)
  have same: "g = f" if "g \<in> set (fulfillments d)" "f_id g = fid" for g
    using distinct_map_unique [OF dist that(1) assms(4)] that(2) assms(5) by simp
  have hit: "in_cycle d r (g \<lparr> f_reversed_at := t \<rparr>) = in_cycle d r g" for g t by (simp add: in_cycle_def)
  have "sum_where (\<lambda>g. in_cycle d r g \<and> f_reversed_at g = None) (\<lambda>f. f_qty f * f_unit_price_isk f)
      (fulfillments (reversed_state fid now d))
    = sum_where (\<lambda>g. in_cycle d r g \<and> f_reversed_at g = None) (\<lambda>f. f_qty f * f_unit_price_isk f) (fulfillments d)"
    unfolding reversed_state_def db.select_convs db.update_convs
    by (simp add: sum_where_upd_where hit, rule sum_where_cong) (use same no in auto)
  then show ?thesis unfolding spent_eq [OF row_requester [OF inv assms(2)]] cyc .
qed

lemma record_cases:
  assumes rec: "record_fulfillment s lid iid b fid rid now d = Inr d'" and cur: "current_list_ex s lid d = Inr cur"
  obtains i f st d1 where "find (\<lambda>i. li_id i = iid \<and> li_list_id i = lid) (list_items d) = Some i"
    "existing_reimb_status d lid (li_requested_by_user_id i) (cl_user_id cur) \<in> {None, Some RPending}"
    "f_list_item_id f = iid" "f_hauler_user_id f = cl_user_id cur" "0 \<le> f_qty f" "0 \<le> f_unit_price_isk f"
    "recompute_item_status iid DForbid (add_fulfillment f d) = Inr (st, d1)"
    "upsert_reimbursement rid now lid (li_requested_by_user_id i) (cl_user_id cur)
        (complete_claim_if_done st (active_claim d iid) d1) = Inr d'"
proof -
  let ?f = "\<lparr> f_id = fid, f_list_item_id = iid, f_claim_id = map_option fst (active_claim d iid),
      f_hauler_user_id = cl_user_id cur, f_hauler_character_id = rb_hauler_character_id b,
      f_source = FManual, f_qty = rb_qty b, f_unit_price_isk = to_numeric 2 (rb_unit_price_isk b),
      f_bought_at_market_id = rb_bought_at_market_id b, f_bought_at_note = rb_bought_at_note b,
      f_bought_at = now, f_reversed_at = None \<rparr>"
  obtain i where i: "find (\<lambda>i. li_id i = iid \<and> li_list_id i = lid) (list_items d) = Some i"
    and body: "check_fulfillment_body b = Inr ()"
    and status: "existing_reimb_status d lid (li_requested_by_user_id i) (cl_user_id cur) \<in> {None, Some RPending}"
    and rest: "bind_res (recompute_item_status iid DForbid (add_fulfillment ?f d)) (\<lambda>(new_status, d1).
       upsert_reimbursement rid now lid (li_requested_by_user_id i) (cl_user_id cur)
         (complete_claim_if_done new_status (active_claim d iid) d1)) = Inr d'"
    using rec cur
    by (clarsimp simp: record_fulfillment_def Let_def bind_res_eq_Inr split: if_splits
        option.split_asm reimbursement_status.split_asm)
  obtain st d1 where "recompute_item_status iid DForbid (add_fulfillment ?f d) = Inr (st, d1)"
    "upsert_reimbursement rid now lid (li_requested_by_user_id i) (cl_user_id cur)
       (complete_claim_if_done st (active_claim d iid) d1) = Inr d'"
    using rest by (auto simp: bind_res_eq_Inr)
  then show thesis
    by (rule that [OF i status, rotated 4])
      (use check_fulfillment_body_Inr [OF body] to_numeric_nonneg in auto)
qed

lemma member_cycle:
  assumes inv: "life_inv d" and i: "i \<in> set (list_items d)" and m: "member_role d h gid = Some role"
  shows "\<exists>k. cycle_key d (li_list_id i) (li_requested_by_user_id i) h = Some k"
proof -
  obtain po where "list_payer d (li_list_id i) = Some po" "payer_principal d po (li_requested_by_user_id i) \<noteq> None"
    using life_invD(1) [OF inv] i unfolding refs_ok_def by blast
  then show ?thesis using member_has_principal [OF life_invD(1) [OF inv] m] by (auto simp: cycle_key_eq)
qed

lemma record_money:
  assumes ok: "money_ok d" and rec: "record_fulfillment s lid iid b fid rid now d = Inr d'"
  shows "money_ok d'"
proof -
  have inv: "life_inv d" using ok by (simp add: money_ok_def)
  have inv': "life_inv d'" by (rule record_fulfillment_inv [OF inv rec])
  obtain cur where cur: "current_list_ex s lid d = Inr cur"
    using rec unfolding record_fulfillment_def bind_res_eq_Inr by blast
  obtain i f st d1 where i: "find (\<lambda>i. li_id i = iid \<and> li_list_id i = lid) (list_items d) = Some i"
    and status: "existing_reimb_status d lid (li_requested_by_user_id i) (cl_user_id cur) \<in> {None, Some RPending}"
    and f: "f_list_item_id f = iid" "f_hauler_user_id f = cl_user_id cur" "0 \<le> f_qty f" "0 \<le> f_unit_price_isk f"
    and rc: "recompute_item_status iid DForbid (add_fulfillment f d) = Inr (st, d1)"
    and up: "upsert_reimbursement rid now lid (li_requested_by_user_id i) (cl_user_id cur)
        (complete_claim_if_done st (active_claim d iid) d1) = Inr d'"
    using rec cur by (rule record_cases)
  let ?d2 = "complete_claim_if_done st (active_claim d iid) d1"
  have mem: "i \<in> set (list_items d)" "li_id i = iid" "li_list_id i = lid" using find_Some_memD [OF i] by auto
  have dist: "distinct (map li_id (list_items d))" using inv by (simp add: life_inv_def items_ok_def)
  have d1: "d1 = apply_refresh (\<lambda>x. li_id x = iid) (single_refresh DForbid) (add_fulfillment f d)"
    using recompute_single_is_refresh(1) [OF _ rc] dist by simp
  note d2 = complete_claim_frame [where d = d1 and st = st and ac = "active_claim d iid"]
  obtain k where k: "cycle_key d lid (li_requested_by_user_id i) (cl_user_id cur) = Some k"
    using member_cycle [OF inv mem(1)] current_list_ex_Inr [OF cur] unfolding mem(3) by blast
  have spent2: "spent ?d2 r = spent (add_fulfillment f d) r" for r
    by (rule spent_refresh [OF _ rc]) (simp_all add: dist d2(2) same_booksD [OF d2(1)])
  show ?thesis
  proof (rule upsert_money [OF ok inv' _ _ _ _ _ k _ existing_pending [OF inv status k] up])
    show "principals ?d2 = principals d" "reimbursements ?d2 = reimbursements d"
      using same_booksD(1,5) [OF d2(1)] by (simp_all add: d1)
    show "lists ?d2 = lists d" "groups ?d2 = groups d" by (simp_all add: d1 complete_claim_if_done_def split: option.split)
    show "0 \<le> f_qty g \<and> 0 \<le> f_unit_price_isk g" if "g \<in> set (fulfillments ?d2)" for g
      using that f life_invD(1) [OF inv] same_booksD(4) [OF d2(1)] by (auto simp: d1 refs_ok_def)
    show "spent ?d2 r = spent d r" if "r \<in> set (reimbursements d)" "reimb_key r \<noteq> k" for r
      unfolding spent2 by (rule spent_add_other [OF ok that(1) mem(1)])
        (use f mem k that(2) in \<open>auto simp: item_cycle_def\<close>)
  qed
qed

lemma reverse_money:
  assumes ok: "money_ok d" and rev: "reverse_fulfillment s fid rid now d = Inr d'"
  shows "money_ok d'"
  using rev
proof (cases rule: reverse_fulfillment_Inr)
  case (1 uid f i st d1)
  have inv: "life_inv d" using ok by (simp add: money_ok_def)
  have inv': "life_inv d'" by (rule reverse_fulfillment_inv [OF inv rev])
  have f: "f \<in> set (fulfillments d)" "f_id f = fid" using rls_find_fulfillment_SomeD [OF 1(1)] by auto
  have i: "i \<in> set (list_items d)" "li_id i = f_list_item_id f"
    using 1(2) by (auto simp: find_item_def dest: find_Some_memD)
  have dist: "distinct (map li_id (list_items d))" using inv by (simp add: life_inv_def items_ok_def)
  have d1: "d1 = apply_refresh (\<lambda>x. li_id x = f_list_item_id f) (single_refresh DAllow) (reversed_state fid now d)"
    using recompute_single_is_refresh(1) [OF _ 1(5)] dist by simp
  have "f \<in> live_on d i" using f i 1(3) by (simp add: live_on_def)
  then obtain r0 where "item_cycle d i f = Some (reimb_key r0)"
    using life_invD(5) [OF inv] i(1) unfolding cover_ok_def by blast
  then obtain k where k: "cycle_key d (li_list_id i) (li_requested_by_user_id i) (f_hauler_user_id f) = Some k"
    by (simp add: item_cycle_def)
  have spent1: "spent d1 r = spent (reversed_state fid now d) r" for r
    by (rule spent_refresh [OF _ 1(5)]) (simp_all add: dist)
  show ?thesis
  proof (rule upsert_money [OF ok inv' _ _ _ _ _ k _ existing_pending [OF inv 1(4) k] 1(6)])
    show "principals d1 = principals d" "reimbursements d1 = reimbursements d" "lists d1 = lists d"
      "groups d1 = groups d" by (simp_all add: d1 reversed_state_def)
    show "0 \<le> f_qty g \<and> 0 \<le> f_unit_price_isk g" if "g \<in> set (fulfillments d1)" for g
      using that life_invD(1) [OF inv] by (auto simp: d1 reversed_state_def refs_ok_def set_upd_where)
    show "spent d1 r = spent d r" if "r \<in> set (reimbursements d)" "reimb_key r \<noteq> k" for r
      unfolding spent1 by (rule spent_reverse_other [OF ok that(1) i(1) f])
        (use i k that(2) in \<open>auto simp: item_cycle_def\<close>)
  qed
qed

section \<open>Tips\<close>

lemma round_half_away_mono:
  assumes "0 < m" "0 \<le> n" "n \<le> k"
  shows "round_half_away n m \<le> round_half_away k m"
proof -
  have "(2 * n + m) div (2 * m) \<le> (2 * k + m) div (2 * m)" using assms by (intro zdiv_mono1) auto
  then show ?thesis using assms by (simp add: round_half_away_def)
qed

lemma valid_tip:
  assumes "\<not> dec_neg tip" "\<not> dec_gt_one tip"
  shows "0 \<le> mantissa tip" "mantissa tip \<le> 10 ^ scale tip"
  using assms by (simp_all add: dec_neg_def dec_gt_one_def)

lemma stored_tip_ok:
  assumes "\<not> dec_neg tip" "\<not> dec_gt_one tip"
  shows "0 \<le> to_numeric 4 tip" "to_numeric 4 tip \<le> 10 ^ 4"
proof -
  note v = valid_tip [OF assms]
  show "0 \<le> to_numeric 4 tip" using to_numeric_nonneg [OF assms(1)] .
  have "round_half_away (mantissa tip * 10 ^ 4) (10 ^ scale tip) \<le> round_half_away (10 ^ 4 * 10 ^ scale tip) (10 ^ scale tip)"
    using v by (intro round_half_away_mono) auto
  then show "to_numeric 4 tip \<le> 10 ^ 4"
    using round_half_away_exact [of "10 ^ scale tip" "10 ^ 4"] by (simp add: to_numeric_def)
qed

lemma new_tip_ok:
  assumes "\<not> dec_neg tip" "\<not> dec_gt_one tip" "0 \<le> st"
  shows "round_half_away (st * (10 ^ scale tip + mantissa tip)) (10 ^ scale tip)
      = st + round_half_away (st * mantissa tip) (10 ^ scale tip)"
    "0 \<le> round_half_away (st * mantissa tip) (10 ^ scale tip)"
    "round_half_away (st * mantissa tip) (10 ^ scale tip) \<le> st"
proof -
  note v = valid_tip [OF assms(1,2)]
  have "st * (10 ^ scale tip + mantissa tip) = st * 10 ^ scale tip + st * mantissa tip"
    by (simp add: algebra_simps)
  then show "round_half_away (st * (10 ^ scale tip + mantissa tip)) (10 ^ scale tip)
      = st + round_half_away (st * mantissa tip) (10 ^ scale tip)"
    using round_half_away_add_exact [of "10 ^ scale tip" "st * mantissa tip" st] assms(3) v(1) by simp
  show "0 \<le> round_half_away (st * mantissa tip) (10 ^ scale tip)"
    using assms(3) v(1) by (intro round_half_away_nonneg) auto
  have "round_half_away (st * mantissa tip) (10 ^ scale tip) \<le> round_half_away (st * 10 ^ scale tip) (10 ^ scale tip)"
    using assms(3) v by (intro round_half_away_mono mult_left_mono) auto
  then show "round_half_away (st * mantissa tip) (10 ^ scale tip) \<le> st"
    using round_half_away_exact [of "10 ^ scale tip" st] by simp
qed

lemma set_list_tip_cases:
  assumes "set_list_tip s lid tip now d = Inr d'"
  obtains "\<not> dec_neg tip" "\<not> dec_gt_one tip"
    "d' = d \<lparr> lists := upd_where (\<lambda>l. l_id l = lid) (\<lambda>l. l \<lparr> l_tip_pct := to_numeric 4 tip \<rparr>) (lists d),
          reimbursements := upd_where (\<lambda>r. r_list_id r = lid \<and> r_status r = RPending)
            (\<lambda>r. r \<lparr> r_tip_isk := round_half_away (r_subtotal_isk r * mantissa tip) (10 ^ scale tip),
                    r_total_isk := round_half_away (r_subtotal_isk r * (10 ^ scale tip + mantissa tip)) (10 ^ scale tip),
                    r_updated_at := now \<rparr>) (reimbursements d) \<rparr>"
  using assms by (auto simp: set_list_tip_def validate_tip_pct_def Let_def bind_res_eq_Inr split: if_splits)

lemma row_subtotal_nonneg:
  assumes "money_ok d" "r \<in> set (reimbursements d)"
  shows "0 \<le> r_subtotal_isk r"
proof -
  have "0 \<le> r_tip_isk r" "r_tip_isk r \<le> r_subtotal_isk r"
    using assms unfolding money_ok_def row_ok_def by blast+
  then show ?thesis by simp
qed

lemma set_list_tip_money:
  assumes ok: "money_ok d" and t: "set_list_tip s lid tip now d = Inr d'"
  shows "money_ok d'"
  using t
proof (cases rule: set_list_tip_cases)
  case 1
  have inv': "life_inv d'" using ok set_list_tip_inv [OF _ t] by (simp add: money_ok_def)
  have spent': "spent d' r = spent d r" for r
    unfolding spent_def by (rule item_refs_cycle) (simp_all add: 1)
  have rows: "row_ok d' r'" if "r' \<in> set (reimbursements d')" for r'
  proof -
    have "r' \<in> set (upd_where (\<lambda>r. r_list_id r = lid \<and> r_status r = RPending)
            (\<lambda>r. r \<lparr> r_tip_isk := round_half_away (r_subtotal_isk r * mantissa tip) (10 ^ scale tip),
                    r_total_isk := round_half_away (r_subtotal_isk r * (10 ^ scale tip + mantissa tip)) (10 ^ scale tip),
                    r_updated_at := now \<rparr>) (reimbursements d))" using that 1(3) by simp
    then obtain r where r: "r \<in> set (reimbursements d)" "r' = (if r_list_id r = lid \<and> r_status r = RPending
        then r \<lparr> r_tip_isk := round_half_away (r_subtotal_isk r * mantissa tip) (10 ^ scale tip),
                    r_total_isk := round_half_away (r_subtotal_isk r * (10 ^ scale tip + mantissa tip)) (10 ^ scale tip),
                    r_updated_at := now \<rparr> else r)" by (rule in_upd_whereE)
    have row: "row_ok d r" using ok r(1) unfolding money_ok_def by blast
    note tip = new_tip_ok [OF 1(1,2) row_subtotal_nonneg [OF ok r(1)]]
    have sp: "spent d' r' = spent d r" unfolding spent' by (simp add: r(2) spent_def)
    show ?thesis
    proof (cases "r_list_id r = lid \<and> r_status r = RPending")
      case True
      then show ?thesis using row tip sp unfolding row_ok_def by (simp add: r(2))
    next
      case False
      then have "r' = r" using r(2) by (simp only: if_False)
      then show ?thesis using row sp unfolding row_ok_def by auto
    qed
  qed
  have "tips_ok d'"
    using ok stored_tip_ok [OF 1(1,2)]
    unfolding money_ok_def tips_ok_def all_tips_def 1(3) by (auto simp: set_upd_where)
  then show ?thesis using inv' rows by (simp add: money_ok_def)
qed

lemma set_group_tip_money:
  assumes ok: "money_ok d" and t: "set_group_default_tip s gid tip d = Inr d'"
  shows "money_ok d'"
  using t
proof (cases rule: set_group_default_tip_Inr)
  case 1
  have inv': "life_inv d'" using ok set_group_default_tip_inv [OF _ t] by (simp add: money_ok_def)
  have spent': "spent d' r = spent d r" for r
    unfolding spent_def by (rule item_refs_cycle) (simp_all add: 1)
  have "tips_ok d'"
    using ok stored_tip_ok [OF 1(1,2)]
    unfolding money_ok_def tips_ok_def all_tips_def 1(3) by (auto simp: set_upd_where)
  moreover have "row_ok d' r = row_ok d r" for r by (simp add: row_ok_def spent')
  ultimately show ?thesis using inv' ok 1(3) by (simp add: money_ok_def)
qed

section \<open>Every step\<close>

lemmas op_moneys_ok = record_money reverse_money set_list_tip_money set_group_tip_money

fun moves_money :: "lifecycle_op \<Rightarrow> bool" where
  "moves_money (RecordFulfillment _ _ _ _ _ _ _) = True"
| "moves_money (ReverseFulfillment _ _ _ _) = True"
| "moves_money (SetListTip _ _ _ _) = True"
| "moves_money (SetGroupDefaultTip _ _ _) = True"
| "moves_money _ = False"

lemma exec_op_keeps_money:
  assumes "\<not> moves_money oper" "exec_op oper d = Inr d'"
  shows "keeps_money d d'"
proof (cases "leaves_books oper")
  case True
  then show ?thesis using keeps_money_books [OF leaves_books_same [OF True assms(2)]] by blast
next
  case False
  then show ?thesis using assms by (cases oper) (simp_all, (erule op_moneys)+)
qed

lemma exec_op_money:
  assumes ok: "money_ok d" and ex: "exec_op oper d = Inr d'"
  shows "money_ok d'"
proof (cases "moves_money oper")
  case True
  then show ?thesis using ex by (cases oper) (simp_all, (erule op_moneys_ok [OF ok])+)
next
  case False
  have inv: "life_inv d" using ok by (simp add: money_ok_def)
  show ?thesis
    by (rule keeps_money_ok [OF ok exec_op_inv [OF inv ex] exec_op_keeps_money [OF False ex] exec_op_follow [OF inv ex]])
qed

interpretation money: transactional exec_op money_ok
  by unfold_locales (rule exec_op_money)

lemma life_reach_money: "life_reach d d' \<Longrightarrow> money_ok d \<Longrightarrow> money_ok d'"
  by (induction rule: life_reach.induct) (auto intro: money.request_inv)

end
