(* ===== verification/Demo.thy ===== *)
theory Demo
  imports Money
begin

text \<open>
  A small concrete world for the witnesses: one group with an owner and requester
  (user 1), a hauler (user 2) and a second hauler (user 3), one open list with two
  items, and a corporation principal.
\<close>

definition demo_item :: "uuid \<Rightarrow> qty \<Rightarrow> uuid \<Rightarrow> list_item" where
  "demo_item iid q requester =
     \<lparr> li_id = iid, li_list_id = 10, li_type_id = 34, li_type_name = ''Tritanium'',
       li_qty_requested = q, li_qty_fulfilled = 0, li_est_unit_price_isk = None,
       li_est_priced_market_id = None, li_requested_by_user_id = requester, li_status = IOpen,
       li_source_line_no = None \<rparr>"

definition demo_list :: shopping_list where
  "demo_list = \<lparr> l_id = 10, l_group_id = 5, l_created_by_user_id = 1, l_destination_label = None,
     l_notes = None, l_status = LOpen, l_total_estimate_isk = 0, l_tip_pct = 500,
     l_payer_corp_id = None, l_payer_division = None, l_created_at = 0, l_updated_at = 0 \<rparr>"

definition demo_principal :: "uuid \<Rightarrow> uuid \<Rightarrow> principal" where
  "demo_principal pid uid = \<lparr> p_id = pid, p_kind = PUser, p_user_id = Some uid, p_corp_id = None \<rparr>"

definition demo_user :: "uuid \<Rightarrow> string \<Rightarrow> user" where
  "demo_user uid name = \<lparr> u_id = uid, u_display_name = name, u_active_character_id = None, u_created_at = 0 \<rparr>"

definition demo_member :: "uuid \<Rightarrow> group_role \<Rightarrow> membership" where
  "demo_member uid role = \<lparr> gm_user_id = uid, gm_group_id = 5, gm_role = role, gm_joined_at = 0 \<rparr>"

text \<open>Two contracts of the hauler, offered to the requester; the first holds what will be bought.\<close>

definition demo_upsert :: "int \<Rightarrow> contract_status \<Rightarrow> contract_upsert" where
  "demo_upsert esi st = \<lparr> cu_esi_contract_id = esi, cu_issuer_character_id = 92, cu_issuer_user_id = Some 2,
     cu_assignee_character_id = Some 91, cu_assignee_user_id = Some 1, cu_issuer_principal_id = Some 22,
     cu_assignee_principal_id = Some 21, cu_contract_type = ItemExchange, cu_status = st,
     cu_price_isk = Dec 6563 2, cu_reward_isk = Dec 0 0, cu_collateral_isk = Dec 0 0, cu_date_issued = 1,
     cu_date_expired = None, cu_date_accepted = None, cu_date_completed = None,
     cu_start_location_id = None, cu_end_location_id = None, cu_source_corp_id = None \<rparr>"

definition demo_contract :: contract where
  "demo_contract = (new_contract 500 (demo_upsert 7000 Outstanding)) \<lparr> ct_items_synced_at := Some 0 \<rparr>"

definition demo_other_contract :: contract where
  "demo_other_contract = new_contract 501 (demo_upsert 7001 Outstanding)"

definition demo_contract_item :: contract_item where
  "demo_contract_item = \<lparr> cti_contract_id = 500, cti_record_id = 1, cti_type_id = 34, cti_quantity = 5,
     cti_is_included = True \<rparr>"

definition demo_db :: db where
  "demo_db = empty_db \<lparr>
     users := [demo_user 1 ''A'', demo_user 2 ''B'', demo_user 3 ''C''],
     memberships := [demo_member 1 Owner, demo_member 2 Member, demo_member 3 Member],
     principals := [demo_principal 21 1, demo_principal 22 2, demo_principal 23 3],
     lists := [demo_list],
     list_items := [demo_item 100 5 1, demo_item 101 2 1],
     contracts := [demo_contract, demo_other_contract],
     contract_items := [demo_contract_item] \<rparr>"

lemmas demo_defs = demo_db_def demo_item_def demo_list_def demo_principal_def demo_user_def
  demo_member_def empty_db_def

definition demo_purchase :: "qty \<Rightarrow> record_fulfillment_body" where
  "demo_purchase q = \<lparr> rb_qty = q, rb_unit_price_isk = Dec 1250 2, rb_bought_at_market_id = None,
     rb_bought_at_note = Some ''Jita'', rb_hauler_character_id = None, rb_claim_id = None \<rparr>"

section \<open>Two runs\<close>

text \<open>User 2 claims item 100, buys three of five, then the other two, delivers, and user 1
  settles; or the matcher finds the contract, user 2 confirms it, and it ends in success.
  Every state on the way is written out, so that each step is one evaluation.\<close>

definition run_ops :: "lifecycle_op list \<Rightarrow> db \<Rightarrow> db" where
  "run_ops opers d = fold (\<lambda>oper d. snd (tx_middleware (exec_op oper) d)) opers d"

lemma run_ops_reach_from: "life_reach d0 d \<Longrightarrow> life_reach d0 (run_ops opers d)"
proof (induction opers arbitrary: d)
  case (Cons a opers)
  have "life_reach d0 (snd (tx_middleware (exec_op a) d))"
    by (rule life_reach.reach_step [OF Cons.prems life_step.request [OF refl]])
  from Cons.IH [OF this] show ?case by (simp add: run_ops_def)
qed (simp add: run_ops_def)

lemma run_ops_reach: "life_reach d (run_ops opers d)"
  by (rule run_ops_reach_from [OF life_reach.reach_refl])

lemma demo_db_inv: "life_inv demo_db"
  by (simp add: life_inv_def refs_ok_def claims_ok_def items_ok_def reimbs_ok_def cover_ok_def
      settled_ok_def live_on_def item_ok_def base_status_def fulfilled_qty_def has_active_claim_def
      list_payer_def payer_principal_def find_list_def user_principal_def demo_defs)

lemma demo_db_money: "money_ok demo_db"
  using demo_db_inv by (simp add: money_ok_def tips_ok_def all_tips_def demo_defs)

definition demo_bought_item :: "list_item_status \<Rightarrow> qty \<Rightarrow> list_item" where
  "demo_bought_item st q = (demo_item 100 5 1) \<lparr> li_status := st, li_qty_fulfilled := q \<rparr>"

definition demo_claim :: "claim_status \<Rightarrow> claim" where
  "demo_claim st = \<lparr> c_id = 200, c_list_id = 10, c_hauler_user_id = 2, c_status = st, c_note = None,
     c_created_at = 1, c_released_at = None \<rparr>"

definition demo_fulfillment :: "uuid \<Rightarrow> qty \<Rightarrow> instant \<Rightarrow> fulfillment" where
  "demo_fulfillment fid q t = \<lparr> f_id = fid, f_list_item_id = 100, f_claim_id = Some 200, f_hauler_user_id = 2,
     f_hauler_character_id = None, f_source = FManual, f_qty = q, f_unit_price_isk = 1250,
     f_bought_at_market_id = None, f_bought_at_note = Some ''Jita'', f_bought_at = t, f_reversed_at = None \<rparr>"

definition demo_debt :: "isk \<Rightarrow> isk \<Rightarrow> instant \<Rightarrow> reimbursement" where
  "demo_debt st tip t = \<lparr> r_id = 400, r_list_id = 10, r_requester_user_id = Some 1, r_requester_principal_id = 21,
     r_hauler_user_id = 2, r_hauler_principal_id = 22, r_subtotal_isk = st, r_tip_isk = tip,
     r_total_isk = st + tip, r_status = RPending, r_settled_at = None, r_settled_by_user_id = None,
     r_contract_id = None, r_is_corp_funded = False, r_verified_by_wallet = False,
     r_wallet_settlement_delta_isk = None, r_updated_at = t \<rparr>"

definition demo_claimed :: db where
  "demo_claimed = demo_db \<lparr> list_items := [demo_bought_item IClaimed 0, demo_item 101 2 1],
     claims := [demo_claim CActive],
     claim_items := [\<lparr> ci_claim_id = 200, ci_list_item_id = 100, ci_active = True \<rparr>],
     pending_webhooks := [\<lparr> pw_group_id = 5, pw_payload = ListClaimed ''(unnamed)'' ''B'' 1 \<rparr>] \<rparr>"

definition demo_half :: db where
  "demo_half = demo_claimed \<lparr> list_items := [demo_bought_item IClaimed 3, demo_item 101 2 1],
     fulfillments := [demo_fulfillment 300 3 2], reimbursements := [demo_debt 3750 188 2] \<rparr>"

definition demo_bought :: db where
  "demo_bought = demo_half \<lparr> list_items := [demo_bought_item IBought 5, demo_item 101 2 1],
     claims := [demo_claim CCompleted],
     claim_items := [\<lparr> ci_claim_id = 200, ci_list_item_id = 100, ci_active = False \<rparr>],
     fulfillments := [demo_fulfillment 300 3 2, demo_fulfillment 301 2 3],
     reimbursements := [demo_debt 6250 313 3] \<rparr>"

definition demo_delivered :: db where
  "demo_delivered = demo_bought \<lparr> list_items := [demo_bought_item IDelivered 5, demo_item 101 2 1] \<rparr>"

definition demo_settled_row :: reimbursement where
  "demo_settled_row = (demo_debt 6250 313 4) \<lparr> r_status := RSettled, r_settled_at := Some 4,
     r_settled_by_user_id := Some 1 \<rparr>"

definition demo_final :: db where
  "demo_final = demo_delivered \<lparr> list_items := [demo_bought_item ISettled 5, demo_item 101 2 1],
     reimbursements := [demo_settled_row],
     pending_webhooks := pending_webhooks demo_bought @
       [\<lparr> pw_group_id = 5, pw_payload = ReimbursementSettled ''(unnamed)'' ''A'' ''B'' 6563 \<rparr>] \<rparr>"

definition demo_suggestion :: "contract_match_state \<Rightarrow> suggestion" where
  "demo_suggestion st = \<lparr> sg_id = 600, sg_contract_id = 500, sg_reimbursement_id = 400, sg_score = 10000,
     sg_exact_match = True, sg_state = st,
     sg_decided_at = (if st = MPending then None else Some 4),
     sg_decided_by_user_id = (if st = MPending then None else Some 2) \<rparr>"

definition demo_matched :: db where
  "demo_matched = demo_bought \<lparr> suggestions := [demo_suggestion MPending] \<rparr>"

definition demo_linked :: db where
  "demo_linked = demo_bought \<lparr> suggestions := [demo_suggestion MConfirmed],
     contracts := [demo_contract \<lparr> ct_expected_total_isk := Some 6563 \<rparr>, demo_other_contract],
     reimbursements := [(demo_debt 6250 313 4) \<lparr> r_contract_id := Some 500 \<rparr>] \<rparr>"

definition demo_match_op :: lifecycle_op where
  "demo_match_op = MatchContract (\<lambda>t. Some (contract_type_str t)) (\<lambda>n m. (10000 * n) div m) (\<lambda>r. 600) 500"

lemma demo_steps:
  "exec_op (CreateClaim (Some 2) 10 [100] None 200 1) demo_db = Inr demo_claimed"
  "exec_op (RecordFulfillment (Some 2) 10 100 (demo_purchase 3) 300 400 2) demo_claimed = Inr demo_half"
  "exec_op (RecordFulfillment (Some 2) 10 100 (demo_purchase 2) 301 401 3) demo_half = Inr demo_bought"
  "exec_op (MarkDelivered (Some 2) 10 100) demo_bought = Inr demo_delivered"
  "exec_op (SettleReimbursement (Some 1) 400 4) demo_delivered = Inr demo_final"
  "exec_op demo_match_op demo_bought = Inr demo_matched"
  "exec_op (ConfirmSuggestion (Some 2) 600 4) demo_matched = Inr demo_linked"
  by code_simp+

lemma reach_exec: "life_reach d0 d \<Longrightarrow> exec_op oper d = Inr d' \<Longrightarrow> life_reach d0 d'"
  by (rule life_reach.reach_step, assumption, rule life_step.request [of oper]) (simp add: tx_middleware_def)

lemma demo_reach:
  "life_reach demo_db demo_half" "life_reach demo_db demo_bought" "life_reach demo_db demo_delivered"
  "life_reach demo_db demo_final" "life_reach demo_db demo_matched" "life_reach demo_db demo_linked"
proof -
  show half: "life_reach demo_db demo_half"
    by (rule reach_exec [OF reach_exec [OF life_reach.reach_refl demo_steps(1)] demo_steps(2)])
  show bought: "life_reach demo_db demo_bought" by (rule reach_exec [OF half demo_steps(3)])
  show del: "life_reach demo_db demo_delivered" by (rule reach_exec [OF bought demo_steps(4)])
  show "life_reach demo_db demo_final" by (rule reach_exec [OF del demo_steps(5)])
  show mat: "life_reach demo_db demo_matched" by (rule reach_exec [OF bought demo_steps(6)])
  show "life_reach demo_db demo_linked" by (rule reach_exec [OF mat demo_steps(7)])
qed

lemmas demo_inv = demo_reach [THEN life_reach_inv, OF demo_db_inv]
lemmas demo_money = demo_reach [THEN life_reach_money, OF demo_db_money]

text \<open>The tables of the states on the way.\<close>

lemmas demo_states = demo_final_def demo_delivered_def demo_bought_def demo_half_def demo_claimed_def
  demo_matched_def demo_linked_def demo_settled_row_def demo_bought_item_def demo_claim_def
  demo_fulfillment_def demo_debt_def demo_suggestion_def demo_item_def

end
