(* ===== verification/Request_Facts.thy ===== *)
theory Request_Facts
  imports Demo
begin

text \<open>
  What single requests promise: who may settle and when it succeeds, that a contract settles
  its debts once and for all, that reversing undoes recording, and what a claim does.
\<close>

section \<open>Settling by hand\<close>

lemma not_delivered_none:
  assumes "not_delivered_count d r (r_requester_user_id r) = 0"
    and "i \<in> set (list_items d)" "li_list_id i = r_list_id r"
    and "r_requester_user_id r = None \<or> r_requester_user_id r = Some (li_requested_by_user_id i)"
    and "live_by d (li_id i) (r_hauler_user_id r)"
  shows "li_status i \<in> {IDelivered, ISettled}"
  using assms unfolding not_delivered_count_def count_where_eq_0
  by (auto split: option.splits)

lemma settle_manual_Inr:
  assumes inv: "life_inv d" and r: "find_reimbursement d rid = Some r"
  shows "settle_manual rid u now d = Inr d' \<longleftrightarrow> r_status r = RPending
     \<and> not_delivered_count d r (r_requester_user_id r) = 0
     \<and> d' = auto_close_list_if_complete (r_list_id r) now
         (settle_items (if r_is_corp_funded r then flip_corp_where (mark_settled (\<lambda>x. r_id x = rid) now (Some u) now d)
               (r_list_id r) (r_hauler_user_id r) False
             else flip_personal_where (mark_settled (\<lambda>x. r_id x = rid) now (Some u) now d)
               (r_list_id r) (the (r_requester_user_id r)) (r_hauler_user_id r) False)
           (mark_settled (\<lambda>x. r_id x = rid) now (Some u) now d))"
proof -
  have "r \<in> set (reimbursements d)" using r by (auto simp: find_reimbursement_def dest: find_Some_memD)
  then have c: "r_is_corp_funded r \<longleftrightarrow> r_requester_user_id r = None" by (rule row_requester [OF inv])
  then show ?thesis using r
    by (cases "r_requester_user_id r")
      (auto simp: settle_manual_def Let_def flip_items_to_settled_def flip_items_to_settled_corp_def split: if_splits)
qed

text \<open>C9: a reimbursement is settled by hand only by its requester or an owner of the group, who sees
  the list; only while it is pending and not bound to a contract; and only when
  everything the hauler bought on that list for the requester has been delivered.  Then it is
  settled, with the caller and the time on record.\<close>

theorem settle_reimbursement_guarded:
  assumes "life_inv d" "settle_reimbursement s rid now d = Inr d'"
  shows "\<exists>uid r l. s = Some uid \<and> r \<in> set (reimbursements d) \<and> r_id r = rid
    \<and> l \<in> set (lists d) \<and> l_id l = r_list_id r \<and> is_list_member d uid (r_list_id r)
    \<and> r_status r = RPending \<and> r_contract_id r = None
    \<and> (r_requester_user_id r = Some uid \<or> member_role d uid (l_group_id l) = Some Owner)
    \<and> (\<forall>i\<in>set (list_items d). li_list_id i = r_list_id r
         \<and> (r_is_corp_funded r \<or> r_requester_user_id r = Some (li_requested_by_user_id i))
         \<and> live_by d (li_id i) (r_hauler_user_id r) \<longrightarrow> li_status i \<in> {IDelivered, ISettled})
    \<and> r \<lparr> r_status := RSettled, r_settled_at := Some now, r_settled_by_user_id := Some uid, r_updated_at := now \<rparr>
        \<in> set (reimbursements d')"
proof -
  obtain uid r l role d1 gid ev where s: "s = Some uid" and r: "rls_find_reimbursement d uid rid = Some r"
    and st: "r_status r = RPending" "r_contract_id r = None"
    and l: "find_list d (r_list_id r) = Some l" "member_role d uid (l_group_id l) = Some role"
    and auth: "r_requester_user_id r = Some uid \<or> role = Owner"
    and sm: "settle_manual rid uid now d = Inr d1" and d': "d' = fire_webhook gid ev d1"
    using assms(2) by (auto simp: settle_reimbursement_def current_user_def bind_res_eq_Inr split: if_splits sum.splits)
  have mem: "r \<in> set (reimbursements d)" "r_id r = rid" "is_list_member d uid (r_list_id r)"
    using rls_find_reimbursement_SomeD [OF r] by auto
  have "distinct (map r_id (reimbursements d))" using life_invD(4) [OF assms(1)] by (simp add: reimbs_ok_def)
  then have f: "find_reimbursement d rid = Some r"
    unfolding find_reimbursement_def using find_keyI [where key = r_id, OF _ mem(1,2)] by simp
  note sm' = settle_manual_Inr [OF assms(1) f, THEN iffD1, OF sm]
  have del: "\<forall>i\<in>set (list_items d). li_list_id i = r_list_id r
         \<and> (r_is_corp_funded r \<or> r_requester_user_id r = Some (li_requested_by_user_id i))
         \<and> live_by d (li_id i) (r_hauler_user_id r) \<longrightarrow> li_status i \<in> {IDelivered, ISettled}"
    using sm' not_delivered_none [of d r] row_requester [OF assms(1) mem(1)] by blast
  have "reimbursements d' = reimbursements (mark_settled (\<lambda>x. r_id x = rid) now (Some uid) now d)"
    using sm' by (simp add: d' auto_close_list_if_complete_def settle_items_def)
  then have "r \<lparr> r_status := RSettled, r_settled_at := Some now, r_settled_by_user_id := Some uid, r_updated_at := now \<rparr>
        \<in> set (reimbursements d')"
    using mem by (auto simp: mark_settled_def set_upd_where image_iff intro!: bexI [of _ r])
  moreover have "l \<in> set (lists d)" "l_id l = r_list_id r" using l(1) by (auto simp: find_list_def dest: find_Some_memD)
  ultimately show ?thesis using s mem st l auth del by blast
qed

text \<open>C10: settling by hand succeeds whenever it is due: a member who is the requester or an owner
  settles a pending, unbound reimbursement as soon as no item of it awaits delivery.\<close>

theorem settle_reimbursement_progress:
  assumes "life_inv d" "rls_find_reimbursement d uid rid = Some r" "find_list d (r_list_id r) = Some l"
    and "member_role d uid (l_group_id l) = Some role" "r_requester_user_id r = Some uid \<or> role = Owner"
    and "r_status r = RPending" "r_contract_id r = None" "not_delivered_count d r (r_requester_user_id r) = 0"
    and "find_user d (r_hauler_user_id r) \<noteq> None" "\<forall>u. r_requester_user_id r = Some u \<longrightarrow> find_user d u \<noteq> None"
  shows "\<exists>d'. settle_reimbursement (Some uid) rid now d = Inr d'"
proof -
  have mem: "r \<in> set (reimbursements d)" "r_id r = rid" using rls_find_reimbursement_SomeD [OF assms(2)] by auto
  have "distinct (map r_id (reimbursements d))" using life_invD(4) [OF assms(1)] by (simp add: reimbs_ok_def)
  then have f: "find_reimbursement d rid = Some r"
    unfolding find_reimbursement_def using find_keyI [where key = r_id, OF _ mem(1,2)] by simp
  obtain d1 where d1: "settle_manual rid uid now d = Inr d1"
    using settle_manual_Inr [OF assms(1) f] assms(6,8) by blast
  then have u: "users d1 = users d"
    unfolding settle_manual_Inr [OF assms(1) f]
    by (simp add: auto_close_list_if_complete_def settle_items_def mark_settled_def)
  have fu: "find_user d1 = find_user d" by (simp add: find_user_def fun_eq_iff u)
  show ?thesis
    using assms d1 by (cases "r_requester_user_id r")
      (auto simp: settle_reimbursement_def current_user_def lock_list_def fu)
qed

theorem settle_reimbursement_guarded_witness:
  "\<exists>r\<in>set (reimbursements demo_delivered). r_id r = 400 \<and> r_status r = RPending
     \<and> r \<lparr> r_status := RSettled, r_settled_at := Some 4, r_settled_by_user_id := Some 1, r_updated_at := 4 \<rparr>
         \<in> set (reimbursements demo_final)"
proof -
  have "settle_reimbursement (Some 1) 400 4 demo_delivered = Inr demo_final" using demo_steps(5) by simp
  from settle_reimbursement_guarded [OF demo_inv(3) this] show ?thesis by blast
qed

theorem settle_reimbursement_progress_witness:
  "\<exists>d'. settle_reimbursement (Some 1) 400 9 demo_delivered = Inr d'"
proof (rule settle_reimbursement_progress [OF demo_inv(3)])
  show "rls_find_reimbursement demo_delivered 1 400 = Some (demo_debt 6250 313 3)" by code_simp
  show "find_list demo_delivered (r_list_id (demo_debt 6250 313 3)) = Some demo_list" by code_simp
  show "member_role demo_delivered 1 (l_group_id demo_list) = Some Owner" by code_simp
  show "not_delivered_count demo_delivered (demo_debt 6250 313 3) (r_requester_user_id (demo_debt 6250 313 3)) = 0"
    by code_simp
  show "find_user demo_delivered (r_hauler_user_id (demo_debt 6250 313 3)) \<noteq> None" by code_simp
  have "find_user demo_delivered 1 = Some (demo_user 1 ''A'')" by code_simp
  then show "\<forall>u. r_requester_user_id (demo_debt 6250 313 3) = Some u \<longrightarrow> find_user demo_delivered u \<noteq> None"
    by (simp add: demo_debt_def)
qed (simp_all add: demo_debt_def)

section \<open>Settling by contract\<close>

lemma fold_auto_close_contracts [simp]:
  "contracts (fold (\<lambda>lid. auto_close_list_if_complete lid now) lids d) = contracts d"
  by (induction lids arbitrary: d) (simp_all add: auto_close_list_if_complete_def)

lemma settle_via_contract_rows_after:
  assumes "settle_via_contract vis cid now d = Inr (info, d')"
  shows "\<exists>t. reimbursements d' = reimbursements (mark_settled (\<lambda>r. seen_bound vis cid r \<and> r_status r = RPending) t None now d)"
    "map ct_id (contracts d') = map ct_id (contracts d)"
proof -
  obtain c where c: "find_contract d cid = Some c" using assms by (auto simp: settle_via_contract_def split: option.splits)
  let ?hit = "\<lambda>r. seen_bound vis cid r \<and> r_status r = RPending"
  show "\<exists>t. reimbursements d' = reimbursements (mark_settled ?hit t None now d)"
  proof (cases "filter ?hit (reimbursements d) = []")
    case True
    then have "upd_where ?hit f (reimbursements d) = reimbursements d" for f
      by (intro upd_where_id) (auto simp: filter_empty_conv)
    then show ?thesis using True assms c by (simp add: settle_via_contract_def Let_def mark_settled_def)
  next
    case False
    then show ?thesis using assms c
      by (auto simp: settle_via_contract_def Let_def settle_items_def split: if_splits)
  qed
  show "map ct_id (contracts d') = map ct_id (contracts d)"
    using assms c by (auto simp: settle_via_contract_def Let_def settle_items_def mark_settled_def map_upd_where_same split: if_splits)
qed

lemma none_pending_after:
  assumes "settle_via_contract vis cid now d = Inr (info, d')" "r \<in> set (reimbursements d')" "seen_bound vis cid r"
  shows "r_status r \<noteq> RPending"
proof -
  obtain t where "reimbursements d' = reimbursements (mark_settled (\<lambda>r. seen_bound vis cid r \<and> r_status r = RPending) t None now d)"
    using settle_via_contract_rows_after(1) [OF assms(1)] by blast
  then show ?thesis using assms(2,3)
    by (auto simp: mark_settled_def set_upd_where seen_bound_def bound_to_def split: if_splits)
qed

text \<open>C12: settling through a finished contract is idempotent.  After it ran, no reimbursement the
  caller sees on the contract is pending, and running it again, at any later time,
  settles nothing, notifies nobody and changes nothing.\<close>

theorem settle_via_contract_idempotent:
  assumes "settle_via_contract vis cid now d = Inr (info, d')"
  shows "settle_via_contract vis cid later d' = Inr ([], d')
    \<and> (\<forall>r\<in>set (reimbursements d'). seen_bound vis cid r \<longrightarrow> r_status r \<noteq> RPending)"
proof -
  have none: "\<forall>r\<in>set (reimbursements d'). seen_bound vis cid r \<longrightarrow> r_status r \<noteq> RPending"
    using none_pending_after [OF assms] by blast
  obtain c where "find_contract d cid = Some c" using assms by (auto simp: settle_via_contract_def split: option.splits)
  then have "cid \<in> set (map ct_id (contracts d))" by (auto simp: find_contract_def dest: find_Some_memD)
  then have "cid \<in> ct_id ` set (contracts d')" using settle_via_contract_rows_after(2) [OF assms] by (metis list.set_map)
  then obtain c' where "find_contract d' cid = Some c'"
    by (cases "find_contract d' cid") (auto simp: find_contract_def find_None_iff)
  moreover have "filter (\<lambda>r. seen_bound vis cid r \<and> r_status r = RPending) (reimbursements d') = []"
    using none by (auto simp: filter_empty_conv)
  ultimately show ?thesis using none by (simp add: settle_via_contract_def Let_def)
qed

theorem settle_via_contract_idempotent_witness:
  "\<exists>info d'. settle_via_contract all_lists 500 5 demo_linked = Inr (info, d') \<and> length info = 1
     \<and> settle_via_contract all_lists 500 6 d' = Inr ([], d')"
proof -
  have "(case settle_via_contract all_lists 500 5 demo_linked of Inl _ \<Rightarrow> False | Inr (info, _) \<Rightarrow> length info = 1)"
    by code_simp
  then obtain info d' where "settle_via_contract all_lists 500 5 demo_linked = Inr (info, d')" "length info = 1"
    by (auto split: sum.splits)
  with settle_via_contract_idempotent [of all_lists 500 5 demo_linked info d'] show ?thesis by blast
qed

text \<open>C11: a finished contract settles its debts: unless the difference to the expected total does not fit its column,
  settling through an existing contract succeeds and every pending reimbursement
  bound to it becomes settled at the contract's completion time, with its amounts unchanged.\<close>

theorem settle_via_contract_progress:
  assumes "find_contract d cid = Some c" "\<forall>v. contract_delta c = Some v \<longrightarrow> fits 20 v"
  shows "\<exists>info d'. settle_via_contract all_lists cid now d = Inr (info, d')
     \<and> (\<forall>r\<in>set (reimbursements d). r_contract_id r = Some cid \<and> r_status r = RPending \<longrightarrow>
          r \<lparr> r_status := RSettled, r_settled_at := Some (case ct_date_completed c of None \<Rightarrow> now | Some t \<Rightarrow> t),
              r_settled_by_user_id := None, r_updated_at := now \<rparr> \<in> set (reimbursements d'))"
proof -
  let ?t = "case ct_date_completed c of None \<Rightarrow> now | Some t \<Rightarrow> t"
  let ?hit = "\<lambda>r. seen_bound all_lists cid r \<and> r_status r = RPending"
  have nofail: "\<not> (case contract_delta c of None \<Rightarrow> False | Some v \<Rightarrow> \<not> fits 20 v)"
    using assms(2) by (simp split: option.split)
  show ?thesis
  proof (cases "filter ?hit (reimbursements d) = []")
    case True
    then have "settle_via_contract all_lists cid now d = Inr ([], d)"
      using assms(1) by (simp add: settle_via_contract_def Let_def)
    then show ?thesis using True by (auto simp: filter_empty_conv seen_bound_def bound_to_def all_lists_def)
  next
    case False
    then obtain info d' where s: "settle_via_contract all_lists cid now d = Inr (info, d')"
      and rows: "reimbursements d' = reimbursements (mark_settled ?hit ?t None now d)"
      using assms(1) nofail by (simp add: settle_via_contract_def Let_def settle_items_def)
    show ?thesis
      by (intro exI conjI, rule s)
        (auto simp: rows mark_settled_def set_upd_where seen_bound_def bound_to_def all_lists_def image_iff)
  qed
qed

theorem settle_via_contract_progress_witness:
  "\<exists>info d'. settle_via_contract all_lists 500 5 demo_linked = Inr (info, d')
     \<and> (\<exists>r\<in>set (reimbursements d'). r_status r = RSettled \<and> r_total_isk r = 6563)"
proof -
  let ?c = "demo_contract \<lparr> ct_expected_total_isk := Some 6563 \<rparr>"
  let ?r = "(demo_debt 6250 313 4) \<lparr> r_contract_id := Some 500 \<rparr>"
  have "find_contract demo_linked 500 = Some ?c" by code_simp
  moreover have "contract_delta ?c = Some 0" by code_simp
  then have "\<forall>v. contract_delta ?c = Some v \<longrightarrow> fits 20 v" by (simp add: fits_def)
  ultimately obtain info d' where s: "settle_via_contract all_lists 500 5 demo_linked = Inr (info, d')"
    and rows: "\<forall>r\<in>set (reimbursements demo_linked). r_contract_id r = Some 500 \<and> r_status r = RPending \<longrightarrow>
          r \<lparr> r_status := RSettled, r_settled_at := Some (case ct_date_completed ?c of None \<Rightarrow> 5 | Some t \<Rightarrow> t),
              r_settled_by_user_id := None, r_updated_at := 5 \<rparr> \<in> set (reimbursements d')"
    using settle_via_contract_progress [of demo_linked 500 ?c 5] by blast
  have mem: "?r \<in> set (reimbursements demo_linked)" by (simp add: demo_linked_def)
  have "r_contract_id ?r = Some 500 \<and> r_status ?r = RPending" by (simp add: demo_debt_def)
  with rows [THEN bspec, OF mem] have "?r \<lparr> r_status := RSettled, r_settled_at := Some (case ct_date_completed ?c of None \<Rightarrow> 5 | Some t \<Rightarrow> t),
      r_settled_by_user_id := None, r_updated_at := 5 \<rparr> \<in> set (reimbursements d')"
    by (rule mp)
  then have "\<exists>r\<in>set (reimbursements d'). r_status r = RSettled \<and> r_total_isk r = 6563"
    by (rule bexI [rotated]) (simp add: demo_debt_def)
  with s show ?thesis by blast
qed

end
