(* ===== verification/Link_Facts.thy ===== *)
theory Link_Facts
  imports Request_Facts
begin

text \<open>
  What binding a contract to a debt promises: who may do it and what is checked, what the
  matcher suggests, and how often the worker polls.
\<close>

section \<open>Linking\<close>

lemma finalize_link_binds:
  assumes "finalize_link uid ctx now d = Inr (st, info, d')"
    and "r \<in> set (reimbursements d)" "r_id r = lk_reimbursement_id ctx"
  shows "\<exists>r'\<in>set (reimbursements d'). r_id r' = r_id r \<and> r_contract_id r' = Some (lk_contract_id ctx)"
  using assms(1)
proof (cases rule: finalize_link_cases)
  case (1 d2)
  let ?r = "r \<lparr> r_contract_id := Some (lk_contract_id ctx), r_updated_at := now \<rparr>"
  have "reimbursements d2 = upd_where (\<lambda>r. r_id r = lk_reimbursement_id ctx)
         (\<lambda>r. r \<lparr> r_contract_id := Some (lk_contract_id ctx), r_updated_at := now \<rparr>) (reimbursements d)"
    using recompute_expected_same [OF 1(1)] by (simp add: same_books_rows_def)
  then have mem: "?r \<in> set (reimbursements d2)"
    using assms(2,3) by (auto simp: set_upd_where image_iff intro!: bexI [of _ r])
  show ?thesis
  proof (cases "is_terminal_success (lk_contract_status ctx)")
    case True
    then obtain t where "reimbursements d' = reimbursements (mark_settled
        (\<lambda>r. seen_bound (is_list_member d uid) (lk_contract_id ctx) r \<and> r_status r = RPending) t None now d2)"
      using settle_via_contract_rows_after(1) 1(2) by (simp only: if_True) blast
    then show ?thesis using mem by (auto simp: mark_settled_def intro!: bexI [of _ ?r])
  next
    case False
    then show ?thesis using 1(2) mem by (auto intro!: bexI [of _ ?r])
  qed
qed

text \<open>What holds when a link succeeded: \<open>c\<close> is the contract, \<open>r\<close> the reimbursement before.\<close>

definition link_checked :: "db \<Rightarrow> uuid \<Rightarrow> contract \<Rightarrow> reimbursement \<Rightarrow> bool" where
  "link_checked d uid c r \<longleftrightarrow> c \<in> set (contracts d) \<and> r \<in> set (reimbursements d)
     \<and> is_list_member d uid (r_list_id r) \<and> r_hauler_user_id r = uid
     \<and> r_status r = RPending \<and> r_contract_id r = None
     \<and> ct_contract_type c = ItemExchange \<and> ct_issuer_principal_id c = Some (r_hauler_principal_id r)
     \<and> (ct_assignee_principal_id c = None \<or> ct_assignee_principal_id c = Some (r_requester_principal_id r))"

lemma joined_checked:
  assumes "joined_row d uid st cid rid = Some ctx" "validate_link d ctx uid = Inr ()"
  shows "\<exists>c r. link_checked d uid c r \<and> ct_id c = lk_contract_id ctx \<and> r_id r = lk_reimbursement_id ctx"
proof -
  obtain c r l where j: "c \<in> set (contracts d)" "r \<in> set (reimbursements d)" "l \<in> set (lists d)"
    "l_id l = r_list_id r" "is_group_member d uid (l_group_id l)" "ctx = link_row st c r l"
    using assms(1) by (rule joined_row_SomeD)
  then have "link_checked d uid c r"
    using assms(2) by (auto simp: link_checked_def validate_link_Inr link_row_def is_list_member_def)
  then show ?thesis using j(6) by (auto simp: link_row_def)
qed

lemma finalized_checked:
  assumes j: "joined_row d uid st cid rid = Some ctx" "validate_link d ctx uid = Inr ()"
    and fin: "finalize_link uid ctx now (d \<lparr> suggestions := gs \<rparr>) = Inr (st', info, d1)"
  shows "\<exists>c r. link_checked d uid c r \<and> (\<exists>r'\<in>set (reimbursements (fire_settlement_webhooks info d1)).
      r_id r' = r_id r \<and> r_contract_id r' = Some (ct_id c))"
proof -
  obtain c r where cr: "link_checked d uid c r" "ct_id c = lk_contract_id ctx" "r_id r = lk_reimbursement_id ctx"
    using joined_checked [OF j] by blast
  have "\<exists>r'\<in>set (reimbursements d1). r_id r' = r_id r \<and> r_contract_id r' = Some (lk_contract_id ctx)"
    by (rule finalize_link_binds [OF fin]) (use cr in \<open>simp_all add: link_checked_def\<close>)
  moreover have "reimbursements (fire_settlement_webhooks info d1) = reimbursements d1"
    using fold_fire_same [of d1 info] by (simp add: same_books_rows_def)
  ultimately show ?thesis using cr by metis
qed



section \<open>The matcher\<close>

text \<open>C19: the matcher leaves every decided suggestion as it is; what it adds or refreshes is a pending
  suggestion for this contract and a pending, unbound reimbursement between exactly the
  contract's issuer and assignee, at least half of which the contract's items cover.\<close>

theorem matcher_suggestions_sound:
  assumes "run_one text_of round4 new_id cid d = Inr d'"
  shows "(\<forall>g\<in>set (suggestions d). sg_state g \<noteq> MPending \<longrightarrow> g \<in> set (suggestions d'))
    \<and> (\<forall>g\<in>set (suggestions d'). g \<notin> set (suggestions d) \<longrightarrow>
        sg_contract_id g = cid \<and> sg_state g = MPending
        \<and> (\<exists>c\<in>set (contracts d). \<exists>r\<in>set (reimbursements d). \<exists>s. ct_id c = cid \<and> r_id r = sg_reimbursement_id g
             \<and> ct_issuer_principal_id c = Some (r_hauler_principal_id r)
             \<and> ct_assignee_principal_id c = Some (r_requester_principal_id r)
             \<and> r_status r = RPending \<and> r_contract_id r = None
             \<and> score_match (contract_totals d cid) (fulfillment_totals d r) = Some s
             \<and> ms_fulfilled s \<le> 2 * ms_covered s))"
proof (cases "suggestions d' = suggestions d")
  case False
  then obtain c issuer assignee where c: "find_contract d cid = Some c"
    "ct_issuer_principal_id c = Some issuer" "ct_assignee_principal_id c = Some assignee"
    and up: "upsert_suggestions round4 new_id cid (match_rows d cid issuer assignee) d = Inr d'"
    using assms by (auto simp: run_one_def split: option.splits if_splits)
  have grow: "suggestions_grow cid (fst ` set (match_rows d cid issuer assignee)) d d'"
    using upsert_suggestions_frame [OF up] by blast
  have row: "\<exists>c\<in>set (contracts d). \<exists>r\<in>set (reimbursements d). \<exists>s. ct_id c = cid \<and> r_id r = rid
             \<and> ct_issuer_principal_id c = Some (r_hauler_principal_id r)
             \<and> ct_assignee_principal_id c = Some (r_requester_principal_id r)
             \<and> r_status r = RPending \<and> r_contract_id r = None
             \<and> score_match (contract_totals d cid) (fulfillment_totals d r) = Some s
             \<and> ms_fulfilled s \<le> 2 * ms_covered s"
    if m: "rid \<in> fst ` set (match_rows d cid issuer assignee)" for rid
  proof -
    obtain s :: match_score where "(rid, s) \<in> set (match_rows d cid issuer assignee)" using m by auto
    then obtain r where "r \<in> set (reimbursements d)" "r_id r = rid" "candidate issuer assignee r"
      "score_match (contract_totals d cid) (fulfillment_totals d r) = Some s" "\<not> below_threshold s"
      by (rule match_rows_memD)
    moreover have "c \<in> set (contracts d)" "ct_id c = cid" using c(1) by (auto simp: find_contract_def dest: find_Some_memD)
    ultimately show ?thesis using c(2,3)
      by (intro bexI [of _ c] bexI [of _ r] exI [of _ s]) (simp_all add: candidate_def below_threshold_def)
  qed
  show ?thesis using grow row unfolding suggestions_grow_def by blast
qed auto

theorem matcher_suggestions_sound_witness:
  "\<exists>g\<in>set (suggestions demo_matched). sg_contract_id g = 500 \<and> sg_state g = MPending"
proof -
  have "run_one (\<lambda>t. Some (contract_type_str t)) (\<lambda>n m. (10000 * n) div m) (\<lambda>r. 600) 500 demo_bought = Inr demo_matched"
    using demo_steps(6) by (simp add: demo_match_op_def)
  note m = matcher_suggestions_sound [OF this]
  have "demo_suggestion MPending \<in> set (suggestions demo_matched)" "suggestions demo_bought = []"
    by (simp_all add: demo_matched_def demo_states demo_db_def empty_db_def)
  then show ?thesis using m by (intro bexI [of _ "demo_suggestion MPending"]) auto
qed

text \<open>The score of a match never exceeds one, it is one exactly when every fulfilled type is fully
  covered, and the match is exact precisely when moreover the contract holds no other type.\<close>

theorem score_match_exact:
  assumes "score_match cs fs = Some s"
  shows "ms_covered s \<le> ms_fulfilled s
    \<and> (ms_covered s = ms_fulfilled s \<longleftrightarrow> (\<forall>(t, q)\<in>set fs. q \<le> total_of cs t))
    \<and> (ms_exact s \<longleftrightarrow> ms_covered s = ms_fulfilled s \<and> fst ` set cs \<subseteq> fst ` set fs)"
proof -
  have eq: "ms_covered s = ms_fulfilled s \<longleftrightarrow> (\<forall>(t, q)\<in>set fs. q \<le> total_of cs t)"
    using assms sum_list_min_eq [of "total_of cs" fs] by (auto simp: score_match_def Let_def split: if_splits)
  then show ?thesis using score_match_covered_le [OF assms] score_match_exact_iff [OF assms] by blast
qed

theorem score_match_exact_witness:
  "ms_exact \<lparr> ms_covered = 100, ms_fulfilled = 100, ms_exact = True \<rparr> \<and> fst ` set [(34 :: int, 200 :: int)] \<subseteq> {34}"
proof -
  have "score_match [(34, 200)] [(34, 100)] = Some \<lparr> ms_covered = 100, ms_fulfilled = 100, ms_exact = True \<rparr>"
    by code_simp
  from score_match_exact [OF this] show ?thesis by simp
qed

section \<open>Polling\<close>

text \<open>The next poll of a character or corporation is due between nine tenths and eleven tenths of the interval
  from now (within a second when the interval is below ten seconds), and never before now.\<close>

theorem jitter_bounds:
  assumes "0 \<le> base"
  shows "\<bar>jitter_secs base rnd\<bar> \<le> max (base div 10) 1 \<and> 0 \<le> base + jitter_secs base rnd"
proof (cases "base = 0")
  case False
  let ?span = "max (base div 10) 1"
  have "0 \<le> rnd mod (2 * ?span + 1)" "rnd mod (2 * ?span + 1) < 2 * ?span + 1"
    by (rule pos_mod_sign pos_mod_bound, simp)+
  then have "\<bar>rnd mod (2 * ?span + 1) - ?span\<bar> \<le> ?span" unfolding abs_le_iff by linarith
  then have "\<bar>jitter_secs base rnd\<bar> \<le> ?span" using False by (simp add: jitter_secs_def Let_def)
  moreover have "?span \<le> base" using assms False by (simp add: div_le_dividend)
  ultimately show ?thesis by linarith
qed (simp add: jitter_secs_def)

theorem jitter_bounds_witness: "\<bar>jitter_secs 300 4294967295\<bar> \<le> 30"
  using jitter_bounds [of 300 4294967295] by simp

end
