(* ===== verification/Haul_Facts.thy ===== *)
theory Haul_Facts
  imports Demo
begin

text \<open>
  What the hauler's requests promise: a claim takes open items only, and reversing a
  fulfillment undoes recording it.
\<close>

section \<open>Claims\<close>

lemma validate_claimable_Inr:
  assumes "validate_claimable_items lid ids d = Inr ()" "distinct (map li_id (list_items d))"
    and i: "i \<in> set (list_items d)" "li_id i \<in> set ids"
  shows "li_list_id i = lid \<and> li_status i = IOpen"
proof -
  let ?rows = "filter (\<lambda>i. li_id i \<in> set ids \<and> li_list_id i = lid) (list_items d)"
  have len: "length ?rows = length ids" and opn: "find (\<lambda>i. li_status i \<noteq> IOpen) ?rows = None"
    using assms(1) by (auto simp: validate_claimable_items_def Let_def split: if_splits option.splits)
  have dist: "distinct (map li_id ?rows)" using assms(2) by (rule distinct_map_filter)
  have sub: "set (map li_id ?rows) \<subseteq> set ids" by auto
  have "card (set (map li_id ?rows)) = length ids" using distinct_card [OF dist] len by simp
  then have "set (map li_id ?rows) = set ids"
    using card_subset_eq [OF finite_set sub] card_length [of ids] card_mono [OF finite_set sub] by simp
  with i(2) obtain j where j: "j \<in> set ?rows" "li_id j = li_id i" by (metis (no_types, lifting) imageE list.set_map)
  then have "i = j" using distinct_map_unique [OF assms(2) i(1)] by simp
  then show ?thesis using j(1) opn by (auto simp: find_None_iff)
qed

lemma insert_claim_items_ids:
  assumes "insert_claim_items cid ids d = Inr d'"
  shows "map li_id (list_items d') = map li_id (list_items d)"
proof (cases "ids = []")
  case False
  then obtain cis where "d' = recompute_item_statuses_bulk ids (d \<lparr> claim_items := cis \<rparr>)"
    using assms by (auto simp: insert_claim_items_def bind_res_eq_Inr)
  then show ?thesis by (simp add: recompute_bulk_is_refresh map_upd_where_same)
qed (use assms in \<open>simp add: insert_claim_items_def\<close>)

lemma insert_claim_items_active:
  assumes "insert_claim_items cid ids d = Inr d'" "iid \<in> set ids"
  shows "has_active_claim d' iid"
proof -
  obtain cis where rows: "insert_claim_rows cid ids (claim_items d) = Inr cis"
    and d': "d' = recompute_item_statuses_bulk ids (d \<lparr> claim_items := cis \<rparr>)"
    using assms by (auto simp: insert_claim_items_def bind_res_eq_Inr split: if_splits)
  let ?ci = "\<lparr> ci_claim_id = cid, ci_list_item_id = iid, ci_active = True \<rparr>"
  have "?ci \<in> set (claim_items d')"
    using insert_claim_rows_Inr [OF rows] assms(2) by (simp add: d' recompute_bulk_is_refresh)
  then show ?thesis unfolding has_active_claim_def by (rule bexI [rotated]) simp
qed

text \<open>C15: a claim is made by a member of the group of an open list, on items of that list that are
  all open; afterwards all of them are claimed, and the claim is active and the caller's.\<close>

theorem create_claim_effect:
  assumes "life_inv d" "create_claim s lid ids note new_id now d = Inr d'"
  shows "\<exists>uid. s = Some uid \<and> ids \<noteq> []
    \<and> (\<exists>l\<in>set (lists d). l_id l = lid \<and> l_status l = LOpen \<and> is_group_member d uid (l_group_id l))
    \<and> (\<forall>i\<in>set (list_items d). li_id i \<in> set ids \<longrightarrow> li_list_id i = lid \<and> li_status i = IOpen)
    \<and> (\<forall>i\<in>set (list_items d'). li_id i \<in> set ids \<longrightarrow> li_status i = IClaimed)
    \<and> (\<exists>c\<in>set (claims d'). c_id c = new_id \<and> c_list_id c = lid \<and> c_hauler_user_id c = uid \<and> c_status c = CActive)"
proof -
  let ?row = "\<lambda>uid. \<lparr> c_id = new_id, c_list_id = lid, c_hauler_user_id = uid, c_status = CActive, c_note = note,
      c_created_at = now, c_released_at = None \<rparr>"
  obtain cur d1 gid ev where cur: "current_list_ex s lid d = Inr cur" "cl_status cur = LOpen" and ne: "ids \<noteq> []"
    and val: "validate_claimable_items lid ids d = Inr ()"
    and ins: "insert_claim_items new_id ids (d \<lparr> claims := claims d @ [?row (cl_user_id cur)] \<rparr>) = Inr d1"
    and d': "d' = fire_webhook gid ev d1"
    using assms(2) by (auto simp: create_claim_def bind_res_eq_Inr split: if_splits)
  have dist: "distinct (map li_id (list_items d))" using assms(1) by (simp add: life_inv_def items_ok_def)
  note before = validate_claimable_Inr [OF val dist]
  have inv': "life_inv d'" by (rule create_claim_inv [OF assms])
  have qty: "fulfilled_qty d' = fulfilled_qty d"
    using create_claim_money [OF assms(2)] by (intro fulfilled_qty_cong) (simp add: keeps_money_def)
  have after: "li_status i = IClaimed" if i: "i \<in> set (list_items d')" "li_id i \<in> set ids" for i
  proof -
    have active: "has_active_claim d' (li_id i)"
      using insert_claim_items_active [OF ins i(2)] by (simp add: d' fire_webhook_def has_active_claim_def)
    have ids: "map li_id (list_items d') = map li_id (list_items d)"
      using insert_claim_items_ids [OF ins] by (simp add: d' fire_webhook_def)
    then obtain i0 where i0: "i0 \<in> set (list_items d)" "li_id i0 = li_id i"
      using i(1) by (metis (no_types, lifting) imageE imageI list.set_map)
    obtain i2 where i2: "i2 \<in> set (list_items d')" "li_id i2 = li_id i0" "li_qty_requested i2 = li_qty_requested i0"
      using create_claim_follow [OF assms(2)] i0(1) unfolding items_follow_def by blast
    have "distinct (map li_id (list_items d'))" using inv' by (simp add: life_inv_def items_ok_def)
    then have "i2 = i" using distinct_map_unique [OF _ i2(1) i(1)] i2(2) i0(2) by simp
    moreover have "item_ok d i0" "item_ok d' i"
      using assms(1) inv' i0(1) i(1) by (simp_all add: life_inv_def items_ok_def)
    moreover have "li_status i0 = IOpen" using before [OF i0(1)] i0(2) i(2) by simp
    ultimately show ?thesis using active i2 i0(2)
      by (auto simp: item_ok_def base_status_def qty split: if_splits)
  qed
  have "claims d' = claims d @ [?row (cl_user_id cur)]"
    using ins by (auto simp: d' fire_webhook_def insert_claim_items_def bind_res_eq_Inr recompute_bulk_is_refresh
        split: if_splits)
  then have "?row (cl_user_id cur) \<in> set (claims d')" by simp
  then have "\<exists>c\<in>set (claims d'). c_id c = new_id \<and> c_list_id c = lid \<and> c_hauler_user_id c = cl_user_id cur
      \<and> c_status c = CActive" by (rule bexI [rotated]) simp
  moreover have "s = Some (cl_user_id cur)"
    "\<exists>l\<in>set (lists d). l_id l = lid \<and> l_status l = LOpen \<and> is_group_member d (cl_user_id cur) (l_group_id l)"
    using current_list_ex_Inr [OF cur(1)] cur(2) member_role_Some_member by auto
  ultimately show ?thesis using ne before after by blast
qed

theorem create_claim_effect_witness:
  "\<exists>c\<in>set (claims demo_claimed). c_id c = 200 \<and> c_hauler_user_id c = 2 \<and> c_status c = CActive"
proof -
  have "create_claim (Some 2) 10 [100] None 200 1 demo_db = Inr demo_claimed" using demo_steps(1) by simp
  from create_claim_effect [OF demo_db_inv this] show ?thesis by auto
qed

section \<open>Recording and reversing\<close>

lemma record_items:
  assumes inv: "life_inv d" and rec: "record_fulfillment s lid iid b fid rid now d = Inr d'"
  obtains f where "f_id f = fid" "fid \<notin> f_id ` set (fulfillments d)" "f_reversed_at f = None"
    "f_list_item_id f = iid" "f_qty f = rb_qty b" "fulfillments d' = fulfillments d @ [f]"
    "(\<lambda>i. (li_id i, li_list_id i, li_requested_by_user_id i)) ` set (list_items d')
       = (\<lambda>i. (li_id i, li_list_id i, li_requested_by_user_id i)) ` set (list_items d)"
proof -
  obtain f st d1 ac req uid where f: "f_id f = fid" "fid \<notin> f_id ` set (fulfillments d)" "f_reversed_at f = None"
    "f_list_item_id f = iid" "f_qty f = rb_qty b"
    and rc: "recompute_item_status iid DForbid (add_fulfillment f d) = Inr (st, d1)"
    and up: "upsert_reimbursement rid now lid req uid (complete_claim_if_done st ac d1) = Inr d'"
    using rec
    by (clarsimp simp: record_fulfillment_def Let_def bind_res_eq_Inr split: if_splits
        option.split_asm reimbursement_status.split_asm) force+
  have dist: "distinct (map li_id (list_items (add_fulfillment f d)))"
    using inv by (simp add: life_inv_def items_ok_def)
  note d1 = recompute_single_is_refresh(1) [OF dist rc]
  have d': "fulfillments d' = fulfillments d1" "list_items d' = list_items d1"
    using up by (cases rule: upsert_cases; simp add: same_booksD(4) [OF complete_claim_frame(1)] complete_claim_frame(2))+
  show thesis
  proof (rule that [OF f])
    show "fulfillments d' = fulfillments d @ [f]" by (simp add: d' d1)
    show "(\<lambda>i. (li_id i, li_list_id i, li_requested_by_user_id i)) ` set (list_items d')
       = (\<lambda>i. (li_id i, li_list_id i, li_requested_by_user_id i)) ` set (list_items d)"
      unfolding d'(2) d1 by (subst refresh_refs) simp_all
  qed
qed

lemma reverse_items:
  assumes inv: "life_inv d" and rev: "reverse_fulfillment s fid rid now d = Inr d'"
  shows "fulfillments d' = upd_where (\<lambda>x. f_id x = fid \<and> f_reversed_at x = None)
      (\<lambda>x. x \<lparr> f_reversed_at := Some now \<rparr>) (fulfillments d)"
    "(\<lambda>i. (li_id i, li_list_id i, li_requested_by_user_id i)) ` set (list_items d')
       = (\<lambda>i. (li_id i, li_list_id i, li_requested_by_user_id i)) ` set (list_items d)"
proof -
  obtain f :: fulfillment and i :: list_item and st d1 where rc: "recompute_item_status (f_list_item_id f) DAllow (reversed_state fid now d) = Inr (st, d1)"
    and up: "upsert_reimbursement rid now (li_list_id i) (li_requested_by_user_id i) (f_hauler_user_id f) d1 = Inr d'"
    using rev by (rule reverse_fulfillment_Inr) (blast intro: that)
  have dist: "distinct (map li_id (list_items (reversed_state fid now d)))"
    using inv by (simp add: life_inv_def items_ok_def)
  note d1 = recompute_single_is_refresh(1) [OF dist rc]
  have d': "fulfillments d' = fulfillments d1" "list_items d' = list_items d1"
    using up by (cases rule: upsert_cases; simp)+
  show "fulfillments d' = upd_where (\<lambda>x. f_id x = fid \<and> f_reversed_at x = None)
      (\<lambda>x. x \<lparr> f_reversed_at := Some now \<rparr>) (fulfillments d)" by (simp add: d' d1 reversed_state_def)
  show "(\<lambda>i. (li_id i, li_list_id i, li_requested_by_user_id i)) ` set (list_items d')
       = (\<lambda>i. (li_id i, li_list_id i, li_requested_by_user_id i)) ` set (list_items d)"
    unfolding d'(2) d1 by (subst refresh_refs) simp_all
qed

text \<open>A sum over live fulfillments does not see one that was added and then reversed.\<close>

lemma sum_added_reversed:
  assumes "f_id f = fid" "fid \<notin> f_id ` set fs" "f_reversed_at f = None"
    and "\<And>x t. P (x \<lparr> f_reversed_at := t \<rparr>) = P x" "\<And>x t. w (x \<lparr> f_reversed_at := t \<rparr>) = w x"
  shows "sum_where (\<lambda>x. P x \<and> f_reversed_at x = None) w
      (upd_where (\<lambda>x. f_id x = fid \<and> f_reversed_at x = None) (\<lambda>x. x \<lparr> f_reversed_at := Some now \<rparr>) (fs @ [f]))
    = sum_where (\<lambda>x. P x \<and> f_reversed_at x = None) w fs"
  using assms by (induction fs) auto



end
