(* ===== verification/List_Facts.thy ===== *)
theory List_Facts
  imports Demo
begin

text \<open>
  What prices and list edits promise: the best prices of an order book, the cheapest of a
  list's markets, names that are always resolved, quotas that always hold, and an estimate
  that never reports a conflict with itself.
\<close>

section \<open>Prices\<close>

lemma fold_opt_with_None:
  "fold (\<lambda>ord b. opt_with f b (g ord)) ords start = None \<longleftrightarrow> ords = [] \<and> start = None"
proof (induction ords arbitrary: start)
  case (Cons a ords)
  then show ?case by (simp add: opt_with_def)
qed simp

lemma best_none:
  "pa_best_sell (aggregate_orders ords now) = None \<longleftrightarrow> (\<forall>ord\<in>set ords. eo_is_buy ord)"
  "pa_best_buy (aggregate_orders ords now) = None \<longleftrightarrow> (\<forall>ord\<in>set ords. \<not> eo_is_buy ord)"
  by (simp_all add: aggregate_orders_def best_sell_fold best_buy_fold fold_opt_with_None
      empty_aggregate_def filter_empty_conv)

text \<open>The aggregate of an order book holds the lowest price of its sell orders and the highest
  of its buy orders; each is missing exactly when there is no such order.\<close>

theorem aggregate_best_prices:
  "(case pa_best_sell (aggregate_orders ords now) of
      None \<Rightarrow> \<forall>ord\<in>set ords. eo_is_buy ord
    | Some p \<Rightarrow> (\<exists>ord\<in>set ords. \<not> eo_is_buy ord \<and> eo_price ord = p)
        \<and> (\<forall>ord\<in>set ords. \<not> eo_is_buy ord \<longrightarrow> dec_le p (eo_price ord)))
   \<and> (case pa_best_buy (aggregate_orders ords now) of
      None \<Rightarrow> \<forall>ord\<in>set ords. \<not> eo_is_buy ord
    | Some p \<Rightarrow> (\<exists>ord\<in>set ords. eo_is_buy ord \<and> eo_price ord = p)
        \<and> (\<forall>ord\<in>set ords. eo_is_buy ord \<longrightarrow> dec_le (eo_price ord) p))"
  using best_none [of ords now] best_sell_is_min [of ords now] best_buy_is_max [of ords now]
  by (auto split: option.split)

definition demo_order :: "int \<Rightarrow> bool \<Rightarrow> int \<Rightarrow> esi_order" where
  "demo_order i buy p = \<lparr> eo_order_id = i, eo_is_buy = buy, eo_price = Dec p 2, eo_volume_remain = 10,
     eo_location_id = 60003760, eo_type_id = 34 \<rparr>"

theorem aggregate_best_prices_witness:
  "dec_le (Dec 550 2) (eo_price (demo_order 2 False 560))"
proof -
  let ?ords = "[demo_order 1 True 500, demo_order 2 False 560, demo_order 3 False 550]"
  have "pa_best_sell (aggregate_orders ?ords 0) = Some (Dec 550 2)" by code_simp
  then have "\<forall>ord\<in>set ?ords. \<not> eo_is_buy ord \<longrightarrow> dec_le (Dec 550 2) (eo_price ord)"
    using aggregate_best_prices [of ?ords 0] by simp
  then show ?thesis by (simp add: demo_order_def)
qed

text \<open>The estimate of an item is the lowest best-sell price among the list's markets that quote
  it, with the market that quotes it; there is none exactly when no market quotes it.\<close>

theorem pick_cheapest_is_cheapest:
  "case pick_cheapest ms prices ty of
     (Some p, Some i) \<Rightarrow> (p, i) \<in> set (sell_offers ms prices ty)
        \<and> (\<forall>(q, j)\<in>set (sell_offers ms prices ty). dec_le p q)
   | (None, None) \<Rightarrow> \<forall>m\<in>set ms. \<forall>t a. map_of prices (mk_id m) = Some t \<and> map_of t ty = Some a
        \<longrightarrow> pa_best_sell a = None
   | _ \<Rightarrow> False"
proof (cases "min_offer (sell_offers ms prices ty)")
  case None
  then have "sell_offers ms prices ty = []" by (simp add: min_offer_None)
  then have no: "(p, i) \<notin> set (sell_offers ms prices ty)" for p i by simp
  have "pa_best_sell a = None" if "m \<in> set ms" "map_of prices (mk_id m) = Some t" "map_of t ty = Some a" for m t a
    using no [of _ "mk_id m"] that unfolding sell_offers_mem by (cases "pa_best_sell a") auto
  then show ?thesis using None by (simp add: pick_cheapest_def)
next
  case (Some x)
  then show ?thesis using min_offer_Some [OF Some] by (cases x) (auto simp: pick_cheapest_def)
qed

definition demo_market :: "uuid \<Rightarrow> market" where
  "demo_market i = \<lparr> mk_id = i, mk_kind = NpcHub, mk_esi_location_id = 60003760, mk_region_id = Some 10000002,
     mk_name = Some ''Jita IV - Moon 4'', mk_short_label = Some ''Jita'', mk_is_hub = True, mk_is_public = True,
     mk_last_orders_synced_at = None, mk_last_seen_public_at = None, mk_solar_system_id = None,
     mk_structure_type_id = None, mk_details_synced_at = None, mk_missing_poll_count = 0,
     mk_untrackable_until = None, mk_created_at = 0 \<rparr>"

definition demo_quote :: "int \<Rightarrow> price_aggregate" where
  "demo_quote p = \<lparr> pa_best_sell = Some (Dec p 2), pa_best_buy = None, pa_sell_volume = 1, pa_buy_volume = 0,
     pa_computed_at = 0 \<rparr>"

theorem pick_cheapest_is_cheapest_witness:
  "dec_le (Dec 550 2) (Dec 560 2) \<and> (Dec 550 2, 2) \<in> set (sell_offers [demo_market 1, demo_market 2]
     [(1, [(34, demo_quote 560)]), (2, [(34, demo_quote 550)])] 34)"
proof -
  let ?ms = "[demo_market 1, demo_market 2]" and ?ps = "[(1, [(34, demo_quote 560)]), (2, [(34, demo_quote 550)])]"
  have offers: "sell_offers ?ms ?ps 34 = [(Dec 560 2, 1), (Dec 550 2, 2)]" by code_simp
  have "pick_cheapest ?ms ?ps 34 = (Some (Dec 550 2), Some 2)" by code_simp
  with pick_cheapest_is_cheapest [of ?ms ?ps 34] show ?thesis unfolding offers by simp
qed

section \<open>Names\<close>

lemma resolve_lines_total:
  assumes "\<forall>(name, q, no)\<in>set ls. map_of m (name_key name) \<noteq> None"
  shows "\<exists>rs. resolve_lines m ls = Inr rs"
  using assms by (induction m ls rule: resolve_lines.induct) (auto simp: resolved_for_def bind_res_eq_Inr)

lemma checked_lines_names:
  assumes "checked_lines mb = Inr ls" "l \<in> set ls"
  shows "name_key (pl_name l) \<noteq> []"
proof -
  have "l \<in> set (pm_lines (parse_multibuy mb))"
    using assms by (simp add: checked_lines_def Let_def split: if_splits)
  then have pos: "0 < key_sum (name_key (pl_name l)) (good_lines (numbered mb))" by (rule parsed_line_spec(2))
  have "\<exists>x\<in>set (good_lines (numbered mb)). key_of x = name_key (pl_name l)"
  proof (rule ccontr)
    assume "\<not> ?thesis"
    then have "filter (\<lambda>x. key_of x = name_key (pl_name l)) (good_lines (numbered mb)) = []"
      unfolding filter_empty_conv by blast
    then show False using pos by (simp add: key_sum_def sum_where_def)
  qed
  then show ?thesis using good_lines_bounds(2) by (metis prod.collapse)
qed

text \<open>Whatever the type cache holds and ESI answers, once no name of a paste is reported as
  unknown every line of it has a type: the internal error "resolved missing" cannot occur
  for a paste.\<close>

theorem paste_fully_resolved:
  assumes "checked_lines mb = Inr ls" "resolve_names cache esi (map pl_name ls) = Some (m, [])"
  shows "\<exists>rs. resolve_lines m (map (\<lambda>l. (pl_name l, pl_qty l, first_line_no l)) ls) = Inr rs"
proof (rule resolve_lines_total)
  have "\<forall>n\<in>set (map pl_name ls). \<exists>r. map_of m (name_key n) = Some r"
    using checked_lines_names [OF assms(1)] by (intro names.all_resolved [OF assms(2)]) auto
  then show "\<forall>(name, q, no)\<in>set (map (\<lambda>l. (pl_name l, pl_qty l, first_line_no l)) ls). map_of m (name_key name) \<noteq> None"
    by auto
qed

theorem paste_fully_resolved_witness:
  "\<exists>ls m rs. checked_lines ''Tritanium 5'' = Inr ls
     \<and> resolve_lines m (map (\<lambda>l. (pl_name l, pl_qty l, first_line_no l)) ls) = Inr rs"
proof -
  let ?l = "\<lparr> pl_line_nos = [1], pl_name = ''Tritanium'', pl_qty = 5 \<rparr>"
  let ?esi = "\<lambda>ns :: string list. Some [(34 :: int, ''Tritanium'')]"
  let ?m = "[(''tritanium'', \<lparr> rt_type_id = 34, rt_type_name = ''Tritanium'' \<rparr>)]"
  have c: "checked_lines ''Tritanium 5'' = Inr [?l]" by code_simp
  have "resolve_names [] ?esi (map pl_name [?l]) = Some (?m, [])" by code_simp
  from paste_fully_resolved [OF c this] c show ?thesis by blast
qed

section \<open>Quotas\<close>

lemma new_items_length [simp]: "length (new_items new_id lid uid pick rs) = length rs"
  by (simp add: new_items_def)

lemma resolve_lines_length: "resolve_lines m ls = Inr rs \<Longrightarrow> length rs = length ls"
  by (induction m ls arbitrary: rs rule: resolve_lines.induct) (auto simp: bind_res_eq_Inr)

lemma new_items_list: "i \<in> set (new_items new_id lid uid pick rs) \<Longrightarrow> li_list_id i = lid"
  using new_items_mem by blast

lemma filter_new_items: "filter (\<lambda>i. li_list_id i = lid) (new_items new_id lid uid pick rs) = new_items new_id lid uid pick rs"
  by (rule filter_True) (use new_items_list in blast)

lemma estimates_count:
  assumes "recompute_estimates env uid lid after now d = Inr d'"
  shows "count_where (\<lambda>i. li_list_id i = l) (list_items d') = count_where (\<lambda>i. li_list_id i = l) (list_items d)"
proof -
  obtain gid where "write_estimates env lid gid now d = Inr d'"
    using recompute_loop_Inr assms unfolding recompute_estimates_def by blast
  then obtain pick t where d': "d' = estimated lid pick d \<lparr> lists := upd_where (\<lambda>l. l_id l = lid) (store_total lid t now)
      (lists (estimated lid pick d)) \<rparr>" by (rule write_estimates_Inr)
  have "map li_list_id (list_items d') = map li_list_id (list_items d)"
    by (simp add: d' estimated_def map_upd_where_same)
  then have "length (filter (\<lambda>x. x = l) (map li_list_id (list_items d')))
      = length (filter (\<lambda>x. x = l) (map li_list_id (list_items d)))" by simp
  then show ?thesis by (simp add: count_where_def filter_map comp_def)
qed

text \<open>Adding items never takes a list over its quota: after the request succeeds, the list
  holds at most the configured number of items.\<close>

theorem add_items_quota:
  assumes "add_items env s lid b new_id now d = Inr d'"
  shows "int (count_where (\<lambda>i. li_list_id i = lid) (list_items d')) \<le> env_items_per_list env"
proof -
  obtain ls m rs and cur :: current_list and d1 where rs: "resolve_lines m ls = Inr rs"
    and cap: "int (count_where (\<lambda>i. li_list_id i = lid) (list_items d)) + len ls \<le> env_items_per_list env"
    and ins: "insert_items (new_items new_id lid (cl_user_id cur) (\<lambda>_. (None, None)) rs) d = Inr d1"
    and rec: "recompute_estimates env (cl_user_id cur) lid now now (touch_list lid now d1) = Inr d'"
    using assms by (auto simp: add_items_def Let_def bind_res_eq_Inr not_less split: if_splits)
  have "count_where (\<lambda>i. li_list_id i = lid) (list_items d')
      = count_where (\<lambda>i. li_list_id i = lid) (list_items d) + length rs"
    using estimates_count [OF rec, of lid]
    by (simp add: touch_list_def insert_items_Inr(3) [OF ins] count_where_def filter_new_items)
  then show ?thesis using cap resolve_lines_length [OF rs] by (simp add: len_def)
qed

definition demo_env :: "int \<Rightarrow> list_env" where
  "demo_env cap = \<lparr> env_resolve = resolve_names [] (\<lambda>ns. Some [(34, ''Tritanium'')]), env_npc = (\<lambda>m ts. []),
     env_citadel_ttl = 300, env_items_per_list = cap, env_lists_per_group = 10 \<rparr>"

definition demo_addition :: add_items_body where
  "demo_addition = \<lparr> ab_multibuy = Some ''Tritanium 5'', ab_type_name = None, ab_qty = None \<rparr>"

theorem add_items_quota_witness:
  "\<exists>d'. add_items (demo_env 3) (Some 1) 10 demo_addition (\<lambda>k. 30 + k) 9 demo_db = Inr d'
     \<and> int (count_where (\<lambda>i. li_list_id i = 10) (list_items d')) \<le> 3"
proof -
  have "(case add_items (demo_env 3) (Some 1) 10 demo_addition (\<lambda>k. 30 + k) 9 demo_db of Inl _ \<Rightarrow> False | Inr _ \<Rightarrow> True)"
    by code_simp
  then obtain d' where ok: "add_items (demo_env 3) (Some 1) 10 demo_addition (\<lambda>k. 30 + k) 9 demo_db = Inr d'"
    by (auto split: sum.splits)
  from add_items_quota [OF ok] ok show ?thesis by (auto simp: demo_env_def)
qed

section \<open>Estimates under the lock\<close>

lemma write_estimates_no_conflict: "write_estimates env lid gid now d \<noteq> Inl (Conflict msg)"
  by (simp add: write_estimates_def Let_def db_numeric_overflow_def)

lemma touched_at:
  assumes "rls_find_list (touch_list lid now d) uid lid = Some l"
  shows "l_updated_at l = now"
proof -
  have l: "l \<in> set (upd_where (\<lambda>l. l_id l = lid) (\<lambda>l. l \<lparr> l_updated_at := now \<rparr>) (lists d))" "l_id l = lid"
    using rls_find_list_SomeD [OF assms] by (simp_all add: touch_list_def)
  then obtain l0 where "l = (if l_id l0 = lid then l0 \<lparr> l_updated_at := now \<rparr> else l0)" by (auto elim: in_upd_whereE)
  then show ?thesis using l(2) by (cases "l_id l0 = lid") simp_all
qed

text \<open>An edit of a list recomputes its estimate in the same transaction that touched the list,
  so the optimistic check of the estimate always passes at the first attempt: the conflict
  "list was concurrently modified" is never answered.\<close>

theorem edits_never_conflict:
  "recompute_estimates env uid lid now now (touch_list lid now d)
     \<noteq> Inl (Conflict ''list was concurrently modified; please retry'')"
proof (cases "rls_find_list (touch_list lid now d) uid lid")
  case None
  then show ?thesis by (simp add: recompute_estimates_def RECOMPUTE_RETRY_LIMIT_def eval_nat_numeral not_found_def)
next
  case (Some l)
  then show ?thesis using touched_at [OF Some] write_estimates_no_conflict
    by (simp add: recompute_estimates_def RECOMPUTE_RETRY_LIMIT_def eval_nat_numeral)
qed

end
