(* ===== verification/Item_Edits.thy ===== *)
theory Item_Edits
  imports List_Facts
begin

text \<open>
  Where the code does not keep what the rest of it relies on.  The two requests on items that are not
  steps of the transition system are here, with runs that show why: an open item may
  already be partly bought, and editing or deleting it leaves quantities and debts behind.
  The last run shows a debt that cannot be linked any more after its contract failed.
\<close>

section \<open>Open items that are partly bought\<close>

definition demo_released :: db where
  "demo_released = demo_half \<lparr> list_items := [demo_bought_item IOpen 3, demo_item 101 2 1],
     claims := [(demo_claim CReleased) \<lparr> c_released_at := Some 3 \<rparr>],
     claim_items := [\<lparr> ci_claim_id = 200, ci_list_item_id = 100, ci_active = False \<rparr>] \<rparr>"

lemma demo_released_step: "exec_op (ReleaseClaim (Some 2) 200 3) demo_half = Inr demo_released"
  by code_simp

lemma demo_released_reach: "life_reach demo_db demo_released"
  by (rule reach_exec [OF demo_reach(1) demo_released_step])

text \<open>Three units of item 100 are bought and the claim is released, so the item is open; the
  requester may lower the request to one unit.\<close>

theorem patch_item_below_fulfilled:
  "\<exists>d d'. life_reach demo_db d \<and> patch_item (demo_env 9) (Some 1) 10 100 (Some 1) None 4 d = Inr d'
     \<and> (\<exists>i\<in>set (list_items d'). li_id i = 100 \<and> li_qty_requested i < li_qty_fulfilled i)"
proof -
  have "(case patch_item (demo_env 9) (Some 1) 10 100 (Some 1) None 4 demo_released of Inl _ \<Rightarrow> None
      | Inr d' \<Rightarrow> Some (map (\<lambda>i. (li_id i, li_qty_requested i, li_qty_fulfilled i)) (list_items d')))
      = Some [(100, 1, 3), (101, 2, 0)]" by code_simp
  then obtain d' where d': "patch_item (demo_env 9) (Some 1) 10 100 (Some 1) None 4 demo_released = Inr d'"
    "map (\<lambda>i. (li_id i, li_qty_requested i, li_qty_fulfilled i)) (list_items d') = [(100, 1, 3), (101, 2, 0)]"
    by (auto split: sum.splits)
  then obtain i where "i \<in> set (list_items d')" "(li_id i, li_qty_requested i, li_qty_fulfilled i) = (100, 1, 3)"
    by (metis (no_types, lifting) imageE list.set_intros(1) list.set_map)
  then show ?thesis using d'(1) demo_released_reach by (intro exI conjI bexI) auto
qed

text \<open>Deleting that item deletes its fulfillments, but the debt for them stays.\<close>

theorem delete_item_leaves_debt:
  "\<exists>d d'. life_reach demo_db d \<and> delete_item (demo_env 9) (Some 1) 10 100 4 d = Inr d'
     \<and> fulfillments d' = [] \<and> (\<exists>r\<in>set (reimbursements d'). r_status r = RPending \<and> r_total_isk r = 3938)"
proof -
  have "(case delete_item (demo_env 9) (Some 1) 10 100 4 demo_released of Inl _ \<Rightarrow> None
      | Inr d' \<Rightarrow> Some (fulfillments d', reimbursements d')) = Some ([], [demo_debt 3750 188 2])" by code_simp
  then obtain d' where d': "delete_item (demo_env 9) (Some 1) 10 100 4 demo_released = Inr d'"
    "fulfillments d' = []" "reimbursements d' = [demo_debt 3750 188 2]" by (auto split: sum.splits)
  then show ?thesis using demo_released_reach
    by (intro exI [of _ demo_released] exI [of _ d']) (simp add: demo_debt_def)
qed

section \<open>A debt whose contract failed\<close>

text \<open>The worker unbinds the debt of a cancelled contract but leaves the confirmed suggestion; from
  then on the hauler cannot link the debt to any other contract, although it could have been
  linked to that contract in the first place.\<close>

definition demo_unbound :: db where
  "demo_unbound = demo_bought \<lparr> suggestions := [demo_suggestion MConfirmed],
     reimbursements := [demo_debt 6250 313 5] \<rparr>"

definition demo_cancelled :: upserted_contract where
  "demo_cancelled = \<lparr> uc_contract_id = 500, uc_esi_contract_id = 7000, uc_status = Cancelled, uc_status_changed = True \<rparr>"

lemma demo_unbound_step: "exec_op (HandleTerminal demo_cancelled 5) demo_linked = Inr demo_unbound"
  by code_simp

theorem failed_contract_blocks_debt:
  "life_reach demo_db demo_unbound
   \<and> map (\<lambda>r. (r_status r, r_contract_id r)) (reimbursements demo_unbound) = [(RPending, None)]
   \<and> exec_op (ManualLink (Some 2) 501 400 601 6) demo_unbound = Inl already_confirmed
   \<and> (\<exists>d'. exec_op (ManualLink (Some 2) 501 400 601 6) demo_bought = Inr d')"
proof -
  have "life_reach demo_db demo_unbound" by (rule reach_exec [OF demo_reach(6) demo_unbound_step])
  moreover have "map (\<lambda>r. (r_status r, r_contract_id r)) (reimbursements demo_unbound) = [(RPending, None)]" by code_simp
  moreover have "exec_op (ManualLink (Some 2) 501 400 601 6) demo_unbound = Inl already_confirmed" by code_simp
  moreover have "(case exec_op (ManualLink (Some 2) 501 400 601 6) demo_bought of Inl _ \<Rightarrow> False | Inr _ \<Rightarrow> True)"
    by code_simp
  then have "\<exists>d'. exec_op (ManualLink (Some 2) 501 400 601 6) demo_bought = Inr d'" by (auto split: sum.splits)
  ultimately show ?thesis by blast
qed

end
