(* ===== verification/Corps.thy ===== *)
theory Corps
  imports Contract_Worker Lists
begin

text \<open>
  Corporations of a group (\<^verbatim>\<open>api/src/corps.rs\<close>): linking and unlinking, ambassadors,
  the payer of a list, and the two read-only views of the wallet.  The requests run as
  the role \<^verbatim>\<open>jitacart_app\<close>, so each statement sees and changes only the rows its policy
  admits at that moment: \<open>group_corps\<close> of the caller's groups, and ambassadors,
  divisions and journal of the corps these groups are linked to (\<open>is_corp_member\<close>).
  What ESI answers is an argument of \<open>link_corp\<close>.
\<close>

section \<open>What the caller sees\<close>

definition seen_links :: "db \<Rightarrow> uuid \<Rightarrow> group_corp list" where
  "seen_links d uid = filter (\<lambda>gc. is_group_member d uid (gc_group_id gc)) (group_corps d)"

definition require_corp_in_group :: "db \<Rightarrow> uuid \<Rightarrow> uuid \<Rightarrow> uuid \<Rightarrow> unit res" where
  "require_corp_in_group d uid gid corp =
     (if \<exists>gc\<in>set (seen_links d uid). gc_group_id gc = gid \<and> gc_corp_id gc = corp \<and> gc_unlinked_at gc = None
      then Inr () else Inl not_found)"

section \<open>Listing\<close>

record ambassador_dto =
  ad_character_id :: uuid
  ad_character_name :: string
  ad_granted_scopes :: "string list"
  ad_last_used_at :: "instant option"
  ad_last_auth_error_at :: "instant option"
  ad_disabled_at :: "instant option"

record division_dto =
  dd_division :: int
  dd_name :: "string option"
  dd_balance_isk :: "isk option"
  dd_last_synced_at :: "instant option"

record corp_dto =
  cd_id :: uuid
  cd_esi_corporation_id :: int
  cd_name :: string
  cd_ticker :: string
  cd_last_synced_at :: "instant option"
  cd_last_auth_error_at :: "instant option"
  cd_disabled_at :: "instant option"
  cd_linked_at :: instant
  cd_linked_by_user_id :: uuid
  cd_is_ambassador :: bool
  cd_ambassadors :: "ambassador_dto list"
  cd_wallet_divisions :: "division_dto list"

text \<open>Ambassadors joined with their characters, in the order of the query: by
  \<^verbatim>\<open>disabled_at\<close>, then \<^verbatim>\<open>last_used_at\<close>, nulls first.\<close>

definition ambassador_rows :: "db \<Rightarrow> uuid \<Rightarrow> uuid \<Rightarrow> (corp_ambassador \<times> character) list" where
  "ambassador_rows d uid corp =
     concat (map (\<lambda>ca. map (\<lambda>ch. (ca, ch)) (filter (\<lambda>ch. ch_id ch = ca_character_id ca) (characters d)))
       (sort_key ca_disabled_at (sort_key ca_last_used_at
         (filter (\<lambda>ca. ca_corp_id ca = corp \<and> is_corp_member d uid corp) (ambassadors d)))))"

definition ambassador_view :: "corp_ambassador \<times> character \<Rightarrow> ambassador_dto" where
  "ambassador_view p =
     \<lparr> ad_character_id = ca_character_id (fst p), ad_character_name = ch_character_name (snd p),
       ad_granted_scopes = ca_granted_scopes (fst p), ad_last_used_at = ca_last_used_at (fst p),
       ad_last_auth_error_at = ca_last_auth_error_at (fst p), ad_disabled_at = ca_disabled_at (fst p) \<rparr>"

definition caller_is_ambassador :: "db \<Rightarrow> uuid \<Rightarrow> uuid \<Rightarrow> bool" where
  "caller_is_ambassador d uid corp \<longleftrightarrow>
     (\<exists>p\<in>set (ambassador_rows d uid corp). ch_user_id (snd p) = uid \<and> ca_disabled_at (fst p) = None)"

definition division_view :: "bool \<Rightarrow> wallet_division \<Rightarrow> division_dto" where
  "division_view full w =
     \<lparr> dd_division = wd_division w, dd_name = wd_name w,
       dd_balance_isk = (if full then Some (wd_balance_isk w) else None),
       dd_last_synced_at = wd_last_synced_at w \<rparr>"

definition corp_view :: "db \<Rightarrow> uuid \<Rightarrow> group_role \<Rightarrow> group_corp \<Rightarrow> corp \<Rightarrow> corp_dto" where
  "corp_view d uid role gc co =
     (let amb = caller_is_ambassador d uid (cp_id co) in
      \<lparr> cd_id = cp_id co, cd_esi_corporation_id = cp_esi_corporation_id co, cd_name = cp_name co,
        cd_ticker = cp_ticker co, cd_last_synced_at = cp_last_synced_at co,
        cd_last_auth_error_at = cp_last_auth_error_at co, cd_disabled_at = cp_disabled_at co,
        cd_linked_at = gc_linked_at gc, cd_linked_by_user_id = gc_linked_by_user_id gc,
        cd_is_ambassador = amb,
        cd_ambassadors = map ambassador_view (ambassador_rows d uid (cp_id co)),
        cd_wallet_divisions = map (division_view (role = Owner \<or> amb)) (sort_key wd_division
          (filter (\<lambda>w. wd_corp_id w = cp_id co \<and> is_corp_member d uid (cp_id co)) (wallet_divisions d))) \<rparr>)"

definition list_corps_inner :: "db \<Rightarrow> uuid \<Rightarrow> uuid \<Rightarrow> group_role \<Rightarrow> corp_dto list" where
  "list_corps_inner d gid uid role =
     concat (map (\<lambda>gc. map (corp_view d uid role gc) (filter (\<lambda>co. cp_id co = gc_corp_id gc) (corps d)))
       (sort_key gc_linked_at (filter (\<lambda>gc. gc_group_id gc = gid \<and> gc_unlinked_at gc = None)
          (seen_links d uid))))"

definition list_corps :: "session \<Rightarrow> uuid \<Rightarrow> db \<Rightarrow> (corp_dto list \<times> group_role) res" where
  "list_corps s gid d =
     bind_res (current_group_ex s gid d) (\<lambda>cur.
     Inr (list_corps_inner d gid (cg_user_id cur) (cg_role cur), cg_role cur))"

section \<open>Linking\<close>

record link_env =
  le_client :: "uuid \<Rightarrow> bool"                       \<comment> \<open>the token store has a client for the character\<close>
  le_affiliation :: "int \<Rightarrow> (int \<times> int) list option"  \<comment> \<open>character and corporation ids\<close>
  le_corporation :: "int \<Rightarrow> (string \<times> string) option"  \<comment> \<open>name and ticker\<close>

definition own_character :: "db \<Rightarrow> uuid \<Rightarrow> int \<Rightarrow> character res" where
  "own_character d uid esi =
     ok_or (BadRequest ''character not found or not yours'')
       (find (\<lambda>ch. ch_character_id ch = esi \<and> ch_user_id ch = uid) (characters d))"

definition fetch_corp :: "link_env \<Rightarrow> uuid \<Rightarrow> int \<Rightarrow> (int \<times> string \<times> string) res" where
  "fetch_corp env char_uuid esi =
     (if \<not> le_client env char_uuid then Inl (Internal ''no client'')
      else bind_res (ok_or (Internal ''character_affiliation'') (le_affiliation env esi)) (\<lambda>affs.
      bind_res (ok_or (Internal ''affiliation not found'') (find (\<lambda>a. fst a = esi) affs)) (\<lambda>a.
      bind_res (ok_or (Internal ''get_corporation'') (le_corporation env (snd a))) (\<lambda>info.
      Inr (snd a, info)))))"

definition upsert_corp :: "int \<Rightarrow> string \<Rightarrow> string \<Rightarrow> uuid \<Rightarrow> instant \<Rightarrow> db \<Rightarrow> (uuid \<times> db) res" where
  "upsert_corp esi name ticker new_id now d =
     (case find (\<lambda>co. cp_esi_corporation_id co = esi) (corps d) of
        Some co \<Rightarrow> Inr (cp_id co, d \<lparr> corps := upd_where (\<lambda>x. cp_esi_corporation_id x = esi)
             (\<lambda>x. x \<lparr> cp_name := name, cp_ticker := ticker, cp_disabled_at := None,
                     cp_last_synced_at := Some now \<rparr>) (corps d) \<rparr>)
      | None \<Rightarrow>
          if new_id \<in> cp_id ` set (corps d) then Inl db_unique_violation
          else Inr (new_id, d \<lparr> corps := corps d @
             [\<lparr> cp_id = new_id, cp_esi_corporation_id = esi, cp_name = name, cp_ticker = ticker,
                cp_last_synced_at = None, cp_last_auth_error_at = None, cp_disabled_at = None,
                cp_contracts_next_poll_at = None, cp_contracts_last_polled_at = None,
                cp_wallet_next_poll_at = None, cp_wallet_last_polled_at = None \<rparr>] \<rparr>))"

text \<open>\<^verbatim>\<open>ON CONFLICT DO NOTHING\<close> covers both the primary key and the unique index on the corp.\<close>

definition upsert_corp_principal :: "uuid \<Rightarrow> uuid \<Rightarrow> db \<Rightarrow> db" where
  "upsert_corp_principal new_id corp d =
     (if \<exists>p\<in>set (principals d). p_id p = new_id \<or> (p_kind p = PCorp \<and> p_corp_id p = Some corp) then d
      else d \<lparr> principals := principals d @
             [\<lparr> p_id = new_id, p_kind = PCorp, p_user_id = None, p_corp_id = Some corp \<rparr>] \<rparr>)"

definition upsert_link :: "uuid \<Rightarrow> uuid \<Rightarrow> uuid \<Rightarrow> instant \<Rightarrow> db \<Rightarrow> db" where
  "upsert_link gid corp uid now d =
     (let hit = (\<lambda>gc. gc_group_id gc = gid \<and> gc_corp_id gc = corp) in
      if \<exists>gc\<in>set (group_corps d). hit gc
      then d \<lparr> group_corps := upd_where hit
             (\<lambda>gc. gc \<lparr> gc_unlinked_at := None,
                       gc_linked_at := (if gc_unlinked_at gc \<noteq> None then now else gc_linked_at gc),
                       gc_linked_by_user_id := uid \<rparr>) (group_corps d) \<rparr>
      else d \<lparr> group_corps := group_corps d @
             [\<lparr> gc_group_id = gid, gc_corp_id = corp, gc_linked_at = now, gc_linked_by_user_id = uid,
                gc_unlinked_at = None \<rparr>] \<rparr>)"

text \<open>An ambassador row that exists is enabled again.  \<open>via\<close> is the group it is
  contributed through: linking leaves that column alone, adding an ambassador sets it.\<close>

definition upsert_ambassador ::
  "uuid \<Rightarrow> uuid \<Rightarrow> string list \<Rightarrow> uuid option \<Rightarrow> (uuid option \<Rightarrow> uuid option) \<Rightarrow> db \<Rightarrow> db" where
  "upsert_ambassador corp chid scopes via via_upd d =
     (let hit = (\<lambda>ca. ca_corp_id ca = corp \<and> ca_character_id ca = chid) in
      if \<exists>ca\<in>set (ambassadors d). hit ca
      then d \<lparr> ambassadors := upd_where hit
             (\<lambda>ca. ca \<lparr> ca_granted_scopes := scopes, ca_disabled_at := None, ca_last_auth_error_at := None,
                       ca_contributed_via_group_id := via_upd (ca_contributed_via_group_id ca) \<rparr>)
             (ambassadors d) \<rparr>
      else d \<lparr> ambassadors := ambassadors d @
             [\<lparr> ca_corp_id = corp, ca_character_id = chid, ca_granted_scopes = scopes,
                ca_last_used_at = None, ca_last_auth_error_at = None, ca_disabled_at = None,
                ca_contributed_via_group_id = via \<rparr>] \<rparr>)"

definition link_corp ::
  "link_env \<Rightarrow> session \<Rightarrow> uuid \<Rightarrow> int \<Rightarrow> uuid \<Rightarrow> uuid \<Rightarrow> instant \<Rightarrow> db \<Rightarrow> (corp_dto \<times> db) res" where
  "link_corp env s gid esi_char new_corp new_principal now d =
     bind_res (current_group_ex s gid d) (\<lambda>cur.
     if cg_role cur \<noteq> Owner then Inl forbidden
     else let uid = cg_user_id cur in
     bind_res (own_character d uid esi_char) (\<lambda>ch.
     bind_res (fetch_corp env (ch_id ch) esi_char) (\<lambda>(esi_corp, name, ticker).
     bind_res (upsert_corp esi_corp name ticker new_corp now d) (\<lambda>(corp, d1).
     let d2 = upsert_corp_principal new_principal corp d1;
         d3 = upsert_link gid corp uid now d2;
         d4 = upsert_ambassador corp (ch_id ch) (ch_scopes ch) None id d3
     in bind_res (ok_or (Internal ''corp not found after link'')
                    (find (\<lambda>c. cd_id c = corp) (list_corps_inner d4 gid uid (cg_role cur)))) (\<lambda>dto.
     Inr (dto, d4))))))"

section \<open>Ambassadors and unlinking\<close>

definition add_ambassador :: "session \<Rightarrow> uuid \<Rightarrow> uuid \<Rightarrow> int \<Rightarrow> db \<Rightarrow> db res" where
  "add_ambassador s gid corp esi_char d =
     bind_res (current_group_ex s gid d) (\<lambda>cur.
     if cg_role cur \<noteq> Owner then Inl forbidden
     else let uid = cg_user_id cur in
     bind_res (require_corp_in_group d uid gid corp) (\<lambda>_.
     bind_res (own_character d uid esi_char) (\<lambda>ch.
     Inr (upsert_ambassador corp (ch_id ch) (ch_scopes ch) (Some gid) (\<lambda>_. Some gid) d))))"

definition disable_ambassadors :: "uuid \<Rightarrow> (corp_ambassador \<Rightarrow> bool) \<Rightarrow> uuid \<Rightarrow> instant \<Rightarrow> db \<Rightarrow> db" where
  "disable_ambassadors uid P corp now d =
     d \<lparr> ambassadors := upd_where (\<lambda>ca. ca_corp_id ca = corp \<and> P ca \<and> ca_disabled_at ca = None
              \<and> is_corp_member d uid (ca_corp_id ca))
            (\<lambda>ca. ca \<lparr> ca_disabled_at := Some now \<rparr>) (ambassadors d) \<rparr>"

definition remove_ambassador :: "session \<Rightarrow> uuid \<Rightarrow> uuid \<Rightarrow> uuid \<Rightarrow> instant \<Rightarrow> db \<Rightarrow> db res" where
  "remove_ambassador s gid corp chid now d =
     bind_res (current_group_ex s gid d) (\<lambda>cur.
     if cg_role cur \<noteq> Owner then Inl forbidden
     else let uid = cg_user_id cur in
     bind_res (require_corp_in_group d uid gid corp) (\<lambda>_.
     Inr (disable_ambassadors uid (\<lambda>ca. ca_character_id ca = chid) corp now d)))"

definition deactivate_link :: "uuid \<Rightarrow> uuid \<Rightarrow> uuid \<Rightarrow> instant \<Rightarrow> db \<Rightarrow> db" where
  "deactivate_link uid gid corp now d =
     d \<lparr> group_corps := upd_where (\<lambda>gc. gc_group_id gc = gid \<and> gc_corp_id gc = corp
              \<and> gc_unlinked_at gc = None \<and> is_group_member d uid (gc_group_id gc))
            (\<lambda>gc. gc \<lparr> gc_unlinked_at := Some now \<rparr>) (group_corps d) \<rparr>"

definition unlink_corp :: "session \<Rightarrow> uuid \<Rightarrow> uuid \<Rightarrow> instant \<Rightarrow> db \<Rightarrow> db res" where
  "unlink_corp s gid corp now d =
     bind_res (current_group_ex s gid d) (\<lambda>cur.
     if cg_role cur \<noteq> Owner then Inl forbidden
     else let uid = cg_user_id cur in
     bind_res (require_corp_in_group d uid gid corp) (\<lambda>_.
     let d1 = deactivate_link uid gid corp now d;
         d2 = disable_ambassadors uid (\<lambda>ca. ca_contributed_via_group_id ca = Some gid) corp now d1;
         other_links = count_where (\<lambda>gc. gc_corp_id gc = corp \<and> gc_unlinked_at gc = None) (seen_links d2 uid)
     in Inr (if other_links = 0
             then d2 \<lparr> corps := upd_where (\<lambda>co. cp_id co = corp)
                         (\<lambda>co. co \<lparr> cp_disabled_at := Some now \<rparr>) (corps d2) \<rparr>
             else d2)))"

section \<open>The wallet journal\<close>

definition default_journal_limit :: int where "default_journal_limit = 200"

definition clamp :: "int \<Rightarrow> int \<Rightarrow> int \<Rightarrow> int" where
  "clamp lo hi x = (if x < lo then lo else if hi < x then hi else x)"

definition list_journal ::
  "session \<Rightarrow> uuid \<Rightarrow> uuid \<Rightarrow> int \<Rightarrow> instant option \<Rightarrow> int option \<Rightarrow> db \<Rightarrow> journal_entry list res" where
  "list_journal s gid corp limit before division d =
     bind_res (current_group_ex s gid d) (\<lambda>cur.
     let uid = cg_user_id cur in
     bind_res (require_corp_in_group d uid gid corp) (\<lambda>_.
     let is_ambassador = caller_is_ambassador d uid corp;
         is_owner = (\<exists>m\<in>set (memberships d). gm_group_id m = gid \<and> gm_user_id m = uid \<and> gm_role m = Owner)
     in if \<not> (is_ambassador \<or> is_owner) then Inl forbidden
        else Inr (take (nat (clamp 1 500 limit)) (sort_key (\<lambda>j. - j_date j) (filter (\<lambda>j.
               j_corp_id j = corp \<and> is_corp_member d uid corp
             \<and> (case before of None \<Rightarrow> True | Some t \<Rightarrow> j_date j < t)
             \<and> (case division of None \<Rightarrow> True | Some dv \<Rightarrow> j_division j = dv)) (journal d))))))"

section \<open>The payer of a list\<close>

definition patch_list_payer :: "session \<Rightarrow> uuid \<Rightarrow> uuid option \<Rightarrow> int option \<Rightarrow> db \<Rightarrow> db res" where
  "patch_list_payer s lid payer division d =
     bind_res (current_user s) (\<lambda>uid.
     if (payer = None) \<noteq> (division = None)
     then Inl (BadRequest ''payer_corp_id and payer_division must both be set or both be null'')
     else bind_res (ok_or forbidden
            (find (\<lambda>l. l_id l = lid \<and> is_group_member d uid (l_group_id l)
                     \<and> member_role d uid (l_group_id l) = Some Owner) (lists d))) (\<lambda>l.
     if \<exists>r\<in>set (reimbursements d). r_list_id r = lid
     then Inl (Conflict ''payer cannot be changed after reimbursements have been generated'')
     else bind_res (case payer of None \<Rightarrow> Inr ()
                    | Some corp \<Rightarrow> require_corp_in_group d uid (l_group_id l) corp) (\<lambda>_.
     Inr (d \<lparr> lists := upd_where (\<lambda>x. l_id x = lid)
                 (\<lambda>x. x \<lparr> l_payer_corp_id := payer, l_payer_division := division \<rparr>) (lists d) \<rparr>))))"

end
