(* ===== verification/Group_Requests.thy ===== *)
theory Group_Requests
  imports System
begin

text \<open>
  Groups and invites (\<^verbatim>\<open>api/src/groups.rs\<close>): creating a group, joining it by its invite
  code, leaving it, deleting it with everything that hangs on it, and rotating the invite
  code.  The invariant \<open>groups_ok\<close> says that identifiers, invite codes and memberships are
  unique, that every membership is of an existing user in an existing group, that every
  group has an owner and that nobody is in more groups than the limit; the requests keep
  it, by an interpretation of \<open>transactional\<close>.

  The random invite codes are an argument: \<open>codes k\<close> is the \<open>k\<close>-th sample.
\<close>

definition INVITE_CODE_LEN :: nat where "INVITE_CODE_LEN = 10"
definition MAX_INVITE_GEN_ATTEMPTS :: nat where "MAX_INVITE_GEN_ATTEMPTS = 8"

section \<open>Limits\<close>

definition lock_user_for_quota :: "uuid \<Rightarrow> db \<Rightarrow> unit res" where
  "lock_user_for_quota uid d = (if find_user d uid = None then Inl Unauthorized else Inr ())"

definition groups_of :: "uuid \<Rightarrow> db \<Rightarrow> int" where
  "groups_of uid d = int (count_where (\<lambda>m. gm_user_id m = uid) (memberships d))"

definition check_group_quota :: "uuid \<Rightarrow> int \<Rightarrow> db \<Rightarrow> unit res" where
  "check_group_quota uid cap d =
     (if cap \<le> groups_of uid d
      then Inl (QuotaExceeded (''you are already a member of '' @ string_of_int (groups_of uid d)
                 @ '' groups (limit '' @ string_of_int cap @ '')''))
      else Inr ())"

section \<open>Invite codes\<close>

text \<open>The loop that stores a fresh invite code.  A statement that violates the unique
  constraint of the code aborts the transaction of the request, and in an aborted
  transaction every further statement fails with an error that is not a collision, so
  the handler answers 500 on the second round.\<close>

definition tx_aborted :: api_error where
  "tx_aborted = Internal ''current transaction is aborted, commands ignored until end of transaction block''"

fun try_codes :: "(string \<Rightarrow> bool) \<Rightarrow> bool \<Rightarrow> string list \<Rightarrow> string option res" where
  "try_codes taken aborted [] = Inr None"
| "try_codes taken aborted (c # cs) =
     (if aborted then Inl tx_aborted
      else if taken c then try_codes taken True cs
      else Inr (Some c))"

definition invite_exhausted :: api_error where
  "invite_exhausted = Internal (''could not generate a unique invite code after ''
     @ string_of_int (int MAX_INVITE_GEN_ATTEMPTS) @ '' tries'')"

definition store_code :: "(string \<Rightarrow> bool) \<Rightarrow> (nat \<Rightarrow> string) \<Rightarrow> string res" where
  "store_code taken codes =
     bind_res (try_codes taken False (map codes [0..<MAX_INVITE_GEN_ATTEMPTS])) (ok_or invite_exhausted)"

lemma store_code_first: "store_code taken codes = (if taken (codes 0) then Inl tx_aborted else Inr (codes 0))"
  by (simp add: store_code_def MAX_INVITE_GEN_ATTEMPTS_def upt_conv_Cons)

section \<open>Requests\<close>

definition check_group_name :: "string \<Rightarrow> unit res" where
  "check_group_name name =
     (if trim name = [] \<or> 80 < utf8_len (trim name)
      then Inl (BadRequest ''name must be 1-80 characters'') else Inr ())"

definition new_group :: "uuid \<Rightarrow> string \<Rightarrow> string \<Rightarrow> uuid \<Rightarrow> instant \<Rightarrow> group" where
  "new_group gid name code uid now =
     \<lparr> g_id = gid, g_name = trim name, g_invite_code = code, g_created_by_user_id = uid,
       g_default_tip_pct = 0, g_created_at = now \<rparr>"

definition create_group ::
  "int \<Rightarrow> session \<Rightarrow> string \<Rightarrow> (nat \<Rightarrow> string) \<Rightarrow> uuid \<Rightarrow> instant \<Rightarrow> db \<Rightarrow> db res" where
  "create_group cap s name codes new_id now d =
     bind_res (current_user s) (\<lambda>uid.
     bind_res (check_group_name name) (\<lambda>_.
     bind_res (lock_user_for_quota uid d) (\<lambda>_.
     bind_res (check_group_quota uid cap d) (\<lambda>_.
     if new_id \<in> g_id ` set (groups d) then Inl db_unique_violation
     else bind_res (store_code (\<lambda>c. c \<in> g_invite_code ` set (groups d)) codes) (\<lambda>code.
     if \<exists>m\<in>set (memberships d). gm_user_id m = uid \<and> gm_group_id m = new_id then Inl db_unique_violation
     else Inr (d \<lparr> groups := groups d @ [new_group new_id name code uid now],
            memberships := memberships d @
              [\<lparr> gm_user_id = uid, gm_group_id = new_id, gm_role = Owner, gm_joined_at = now \<rparr>] \<rparr>))))))"

record group_summary =
  gs_group :: group
  gs_role :: group_role
  gs_member_count :: int

definition list_groups :: "session \<Rightarrow> db \<Rightarrow> group_summary list res" where
  "list_groups s d =
     bind_res (current_user s) (\<lambda>uid.
     Inr (concat (map (\<lambda>g. map (\<lambda>m. \<lparr> gs_group = g, gs_role = gm_role m,
                 gs_member_count = int (count_where (\<lambda>x. gm_group_id x = g_id g) (memberships d)) \<rparr>)
               (filter (\<lambda>m. gm_group_id m = g_id g \<and> gm_user_id m = uid) (memberships d)))
             (sort_key g_created_at (groups d)))))"

record group_member =
  me_user_id :: uuid
  me_display_name :: string
  me_role :: group_role
  me_joined_at :: instant

definition group_members :: "uuid \<Rightarrow> db \<Rightarrow> group_member list" where
  "group_members gid d =
     concat (map (\<lambda>m. map (\<lambda>u. \<lparr> me_user_id = gm_user_id m, me_display_name = u_display_name u,
                 me_role = gm_role m, me_joined_at = gm_joined_at m \<rparr>)
               (filter (\<lambda>u. u_id u = gm_user_id m) (users d)))
       (sort_key gm_joined_at (filter (\<lambda>m. gm_group_id m = gid) (memberships d))))"

definition group_detail :: "session \<Rightarrow> uuid \<Rightarrow> db \<Rightarrow> (group \<times> group_role \<times> group_member list) res" where
  "group_detail s gid d =
     bind_res (current_group_ex s gid d) (\<lambda>cur.
     bind_res (ok_or not_found (find (\<lambda>g. g_id g = gid) (groups d))) (\<lambda>g.
     Inr (g, cg_role cur, group_members gid d)))"

definition leave_group :: "session \<Rightarrow> uuid \<Rightarrow> db \<Rightarrow> db res" where
  "leave_group s gid d =
     bind_res (current_group_ex s gid d) (\<lambda>cur.
     let uid = cg_user_id cur;
         ms = filter (\<lambda>m. gm_group_id m = gid) (memberships d)
     in bind_res (ok_or (Forbidden ''you are not a member of this group'')
                    (map_option gm_role (find (\<lambda>m. gm_user_id m = uid) ms))) (\<lambda>role.
     if role = Owner \<and> count_where (\<lambda>m. gm_user_id m \<noteq> uid \<and> gm_role m = Owner) ms = 0
     then Inl (BadRequest ''you are the last owner; delete the group instead'')
     else Inr (d \<lparr> memberships := del_where (\<lambda>m. gm_user_id m = uid \<and> gm_group_id m = gid) (memberships d) \<rparr>)))"

text \<open>The deletion cascades to the memberships, the lists and all that belongs to them, the
  webhook and its queue, the tracked markets and the corp links, and clears the group in
  the ambassadors it contributed.\<close>

definition delete_group_rows :: "uuid \<Rightarrow> db \<Rightarrow> db" where
  "delete_group_rows gid d =
     (let d1 = fold delete_list_rows (map l_id (filter (\<lambda>l. l_group_id l = gid) (lists d))) d
      in d1 \<lparr> groups := del_where (\<lambda>g. g_id g = gid) (groups d1),
              memberships := del_where (\<lambda>m. gm_group_id m = gid) (memberships d1),
              webhook_configs := del_where (\<lambda>w. wh_group_id w = gid) (webhook_configs d1),
              pending_webhooks := del_where (\<lambda>w. pw_group_id w = gid) (pending_webhooks d1),
              tracked_markets := del_where (\<lambda>t. tm_group_id t = gid) (tracked_markets d1),
              group_corps := del_where (\<lambda>x. gc_group_id x = gid) (group_corps d1),
              ambassadors := upd_where (\<lambda>a. ca_contributed_via_group_id a = Some gid)
                (\<lambda>a. a \<lparr> ca_contributed_via_group_id := None \<rparr>) (ambassadors d1) \<rparr>)"

definition owner_required :: api_error where
  "owner_required = Forbidden ''owner role required''"

definition delete_group :: "session \<Rightarrow> uuid \<Rightarrow> db \<Rightarrow> db res" where
  "delete_group s gid d =
     bind_res (current_group_ex s gid d) (\<lambda>cur.
     if cg_role cur \<noteq> Owner then Inl owner_required
     else if gid \<notin> g_id ` set (groups d) then Inl (NotFound ''group not found'')
     else Inr (delete_group_rows gid d))"

definition rotate_invite :: "session \<Rightarrow> uuid \<Rightarrow> (nat \<Rightarrow> string) \<Rightarrow> db \<Rightarrow> db res" where
  "rotate_invite s gid codes d =
     bind_res (current_group_ex s gid d) (\<lambda>cur.
     if cg_role cur \<noteq> Owner then Inl owner_required
     else if gid \<notin> g_id ` set (groups d)
     then Inl (Internal ''no rows returned by a query that expected to return at least one row'')
     else bind_res (store_code (\<lambda>c. \<exists>g\<in>set (groups d). g_id g \<noteq> gid \<and> g_invite_code g = c) codes) (\<lambda>code.
     Inr (d \<lparr> groups := upd_where (\<lambda>g. g_id g = gid) (\<lambda>g. g \<lparr> g_invite_code := code \<rparr>) (groups d) \<rparr>)))"

definition join_group :: "int \<Rightarrow> session \<Rightarrow> string \<Rightarrow> instant \<Rightarrow> db \<Rightarrow> db res" where
  "join_group cap s code now d =
     bind_res (current_user s) (\<lambda>uid.
     bind_res (lock_user_for_quota uid d) (\<lambda>_.
     bind_res (check_group_quota uid cap d) (\<lambda>_.
     bind_res (ok_or (NotFound ''invite is invalid or expired'')
                 (find (\<lambda>g. g_invite_code g = code) (groups d))) (\<lambda>g.
     Inr (if is_group_member d uid (g_id g) then d
          else d \<lparr> memberships := memberships d @
                 [\<lparr> gm_user_id = uid, gm_group_id = g_id g, gm_role = Member, gm_joined_at = now \<rparr>] \<rparr>)))))"

section \<open>The invariant\<close>

definition has_owner :: "db \<Rightarrow> uuid \<Rightarrow> bool" where
  "has_owner d gid \<longleftrightarrow> (\<exists>m\<in>set (memberships d). gm_group_id m = gid \<and> gm_role m = Owner)"

definition gm_key :: "membership \<Rightarrow> uuid \<times> uuid" where
  "gm_key m = (gm_user_id m, gm_group_id m)"

definition groups_ok :: "int \<Rightarrow> db \<Rightarrow> bool" where
  "groups_ok cap d \<longleftrightarrow> distinct (map g_id (groups d)) \<and> distinct (map g_invite_code (groups d))
     \<and> distinct (map gm_key (memberships d))
     \<and> (\<forall>m\<in>set (memberships d). gm_group_id m \<in> g_id ` set (groups d) \<and> gm_user_id m \<in> u_id ` set (users d))
     \<and> (\<forall>g\<in>set (groups d). has_owner d (g_id g))
     \<and> (\<forall>uid. groups_of uid d \<le> cap)"

lemma groups_okI [inv_intros]:
  assumes "distinct (map g_id (groups d))" "distinct (map g_invite_code (groups d))"
    "distinct (map gm_key (memberships d))"
    "\<And>m. m \<in> set (memberships d) \<Longrightarrow> gm_group_id m \<in> g_id ` set (groups d) \<and> gm_user_id m \<in> u_id ` set (users d)"
    "\<And>g. g \<in> set (groups d) \<Longrightarrow> has_owner d (g_id g)"
    "\<And>uid. groups_of uid d \<le> cap"
  shows "groups_ok cap d"
  using assms by (simp add: groups_ok_def)

lemma groups_okD:
  assumes "groups_ok cap d"
  shows "distinct (map g_id (groups d))" "distinct (map g_invite_code (groups d))"
    "distinct (map gm_key (memberships d))"
    "m \<in> set (memberships d) \<Longrightarrow> gm_group_id m \<in> g_id ` set (groups d) \<and> gm_user_id m \<in> u_id ` set (users d)"
    "g \<in> set (groups d) \<Longrightarrow> has_owner d (g_id g)"
    "groups_of uid d \<le> cap"
  using assms by (simp_all add: groups_ok_def)

lemma groups_of_append:
  "groups_of uid (d \<lparr> memberships := memberships d @ [m] \<rparr>)
     = groups_of uid d + (if gm_user_id m = uid then 1 else 0)"
  by (simp add: groups_of_def count_where_def)

lemma groups_of_del_le: "groups_of uid (d \<lparr> memberships := del_where P (memberships d) \<rparr>) \<le> groups_of uid d"
proof -
  have "length (filter Q (del_where P ms)) \<le> length (filter Q ms)" for Q and ms :: "membership list"
    by (induction ms) auto
  then show ?thesis by (simp add: groups_of_def count_where_def)
qed

lemma check_group_quota_Inr: "check_group_quota uid cap d = Inr u \<longleftrightarrow> groups_of uid d < cap"
  by (auto simp: check_group_quota_def)

lemma lock_user_Inr: "lock_user_for_quota uid d = Inr u \<longleftrightarrow> uid \<in> u_id ` set (users d)"
  by (auto simp: lock_user_for_quota_def find_user_def find_None_iff split: if_splits)

lemma store_code_Inr: "store_code taken codes = Inr c \<longleftrightarrow> c = codes 0 \<and> \<not> taken c"
  by (auto simp: store_code_first)

lemma not_member_key: "\<not> is_group_member d uid gid \<Longrightarrow> (uid, gid) \<notin> gm_key ` set (memberships d)"
  by (auto simp: is_group_member_def gm_key_def)

section \<open>What the requests do\<close>

lemma create_group_Inr:
  assumes "create_group cap s name codes new_id now d = Inr d'"
  obtains uid where "s = Some uid" "uid \<in> u_id ` set (users d)" "groups_of uid d < cap"
    "new_id \<notin> g_id ` set (groups d)" "codes 0 \<notin> g_invite_code ` set (groups d)"
    "\<not> is_group_member d uid new_id"
    "d' = d \<lparr> groups := groups d @ [new_group new_id name (codes 0) uid now],
            memberships := memberships d @
              [\<lparr> gm_user_id = uid, gm_group_id = new_id, gm_role = Owner, gm_joined_at = now \<rparr>] \<rparr>"
  using assms
  by (auto simp: create_group_def current_user_def bind_res_eq_Inr lock_user_Inr check_group_quota_Inr
      store_code_Inr is_group_member_def split: if_splits)

lemma join_group_Inr:
  assumes "join_group cap s code now d = Inr d'"
  obtains uid g where "s = Some uid" "uid \<in> u_id ` set (users d)" "groups_of uid d < cap"
    "g \<in> set (groups d)" "g_invite_code g = code"
    "d' = (if is_group_member d uid (g_id g) then d
          else d \<lparr> memberships := memberships d @
                 [\<lparr> gm_user_id = uid, gm_group_id = g_id g, gm_role = Member, gm_joined_at = now \<rparr>] \<rparr>)"
  using assms
  by (auto simp: join_group_def current_user_def bind_res_eq_Inr lock_user_Inr check_group_quota_Inr
      dest: find_Some_memD)

lemma leave_group_Inr:
  assumes "leave_group s gid d = Inr d'"
  obtains uid where "s = Some uid"
    "member_role d uid gid \<noteq> Some Owner
       \<or> (\<exists>m\<in>set (memberships d). gm_group_id m = gid \<and> gm_user_id m \<noteq> uid \<and> gm_role m = Owner)"
    "d' = d \<lparr> memberships := del_where (\<lambda>m. gm_user_id m = uid \<and> gm_group_id m = gid) (memberships d) \<rparr>"
proof -
  obtain cur :: current_group where cur: "current_group_ex s gid d = Inr cur"
    using assms by (auto simp: leave_group_def bind_res_eq_Inr)
  then have s: "s = Some (cg_user_id cur)" "member_role d (cg_user_id cur) gid = Some (cg_role cur)"
    by (auto simp: current_group_ex_def current_user_def bind_res_eq_Inr)
  have f: "find (\<lambda>m. gm_user_id m = uid) (filter (\<lambda>m. gm_group_id m = gid) ms)
      = find (\<lambda>m. gm_user_id m = uid \<and> gm_group_id m = gid) ms" for uid ms
    by (induction ms) auto
  have "cg_role cur \<noteq> Owner
       \<or> (\<exists>m\<in>set (memberships d). gm_group_id m = gid \<and> gm_user_id m \<noteq> cg_user_id cur \<and> gm_role m = Owner)"
    "d' = d \<lparr> memberships := del_where (\<lambda>m. gm_user_id m = cg_user_id cur \<and> gm_group_id m = gid) (memberships d) \<rparr>"
    using assms s(2) cur
    by (auto simp: leave_group_def Let_def f member_role_def count_where_def filter_empty_conv split: if_splits)
  then show ?thesis using that [OF s(1)] s(2) by auto
qed

lemma delete_list_rows_frame [simp]:
  "groups (delete_list_rows lid d) = groups d" "memberships (delete_list_rows lid d) = memberships d"
  "users (delete_list_rows lid d) = users d"
  by (simp_all add: delete_list_rows_def Let_def)

lemma fold_delete_lists_frame [simp]:
  "groups (fold delete_list_rows lids d) = groups d" "memberships (fold delete_list_rows lids d) = memberships d"
  "users (fold delete_list_rows lids d) = users d"
  by (induction lids arbitrary: d) simp_all

section \<open>Every request keeps the invariant\<close>

lemma create_group_ok:
  assumes ok: "groups_ok cap d" and "create_group cap s name codes new_id now d = Inr d'"
  shows "groups_ok cap d'"
  using assms(2)
proof (cases rule: create_group_Inr)
  case (1 uid)
  have key: "(uid, new_id) \<notin> gm_key ` set (memberships d)" by (rule not_member_key [OF 1(6)])
  have "groups_of u d' \<le> cap" for u
    using groups_okD(6) [OF ok, of u] 1(3) by (auto simp: 1(7) groups_of_def count_where_def)
  moreover have "has_owner d' (g_id g)" if "g \<in> set (groups d')" for g
    using that groups_okD(5) [OF ok, of g] by (auto simp: 1(7) has_owner_def new_group_def)
  ultimately show ?thesis
    using groups_okD(1-4) [OF ok] 1(2,4,5) key
    by (intro groups_okI) (auto simp: 1(7) new_group_def gm_key_def)
qed

lemma join_group_ok:
  assumes ok: "groups_ok cap d" and "join_group cap s code now d = Inr d'"
  shows "groups_ok cap d'"
  using assms(2)
proof (cases rule: join_group_Inr)
  case (1 uid g)
  show ?thesis
  proof (cases "is_group_member d uid (g_id g)")
    case True
    then show ?thesis using ok 1(6) by simp
  next
    case False
    let ?m = "\<lparr> gm_user_id = uid, gm_group_id = g_id g, gm_role = Member, gm_joined_at = now \<rparr>"
    have d': "d' = d \<lparr> memberships := memberships d @ [?m] \<rparr>" using 1(6) False by simp
    have "(uid, g_id g) \<notin> gm_key ` set (memberships d)" by (rule not_member_key [OF False])
    moreover have "groups_of u d' \<le> cap" for u
      using groups_okD(6) [OF ok, of u] 1(3) by (auto simp: d' groups_of_append)
    moreover have "has_owner d' (g_id x)" if "x \<in> set (groups d')" for x
      using that groups_okD(5) [OF ok, of x] by (auto simp: d' has_owner_def)
    ultimately show ?thesis
      using groups_okD(1-4) [OF ok] 1(2,4) by (intro groups_okI) (auto simp: d' gm_key_def)
  qed
qed

lemma leave_group_ok:
  assumes ok: "groups_ok cap d" and "leave_group s gid d = Inr d'"
  shows "groups_ok cap d'"
  using assms(2)
proof (cases rule: leave_group_Inr)
  case (1 uid)
  have "has_owner d' (g_id g)" if g: "g \<in> set (groups d')" for g
  proof -
    obtain m where m: "m \<in> set (memberships d)" "gm_group_id m = g_id g" "gm_role m = Owner"
      using groups_okD(5) [OF ok, of g] g by (auto simp: 1(3) has_owner_def)
    show ?thesis
    proof (cases "gm_user_id m = uid \<and> g_id g = gid")
      case False
      then show ?thesis using m by (auto simp: 1(3) has_owner_def)
    next
      case True
      have "find (\<lambda>m. gm_user_id m = uid \<and> gm_group_id m = gid) (memberships d) = Some m"
        using find_keyI [OF groups_okD(3) [OF ok] m(1), of "(uid, gid)"] m(2) True by (simp add: gm_key_def)
      then have "member_role d uid gid = Some Owner" using m(3) by (simp add: member_role_def)
      then show ?thesis using 1(2) True by (auto simp: 1(3) has_owner_def)
    qed
  qed
  then show ?thesis
    using groups_okD [OF ok] order_trans [OF groups_of_del_le groups_okD(6) [OF ok]]
    by (intro groups_okI) (auto simp: 1(3))
qed

lemma distinct_upd_key:
  assumes "distinct (map k rs)" "distinct (map c rs)" "\<forall>r\<in>set rs. c r = v \<longrightarrow> k r = i" "\<And>r. c (f r) = v"
  shows "distinct (map c (upd_where (\<lambda>r. k r = i) f rs))"
  using assms(1-3)
proof (induction rs)
  case (Cons a rs)
  have IH: "distinct (map c (upd_where (\<lambda>r. k r = i) f rs))" using Cons by simp
  show ?case
  proof (cases "k a = i")
    case True
    have other: "k r \<noteq> i" if "r \<in> set rs" for r using Cons.prems(1) True that by (auto simp: image_iff)
    then have same: "upd_where (\<lambda>r. k r = i) f rs = rs" by (auto intro: upd_where_id)
    have "v \<notin> c ` set rs" using other Cons.prems(3) by force
    then show ?thesis using Cons.prems(2) True assms(4) by (simp add: same)
  next
    case False
    then have "c a \<noteq> v" using Cons.prems(3) by auto
    then have "c a \<notin> c ` set (upd_where (\<lambda>r. k r = i) f rs)"
      using Cons.prems(2) assms(4) by (auto simp: set_upd_where image_image split: if_splits)
    then show ?thesis using IH False by simp
  qed
qed simp

lemma rotate_invite_ok:
  assumes ok: "groups_ok cap d" and rot: "rotate_invite s gid codes d = Inr d'"
  shows "groups_ok cap d'"
proof -
  let ?f = "\<lambda>g. g \<lparr> g_invite_code := codes 0 \<rparr>"
  have d': "d' = d \<lparr> groups := upd_where (\<lambda>g. g_id g = gid) ?f (groups d) \<rparr>"
    and free: "\<forall>g\<in>set (groups d). g_invite_code g = codes 0 \<longrightarrow> g_id g = gid"
    using rot by (auto simp: rotate_invite_def bind_res_eq_Inr store_code_Inr split: if_splits)
  have ids: "map g_id (groups d') = map g_id (groups d)"
    by (simp add: d' map_upd_where_same)
  have "distinct (map g_invite_code (groups d'))"
    unfolding d' using distinct_upd_key [OF groups_okD(1,2) [OF ok], of "codes 0" gid ?f] free by simp
  moreover have "g_id ` set (groups d') = g_id ` set (groups d)" using arg_cong [OF ids, of set] by simp
  moreover have "has_owner d' (g_id g)" if "g \<in> set (groups d')" for g
    using that groups_okD(5) [OF ok] by (auto simp: d' has_owner_def set_upd_where split: if_splits)
  moreover have "groups_of u d' = groups_of u d" for u by (simp add: d' groups_of_def)
  ultimately show ?thesis
    using groups_okD [OF ok] ids by (intro groups_okI) (auto simp: d')
qed

lemma delete_group_ok:
  assumes ok: "groups_ok cap d" and del: "delete_group s gid d = Inr d'"
  shows "groups_ok cap d'"
proof -
  have eq: "d' = delete_group_rows gid d"
    using del by (auto simp: delete_group_def bind_res_eq_Inr split: if_splits)
  have d': "groups d' = del_where (\<lambda>g. g_id g = gid) (groups d)"
    "memberships d' = del_where (\<lambda>m. gm_group_id m = gid) (memberships d)" "users d' = users d"
    by (simp_all add: eq delete_group_rows_def Let_def)
  have "groups_of u d' \<le> cap" for u
    using order_trans [OF groups_of_del_le groups_okD(6) [OF ok, of u]] by (simp add: groups_of_def d')
  moreover have "has_owner d' (g_id g)" if "g \<in> set (groups d')" for g
    using that groups_okD(5) [OF ok, of g] by (auto simp: d' has_owner_def)
  moreover have "gm_group_id m \<in> g_id ` set (groups d') \<and> gm_user_id m \<in> u_id ` set (users d')"
    if "m \<in> set (memberships d')" for m
    using that groups_okD(4) [OF ok, of m] by (force simp: d')
  ultimately show ?thesis
    using groups_okD(1-3) [OF ok] by (intro groups_okI) (auto simp: d')
qed

section \<open>The requests as a system\<close>

datatype group_op =
    CreateGroup session string "nat \<Rightarrow> string" uuid instant
  | JoinGroup session string instant
  | LeaveGroup session uuid
  | DeleteGroup session uuid
  | RotateInvite session uuid "nat \<Rightarrow> string"

fun exec_group_op :: "int \<Rightarrow> group_op \<Rightarrow> db \<Rightarrow> db res" where
  "exec_group_op cap (CreateGroup s name codes nid now) d = create_group cap s name codes nid now d"
| "exec_group_op cap (JoinGroup s code now) d = join_group cap s code now d"
| "exec_group_op cap (LeaveGroup s gid) d = leave_group s gid d"
| "exec_group_op cap (DeleteGroup s gid) d = delete_group s gid d"
| "exec_group_op cap (RotateInvite s gid codes) d = rotate_invite s gid codes d"

lemmas group_oks = create_group_ok join_group_ok leave_group_ok delete_group_ok rotate_invite_ok

interpretation grp: transactional "exec_group_op cap" "groups_ok cap" for cap
proof unfold_locales
  fix d oper d'
  assume "groups_ok cap d" "exec_group_op cap oper d = Inr d'"
  then show "groups_ok cap d'" by (cases oper) (auto intro: group_oks)
qed

definition run_group_ops :: "int \<Rightarrow> group_op list \<Rightarrow> db \<Rightarrow> db" where
  "run_group_ops cap = fold (\<lambda>oper d. snd (tx_middleware (exec_group_op cap oper) d))"

lemma run_group_ops_ok: "groups_ok cap d \<Longrightarrow> groups_ok cap (run_group_ops cap opers d)"
  unfolding run_group_ops_def by (rule grp.run_inv)

end
