(* ===== verification/Group_Facts.thy ===== *)
theory Group_Facts
  imports Group_Requests Demo
begin

text \<open>
  The properties of groups: an owner for every group and the limit on memberships, for
  every sequence of requests; what deleting a group removes; and the retry of the invite
  code, which never happens.  The witnesses start from the group of \<open>Demo\<close>.
\<close>

definition demo_tenants :: db where
  "demo_tenants = demo_db \<lparr> groups :=
     [\<lparr> g_id = 5, g_name = ''G'', g_invite_code = ''abc'', g_created_by_user_id = 1,
        g_default_tip_pct = 0, g_created_at = 0 \<rparr>] \<rparr>"

lemma demo_tenants_ok: "groups_ok 2 demo_tenants"
  by (simp add: groups_ok_def demo_tenants_def demo_defs gm_key_def has_owner_def groups_of_def count_where_def)

text \<open>C22: whatever sequence of requests creates, joins, leaves and deletes groups and rotates
  their invite codes, every group has an owner who is an existing user, no two groups
  share an invite code, and nobody is in a group twice.\<close>

theorem reachable_groups_owned:
  assumes "groups_ok cap d" "d' = run_group_ops cap opers d"
  shows "(\<forall>g\<in>set (groups d'). \<exists>m\<in>set (memberships d'). gm_group_id m = g_id g \<and> gm_role m = Owner
            \<and> gm_user_id m \<in> u_id ` set (users d'))
    \<and> distinct (map g_invite_code (groups d'))
    \<and> distinct (map (\<lambda>m. (gm_user_id m, gm_group_id m)) (memberships d'))"
proof -
  have ok: "groups_ok cap d'" unfolding assms(2) by (rule run_group_ops_ok [OF assms(1)])
  have "\<exists>m\<in>set (memberships d'). gm_group_id m = g_id g \<and> gm_role m = Owner
            \<and> gm_user_id m \<in> u_id ` set (users d')" if "g \<in> set (groups d')" for g
    using groups_okD(5) [OF ok that] groups_okD(4) [OF ok] unfolding has_owner_def by blast
  then show ?thesis using groups_okD(2,3) [OF ok] by (simp add: gm_key_def [abs_def])
qed

theorem reachable_groups_owned_witness:
  "\<exists>m\<in>set (memberships (run_group_ops 2 [JoinGroup (Some 2) ''abc'' 1, LeaveGroup (Some 1) 5] demo_tenants)).
     gm_group_id m = 5 \<and> gm_role m = Owner"
proof -
  let ?d = "run_group_ops 2 [JoinGroup (Some 2) ''abc'' 1, LeaveGroup (Some 1) 5] demo_tenants"
  obtain g where g: "g \<in> set (groups ?d)" "g_id g = 5"
  proof
    show "hd (groups demo_tenants) \<in> set (groups ?d)" by code_simp
    show "g_id (hd (groups demo_tenants)) = 5" by code_simp
  qed
  obtain m where "m \<in> set (memberships ?d)" "gm_group_id m = g_id g" "gm_role m = Owner"
    using reachable_groups_owned [OF demo_tenants_ok refl] g(1) by blast
  then show ?thesis unfolding g(2) by blast
qed

text \<open>Nobody gets into more groups than the limit, by no sequence of requests, while a
  caller below the limit who knows the invite code always gets in.\<close>

theorem group_quota_kept:
  assumes "groups_ok cap d"
  shows "groups_of uid (run_group_ops cap opers d) \<le> cap
    \<and> (\<forall>g\<in>set (groups d). uid \<in> u_id ` set (users d) \<longrightarrow> groups_of uid d < cap \<longrightarrow>
         (\<exists>d'. join_group cap (Some uid) (g_invite_code g) now d = Inr d' \<and> is_group_member d' uid (g_id g)))"
proof (intro conjI ballI impI)
  show "groups_of uid (run_group_ops cap opers d) \<le> cap"
    by (rule groups_okD(6) [OF run_group_ops_ok [OF assms]])
next
  fix g
  assume g: "g \<in> set (groups d)" and u: "uid \<in> u_id ` set (users d)" "groups_of uid d < cap"
  have f: "find (\<lambda>x. g_invite_code x = g_invite_code g) (groups d) = Some g"
    by (rule find_keyI [OF groups_okD(2) [OF assms] g refl])
  have l: "lock_user_for_quota uid d = Inr ()" "check_group_quota uid cap d = Inr ()"
    using u lock_user_Inr [of uid d] check_group_quota_Inr [of uid cap d] by auto
  show "\<exists>d'. join_group cap (Some uid) (g_invite_code g) now d = Inr d' \<and> is_group_member d' uid (g_id g)"
    by (auto simp: join_group_def current_user_def f l is_group_member_def)
qed

theorem group_quota_kept_witness:
  "groups_of 2 (run_group_ops 2 [CreateGroup (Some 2) ''X'' (\<lambda>_. ''x'') 6 1, CreateGroup (Some 2) ''Y'' (\<lambda>_. ''y'') 7 2]
     demo_tenants) \<le> 2"
  using group_quota_kept [OF demo_tenants_ok] by blast

lemma delete_list_rows_tables:
  "lists (delete_list_rows lid d) = filter (\<lambda>l. l_id l \<noteq> lid) (lists d)"
  "list_items (delete_list_rows lid d) = filter (\<lambda>i. li_list_id i \<noteq> lid) (list_items d)"
  "claims (delete_list_rows lid d) = filter (\<lambda>c. c_list_id c \<noteq> lid) (claims d)"
  "reimbursements (delete_list_rows lid d) = filter (\<lambda>r. r_list_id r \<noteq> lid) (reimbursements d)"
  by (simp_all add: delete_list_rows_def Let_def del_where_def)

lemma fold_delete_lists_tables:
  "lists (fold delete_list_rows lids d) = filter (\<lambda>l. l_id l \<notin> set lids) (lists d)"
  "list_items (fold delete_list_rows lids d) = filter (\<lambda>i. li_list_id i \<notin> set lids) (list_items d)"
  "claims (fold delete_list_rows lids d) = filter (\<lambda>c. c_list_id c \<notin> set lids) (claims d)"
  "reimbursements (fold delete_list_rows lids d) = filter (\<lambda>r. r_list_id r \<notin> set lids) (reimbursements d)"
  by (induction lids arbitrary: d)
    (auto simp: delete_list_rows_tables filter_filter intro!: filter_cong)

lemma delete_group_rows_tables:
  fixes gid d
  defines "d1 \<equiv> fold delete_list_rows (map l_id (filter (\<lambda>l. l_group_id l = gid) (lists d))) d"
  shows "lists (delete_group_rows gid d) = lists d1" "list_items (delete_group_rows gid d) = list_items d1"
    "claims (delete_group_rows gid d) = claims d1" "reimbursements (delete_group_rows gid d) = reimbursements d1"
  by (simp_all add: delete_group_rows_def Let_def d1_def)

lemma lists_of_group:
  assumes "distinct (map l_id (lists d))" "l \<in> set (lists d)"
  shows "l_id l \<in> l_id ` {x \<in> set (lists d). l_group_id x = gid} \<longleftrightarrow> l_group_id l = gid"
  using distinct_map_unique [OF assms(1) assms(2)] assms(2) by blast

text \<open>C23: deleting a group removes the group and every row that belongs to it, and nothing
  else: no membership, list, item, claim or reimbursement of it is left, and the lists,
  items, claims and reimbursements of other groups are the same as before.\<close>

theorem delete_group_exact:
  assumes "distinct (map l_id (lists d))" "delete_group s gid d = Inr d'"
  shows "(\<exists>uid. s = Some uid \<and> member_role d uid gid = Some Owner)
    \<and> groups d' = filter (\<lambda>g. g_id g \<noteq> gid) (groups d)
    \<and> memberships d' = filter (\<lambda>m. gm_group_id m \<noteq> gid) (memberships d)
    \<and> lists d' = filter (\<lambda>l. l_group_id l \<noteq> gid) (lists d)
    \<and> (let gone = (\<lambda>lid. \<exists>l\<in>set (lists d). l_id l = lid \<and> l_group_id l = gid)
       in list_items d' = filter (\<lambda>i. \<not> gone (li_list_id i)) (list_items d)
        \<and> claims d' = filter (\<lambda>c. \<not> gone (c_list_id c)) (claims d)
        \<and> reimbursements d' = filter (\<lambda>r. \<not> gone (r_list_id r)) (reimbursements d))"
proof -
  let ?ids = "map l_id (filter (\<lambda>l. l_group_id l = gid) (lists d))"
  have d': "d' = delete_group_rows gid d" and own: "\<exists>uid. s = Some uid \<and> member_role d uid gid = Some Owner"
    using assms(2) by (auto simp: delete_group_def current_group_ex_def current_user_def bind_res_eq_Inr split: if_splits)
  have gone: "lid \<in> set ?ids \<longleftrightarrow> (\<exists>l\<in>set (lists d). l_id l = lid \<and> l_group_id l = gid)" for lid by auto
  have "filter (\<lambda>l. l_id l \<notin> set ?ids) (lists d) = filter (\<lambda>l. l_group_id l \<noteq> gid) (lists d)"
    by (rule filter_cong [OF refl]) (use lists_of_group [OF assms(1)] in simp)
  then have "lists d' = filter (\<lambda>l. l_group_id l \<noteq> gid) (lists d)"
    unfolding d' delete_group_rows_tables fold_delete_lists_tables .
  moreover have "groups d' = filter (\<lambda>g. g_id g \<noteq> gid) (groups d)"
    "memberships d' = filter (\<lambda>m. gm_group_id m \<noteq> gid) (memberships d)"
    by (simp_all add: d' delete_group_rows_def Let_def del_where_def)
  moreover have "list_items d' = filter (\<lambda>i. li_list_id i \<notin> set ?ids) (list_items d)"
    "claims d' = filter (\<lambda>c. c_list_id c \<notin> set ?ids) (claims d)"
    "reimbursements d' = filter (\<lambda>r. r_list_id r \<notin> set ?ids) (reimbursements d)"
    unfolding d' delete_group_rows_tables fold_delete_lists_tables by (rule refl)+
  ultimately show ?thesis using own unfolding gone Let_def by blast
qed

theorem delete_group_exact_witness:
  "\<exists>d'. delete_group (Some 1) 5 demo_tenants = Inr d' \<and> list_items d' = [] \<and> memberships d' = []"
proof -
  have d: "distinct (map l_id (lists demo_tenants))" by (simp add: demo_tenants_def demo_defs)
  obtain d' where d': "delete_group (Some 1) 5 demo_tenants = Inr d'"
    by (auto simp: delete_group_def current_group_ex_def current_user_def member_role_def demo_tenants_def demo_defs)
  show ?thesis
    using delete_group_exact [OF d d'] d' by (simp add: Let_def demo_tenants_def demo_defs)
qed

section \<open>The retry of the invite code\<close>

text \<open>The handler means to try up to eight codes.  When the first is taken the request fails,
  whatever the other seven are.\<close>

theorem invite_retry_never_succeeds:
  assumes "codes 0 \<in> g_invite_code ` set (groups d)"
  shows "create_group cap s name codes new_id now d \<noteq> Inr d'"
  using assms by (auto elim!: create_group_Inr)

end
