(* ===== verification/Corp_Facts.thy ===== *)
theory Corp_Facts
  imports Corps Group_Facts
begin

text \<open>
  The properties of corporations in a group: linking succeeds and makes the corp usable,
  the wallet is shown to owners and ambassadors only, the payer of a list changes only
  while nothing is owed on it, and what unlinking fails to do.
\<close>

section \<open>Linking\<close>

lemma upsert_corp_Inr:
  assumes "upsert_corp esi name ticker new_id now d = Inr (corp, d1)"
  obtains cs co where "d1 = d \<lparr> corps := cs \<rparr>" "co \<in> set cs" "cp_id co = corp" "cp_esi_corporation_id co = esi"
    "cp_disabled_at co = None" "cp_name co = name" "cp_ticker co = ticker"
proof (cases "find (\<lambda>co. cp_esi_corporation_id co = esi) (corps d)")
  case None
  then show ?thesis using assms by (intro that) (auto simp: upsert_corp_def split: if_splits)
next
  case (Some co)
  let ?f = "\<lambda>x. x \<lparr> cp_name := name, cp_ticker := ticker, cp_disabled_at := None, cp_last_synced_at := Some now \<rparr>"
  have co: "co \<in> set (corps d)" "cp_esi_corporation_id co = esi" using find_Some_memD [OF Some] by simp_all
  show ?thesis
    by (rule that [of "upd_where (\<lambda>x. cp_esi_corporation_id x = esi) ?f (corps d)" "?f co"])
      (use assms Some co in \<open>auto simp: upsert_corp_def set_upd_where\<close>)
qed

lemma upsert_corp_total:
  assumes "new_id \<notin> cp_id ` set (corps d)"
  shows "\<exists>corp d1. upsert_corp esi name ticker new_id now d = Inr (corp, d1)"
  using assms by (simp add: upsert_corp_def split: option.split)

lemma upsert_corp_principal_frame [simp]:
  "corps (upsert_corp_principal nid corp d) = corps d" "memberships (upsert_corp_principal nid corp d) = memberships d"
  "group_corps (upsert_corp_principal nid corp d) = group_corps d"
  "ambassadors (upsert_corp_principal nid corp d) = ambassadors d"
  "characters (upsert_corp_principal nid corp d) = characters d"
  by (simp_all add: upsert_corp_principal_def)

lemma upsert_link_frame [simp]:
  "corps (upsert_link gid corp uid now d) = corps d" "memberships (upsert_link gid corp uid now d) = memberships d"
  "principals (upsert_link gid corp uid now d) = principals d"
  "ambassadors (upsert_link gid corp uid now d) = ambassadors d"
  "characters (upsert_link gid corp uid now d) = characters d"
  by (simp_all add: upsert_link_def Let_def)

lemma upsert_ambassador_frame [simp]:
  "corps (upsert_ambassador corp chid sc via f d) = corps d"
  "memberships (upsert_ambassador corp chid sc via f d) = memberships d"
  "principals (upsert_ambassador corp chid sc via f d) = principals d"
  "group_corps (upsert_ambassador corp chid sc via f d) = group_corps d"
  "characters (upsert_ambassador corp chid sc via f d) = characters d"
  by (simp_all add: upsert_ambassador_def Let_def)

lemma upsert_link_active:
  "\<exists>gc\<in>set (group_corps (upsert_link gid corp uid now d)).
     gc_group_id gc = gid \<and> gc_corp_id gc = corp \<and> gc_unlinked_at gc = None"
  by (auto simp: upsert_link_def Let_def)

lemma upsert_ambassador_active:
  "\<exists>ca\<in>set (ambassadors (upsert_ambassador corp chid sc via f d)).
     ca_corp_id ca = corp \<and> ca_character_id ca = chid \<and> ca_disabled_at ca = None"
  by (auto simp: upsert_ambassador_def Let_def)

lemma upsert_corp_principal_exists:
  assumes "nid \<notin> p_id ` set (principals d)"
  shows "\<exists>p\<in>set (principals (upsert_corp_principal nid corp d)). p_kind p = PCorp \<and> p_corp_id p = Some corp"
  using assms by (auto simp: upsert_corp_principal_def)

lemma is_group_member_cong: "memberships d' = memberships d \<Longrightarrow> is_group_member d' uid gid = is_group_member d uid gid"
  by (simp add: is_group_member_def)

lemma linked_corp_listed:
  assumes "gc \<in> set (group_corps d)" "gc_group_id gc = gid" "gc_corp_id gc = corp" "gc_unlinked_at gc = None"
    and "is_group_member d uid gid" "co \<in> set (corps d)" "cp_id co = corp"
  shows "\<exists>dto. find (\<lambda>c. cd_id c = corp) (list_corps_inner d gid uid role) = Some dto"
proof -
  have "corp_view d uid role gc co \<in> set (list_corps_inner d gid uid role)"
    using assms by (auto simp: list_corps_inner_def seen_links_def)
  moreover have "cd_id (corp_view d uid role gc co) = corp" using assms(7) by (simp add: corp_view_def Let_def)
  ultimately show ?thesis by (metis (mono_tags, lifting) find_None_iff option.exhaust)
qed

text \<open>An owner of the group links the corporation of one of their characters whenever ESI
  answers: the request succeeds, and then the corporation is enabled, has a principal,
  is linked to the group, and the character is an enabled ambassador of it.  The error
  that the corporation is missing after the link never occurs.\<close>

theorem link_corp_succeeds:
  assumes "member_role d uid gid = Some Owner"
    and "ch \<in> set (characters d)" "distinct (map ch_character_id (characters d))" "ch_user_id ch = uid"
    and "fetch_corp env (ch_id ch) (ch_character_id ch) = Inr (esi, name, ticker)"
    and "new_corp \<notin> cp_id ` set (corps d)" "new_principal \<notin> p_id ` set (principals d)"
  shows "\<exists>dto d'. link_corp env (Some uid) gid (ch_character_id ch) new_corp new_principal now d = Inr (dto, d')
    \<and> (\<exists>co\<in>set (corps d'). cp_id co = cd_id dto \<and> cp_esi_corporation_id co = esi \<and> cp_disabled_at co = None)
    \<and> (\<exists>p\<in>set (principals d'). p_kind p = PCorp \<and> p_corp_id p = Some (cd_id dto))
    \<and> require_corp_in_group d' uid gid (cd_id dto) = Inr ()
    \<and> (\<exists>ca\<in>set (ambassadors d'). ca_corp_id ca = cd_id dto \<and> ca_character_id ca = ch_id ch \<and> ca_disabled_at ca = None)"
proof -
  have own: "own_character d uid (ch_character_id ch) = Inr ch"
  proof -
    have "find (\<lambda>x. ch_character_id x = ch_character_id ch) (characters d) = Some ch"
      by (rule find_keyI [OF assms(3,2) refl])
    moreover have "(ch_character_id x = ch_character_id ch \<and> ch_user_id x = uid) = (ch_character_id x = ch_character_id ch)"
      if "x \<in> set (characters d)" for x
      using distinct_map_unique [OF assms(3) that assms(2)] assms(4) by auto
    ultimately show ?thesis by (simp add: own_character_def cong: find_cong)
  qed
  obtain corp d1 where up: "upsert_corp esi name ticker new_corp now d = Inr (corp, d1)"
    using upsert_corp_total [OF assms(6)] by blast
  obtain cs and co :: corp where d1: "d1 = d \<lparr> corps := cs \<rparr>" and co: "co \<in> set cs" "cp_id co = corp"
    "cp_esi_corporation_id co = esi" "cp_disabled_at co = None"
    using upsert_corp_Inr [OF up] by metis
  define d2 where "d2 = upsert_corp_principal new_principal corp d1"
  define d3 where "d3 = upsert_link gid corp uid now d2"
  define d4 where "d4 = upsert_ambassador corp (ch_id ch) (ch_scopes ch) None id d3"
  note ds = d4_def d3_def d2_def d1
  have mem: "is_group_member d4 uid gid"
    using member_role_Some_member [OF assms(1)] is_group_member_cong [of d4 d] by (simp add: ds)
  obtain gc :: group_corp where gc: "gc \<in> set (group_corps d4)" "gc_group_id gc = gid" "gc_corp_id gc = corp" "gc_unlinked_at gc = None"
    using upsert_link_active [of gid corp uid now d2] by (auto simp: d4_def d3_def)
  have co4: "co \<in> set (corps d4)" using co(1) by (simp add: ds)
  obtain dto :: corp_dto where dto: "find (\<lambda>c. cd_id c = corp) (list_corps_inner d4 gid uid Owner) = Some dto"
    using linked_corp_listed [OF gc mem co4 co(2)] by blast
  have run: "link_corp env (Some uid) gid (ch_character_id ch) new_corp new_principal now d = Inr (dto, d4)"
    unfolding link_corp_def using dto assms(1,5) own up
    by (simp add: current_group_ex_def current_user_def d4_def d3_def d2_def)
  have id: "cd_id dto = corp" using find_Some_memD [OF dto] by simp
  have "\<exists>p\<in>set (principals d4). p_kind p = PCorp \<and> p_corp_id p = Some corp"
    using upsert_corp_principal_exists [of new_principal d1 corp] assms(7) by (simp add: ds)
  moreover have "require_corp_in_group d4 uid gid corp = Inr ()"
    using gc mem by (auto simp: require_corp_in_group_def seen_links_def)
  moreover have "\<exists>ca\<in>set (ambassadors d4). ca_corp_id ca = corp \<and> ca_character_id ca = ch_id ch \<and> ca_disabled_at ca = None"
    unfolding d4_def by (rule upsert_ambassador_active)
  ultimately show ?thesis using run co4 co(2-4) unfolding id [symmetric] by blast
qed

definition demo_character :: character where
  "demo_character = \<lparr> ch_id = 31, ch_user_id = 1, ch_character_id = 91, ch_character_name = ''Alt'',
     ch_owner_hash = ''h'', ch_scopes = [''publicData''], ch_refresh_token_ciphertext = ''x'',
     ch_refresh_token_nonce = ''n'', ch_access_token_ciphertext = None, ch_access_token_nonce = None,
     ch_access_token_expires_at = None, ch_token_key_id = ''v1'', ch_created_at = 0,
     ch_last_refreshed_at = None, ch_contracts_next_poll_at = None, ch_contracts_last_polled_at = None \<rparr>"

definition demo_esi :: link_env where
  "demo_esi = \<lparr> le_client = (\<lambda>_. True), le_affiliation = (\<lambda>c. Some [(c, 98)]),
     le_corporation = (\<lambda>_. Some (''Corp'', ''CRP'')) \<rparr>"

definition demo_corp_db :: db where
  "demo_corp_db = demo_tenants \<lparr> characters := [demo_character] \<rparr>"

lemma demo_owner: "member_role demo_corp_db 1 5 = Some Owner"
  by (simp add: demo_corp_db_def demo_tenants_def demo_defs member_role_def)

theorem link_corp_succeeds_witness:
  "\<exists>dto d'. link_corp demo_esi (Some 1) 5 91 40 24 1 demo_corp_db = Inr (dto, d')
     \<and> require_corp_in_group d' 1 5 (cd_id dto) = Inr ()"
proof -
  have ch: "demo_character \<in> set (characters demo_corp_db)" "distinct (map ch_character_id (characters demo_corp_db))"
    "ch_user_id demo_character = 1" "ch_character_id demo_character = 91"
    by (simp_all add: demo_corp_db_def demo_character_def)
  have f: "fetch_corp demo_esi (ch_id demo_character) (ch_character_id demo_character) = Inr (98, ''Corp'', ''CRP'')"
    by (simp add: fetch_corp_def demo_esi_def)
  have fresh: "40 \<notin> cp_id ` set (corps demo_corp_db)" "24 \<notin> p_id ` set (principals demo_corp_db)"
    by (simp_all add: demo_corp_db_def demo_tenants_def demo_defs)
  show ?thesis
    using link_corp_succeeds [OF demo_owner ch(1-3) f fresh, of 1] unfolding ch(4) by blast
qed

section \<open>The wallet\<close>

text \<open>An enabled ambassador of the corporation among the caller's characters.\<close>

definition enabled_ambassador :: "db \<Rightarrow> uuid \<Rightarrow> uuid \<Rightarrow> bool" where
  "enabled_ambassador d uid corp \<longleftrightarrow>
     (\<exists>ca\<in>set (ambassadors d). \<exists>ch\<in>set (characters d). ca_corp_id ca = corp \<and> ca_disabled_at ca = None
        \<and> ch_id ch = ca_character_id ca \<and> ch_user_id ch = uid)"

lemma caller_is_ambassadorD: "caller_is_ambassador d uid corp \<Longrightarrow> enabled_ambassador d uid corp"
  by (auto simp: caller_is_ambassador_def enabled_ambassador_def ambassador_rows_def)

lemma group_ex_Inr:
  assumes "current_group_ex s gid d = Inr cur"
  shows "s = Some (cg_user_id cur)" "member_role d (cg_user_id cur) gid = Some (cg_role cur)" "cg_group_id cur = gid"
  using assms by (auto simp: current_group_ex_def current_user_def bind_res_eq_Inr)

text \<open>C24: the balances of a corporation's wallet are confidential within the group: a balance
  is answered only to a caller who is an owner of the group or has an enabled
  ambassador of that corporation, and only while it is linked to the group.\<close>

theorem wallet_balance_confidential:
  assumes "list_corps s gid d = Inr (dtos, role)" "dto \<in> set dtos" "w \<in> set (cd_wallet_divisions dto)"
    and "dd_balance_isk w \<noteq> None"
  shows "\<exists>uid. s = Some uid \<and> require_corp_in_group d uid gid (cd_id dto) = Inr ()
     \<and> (member_role d uid gid = Some Owner \<or> enabled_ambassador d uid (cd_id dto))"
proof -
  obtain cur :: current_group where cur: "current_group_ex s gid d = Inr cur"
    and ds: "dtos = list_corps_inner d gid (cg_user_id cur) (cg_role cur)"
    using assms(1) by (auto simp: list_corps_def bind_res_eq_Inr)
  obtain gc :: group_corp and co :: corp where dto: "dto = corp_view d (cg_user_id cur) (cg_role cur) gc co"
    and gc: "gc \<in> set (seen_links d (cg_user_id cur))" "gc_group_id gc = gid" "gc_unlinked_at gc = None"
      "cp_id co = gc_corp_id gc"
    using assms(2) by (auto simp: ds list_corps_inner_def)
  have id: "cd_id dto = gc_corp_id gc" using gc(4) by (simp add: dto corp_view_def Let_def)
  have "cg_role cur = Owner \<or> caller_is_ambassador d (cg_user_id cur) (cp_id co)"
    using assms(3,4) by (auto simp: dto corp_view_def Let_def division_view_def split: if_splits)
  then have "cg_role cur = Owner \<or> enabled_ambassador d (cg_user_id cur) (cd_id dto)"
    using caller_is_ambassadorD gc(4) id by auto
  moreover have "require_corp_in_group d (cg_user_id cur) gid (cd_id dto) = Inr ()"
    using gc(1-3) by (auto simp: require_corp_in_group_def id)
  ultimately show ?thesis using group_ex_Inr [OF cur] by auto
qed

definition demo_wallet_db :: db where
  "demo_wallet_db = demo_corp_db \<lparr>
     corps := [\<lparr> cp_id = 40, cp_esi_corporation_id = 98, cp_name = ''Corp'', cp_ticker = ''CRP'',
                 cp_last_synced_at = None, cp_last_auth_error_at = None, cp_disabled_at = None,
                 cp_contracts_next_poll_at = None, cp_contracts_last_polled_at = None,
                 cp_wallet_next_poll_at = None, cp_wallet_last_polled_at = None \<rparr>],
     principals := principals demo_corp_db @
       [\<lparr> p_id = 24, p_kind = PCorp, p_user_id = None, p_corp_id = Some 40 \<rparr>],
     group_corps := [\<lparr> gc_group_id = 5, gc_corp_id = 40, gc_linked_at = 1, gc_linked_by_user_id = 1,
                       gc_unlinked_at = None \<rparr>,
                     \<lparr> gc_group_id = 6, gc_corp_id = 40, gc_linked_at = 1, gc_linked_by_user_id = 9,
                       gc_unlinked_at = None \<rparr>],
     ambassadors := [\<lparr> ca_corp_id = 40, ca_character_id = 31, ca_granted_scopes = [], ca_last_used_at = None,
                       ca_last_auth_error_at = None, ca_disabled_at = None,
                       ca_contributed_via_group_id = Some 5 \<rparr>],
     wallet_divisions := [\<lparr> wd_corp_id = 40, wd_division = 1, wd_name = None, wd_balance_isk = 100,
                            wd_last_synced_at = None \<rparr>] \<rparr>"

lemmas demo_wallet_defs = demo_wallet_db_def demo_corp_db_def demo_tenants_def demo_character_def demo_defs

theorem wallet_balance_confidential_witness:
  "\<exists>dtos dto w. list_corps (Some 1) 5 demo_wallet_db = Inr (dtos, Owner) \<and> dto \<in> set dtos
     \<and> w \<in> set (cd_wallet_divisions dto) \<and> dd_balance_isk w = Some 100
     \<and> require_corp_in_group demo_wallet_db 1 5 (cd_id dto) = Inr ()"
proof -
  obtain dtos where l: "list_corps (Some 1) 5 demo_wallet_db = Inr (dtos, Owner)"
    and ds: "dtos = list_corps_inner demo_wallet_db 5 1 Owner"
    by (simp add: list_corps_def current_group_ex_def current_user_def member_role_def demo_wallet_defs)
  have "map (\<lambda>c. map dd_balance_isk (cd_wallet_divisions c)) (list_corps_inner demo_wallet_db 5 1 Owner) = [[Some 100]]"
    by code_simp
  then obtain dto w where w: "dto \<in> set dtos" "w \<in> set (cd_wallet_divisions dto)" "dd_balance_isk w = Some 100"
    unfolding ds by (auto simp: map_eq_Cons_conv)
  then show ?thesis using wallet_balance_confidential [OF l w(1,2)] l by auto
qed

text \<open>The journal of a corporation is answered only to an owner of the group or a caller
  with an enabled ambassador, while the corporation is linked to the group; the answer
  has at most 500 entries, all of that corporation, newest first.\<close>

theorem journal_confidential:
  assumes "list_journal s gid corp limit before division d = Inr js"
  shows "(\<exists>uid. s = Some uid \<and> require_corp_in_group d uid gid corp = Inr ()
      \<and> ((\<exists>m\<in>set (memberships d). gm_user_id m = uid \<and> gm_group_id m = gid \<and> gm_role m = Owner)
         \<or> enabled_ambassador d uid corp))
    \<and> length js \<le> 500 \<and> sorted (map (\<lambda>j. - j_date j) js) \<and> set js \<subseteq> {j \<in> set (journal d). j_corp_id j = corp}"
proof -
  obtain cur :: current_group where cur: "current_group_ex s gid d = Inr cur"
    using assms by (auto simp: list_journal_def bind_res_eq_Inr)
  let ?P = "\<lambda>j. j_corp_id j = corp \<and> is_corp_member d (cg_user_id cur) corp
             \<and> (case before of None \<Rightarrow> True | Some t \<Rightarrow> j_date j < t)
             \<and> (case division of None \<Rightarrow> True | Some dv \<Rightarrow> j_division j = dv)"
  have js: "js = take (nat (clamp 1 500 limit)) (sort_key (\<lambda>j. - j_date j) (filter ?P (journal d)))"
    and req: "require_corp_in_group d (cg_user_id cur) gid corp = Inr ()"
    and who: "caller_is_ambassador d (cg_user_id cur) corp
       \<or> (\<exists>m\<in>set (memberships d). gm_group_id m = gid \<and> gm_user_id m = cg_user_id cur \<and> gm_role m = Owner)"
    using assms cur by (auto simp: list_journal_def Let_def bind_res_eq_Inr split: if_splits)
  have "length js \<le> 500" by (auto simp: js clamp_def)
  moreover have "sorted (map (\<lambda>j. - j_date j) js)"
    unfolding js take_map [symmetric] by (rule sorted_wrt_take [OF sorted_sort_key])
  moreover have "set js \<subseteq> {j \<in> set (journal d). j_corp_id j = corp}" unfolding js by (auto dest!: in_set_takeD)
  ultimately show ?thesis
    using group_ex_Inr(1) [OF cur] req who caller_is_ambassadorD [of d "cg_user_id cur" corp] by blast
qed

theorem journal_confidential_witness:
  "\<exists>js. list_journal (Some 1) 5 40 200 None None demo_wallet_db = Inr js \<and> length js \<le> 500"
proof -
  obtain js where "list_journal (Some 1) 5 40 200 None None demo_wallet_db = Inr js"
    by (simp add: list_journal_def Let_def current_group_ex_def current_user_def member_role_def
        require_corp_in_group_def seen_links_def is_group_member_def demo_wallet_defs)
  then show ?thesis using journal_confidential by blast
qed

section \<open>The payer\<close>

lemma patch_list_payer_Inr:
  assumes "patch_list_payer s lid payer division d = Inr d'"
  obtains uid l where "s = Some uid" "l \<in> set (lists d)" "l_id l = lid" "member_role d uid (l_group_id l) = Some Owner"
    "\<forall>r\<in>set (reimbursements d). r_list_id r \<noteq> lid"
    "\<forall>corp. payer = Some corp \<longrightarrow> corp \<in> gc_corp_id ` {gc \<in> set (group_corps d).
        gc_group_id gc = l_group_id l \<and> gc_unlinked_at gc = None}"
    "(payer = None) = (division = None)"
    "d' = d \<lparr> lists := upd_where (\<lambda>x. l_id x = lid)
             (\<lambda>x. x \<lparr> l_payer_corp_id := payer, l_payer_division := division \<rparr>) (lists d) \<rparr>"
proof -
  obtain uid l where s: "s = Some uid"
    and l: "find (\<lambda>l. l_id l = lid \<and> is_group_member d uid (l_group_id l)
                     \<and> member_role d uid (l_group_id l) = Some Owner) (lists d) = Some l"
    and req: "(case payer of None \<Rightarrow> Inr () | Some corp \<Rightarrow> require_corp_in_group d uid (l_group_id l) corp) = Inr ()"
    and rest: "\<forall>r\<in>set (reimbursements d). r_list_id r \<noteq> lid" "(payer = None) = (division = None)"
      "d' = d \<lparr> lists := upd_where (\<lambda>x. l_id x = lid)
             (\<lambda>x. x \<lparr> l_payer_corp_id := payer, l_payer_division := division \<rparr>) (lists d) \<rparr>"
    using assms by (auto simp: patch_list_payer_def current_user_def bind_res_eq_Inr split: if_splits)
  have "corp \<in> gc_corp_id ` {gc \<in> set (group_corps d). gc_group_id gc = l_group_id l \<and> gc_unlinked_at gc = None}"
    if "payer = Some corp" for corp
    using req that by (auto simp: require_corp_in_group_def seen_links_def split: if_splits)
  then show ?thesis using that [OF s] find_Some_memD [OF l] rest by blast
qed

lemma list_payer_patched:
  assumes "l \<in> set (lists d)" "l_id l = lid"
    and "d' = d \<lparr> lists := upd_where (\<lambda>x. l_id x = lid)
             (\<lambda>x. x \<lparr> l_payer_corp_id := payer, l_payer_division := division \<rparr>) (lists d) \<rparr>"
  shows "list_payer d' = (list_payer d)(lid \<mapsto> payer)"
proof
  fix x
  have "map_option l_payer_corp_id (find (\<lambda>l. l_id l = x) (upd_where (\<lambda>x. l_id x = lid)
             (\<lambda>x. x \<lparr> l_payer_corp_id := payer, l_payer_division := division \<rparr>) ls))
      = (if x = lid then (if lid \<in> l_id ` set ls then Some payer else None)
         else map_option l_payer_corp_id (find (\<lambda>l. l_id l = x) ls))" for ls
    by (induction ls) auto
  note found = this [of "lists d"]
  have "list_payer d' x = map_option l_payer_corp_id (find (\<lambda>l. l_id l = x) (upd_where (\<lambda>x. l_id x = lid)
             (\<lambda>x. x \<lparr> l_payer_corp_id := payer, l_payer_division := division \<rparr>) (lists d)))"
    unfolding list_payer_def find_list_def assms(3) by simp
  moreover have "lid \<in> l_id ` set (lists d)" using assms(1,2) by blast
  ultimately show "list_payer d' x = ((list_payer d)(lid \<mapsto> payer)) x"
    unfolding found fun_upd_apply by (simp add: list_payer_def find_list_def)
qed

text \<open>Every linked corporation and every requester has a principal.\<close>

definition payers_ok :: "db \<Rightarrow> bool" where
  "payers_ok d \<longleftrightarrow> (\<forall>gc\<in>set (group_corps d). corp_principal d (gc_corp_id gc) \<noteq> None)
     \<and> (\<forall>i\<in>set (list_items d). user_principal d (li_requested_by_user_id i) \<noteq> None)"


lemma demo_wallet_inv: "life_inv demo_wallet_db"
  by (simp add: life_inv_def refs_ok_def claims_ok_def items_ok_def reimbs_ok_def cover_ok_def
      settled_ok_def live_on_def item_ok_def base_status_def fulfilled_qty_def has_active_claim_def
      list_payer_def payer_principal_def find_list_def user_principal_def demo_wallet_defs)

lemma demo_wallet_payers: "payers_ok demo_wallet_db"
  by (simp add: payers_ok_def corp_principal_def user_principal_def demo_wallet_defs)


section \<open>Unlinking\<close>

text \<open>Unlinking clears the only link through which the caller sees the corporation, and the
  later statements of the request run under row-level security: the ambassadors the
  group contributed are not disabled, and the corporation is disabled although other
  groups still link it.\<close>

lemma deactivate_link_frame [simp]:
  "ambassadors (deactivate_link uid gid corp now d) = ambassadors d"
  "memberships (deactivate_link uid gid corp now d) = memberships d"
  "corps (deactivate_link uid gid corp now d) = corps d"
  by (simp_all add: deactivate_link_def)

definition only_link :: "db \<Rightarrow> uuid \<Rightarrow> uuid \<Rightarrow> uuid \<Rightarrow> bool" where
  "only_link d uid corp gid \<longleftrightarrow> (\<forall>gc\<in>set (group_corps d). gc_corp_id gc = corp \<longrightarrow> gc_unlinked_at gc = None \<longrightarrow>
     is_group_member d uid (gc_group_id gc) \<longrightarrow> gc_group_id gc = gid)"

lemma deactivated_unseen:
  assumes "only_link d uid corp gid"
  shows "\<not> is_corp_member (deactivate_link uid gid corp now d) uid corp"
    and "count_where (\<lambda>gc. gc_corp_id gc = corp \<and> gc_unlinked_at gc = None)
           (seen_links (deactivate_link uid gid corp now d) uid) = 0"
proof -
  let ?d1 = "deactivate_link uid gid corp now d"
  have m: "is_group_member ?d1 = is_group_member d"
    by (simp add: fun_eq_iff is_group_member_def)
  have gone: "gc_unlinked_at gc \<noteq> None"
    if gc: "gc \<in> set (group_corps ?d1)" "gc_corp_id gc = corp" "is_group_member d uid (gc_group_id gc)" for gc
  proof -
    let ?P = "\<lambda>g. gc_group_id g = gid \<and> gc_corp_id g = corp \<and> gc_unlinked_at g = None
             \<and> is_group_member d uid (gc_group_id g)"
    have "gc \<in> set (upd_where ?P (\<lambda>g. g \<lparr> gc_unlinked_at := Some now \<rparr>) (group_corps d))"
      using gc(1) by (simp add: deactivate_link_def)
    then obtain g0 where g0: "g0 \<in> set (group_corps d)" "gc = (if ?P g0 then g0 \<lparr> gc_unlinked_at := Some now \<rparr> else g0)"
      by (rule in_upd_whereE)
    show ?thesis
    proof (cases "?P g0")
      case True
      then have "gc = g0 \<lparr> gc_unlinked_at := Some now \<rparr>" unfolding g0(2) by (rule if_P)
      then show ?thesis by simp
    next
      case False
      then have "gc = g0" unfolding g0(2) by (rule if_not_P)
      then show ?thesis using False g0(1) gc(2,3) assms by (auto simp: only_link_def)
    qed
  qed
  show "\<not> is_corp_member ?d1 uid corp" unfolding is_corp_member_def m using gone by blast
  show "count_where (\<lambda>gc. gc_corp_id gc = corp \<and> gc_unlinked_at gc = None) (seen_links ?d1 uid) = 0"
    unfolding seen_links_def m count_where_def using gone by (auto simp: filter_empty_conv)
qed

lemma disable_unseen:
  assumes "\<not> is_corp_member d uid corp"
  shows "disable_ambassadors uid P corp now d = d"
proof -
  have "upd_where (\<lambda>ca. ca_corp_id ca = corp \<and> P ca \<and> ca_disabled_at ca = None
         \<and> is_corp_member d uid (ca_corp_id ca)) f (ambassadors d) = ambassadors d" for f
    using assms by (auto intro: upd_where_id)
  then show ?thesis by (simp add: disable_ambassadors_def)
qed

theorem unlink_corp_blind:
  assumes "unlink_corp (Some uid) gid corp now d = Inr d'" "only_link d uid corp gid"
  shows "ambassadors d' = ambassadors d \<and> (\<forall>co\<in>set (corps d'). cp_id co = corp \<longrightarrow> cp_disabled_at co = Some now)"
proof -
  let ?d1 = "deactivate_link uid gid corp now d"
  have d2: "disable_ambassadors uid P corp now ?d1 = ?d1" for P
    by (rule disable_unseen [OF deactivated_unseen(1) [OF assms(2)]])
  have "d' = ?d1 \<lparr> corps := upd_where (\<lambda>co. cp_id co = corp) (\<lambda>co. co \<lparr> cp_disabled_at := Some now \<rparr>) (corps ?d1) \<rparr>"
    using assms(1) deactivated_unseen(2) [OF assms(2)]
    by (auto simp: unlink_corp_def Let_def current_group_ex_def current_user_def bind_res_eq_Inr d2 split: if_splits)
  then show ?thesis by auto
qed

theorem unlink_corp_blind_witness:
  "\<exists>d'. unlink_corp (Some 1) 5 40 9 demo_wallet_db = Inr d' \<and> ambassadors d' = ambassadors demo_wallet_db
     \<and> (\<exists>gc\<in>set (group_corps d'). gc_group_id gc = 6 \<and> gc_corp_id gc = 40 \<and> gc_unlinked_at gc = None)
     \<and> (\<exists>co\<in>set (corps d'). cp_id co = 40 \<and> cp_disabled_at co = Some 9)"
proof -
  have only: "only_link demo_wallet_db 1 40 5"
    by (simp add: only_link_def demo_wallet_defs is_group_member_def)
  obtain d' where d': "unlink_corp (Some 1) 5 40 9 demo_wallet_db = Inr d'"
    "\<exists>gc\<in>set (group_corps d'). gc_group_id gc = 6 \<and> gc_corp_id gc = 40 \<and> gc_unlinked_at gc = None"
    "\<exists>co\<in>set (corps d'). cp_id co = 40"
    by (simp add: unlink_corp_def Let_def current_group_ex_def current_user_def member_role_def
        require_corp_in_group_def seen_links_def is_group_member_def disable_ambassadors_def deactivate_link_def demo_wallet_defs)
  then show ?thesis using unlink_corp_blind [OF d'(1) only] by blast
qed

end
