(* ===== verification/Webhooks.thy ===== *)
theory Webhooks
  imports System "HOL-Library.Sublist"
begin

text \<open>
  Discord notifications (\<^verbatim>\<open>webhook-dispatch/src/lib.rs\<close>, \<^verbatim>\<open>api/src/webhooks.rs\<close>,
  \<^verbatim>\<open>worker/src/jobs/pending_webhooks.rs\<close>): the webhook an owner configures for a group,
  the JSON of an event, and the job that drains the queue with a lease, exponential
  backoff and a bounded number of attempts.

  The requests of the other theories enqueue with \<open>fire_webhook\<close>; here the rows of the queue
  carry the columns only the drainer uses.  The HTTP post is an argument: \<open>send t url body\<close>
  says whether Discord accepted \<open>body\<close> at time \<open>t\<close>.
\<close>

section \<open>Events as JSON\<close>

datatype json = JStr string | JNum int | JObj "(string \<times> json) list" | JArr "json list"

text \<open>The wire form of an event: amounts are strings.\<close>

datatype wire_event =
    WListCreated string int string string
  | WListClaimed string string int
  | WListDelivered string string
  | WReimbursementSettled string string string string

text \<open>\<^verbatim>\<open>serde(tag = "kind")\<close>: an object with the name of the variant under \<^verbatim>\<open>kind\<close>.\<close>

fun event_to_json :: "wire_event \<Rightarrow> json" where
  "event_to_json (WListCreated dest n est creator) =
     JObj [(''kind'', JStr ''ListCreated''), (''list_destination'', JStr dest), (''item_count'', JNum n),
           (''estimate_isk'', JStr est), (''creator_name'', JStr creator)]"
| "event_to_json (WListClaimed dest hauler n) =
     JObj [(''kind'', JStr ''ListClaimed''), (''list_destination'', JStr dest),
           (''hauler_name'', JStr hauler), (''item_count'', JNum n)]"
| "event_to_json (WListDelivered dest hauler) =
     JObj [(''kind'', JStr ''ListDelivered''), (''list_destination'', JStr dest),
           (''hauler_name'', JStr hauler)]"
| "event_to_json (WReimbursementSettled dest req hauler amount) =
     JObj [(''kind'', JStr ''ReimbursementSettled''), (''list_destination'', JStr dest),
           (''requester_name'', JStr req), (''hauler_name'', JStr hauler), (''total_isk'', JStr amount)]"

definition json_str :: "(string \<times> json) list \<Rightarrow> string \<Rightarrow> string option" where
  "json_str fs k = (case map_of fs k of Some (JStr s) \<Rightarrow> Some s | _ \<Rightarrow> None)"

text \<open>\<open>json_num lo hi\<close> reads an integer of a Rust type with that range.\<close>

definition json_num :: "int \<Rightarrow> int \<Rightarrow> (string \<times> json) list \<Rightarrow> string \<Rightarrow> int option" where
  "json_num lo hi fs k = (case map_of fs k of Some (JNum n) \<Rightarrow> if lo \<le> n \<and> n \<le> hi then Some n else None | _ \<Rightarrow> None)"

definition usize_max :: int where "usize_max = 2 ^ 64 - 1"

fun event_from_json :: "json \<Rightarrow> wire_event option" where
  "event_from_json (JObj fs) =
     Option.bind (json_str fs ''kind'') (\<lambda>kind.
     Option.bind (json_str fs ''list_destination'') (\<lambda>dest.
     if kind = ''ListCreated'' then
       Option.bind (json_num i64_min i64_max fs ''item_count'') (\<lambda>n.
       Option.bind (json_str fs ''estimate_isk'') (\<lambda>est.
       map_option (WListCreated dest n est) (json_str fs ''creator_name'')))
     else if kind = ''ListClaimed'' then
       Option.bind (json_str fs ''hauler_name'') (\<lambda>hauler.
       map_option (WListClaimed dest hauler) (json_num 0 usize_max fs ''item_count''))
     else if kind = ''ListDelivered'' then
       map_option (WListDelivered dest) (json_str fs ''hauler_name'')
     else if kind = ''ReimbursementSettled'' then
       Option.bind (json_str fs ''requester_name'') (\<lambda>req.
       Option.bind (json_str fs ''hauler_name'') (\<lambda>hauler.
       map_option (WReimbursementSettled dest req hauler) (json_str fs ''total_isk'')))
     else None))"
| "event_from_json _ = None"

text \<open>The integers of an event have their Rust types.\<close>

fun event_typed :: "wire_event \<Rightarrow> bool" where
  "event_typed (WListCreated _ n _ _) \<longleftrightarrow> i64_min \<le> n \<and> n \<le> i64_max"
| "event_typed (WListClaimed _ _ n) \<longleftrightarrow> 0 \<le> n \<and> n \<le> usize_max"
| "event_typed _ \<longleftrightarrow> True"

section \<open>The message\<close>

fun is_enabled :: "wire_event \<Rightarrow> webhook_row \<Rightarrow> bool" where
  "is_enabled (WListCreated _ _ _ _) w = wh_notify_list_created w"
| "is_enabled (WListClaimed _ _ _) w = wh_notify_list_claimed w"
| "is_enabled (WListDelivered _ _) w = wh_notify_list_delivered w"
| "is_enabled (WReimbursementSettled _ _ _ _) w = wh_notify_reimbursement_settled w"

fun embed_color :: "wire_event \<Rightarrow> int" where
  "embed_color (WListCreated _ _ _ _) = 0x2f81f7"
| "embed_color (WListClaimed _ _ _) = 0xd29922"
| "embed_color (WListDelivered _ _) = 0x3fb950"
| "embed_color (WReimbursementSettled _ _ _ _) = 0x8b949e"

fun event_title :: "wire_event \<Rightarrow> string" where
  "event_title (WListCreated dest _ _ _) = ''New list: '' @ dest"
| "event_title (WListClaimed dest hauler _) = hauler @ '' claimed items on '' @ dest"
| "event_title (WListDelivered dest hauler) = hauler @ '' delivered '' @ dest"
| "event_title (WReimbursementSettled dest _ _ _) = ''Reimbursement settled: '' @ dest"

text \<open>The arrow U+2192 is written as its three UTF-8 bytes.\<close>

definition arrow :: string where
  "arrow = [CHR 0xE2, CHR 0x86, CHR 0x92]"

fun event_description :: "wire_event \<Rightarrow> string" where
  "event_description (WListCreated _ n est creator) =
     creator @ '' created a list with '' @ string_of_int n @ '' items (est. '' @ est @ '' ISK)''"
| "event_description (WListClaimed _ _ n) = string_of_int n @ '' item(s) claimed''"
| "event_description (WListDelivered _ _) = ''All items delivered/settled''"
| "event_description (WReimbursementSettled _ req hauler amount) =
     req @ '' '' @ arrow @ '' '' @ hauler @ '': '' @ amount @ '' ISK''"

definition build_payload :: "wire_event \<Rightarrow> json" where
  "build_payload ev = JObj [(''embeds'', JArr [JObj [(''title'', JStr (event_title ev)),
     (''description'', JStr (event_description ev)), (''color'', JNum (embed_color ev))]])]"

section \<open>Configuration\<close>

datatype webhook_error = WBadRequest string | WForbidden | WDb | WSend

fun webhook_status :: "webhook_error \<Rightarrow> nat" where
  "webhook_status (WBadRequest _) = 400"
| "webhook_status WForbidden = 403"
| "webhook_status WDb = 500"
| "webhook_status WSend = 500"

text \<open>The handlers answer with the error of \<^verbatim>\<open>WebhookError\<close>, as an \<open>api_error\<close> of the same status.\<close>

fun of_webhook_error :: "webhook_error \<Rightarrow> api_error" where
  "of_webhook_error (WBadRequest m) = BadRequest m"
| "of_webhook_error WForbidden = Forbidden ''owner only''"
| "of_webhook_error WDb = Internal ''internal error''"
| "of_webhook_error WSend = Internal ''internal error''"

definition fetch_row :: "db \<Rightarrow> uuid \<Rightarrow> webhook_row option" where
  "fetch_row d gid = find (\<lambda>w. wh_group_id w = gid) (webhook_configs d)"

definition do_get_webhook :: "db \<Rightarrow> uuid \<Rightarrow> group_role \<Rightarrow> webhook_error + webhook_row option" where
  "do_get_webhook d gid role = (if role \<noteq> Owner then Inl WForbidden else Inr (fetch_row d gid))"

definition discord_url :: "string \<Rightarrow> bool" where
  "discord_url url \<longleftrightarrow> utf8_len url \<le> 512
     \<and> (prefix ''https://discord.com/api/webhooks/'' url \<or> prefix ''https://discordapp.com/api/webhooks/'' url)"

definition do_upsert_webhook :: "uuid \<Rightarrow> group_role \<Rightarrow> webhook_row \<Rightarrow> db \<Rightarrow> webhook_error + db" where
  "do_upsert_webhook gid role body d =
     (if role \<noteq> Owner then Inl WForbidden
      else if 512 < utf8_len (wh_webhook_url body) then Inl (WBadRequest ''webhook_url is too long'')
      else if \<not> prefix ''https://discord.com/api/webhooks/'' (wh_webhook_url body)
            \<and> \<not> prefix ''https://discordapp.com/api/webhooks/'' (wh_webhook_url body)
      then Inl (WBadRequest ''webhook_url must be a Discord webhook URL'')
      else Inr (d \<lparr> webhook_configs :=
             (if \<exists>w\<in>set (webhook_configs d). wh_group_id w = gid
              then upd_where (\<lambda>w. wh_group_id w = gid) (\<lambda>_. body \<lparr> wh_group_id := gid \<rparr>) (webhook_configs d)
              else webhook_configs d @ [body \<lparr> wh_group_id := gid \<rparr>]) \<rparr>))"

definition do_delete_webhook :: "uuid \<Rightarrow> group_role \<Rightarrow> db \<Rightarrow> webhook_error + db" where
  "do_delete_webhook gid role d =
     (if role \<noteq> Owner then Inl WForbidden
      else Inr (d \<lparr> webhook_configs := del_where (\<lambda>w. wh_group_id w = gid) (webhook_configs d) \<rparr>))"

definition lift_webhook :: "webhook_error + 'a \<Rightarrow> 'a res" where
  "lift_webhook r = (case r of Inl e \<Rightarrow> Inl (of_webhook_error e) | Inr a \<Rightarrow> Inr a)"

lemma lift_webhook_Inr [simp]: "lift_webhook r = Inr a \<longleftrightarrow> r = Inr a"
  by (simp add: lift_webhook_def split: sum.split)

definition get_webhook :: "session \<Rightarrow> uuid \<Rightarrow> db \<Rightarrow> webhook_row option res" where
  "get_webhook s gid d =
     bind_res (current_group_ex s gid d) (\<lambda>cur. lift_webhook (do_get_webhook d gid (cg_role cur)))"

definition upsert_webhook :: "session \<Rightarrow> uuid \<Rightarrow> webhook_row \<Rightarrow> db \<Rightarrow> db res" where
  "upsert_webhook s gid body d =
     bind_res (current_group_ex s gid d) (\<lambda>cur. lift_webhook (do_upsert_webhook gid (cg_role cur) body d))"

definition delete_webhook :: "session \<Rightarrow> uuid \<Rightarrow> db \<Rightarrow> db res" where
  "delete_webhook s gid d =
     bind_res (current_group_ex s gid d) (\<lambda>cur. lift_webhook (do_delete_webhook gid (cg_role cur) d))"

section \<open>Delivery\<close>

text \<open>Where an event of a group goes: nowhere without a webhook or with its kind switched off.\<close>

definition dispatch_target :: "db \<Rightarrow> uuid \<Rightarrow> wire_event \<Rightarrow> string option" where
  "dispatch_target d gid ev =
     (case fetch_row d gid of None \<Rightarrow> None
      | Some w \<Rightarrow> if is_enabled ev w then Some (wh_webhook_url w) else None)"

definition dispatch_webhook :: "(string \<Rightarrow> json \<Rightarrow> bool) \<Rightarrow> db \<Rightarrow> uuid \<Rightarrow> wire_event \<Rightarrow> webhook_error + unit" where
  "dispatch_webhook send d gid ev =
     (case dispatch_target d gid ev of None \<Rightarrow> Inr ()
      | Some url \<Rightarrow> if send url (build_payload ev) then Inr () else Inl WSend)"

section \<open>The queue\<close>

record queued =
  q_id :: uuid
  q_group_id :: uuid
  q_payload :: json
  q_attempts :: int
  q_next_attempt_at :: instant

definition BATCH :: nat where "BATCH = 50"
definition MAX_ATTEMPTS :: int where "MAX_ATTEMPTS = 8"
definition LEASE_SECS :: int where "LEASE_SECS = 600"

definition enqueue :: "uuid \<Rightarrow> uuid \<Rightarrow> wire_event \<Rightarrow> instant \<Rightarrow> queued list \<Rightarrow> queued list" where
  "enqueue new_id gid ev now q =
     q @ [\<lparr> q_id = new_id, q_group_id = gid, q_payload = event_to_json ev, q_attempts = 0,
            q_next_attempt_at = now \<rparr>]"

text \<open>\<open>free\<close> are the rows that no concurrent transaction has locked
  (\<^verbatim>\<open>FOR UPDATE SKIP LOCKED\<close>).\<close>

definition due_rows :: "instant \<Rightarrow> (uuid \<Rightarrow> bool) \<Rightarrow> queued list \<Rightarrow> queued list" where
  "due_rows now free q =
     take BATCH (sort_key q_next_attempt_at (filter (\<lambda>r. q_next_attempt_at r \<le> now \<and> free (q_id r)) q))"

definition lease :: "instant \<Rightarrow> queued list \<Rightarrow> queued list \<Rightarrow> queued list" where
  "lease now batch q =
     upd_where (\<lambda>r. q_id r \<in> q_id ` set batch) (\<lambda>r. r \<lparr> q_next_attempt_at := now + LEASE_SECS \<rparr>) q"

definition retry_delay :: "int \<Rightarrow> int" where
  "retry_delay attempts = min (2 ^ nat attempts) 3600"

definition delete_queued :: "uuid \<Rightarrow> queued list \<Rightarrow> queued list" where
  "delete_queued i q = del_where (\<lambda>r. q_id r = i) q"

definition process_row ::
  "(instant \<Rightarrow> string \<Rightarrow> json \<Rightarrow> bool) \<Rightarrow> db \<Rightarrow> instant \<Rightarrow> queued \<Rightarrow> queued list \<Rightarrow> queued list" where
  "process_row send d t row q =
     (case event_from_json (q_payload row) of
        None \<Rightarrow> delete_queued (q_id row) q
      | Some ev \<Rightarrow>
          (case dispatch_webhook (send t) d (q_group_id row) ev of
             Inr _ \<Rightarrow> delete_queued (q_id row) q
           | Inl _ \<Rightarrow>
               let new_attempts = q_attempts row + 1 in
               if MAX_ATTEMPTS \<le> new_attempts then delete_queued (q_id row) q
               else upd_where (\<lambda>r. q_id r = q_id row)
                      (\<lambda>r. r \<lparr> q_attempts := new_attempts,
                              q_next_attempt_at := t + retry_delay new_attempts \<rparr>) q))"

text \<open>One run of the job at \<open>now\<close>; \<open>clock i\<close> is when row \<open>i\<close> is dispatched.\<close>

definition drain ::
  "(instant \<Rightarrow> string \<Rightarrow> json \<Rightarrow> bool) \<Rightarrow> db \<Rightarrow> (uuid \<Rightarrow> bool) \<Rightarrow> (uuid \<Rightarrow> instant) \<Rightarrow> instant \<Rightarrow>
     queued list \<Rightarrow> queued list" where
  "drain send d free clock now q =
     (let batch = due_rows now free q
      in fold (\<lambda>row. process_row send d (clock (q_id row)) row) batch (lease now batch q))"

end
