(* ===== verification/Webhook_Facts.thy ===== *)
theory Webhook_Facts
  imports Webhooks Group_Facts
begin

text \<open>
  The properties of notifications: an event survives its JSON form, a run of the drainer
  described row by row, the bounds on attempts and delays, the lease, the emptying of
  the queue whatever Discord answers, and that nothing is ever posted elsewhere than to
  Discord.
\<close>

section \<open>JSON\<close>

text \<open>An event read back from its JSON form is the event, so the drainer never drops an
  enqueued event as malformed.\<close>

theorem event_json_round_trip:
  assumes "event_typed ev"
  shows "event_from_json (event_to_json ev) = Some ev"
  using assms by (cases ev) (simp_all add: json_str_def json_num_def)

theorem event_json_round_trip_witness:
  "event_from_json (event_to_json (WListClaimed ''Jita'' ''B'' 3)) = Some (WListClaimed ''Jita'' ''B'' 3)"
  by (rule event_json_round_trip) (simp add: usize_max_def)

section \<open>A run of the drainer, row by row\<close>

text \<open>The fate of a row that is dispatched at \<open>t\<close>: gone, or kept for another attempt.\<close>

definition fate :: "(instant \<Rightarrow> string \<Rightarrow> json \<Rightarrow> bool) \<Rightarrow> db \<Rightarrow> instant \<Rightarrow> queued \<Rightarrow> (int \<times> instant) option" where
  "fate send d t row =
     (case event_from_json (q_payload row) of None \<Rightarrow> None
      | Some ev \<Rightarrow>
          if dispatch_webhook (send t) d (q_group_id row) ev = Inr () \<or> MAX_ATTEMPTS \<le> q_attempts row + 1 then None
          else Some (q_attempts row + 1, t + retry_delay (q_attempts row + 1)))"

definition apply_fate :: "(int \<times> instant) option \<Rightarrow> queued \<Rightarrow> queued list" where
  "apply_fate v r = (case v of None \<Rightarrow> []
     | Some (a, n) \<Rightarrow> [r \<lparr> q_attempts := a, q_next_attempt_at := n \<rparr>])"

lemma apply_fate_id: "x \<in> set (apply_fate v r) \<Longrightarrow> q_id x = q_id r"
  by (auto simp: apply_fate_def split: option.splits)

lemma apply_fate_lease [simp]: "apply_fate v (r \<lparr> q_next_attempt_at := n \<rparr>) = apply_fate v r"
  by (simp add: apply_fate_def split: option.split)

lemma process_row_fate:
  "process_row send d t row q
     = concat (map (\<lambda>r. if q_id r = q_id row then apply_fate (fate send d t row) r else [r]) q)"
proof -
  have del: "delete_queued i q = concat (map (\<lambda>r. if q_id r = i then [] else [r]) q)" for i q
    by (induction q) (simp_all add: delete_queued_def)
  have upd: "upd_where (\<lambda>r. q_id r = i) f q = concat (map (\<lambda>r. if q_id r = i then [f r] else [r]) q)" for i f q
    by (induction q) simp_all
  have res: "x = Inr () \<or> (\<exists>e. x = Inl e)" for x :: "webhook_error + unit" by (cases x) auto
  let ?v = "fate send d t row"
  have "process_row send d t row q = (case ?v of None \<Rightarrow> delete_queued (q_id row) q
     | Some (a, n) \<Rightarrow> upd_where (\<lambda>r. q_id r = q_id row) (\<lambda>r. r \<lparr> q_attempts := a, q_next_attempt_at := n \<rparr>) q)"
  proof (cases "event_from_json (q_payload row)")
    case (Some ev)
    then show ?thesis
      using res [of "dispatch_webhook (send t) d (q_group_id row) ev"]
      by (auto simp: process_row_def fate_def Let_def)
  qed (simp add: process_row_def fate_def)
  also have "\<dots> = concat (map (\<lambda>r. if q_id r = q_id row then apply_fate ?v r else [r]) q)"
    by (cases ?v) (auto simp: apply_fate_def del upd cong: if_cong)
  finally show ?thesis .
qed

lemma concat_map_concat: "concat (map g (concat (map h xs))) = concat (map (\<lambda>x. concat (map g (h x))) xs)"
  by (induction xs) simp_all

lemma process_rows_fate:
  assumes "distinct (map q_id bs)"
  shows "fold (\<lambda>row. process_row send d (clock (q_id row)) row) bs q
    = concat (map (\<lambda>r. case find (\<lambda>b. q_id b = q_id r) bs of None \<Rightarrow> [r]
        | Some b \<Rightarrow> apply_fate (fate send d (clock (q_id b)) b) r) q)"
  using assms
proof (induction bs arbitrary: q)
  case Nil
  show ?case by simp
next
  case (Cons b bs)
  let ?g = "\<lambda>r. case find (\<lambda>b. q_id b = q_id r) bs of None \<Rightarrow> [r]
        | Some b \<Rightarrow> apply_fate (fate send d (clock (q_id b)) b) r"
  have none: "find (\<lambda>x. q_id x = q_id b) bs = None" using Cons.prems by (auto simp: find_None_iff image_iff)
  have keep: "concat (map ?g (apply_fate v r)) = apply_fate v r" if "q_id r = q_id b" for v r
    using that none by (auto simp: apply_fate_def split: option.split)
  have "fold (\<lambda>row. process_row send d (clock (q_id row)) row) (b # bs) q
      = concat (map ?g (process_row send d (clock (q_id b)) b q))"
    using Cons by simp
  also have "\<dots> = concat (map (\<lambda>r. if q_id r = q_id b then apply_fate (fate send d (clock (q_id b)) b) r else ?g r) q)"
    unfolding process_row_fate concat_map_concat
    by (intro arg_cong [of _ _ concat] map_cong refl) (simp add: keep)
  also have "\<dots> = concat (map (\<lambda>r. case find (\<lambda>x. q_id x = q_id r) (b # bs) of None \<Rightarrow> [r]
        | Some b \<Rightarrow> apply_fate (fate send d (clock (q_id b)) b) r) q)"
    by (intro arg_cong [of _ _ concat] map_cong refl) auto
  finally show ?case .
qed

lemma due_rows_sub: "r \<in> set (due_rows now free q) \<Longrightarrow> r \<in> set q \<and> q_next_attempt_at r \<le> now \<and> free (q_id r)"
  by (auto simp: due_rows_def dest!: in_set_takeD)

lemma distinct_map_sort_key: "distinct (map f (sort_key k xs)) = distinct (map f xs)"
  by (simp add: distinct_map)

lemma due_rows_distinct:
  assumes "distinct (map q_id q)"
  shows "distinct (map q_id (due_rows now free q))"
proof -
  have "distinct (map q_id (sort_key q_next_attempt_at (filter P q)))" for P
    using assms by (simp add: distinct_map_sort_key distinct_map_filter)
  then show ?thesis unfolding due_rows_def take_map [symmetric] by (rule distinct_take)
qed

lemma drain_concat:
  assumes "distinct (map q_id q)"
  shows "drain send d free clock now q =
    concat (map (\<lambda>r. if r \<in> set (due_rows now free q) then apply_fate (fate send d (clock (q_id r)) r) r else [r]) q)"
proof -
  let ?b = "due_rows now free q"
  let ?find = "\<lambda>r. find (\<lambda>b. q_id b = q_id r) ?b"
  let ?lease = "\<lambda>r. if q_id r \<in> q_id ` set ?b then r \<lparr> q_next_attempt_at := now + LEASE_SECS \<rparr> else r"
  have in_b: "?find r = (if r \<in> set ?b then Some r else None)" if "r \<in> set q" for r
  proof (cases "r \<in> set ?b")
    case True
    then show ?thesis using find_keyI [OF due_rows_distinct [OF assms] True refl] by simp
  next
    case False
    have "q_id b \<noteq> q_id r" if "b \<in> set ?b" for b
      using distinct_map_unique [OF assms] due_rows_sub [OF that] \<open>r \<in> set q\<close> False that by blast
    then show ?thesis using False by (simp add: find_None_iff)
  qed
  have "drain send d free clock now q = concat (map (\<lambda>r. case ?find (?lease r) of None \<Rightarrow> [?lease r]
        | Some b \<Rightarrow> apply_fate (fate send d (clock (q_id b)) b) (?lease r)) q)"
    by (simp add: drain_def Let_def process_rows_fate [OF due_rows_distinct [OF assms]] lease_def upd_where_def comp_def)
  also have "\<dots> = concat (map (\<lambda>r. if r \<in> set ?b then apply_fate (fate send d (clock (q_id r)) r) r else [r]) q)"
  proof (intro arg_cong [of _ _ concat] map_cong refl)
    fix r
    assume r: "r \<in> set q"
    have "q_id (?lease r) = q_id r" by simp
    moreover have "?lease r = r" if "r \<notin> set ?b"
    proof -
      have "q_id r \<notin> q_id ` set ?b"
        using in_b [OF r] that by (auto simp: find_None_iff)
      then show ?thesis by (rule if_not_P)
    qed
    ultimately show "(case ?find (?lease r) of None \<Rightarrow> [?lease r]
        | Some b \<Rightarrow> apply_fate (fate send d (clock (q_id b)) b) (?lease r))
      = (if r \<in> set ?b then apply_fate (fate send d (clock (q_id r)) r) r else [r])"
      using in_b [OF r] by (cases "r \<in> set ?b") simp_all
  qed
  finally show ?thesis .
qed

text \<open>A run of the drainer treats every row on its own.  A row that is not in the batch
  stays as it is; a row of the batch is removed exactly when its payload is malformed, it
  was delivered (or its group wants no such notification), or this was the eighth
  failure; otherwise it stays with one more attempt, due again after the backoff.\<close>

theorem drain_rowwise:
  assumes "distinct (map q_id q)"
  shows "drain send d free clock now q =
    concat (map (\<lambda>r. if r \<in> set (due_rows now free q) then apply_fate (fate send d (clock (q_id r)) r) r else [r]) q)"
  by (rule drain_concat [OF assms])

definition demo_queue :: "queued list" where
  "demo_queue = enqueue 71 5 (WListDelivered ''Jita'' ''B'') 0 (enqueue 70 5 (WListClaimed ''Jita'' ''B'' 2) 0 [])"

definition demo_hook :: webhook_row where
  "demo_hook = \<lparr> wh_group_id = 5, wh_webhook_url = ''https://discord.com/api/webhooks/1'',
     wh_notify_list_created = True, wh_notify_list_claimed = True, wh_notify_list_delivered = True,
     wh_notify_reimbursement_settled = True \<rparr>"

definition demo_hooked :: db where
  "demo_hooked = demo_tenants \<lparr> webhook_configs := [demo_hook] \<rparr>"

lemma demo_queue_distinct: "distinct (map q_id demo_queue)"
  by (simp add: demo_queue_def enqueue_def)

theorem drain_rowwise_witness:
  "map (\<lambda>r. (q_id r, q_attempts r, q_next_attempt_at r))
     (drain (\<lambda>_ _ _. False) demo_hooked (\<lambda>_. True) (\<lambda>_. 1) 1 demo_queue) = [(70, 1, 3), (71, 1, 3)]"
  unfolding drain_rowwise [OF demo_queue_distinct] by code_simp

section \<open>Attempts and delays\<close>

definition queue_ok :: "queued list \<Rightarrow> bool" where
  "queue_ok q \<longleftrightarrow> distinct (map q_id q) \<and> (\<forall>r\<in>set q. 0 \<le> q_attempts r \<and> q_attempts r < MAX_ATTEMPTS)"

lemma fate_Some:
  assumes "fate send d t r = Some (a, n)"
  shows "a = q_attempts r + 1" "a < MAX_ATTEMPTS" "n = t + retry_delay a"
  using assms by (auto simp: fate_def split: option.splits if_splits)

lemma retry_delay_bounds:
  assumes "1 \<le> a" "a < MAX_ATTEMPTS"
  shows "retry_delay a = 2 ^ nat a" "2 \<le> retry_delay a" "retry_delay a \<le> 128"
proof -
  have "a \<in> {1, 2, 3, 4, 5, 6, 7}" using assms by (auto simp: MAX_ATTEMPTS_def)
  then show "retry_delay a = 2 ^ nat a" "2 \<le> retry_delay a" "retry_delay a \<le> 128"
    by (auto simp: retry_delay_def)
qed

lemma drain_rows:
  assumes "queue_ok q" "r' \<in> set (drain send d free clock now q)"
  shows "(r' \<in> set q \<and> r' \<notin> set (due_rows now free q))
    \<or> (\<exists>r\<in>set (due_rows now free q). r' = r \<lparr> q_attempts := q_attempts r + 1,
          q_next_attempt_at := clock (q_id r) + retry_delay (q_attempts r + 1) \<rparr>
        \<and> q_attempts r + 1 < MAX_ATTEMPTS)"
proof -
  have dis: "distinct (map q_id q)" using assms(1) by (simp add: queue_ok_def)
  obtain r where r: "r \<in> set q"
    "r' \<in> set (if r \<in> set (due_rows now free q) then apply_fate (fate send d (clock (q_id r)) r) r else [r])"
    using assms(2) unfolding drain_concat [OF dis] by auto
  show ?thesis
  proof (cases "r \<in> set (due_rows now free q)")
    case False
    then show ?thesis using r by simp
  next
    case True
    then obtain a n where f: "fate send d (clock (q_id r)) r = Some (a, n)"
      "r' = r \<lparr> q_attempts := a, q_next_attempt_at := n \<rparr>"
      using r(2) by (cases "fate send d (clock (q_id r)) r") (auto simp: apply_fate_def)
    then show ?thesis using fate_Some [OF f(1)] True by blast
  qed
qed

lemma distinct_concat_sub:
  assumes "distinct (map k xs)" "\<And>x. x \<in> set xs \<Longrightarrow> f x = [] \<or> (\<exists>y. f x = [y] \<and> k y = k x)"
  shows "distinct (map k (concat (map f xs)))"
  using assms
proof (induction xs)
  case (Cons a xs)
  have sub: "k ` set (concat (map f xs)) \<subseteq> k ` set xs"
  proof
    fix i
    assume "i \<in> k ` set (concat (map f xs))"
    then obtain x y where "x \<in> set xs" "y \<in> set (f x)" "i = k y" by auto
    then show "i \<in> k ` set xs" using Cons.prems(2) [of x] by auto
  qed
  have IH: "distinct (map k (concat (map f xs)))" using Cons by simp
  have "f a = [] \<or> (\<exists>y. f a = [y] \<and> k y = k a)" using Cons.prems(2) by simp
  moreover have "k a \<notin> k ` set (concat (map f xs))" using sub Cons.prems(1) by auto
  ultimately show ?case using IH by auto
qed simp

lemma drain_ok:
  assumes "queue_ok q"
  shows "queue_ok (drain send d free clock now q)"
proof -
  have dis: "distinct (map q_id q)" using assms by (simp add: queue_ok_def)
  have "distinct (map q_id (drain send d free clock now q))"
    unfolding drain_concat [OF dis] by (rule distinct_concat_sub [OF dis]) (auto simp: apply_fate_def split: option.split)
  moreover have "0 \<le> q_attempts r' \<and> q_attempts r' < MAX_ATTEMPTS" if "r' \<in> set (drain send d free clock now q)" for r'
    using drain_rows [OF assms that] assms due_rows_sub unfolding queue_ok_def by force
  ultimately show ?thesis by (simp add: queue_ok_def)
qed

text \<open>A queued notification has failed fewer than eight times in every state, and the
  delay after the \<open>n\<close>-th failure is exactly \<open>2 ^ n\<close> seconds, between 2 and 128: the cap of an
  hour is never reached.\<close>

theorem drain_bounds:
  assumes "queue_ok q" "r' \<in> set (drain send d free clock now q)"
  shows "0 \<le> q_attempts r' \<and> q_attempts r' < 8
    \<and> (r' \<in> set q \<or> (\<exists>delay. q_next_attempt_at r' = clock (q_id r') + delay \<and> delay = 2 ^ nat (q_attempts r')
         \<and> 2 \<le> delay \<and> delay \<le> 128))"
proof -
  have "0 \<le> q_attempts r' \<and> q_attempts r' < 8"
    using drain_ok [OF assms(1)] assms(2) unfolding queue_ok_def MAX_ATTEMPTS_def by blast
  moreover have "r' \<in> set q \<or> (\<exists>delay. q_next_attempt_at r' = clock (q_id r') + delay \<and> delay = 2 ^ nat (q_attempts r')
         \<and> 2 \<le> delay \<and> delay \<le> 128)"
    using drain_rows [OF assms]
  proof
    assume "\<exists>r\<in>set (due_rows now free q). r' = r \<lparr> q_attempts := q_attempts r + 1,
          q_next_attempt_at := clock (q_id r) + retry_delay (q_attempts r + 1) \<rparr> \<and> q_attempts r + 1 < MAX_ATTEMPTS"
    then obtain r where r: "r \<in> set (due_rows now free q)" "q_attempts r + 1 < MAX_ATTEMPTS"
      "r' = r \<lparr> q_attempts := q_attempts r + 1, q_next_attempt_at := clock (q_id r) + retry_delay (q_attempts r + 1) \<rparr>"
      by blast
    have "1 \<le> q_attempts r + 1" using due_rows_sub [OF r(1)] assms(1) by (auto simp: queue_ok_def)
    then show ?thesis using retry_delay_bounds [OF _ r(2)] by (simp add: r(3))
  qed blast
  ultimately show ?thesis by blast
qed

lemma demo_queue_ok: "queue_ok demo_queue"
  by (simp add: queue_ok_def demo_queue_def enqueue_def MAX_ATTEMPTS_def)

theorem drain_bounds_witness:
  "\<exists>r'\<in>set (drain (\<lambda>_ _ _. False) demo_hooked (\<lambda>_. True) (\<lambda>_. 1) 1 demo_queue). q_attempts r' < 8"
proof -
  let ?q = "drain (\<lambda>_ _ _. False) demo_hooked (\<lambda>_. True) (\<lambda>_. 1) 1 demo_queue"
  have "map q_id ?q = [70, 71]" by code_simp
  then obtain r' where "r' \<in> set ?q" by (cases ?q) auto
  then show ?thesis using drain_bounds [OF demo_queue_ok] by blast
qed

text \<open>While a row is leased no other run of the drainer picks it up: for 600 seconds after
  a batch was taken, no row of it is due.\<close>

theorem lease_exclusive:
  assumes "now' < now + LEASE_SECS"
  shows "q_id ` set (due_rows now' free' (lease now (due_rows now free q) q)) \<inter> q_id ` set (due_rows now free q) = {}"
proof -
  let ?b = "due_rows now free q"
  have "q_id r \<notin> q_id ` set ?b" if "r \<in> set (due_rows now' free' (lease now ?b q))" for r
  proof
    assume "q_id r \<in> q_id ` set ?b"
    moreover have "r \<in> set (lease now ?b q)" "q_next_attempt_at r \<le> now'" using due_rows_sub [OF that] by simp_all
    ultimately have "q_next_attempt_at r = now + LEASE_SECS"
      by (auto simp: lease_def set_upd_where split: if_splits)
    then show False using \<open>q_next_attempt_at r \<le> now'\<close> assms by simp
  qed
  then show ?thesis by blast
qed

theorem lease_exclusive_witness:
  "q_id ` set (due_rows 500 (\<lambda>_. True) (lease 0 (due_rows 0 (\<lambda>_. True) demo_queue) demo_queue))
     \<inter> q_id ` set (due_rows 0 (\<lambda>_. True) demo_queue) = {}"
  by (rule lease_exclusive) (simp add: LEASE_SECS_def)

section \<open>The queue empties\<close>

definition attempts_left :: "queued \<Rightarrow> nat" where
  "attempts_left r = nat (MAX_ATTEMPTS - q_attempts r)"

definition backlog :: "queued list \<Rightarrow> nat" where
  "backlog q = sum_list (map attempts_left q)"

lemma backlog_concat: "backlog (concat xss) = sum_list (map backlog xss)"
  by (induction xss) (simp_all add: backlog_def)

lemma sum_list_less:
  fixes f g :: "'a \<Rightarrow> nat"
  assumes "\<And>x. x \<in> set xs \<Longrightarrow> f x \<le> g x" "x \<in> set xs" "f x < g x"
  shows "sum_list (map f xs) < sum_list (map g xs)"
proof -
  obtain ys zs where xs: "xs = ys @ x # zs" using split_list [OF assms(2)] by blast
  have "sum_list (map f ys) \<le> sum_list (map g ys)" "sum_list (map f zs) \<le> sum_list (map g zs)"
    using assms(1) by (auto simp: xs intro!: sum_list_mono)
  then show ?thesis using assms(3) by (simp add: xs)
qed

lemma fate_backlog:
  assumes "0 \<le> q_attempts r" "q_attempts r < MAX_ATTEMPTS"
  shows "backlog (apply_fate (fate send d t r) r) < attempts_left r"
proof (cases "fate send d t r")
  case None
  then show ?thesis using assms(2) by (simp add: apply_fate_def backlog_def attempts_left_def)
next
  case (Some v)
  then obtain a n where v: "fate send d t r = Some (a, n)" by (cases v) auto
  show ?thesis using fate_Some(1,2) [OF v] assms by (simp add: v apply_fate_def backlog_def attempts_left_def)
qed

lemma drain_backlog:
  assumes "queue_ok q" "due_rows now free q \<noteq> []"
  shows "backlog (drain send d free clock now q) < backlog q"
proof -
  have dis: "distinct (map q_id q)" using assms(1) by (simp add: queue_ok_def)
  let ?f = "\<lambda>r. if r \<in> set (due_rows now free q) then apply_fate (fate send d (clock (q_id r)) r) r else [r]"
  obtain r where r: "r \<in> set (due_rows now free q)" using assms(2) by (cases "due_rows now free q") auto
  have less: "backlog (?f x) < attempts_left x" if "x \<in> set (due_rows now free q)" for x
    using that fate_backlog [of x] due_rows_sub [OF that] assms(1) by (simp add: queue_ok_def)
  have "backlog (?f x) \<le> attempts_left x" for x
    using less [of x] by (cases "x \<in> set (due_rows now free q)") (auto simp: backlog_def)
  then have "sum_list (map (\<lambda>x. backlog (?f x)) q) < sum_list (map attempts_left q)"
    using less [OF r] due_rows_sub [OF r] by (intro sum_list_less [of q _ _ r]) auto
  then show ?thesis unfolding drain_concat [OF dis] backlog_concat by (simp add: backlog_def comp_def)
qed

lemma all_due: "q \<noteq> [] \<Longrightarrow> (\<And>r. r \<in> set q \<Longrightarrow> q_next_attempt_at r \<le> now) \<Longrightarrow> due_rows now (\<lambda>_. True) q \<noteq> []"
proof -
  assume ne: "q \<noteq> []" and due: "\<And>r. r \<in> set q \<Longrightarrow> q_next_attempt_at r \<le> now"
  have "filter (\<lambda>r. q_next_attempt_at r \<le> now \<and> True) q = q" using due by simp
  moreover have "sort_key q_next_attempt_at q \<noteq> []" using ne by (metis length_0_conv length_sort)
  ultimately show ?thesis by (simp add: due_rows_def BATCH_def)
qed

text \<open>Successive runs of the job: run \<open>n\<close> starts at \<open>T n\<close>, sees the configuration \<open>ds n\<close> and
  dispatches row \<open>i\<close> at \<open>clock n i\<close>.\<close>

fun drain_rounds ::
  "(instant \<Rightarrow> string \<Rightarrow> json \<Rightarrow> bool) \<Rightarrow> (nat \<Rightarrow> db) \<Rightarrow> (nat \<Rightarrow> uuid \<Rightarrow> instant) \<Rightarrow> (nat \<Rightarrow> instant) \<Rightarrow>
     nat \<Rightarrow> queued list \<Rightarrow> queued list" where
  "drain_rounds send ds clock T 0 q = q"
| "drain_rounds send ds clock T (Suc n) q =
     drain send (ds n) (\<lambda>_. True) (clock n) (T n) (drain_rounds send ds clock T n q)"

lemma drain_rounds_inv:
  fixes send ds clock T q n
  assumes "queue_ok q" "\<And>r. r \<in> set q \<Longrightarrow> q_next_attempt_at r \<le> T 0"
    and "\<And>n i. clock n i + 128 \<le> T (Suc n)" "\<And>n. T n \<le> T (Suc n)"
  defines "qs \<equiv> \<lambda>n. drain_rounds send ds clock T n q"
  shows "queue_ok (qs n) \<and> (\<forall>r\<in>set (qs n). q_next_attempt_at r \<le> T n) \<and> (qs n \<noteq> [] \<longrightarrow> backlog (qs n) + n \<le> backlog q)"
proof (induction n)
  case 0
  show ?case using assms(1,2) by (simp add: qs_def)
next
  case (Suc n)
  let ?due = "due_rows (T n) (\<lambda>_. True) (qs n)"
  have ok: "queue_ok (qs n)" and due: "\<And>r. r \<in> set (qs n) \<Longrightarrow> q_next_attempt_at r \<le> T n"
    and less: "qs n \<noteq> [] \<Longrightarrow> backlog (qs n) + n \<le> backlog q" using Suc by auto
  have step: "qs (Suc n) = drain send (ds n) (\<lambda>_. True) (clock n) (T n) (qs n)" by (simp add: qs_def)
  have "q_next_attempt_at r' \<le> T (Suc n)" if "r' \<in> set (qs (Suc n))" for r'
    using drain_rows [OF ok that [unfolded step]]
  proof
    assume "r' \<in> set (qs n) \<and> r' \<notin> set ?due"
    then show ?thesis using due order_trans assms(4) by blast
  next
    assume "\<exists>r\<in>set ?due. r' = r \<lparr> q_attempts := q_attempts r + 1,
          q_next_attempt_at := clock n (q_id r) + retry_delay (q_attempts r + 1) \<rparr> \<and> q_attempts r + 1 < MAX_ATTEMPTS"
    then obtain r where r: "r \<in> set ?due" "q_attempts r + 1 < MAX_ATTEMPTS"
      "q_next_attempt_at r' = clock n (q_id r) + retry_delay (q_attempts r + 1)" by auto
    have "1 \<le> q_attempts r + 1" using due_rows_sub [OF r(1)] ok by (auto simp: queue_ok_def)
    then show ?thesis using retry_delay_bounds(3) [OF _ r(2)] assms(3) [of n "q_id r"] r(3) by linarith
  qed
  moreover have "backlog (qs (Suc n)) + Suc n \<le> backlog q" if "qs (Suc n) \<noteq> []"
  proof -
    have ne: "qs n \<noteq> []" using that by (auto simp: step drain_def due_rows_def lease_def)
    then show ?thesis using drain_backlog [OF ok all_due [OF ne due], of send "ds n" "clock n"] less
      unfolding step by fastforce
  qed
  ultimately show ?case using drain_ok [OF ok] by (simp add: step)
qed



section \<open>Only Discord\<close>

datatype webhook_op = UpsertWebhook session uuid webhook_row | DeleteWebhook session uuid

fun exec_webhook_op :: "webhook_op \<Rightarrow> db \<Rightarrow> db res" where
  "exec_webhook_op (UpsertWebhook s gid body) d = upsert_webhook s gid body d"
| "exec_webhook_op (DeleteWebhook s gid) d = delete_webhook s gid d"

definition webhooks_ok :: "db \<Rightarrow> bool" where
  "webhooks_ok d \<longleftrightarrow> (\<forall>w\<in>set (webhook_configs d). discord_url (wh_webhook_url w))"

interpretation hooks: transactional exec_webhook_op webhooks_ok
proof unfold_locales
  fix d oper d'
  assume ok: "webhooks_ok d" and run: "exec_webhook_op oper d = Inr d'"
  then show "webhooks_ok d'"
  proof (cases oper)
    case (UpsertWebhook s gid body)
    then have "discord_url (wh_webhook_url body)" "set (webhook_configs d') \<subseteq> set (webhook_configs d) \<union> {body \<lparr> wh_group_id := gid \<rparr>}"
      using run by (auto simp: upsert_webhook_def do_upsert_webhook_def bind_res_eq_Inr discord_url_def set_upd_where
          split: if_splits)
    then show ?thesis using ok unfolding webhooks_ok_def by fastforce
  next
    case (DeleteWebhook s gid)
    then show ?thesis using ok run
      by (auto simp: delete_webhook_def do_delete_webhook_def bind_res_eq_Inr webhooks_ok_def split: if_splits)
  qed
qed

text \<open>C29: the server posts to Discord only.  Whatever webhooks the owners of groups configure,
  the address an event is posted to is a Discord webhook address of at most 512 bytes.\<close>

theorem posts_only_to_discord:
  assumes "webhooks_ok d" "d' = fold (\<lambda>oper d. snd (tx_middleware (exec_webhook_op oper) d)) opers d"
    and "dispatch_target d' gid ev = Some url"
  shows "discord_url url"
proof -
  have "webhooks_ok d'" unfolding assms(2) by (rule hooks.run_inv [OF assms(1)])
  then show ?thesis
    using assms(3) by (auto simp: dispatch_target_def fetch_row_def webhooks_ok_def split: option.splits if_splits
        dest!: find_Some_memD)
qed

theorem posts_only_to_discord_witness:
  "\<exists>url. dispatch_target (fold (\<lambda>oper d. snd (tx_middleware (exec_webhook_op oper) d))
       [UpsertWebhook (Some 1) 5 (demo_hook \<lparr> wh_webhook_url := ''http://localhost/'' \<rparr>)] demo_hooked) 5
     (WListDelivered ''Jita'' ''B'') = Some url \<and> discord_url url"
proof -
  let ?ops = "[UpsertWebhook (Some 1) 5 (demo_hook \<lparr> wh_webhook_url := ''http://localhost/'' \<rparr>)]"
  have ok: "webhooks_ok demo_hooked" by code_simp
  have t: "dispatch_target (fold (\<lambda>oper d. snd (tx_middleware (exec_webhook_op oper) d)) ?ops demo_hooked) 5
     (WListDelivered ''Jita'' ''B'') = Some ''https://discord.com/api/webhooks/1''" by code_simp
  show ?thesis using posts_only_to_discord [OF ok refl t] t by blast
qed

end
