(* ===== verification/Tokens.thy ===== *)
theory Tokens
  imports Db "HOL-Library.Option_ord"
begin

text \<open>
  ESI tokens at rest (crate \<^verbatim>\<open>auth-tokens\<close>): the multi-key cipher
  (\<^verbatim>\<open>cipher.rs\<close>), the store that hands out clients and writes rotated tokens back
  (\<^verbatim>\<open>store.rs\<close>), the sweep that moves rows to the primary key, and the error budget
  (\<^verbatim>\<open>budget.rs\<close>).

  AES-GCM, base64 and the hash of the cache are other crates: they are arguments
  (\<open>crypto\<close>), and \<open>crypto_ok\<close> states what is relied on.  Random nonces are arguments
  too.  Byte strings are strings.
\<close>

section \<open>The cipher\<close>

record crypto =
  cr_encrypt :: "string \<Rightarrow> string \<Rightarrow> string \<Rightarrow> string \<Rightarrow> string option"  \<comment> \<open>key, nonce, aad, message\<close>
  cr_decrypt :: "string \<Rightarrow> string \<Rightarrow> string \<Rightarrow> string \<Rightarrow> string option"  \<comment> \<open>key, nonce, aad, ciphertext\<close>
  cr_b64 :: "string \<Rightarrow> string option"
  cr_hash :: "string \<Rightarrow> int"

text \<open>Authenticated encryption: what was encrypted decrypts under the same key, nonce and
  associated data, and under no other associated data.\<close>

definition crypto_ok :: "crypto \<Rightarrow> bool" where
  "crypto_ok cr \<longleftrightarrow> (\<forall>k n a m ct. cr_encrypt cr k n a m = Some ct \<longrightarrow>
     cr_decrypt cr k n a ct = Some m \<and> (\<forall>a'. a' \<noteq> a \<longrightarrow> cr_decrypt cr k n a' ct = None))"

datatype token_error =
    NoKeys | NoPrimary string | EmptyKid | BadBase64 string | BadKeyLength string nat | NoConfig
  | EncryptFailed | BadNonce nat | UnknownKid string | DecryptFailed string
  | NotUtf8 | NoCharacter uuid | TokenDb

record multi_key_cipher =
  mk_keys :: "(string \<times> string) list"   \<comment> \<open>kid and raw key\<close>
  mk_primary :: string

record token_enc_config =
  te_primary :: string
  te_keys :: "(string \<times> string) list"   \<comment> \<open>kid and base64 key\<close>

definition LEGACY_KID :: string where "LEGACY_KID = ''v1''"

fun load_keys :: "crypto \<Rightarrow> (string \<Rightarrow> string) \<Rightarrow> (string \<times> string) list \<Rightarrow> token_error + (string \<times> string) list" where
  "load_keys cr trim [] = Inr []"
| "load_keys cr trim ((kid, b64) # ks) =
     (if kid = [] then Inl EmptyKid
      else case cr_b64 cr (trim b64) of None \<Rightarrow> Inl (BadBase64 kid)
      | Some raw \<Rightarrow>
          if length raw \<noteq> 32 then Inl (BadKeyLength kid (length raw))
          else bind_res (load_keys cr trim ks) (\<lambda>rest. Inr ((kid, raw) # rest)))"

definition from_keys ::
  "crypto \<Rightarrow> (string \<Rightarrow> string) \<Rightarrow> (string \<times> string) list \<Rightarrow> string \<Rightarrow> token_error + multi_key_cipher" where
  "from_keys cr trim keys_b64 primary =
     (if keys_b64 = [] then Inl NoKeys
      else if primary \<notin> fst ` set keys_b64 then Inl (NoPrimary primary)
      else bind_res (load_keys cr trim keys_b64) (\<lambda>ks. Inr \<lparr> mk_keys = ks, mk_primary = primary \<rparr>))"

definition from_legacy_b64 :: "crypto \<Rightarrow> (string \<Rightarrow> string) \<Rightarrow> string \<Rightarrow> token_error + multi_key_cipher" where
  "from_legacy_b64 cr trim key_b64 = from_keys cr trim [(LEGACY_KID, key_b64)] LEGACY_KID"

definition build_cipher ::
  "crypto \<Rightarrow> (string \<Rightarrow> string) \<Rightarrow> token_enc_config option \<Rightarrow> string option \<Rightarrow> token_error + multi_key_cipher" where
  "build_cipher cr trim token_enc token_enc_key =
     (case (token_enc, token_enc_key) of
        (Some t, _) \<Rightarrow> from_keys cr trim (te_keys t) (te_primary t)
      | (None, Some k) \<Rightarrow> from_legacy_b64 cr trim k
      | (None, None) \<Rightarrow> Inl NoConfig)"

definition knows :: "multi_key_cipher \<Rightarrow> string \<Rightarrow> bool" where
  "knows c kid \<longleftrightarrow> map_of (mk_keys c) kid \<noteq> None"

text \<open>\<open>None\<close> is the panic of \<^verbatim>\<open>expect\<close>, when the primary key is missing.\<close>

definition encrypt ::
  "crypto \<Rightarrow> multi_key_cipher \<Rightarrow> string \<Rightarrow> string \<Rightarrow> string \<Rightarrow> (token_error + string \<times> string \<times> string) option" where
  "encrypt cr c nonce plaintext aad =
     (case map_of (mk_keys c) (mk_primary c) of None \<Rightarrow> None
      | Some key \<Rightarrow> Some (case cr_encrypt cr key nonce aad plaintext of
            None \<Rightarrow> Inl EncryptFailed | Some ct \<Rightarrow> Inr (ct, nonce, mk_primary c)))"

definition decrypt :: "crypto \<Rightarrow> multi_key_cipher \<Rightarrow> string \<Rightarrow> string \<Rightarrow> string \<Rightarrow> string \<Rightarrow> token_error + string" where
  "decrypt cr c ciphertext nonce kid aad =
     (if length nonce \<noteq> 12 then Inl (BadNonce (length nonce))
      else case map_of (mk_keys c) kid of None \<Rightarrow> Inl (UnknownKid kid)
      | Some key \<Rightarrow> ok_or (DecryptFailed kid) (cr_decrypt cr key nonce aad ciphertext))"

section \<open>Associated data\<close>

text \<open>\<^verbatim>\<open>i64::to_be_bytes\<close>: two's complement, most significant byte first.\<close>

fun be_digits :: "nat \<Rightarrow> int \<Rightarrow> string" where
  "be_digits 0 x = []"
| "be_digits (Suc n) x = be_digits n (x div 256) @ [char_of (x mod 256)]"

definition to_be_bytes :: "int \<Rightarrow> string" where
  "to_be_bytes x = be_digits 8 (x mod 2 ^ 64)"

section \<open>UTF-8\<close>

text \<open>\<^verbatim>\<open>std::str::from_utf8\<close> accepts well-formed UTF-8: no overlong forms, no surrogates,
  nothing above U+10FFFF.\<close>

definition between :: "nat \<Rightarrow> nat \<Rightarrow> char \<Rightarrow> bool" where
  "between lo hi c \<longleftrightarrow> lo \<le> of_char c \<and> of_char c \<le> hi"

definition cont_byte :: "char \<Rightarrow> bool" where
  "cont_byte = between 0x80 0xBF"

fun valid_utf8 :: "string \<Rightarrow> bool" where
  "valid_utf8 [] = True"
| "valid_utf8 (a # s) =
     (if between 0 0x7F a then valid_utf8 s
      else (case s of
          [] \<Rightarrow> False
        | b # s1 \<Rightarrow>
            if between 0xC2 0xDF a then cont_byte b \<and> valid_utf8 s1
            else (case s1 of
                [] \<Rightarrow> False
              | c # s2 \<Rightarrow>
                  if (a = CHR 0xE0 \<and> between 0xA0 0xBF b) \<or> (between 0xE1 0xEC a \<and> cont_byte b)
                     \<or> (a = CHR 0xED \<and> between 0x80 0x9F b) \<or> (between 0xEE 0xEF a \<and> cont_byte b)
                  then cont_byte c \<and> valid_utf8 s2
                  else (case s2 of
                      [] \<Rightarrow> False
                    | e # s3 \<Rightarrow>
                        ((a = CHR 0xF0 \<and> between 0x90 0xBF b) \<or> (between 0xF1 0xF3 a \<and> cont_byte b)
                         \<or> (a = CHR 0xF4 \<and> between 0x80 0x8F b))
                        \<and> cont_byte c \<and> cont_byte e \<and> valid_utf8 s3))))"

definition utf8_str :: "string \<Rightarrow> token_error + string" where
  "utf8_str bs = (if valid_utf8 bs then Inr bs else Inl NotUtf8)"

section \<open>Loading\<close>

record loaded_tokens =
  lt_refresh_token :: string
  lt_access_token :: "string option"
  lt_access_token_expires_at :: "instant option"
  lt_eve_character_id :: int

definition row_access :: "crypto \<Rightarrow> multi_key_cipher \<Rightarrow> character \<Rightarrow> token_error + string option" where
  "row_access cr c ch =
     (case (ch_access_token_ciphertext ch, ch_access_token_nonce ch) of
        (Some ct, Some nonce) \<Rightarrow>
          bind_res (decrypt cr c ct nonce (ch_token_key_id ch) (to_be_bytes (ch_character_id ch))) (\<lambda>pt.
          bind_res (utf8_str pt) (\<lambda>s. Inr (Some s)))
      | _ \<Rightarrow> Inr None)"

definition row_tokens :: "crypto \<Rightarrow> multi_key_cipher \<Rightarrow> character \<Rightarrow> token_error + loaded_tokens" where
  "row_tokens cr c ch =
     bind_res (decrypt cr c (ch_refresh_token_ciphertext ch) (ch_refresh_token_nonce ch) (ch_token_key_id ch)
                 (to_be_bytes (ch_character_id ch))) (\<lambda>rt_pt.
     bind_res (utf8_str rt_pt) (\<lambda>rt.
     bind_res (row_access cr c ch) (\<lambda>acc.
     Inr \<lparr> lt_refresh_token = rt, lt_access_token = acc,
           lt_access_token_expires_at = ch_access_token_expires_at ch,
           lt_eve_character_id = ch_character_id ch \<rparr>)))"

definition load_tokens :: "crypto \<Rightarrow> multi_key_cipher \<Rightarrow> db \<Rightarrow> uuid \<Rightarrow> token_error + loaded_tokens" where
  "load_tokens cr c d chid =
     bind_res (ok_or (NoCharacter chid) (find (\<lambda>ch. ch_id ch = chid) (characters d))) (row_tokens cr c)"

section \<open>The cache of clients\<close>

record esi_tokens =
  et_access_token :: string
  et_refresh_token :: string
  et_expires_at :: instant

record cached_client =
  cc_tokens :: "esi_tokens option"   \<comment> \<open>what the client holds now; the ESI crate rotates it\<close>
  cc_last_refresh_hash :: int
  cc_eve_character_id :: int

type_synonym clients = "uuid \<rightharpoonup> cached_client"

definition fresh_client :: "crypto \<Rightarrow> instant \<Rightarrow> loaded_tokens \<Rightarrow> cached_client" where
  "fresh_client cr now row =
     \<lparr> cc_tokens = Some \<lparr> et_access_token = (case lt_access_token row of None \<Rightarrow> [] | Some t \<Rightarrow> t),
          et_refresh_token = lt_refresh_token row,
          et_expires_at = (case lt_access_token_expires_at row of None \<Rightarrow> now - 1 | Some t \<Rightarrow> t) \<rparr>,
       cc_last_refresh_hash = cr_hash cr (lt_refresh_token row),
       cc_eve_character_id = lt_eve_character_id row \<rparr>"

definition authed_client_for ::
  "crypto \<Rightarrow> multi_key_cipher \<Rightarrow> instant \<Rightarrow> db \<Rightarrow> uuid \<Rightarrow> clients \<Rightarrow> token_error + cached_client \<times> clients" where
  "authed_client_for cr c now d chid cs =
     bind_res (load_tokens cr c d chid) (\<lambda>row.
     case cs chid of
       Some e \<Rightarrow>
         if cr_hash cr (lt_refresh_token row) = cc_last_refresh_hash e then Inr (e, cs)
         else Inr (fresh_client cr now row, cs(chid \<mapsto> fresh_client cr now row))
     | None \<Rightarrow> Inr (fresh_client cr now row, cs(chid \<mapsto> fresh_client cr now row)))"

text \<open>\<open>db_up\<close> says whether the final \<^verbatim>\<open>UPDATE\<close> reaches the database; the hash of the cache is
  swapped before it.  The outcome is \<open>None\<close> for a panic.\<close>

definition persist_rotations ::
  "crypto \<Rightarrow> multi_key_cipher \<Rightarrow> (bool \<Rightarrow> string) \<Rightarrow> bool \<Rightarrow> instant \<Rightarrow> uuid \<Rightarrow> clients \<Rightarrow> db \<Rightarrow>
     (token_error + unit) option \<times> clients \<times> db" where
  "persist_rotations cr c nonce db_up now chid cs d =
     (case cs chid of None \<Rightarrow> (Some (Inr ()), cs, d)
      | Some e \<Rightarrow> (case cc_tokens e of None \<Rightarrow> (Some (Inr ()), cs, d)
      | Some tk \<Rightarrow>
          let new_hash = cr_hash cr (et_refresh_token tk);
              cs' = cs(chid \<mapsto> e \<lparr> cc_last_refresh_hash := new_hash \<rparr>);
              aad = to_be_bytes (cc_eve_character_id e)
          in if cc_last_refresh_hash e = new_hash then (Some (Inr ()), cs', d)
             else (case encrypt cr c (nonce True) (et_refresh_token tk) aad of
                 None \<Rightarrow> (None, cs', d)
               | Some (Inl er) \<Rightarrow> (Some (Inl er), cs', d)
               | Some (Inr (rt_ct, rt_nonce, kid)) \<Rightarrow>
             (case encrypt cr c (nonce False) (et_access_token tk) aad of
                 None \<Rightarrow> (None, cs', d)
               | Some (Inl er) \<Rightarrow> (Some (Inl er), cs', d)
               | Some (Inr (at_ct, at_nonce, _)) \<Rightarrow>
                   if \<not> db_up then (Some (Inl TokenDb), cs', d)
                   else (Some (Inr ()), cs', d \<lparr> characters := upd_where (\<lambda>ch. ch_id ch = chid)
                     (\<lambda>ch. ch \<lparr> ch_refresh_token_ciphertext := rt_ct, ch_refresh_token_nonce := rt_nonce,
                               ch_access_token_ciphertext := Some at_ct, ch_access_token_nonce := Some at_nonce,
                               ch_access_token_expires_at := Some (et_expires_at tk),
                               ch_last_refreshed_at := Some now, ch_token_key_id := kid \<rparr>)
                     (characters d) \<rparr>)))))"

text \<open>The worker persists after a batch and only logs a failure.  \<open>store_env\<close> is the token store
  at that moment: its clients hold what the ESI crate left there.\<close>

record store_env =
  st_crypto :: crypto
  st_cipher :: multi_key_cipher
  st_nonce :: "bool \<Rightarrow> string"
  st_db_up :: bool
  st_clients :: clients

definition persist_after :: "store_env \<Rightarrow> instant \<Rightarrow> uuid \<Rightarrow> db \<Rightarrow> db" where
  "persist_after st now chid d =
     snd (snd (persist_rotations (st_crypto st) (st_cipher st) (st_nonce st) (st_db_up st) now chid (st_clients st) d))"

section \<open>The sweep\<close>

definition stale :: "multi_key_cipher \<Rightarrow> character \<Rightarrow> bool" where
  "stale c ch \<longleftrightarrow> ch_token_key_id ch \<noteq> mk_primary c"

text \<open>\<open>free\<close>: not locked by another sweep.\<close>

definition stale_rows :: "multi_key_cipher \<Rightarrow> nat \<Rightarrow> (uuid \<Rightarrow> bool) \<Rightarrow> db \<Rightarrow> character list" where
  "stale_rows c batch free d =
     take batch (sort_key ch_last_refreshed_at (filter (\<lambda>ch. stale c ch \<and> free (ch_id ch)) (characters d)))"

text \<open>A panic inside the sweep ends it like an error: the transaction is dropped.\<close>

definition reencrypt_blob ::
  "crypto \<Rightarrow> multi_key_cipher \<Rightarrow> string \<Rightarrow> string \<Rightarrow> string \<Rightarrow> string \<Rightarrow> string \<Rightarrow> token_error + string \<times> string" where
  "reencrypt_blob cr c nonce' ct nonce kid aad =
     bind_res (decrypt cr c ct nonce kid aad) (\<lambda>pt.
     case encrypt cr c nonce' pt aad of
       None \<Rightarrow> Inl (NoPrimary (mk_primary c))
     | Some (Inl er) \<Rightarrow> Inl er
     | Some (Inr (ct', n', _)) \<Rightarrow> Inr (ct', n'))"

definition reencrypt_row :: "crypto \<Rightarrow> multi_key_cipher \<Rightarrow> (bool \<Rightarrow> string) \<Rightarrow> character \<Rightarrow> token_error + character" where
  "reencrypt_row cr c nonce row =
     (let aad = to_be_bytes (ch_character_id row); kid = ch_token_key_id row in
      bind_res (reencrypt_blob cr c (nonce True) (ch_refresh_token_ciphertext row) (ch_refresh_token_nonce row) kid aad)
        (\<lambda>(rt_ct, rt_nonce).
      bind_res (case (ch_access_token_ciphertext row, ch_access_token_nonce row) of
                  (Some ct, Some n) \<Rightarrow>
                    bind_res (reencrypt_blob cr c (nonce False) ct n kid aad) (\<lambda>(ct', n'). Inr (Some ct', Some n'))
                | _ \<Rightarrow> Inr (None, None)) (\<lambda>(at_ct, at_nonce).
      Inr (row \<lparr> ch_refresh_token_ciphertext := rt_ct, ch_refresh_token_nonce := rt_nonce,
                 ch_access_token_ciphertext := at_ct, ch_access_token_nonce := at_nonce,
                 ch_token_key_id := mk_primary c \<rparr>))))"

definition rewrite_row :: "character \<Rightarrow> character \<Rightarrow> character list \<Rightarrow> character list" where
  "rewrite_row row row' chs =
     upd_where (\<lambda>ch. ch_id ch = ch_id row \<and> ch_token_key_id ch = ch_token_key_id row)
       (\<lambda>ch. ch \<lparr> ch_refresh_token_ciphertext := ch_refresh_token_ciphertext row',
                 ch_refresh_token_nonce := ch_refresh_token_nonce row',
                 ch_access_token_ciphertext := ch_access_token_ciphertext row',
                 ch_access_token_nonce := ch_access_token_nonce row',
                 ch_token_key_id := ch_token_key_id row' \<rparr>) chs"

fun sweep_rows ::
  "crypto \<Rightarrow> multi_key_cipher \<Rightarrow> (uuid \<Rightarrow> bool \<Rightarrow> string) \<Rightarrow> character list \<Rightarrow> character list \<times> nat \<Rightarrow>
     token_error + character list \<times> nat" where
  "sweep_rows cr c nonce [] st = Inr st"
| "sweep_rows cr c nonce (row # rows) (chs, rewritten) =
     bind_res (reencrypt_row cr c (nonce (ch_id row)) row) (\<lambda>row'.
     sweep_rows cr c nonce rows (rewrite_row row row' chs,
       rewritten + count_where (\<lambda>ch. ch_id ch = ch_id row \<and> ch_token_key_id ch = ch_token_key_id row) chs))"

record reencrypt_outcome =
  ro_scanned :: nat
  ro_rewritten :: nat

definition reencrypt_stale ::
  "crypto \<Rightarrow> multi_key_cipher \<Rightarrow> nat \<Rightarrow> (uuid \<Rightarrow> bool) \<Rightarrow> (uuid \<Rightarrow> bool \<Rightarrow> string) \<Rightarrow> db \<Rightarrow>
     token_error + reencrypt_outcome \<times> db" where
  "reencrypt_stale cr c batch free nonce d =
     (let rows = stale_rows c batch free d in
      bind_res (sweep_rows cr c nonce rows (characters d, 0)) (\<lambda>(chs, n).
      Inr (\<lparr> ro_scanned = length rows, ro_rewritten = n \<rparr>, d \<lparr> characters := chs \<rparr>)))"

definition SWEEP_BATCH :: nat where "SWEEP_BATCH = 100"

text \<open>The job: an error is logged and the transaction dropped.\<close>

definition token_reencrypt_job ::
  "crypto \<Rightarrow> multi_key_cipher \<Rightarrow> (uuid \<Rightarrow> bool) \<Rightarrow> (uuid \<Rightarrow> bool \<Rightarrow> string) \<Rightarrow> db \<Rightarrow> db" where
  "token_reencrypt_job cr c free nonce d =
     (case reencrypt_stale cr c SWEEP_BATCH free nonce d of Inl _ \<Rightarrow> d | Inr (_, d') \<Rightarrow> d')"

section \<open>The error budget\<close>

record esi_budget =
  eb_remaining :: int
  eb_defer_threshold :: int
  eb_ceiling :: int

definition new_budget :: "int \<Rightarrow> int \<Rightarrow> esi_budget" where
  "new_budget ceiling threshold = \<lparr> eb_remaining = ceiling, eb_defer_threshold = threshold, eb_ceiling = ceiling \<rparr>"

definition default_budget :: esi_budget where
  "default_budget = new_budget 100 20"

definition has_budget :: "esi_budget \<Rightarrow> bool" where
  "has_budget b \<longleftrightarrow> eb_defer_threshold b \<le> eb_remaining b"

definition record_non_2xx :: "esi_budget \<Rightarrow> esi_budget" where
  "record_non_2xx b = (if 0 < eb_remaining b then b \<lparr> eb_remaining := eb_remaining b - 1 \<rparr> else b)"

definition reset_budget :: "esi_budget \<Rightarrow> esi_budget" where
  "reset_budget b = b \<lparr> eb_remaining := eb_ceiling b \<rparr>"

definition budgeted :: "'e + 'a \<Rightarrow> esi_budget \<Rightarrow> ('e + 'a) \<times> esi_budget" where
  "budgeted r b = (case r of Inr v \<Rightarrow> (Inr v, b) | Inl e \<Rightarrow> (Inl e, record_non_2xx b))"

end
