(* ===== verification/Token_Facts.thy ===== *)
theory Token_Facts
  imports Tokens
begin

text \<open>
  The properties of tokens at rest: what is encrypted for a character decrypts for that
  character only; a rotated token that was written back is what is loaded; the sweep
  changes no token and after enough runs every other key can be retired; and the budget
  of ESI errors.
\<close>

section \<open>The associated data\<close>

lemma be_digits_inj:
  "\<lbrakk> be_digits n x = be_digits n y; 0 \<le> x; x < 256 ^ n; 0 \<le> y; y < 256 ^ n \<rbrakk> \<Longrightarrow> x = y"
proof (induction n arbitrary: x y)
  case (Suc n)
  have ch: "(char_of (a mod 256) = (char_of (b mod 256) :: char)) \<longleftrightarrow> a mod 256 = b mod 256" for a b :: int
    by (metis mod_mod_trivial of_char_mod_256 of_char_of)
  have "be_digits n (x div 256) = be_digits n (y div 256)" "x mod 256 = y mod 256"
    using Suc.prems(1) ch [of x y] by simp_all
  moreover have "x div 256 < 256 ^ n" "y div 256 < 256 ^ n"
    using Suc.prems by (simp_all add: div_less_iff_less_mult ac_simps)
  ultimately have "x div 256 = y div 256" using Suc.IH Suc.prems by (simp add: pos_imp_zdiv_nonneg_iff)
  then show ?case using \<open>x mod 256 = y mod 256\<close> by (metis div_mult_mod_eq)
qed simp

definition is_i64 :: "int \<Rightarrow> bool" where
  "is_i64 x \<longleftrightarrow> - (2 ^ 63) \<le> x \<and> x < 2 ^ 63"

lemma to_be_bytes_inj:
  assumes "is_i64 x" "is_i64 y" "to_be_bytes x = to_be_bytes y"
  shows "x = y"
proof -
  have e: "(256 :: int) ^ 8 = 2 ^ 64" by simp
  have "x mod 2 ^ 64 = y mod 2 ^ 64"
    by (rule be_digits_inj [of 8]) (use assms(3) in \<open>simp_all add: to_be_bytes_def e\<close>)
  then have "2 ^ 64 dvd x - y" by (simp add: mod_eq_dvd_iff)
  moreover have "\<bar>x - y\<bar> < 2 ^ 64" using assms(1,2) by (auto simp: is_i64_def abs_if)
  ultimately show ?thesis using zdvd_imp_le [of "2 ^ 64" "\<bar>x - y\<bar>"] by auto
qed

section \<open>Encrypting\<close>

lemma encrypt_Inr:
  assumes "encrypt cr c nonce pt aad = Some (Inr (ct, n, kid))"
  obtains key where "map_of (mk_keys c) (mk_primary c) = Some key" "cr_encrypt cr key nonce aad pt = Some ct"
    "n = nonce" "kid = mk_primary c"
  using assms by (auto simp: encrypt_def split: option.splits)

lemma decrypt_encrypted:
  assumes "crypto_ok cr" "encrypt cr c nonce pt aad = Some (Inr (ct, n, kid))" "length nonce = 12"
  shows "decrypt cr c ct n kid aad = Inr pt"
  using assms(2)
proof (cases rule: encrypt_Inr)
  case (1 key)
  then show ?thesis using assms(1,3) by (simp add: decrypt_def crypto_ok_def)
qed

text \<open>C30: a token encrypted for a character decrypts to itself for that character, and copied
  to the row of another character it does not decrypt at all.\<close>

theorem ciphertext_bound_to_character:
  assumes "crypto_ok cr" "length nonce = 12" "is_i64 x" "is_i64 y"
    and "encrypt cr c nonce pt (to_be_bytes x) = Some (Inr (ct, n, kid))"
  shows "decrypt cr c ct n kid (to_be_bytes y) = (if y = x then Inr pt else Inl (DecryptFailed kid))"
  using assms(5)
proof (cases rule: encrypt_Inr)
  case (1 key)
  show ?thesis
  proof (cases "y = x")
    case True
    then show ?thesis using decrypt_encrypted [OF assms(1,5,2)] by simp
  next
    case False
    then have "to_be_bytes y \<noteq> to_be_bytes x" using to_be_bytes_inj [OF assms(4,3)] by blast
    then have "cr_decrypt cr key nonce (to_be_bytes y) ct = None"
      using assms(1) 1(2) unfolding crypto_ok_def by blast
    then show ?thesis using False 1 assms(2) by (simp add: decrypt_def)
  qed
qed

text \<open>A cipher that satisfies the hypotheses: the associated data, with its length in unary,
  in front of the message.\<close>

definition tag :: "string \<Rightarrow> string" where
  "tag a = replicate (length a) (CHR 0x01) @ CHR 0x00 # a"

definition demo_crypto :: crypto where
  "demo_crypto = \<lparr> cr_encrypt = (\<lambda>k n a m. Some (tag a @ m)),
     cr_decrypt = (\<lambda>k n a ct. if take (length (tag a)) ct = tag a then Some (drop (length (tag a)) ct) else None),
     cr_b64 = Some, cr_hash = (\<lambda>s. int (length s)) \<rparr>"

lemma tag_prefix: "take (length (tag b)) (tag a @ m) = tag b \<Longrightarrow> a = b"
proof -
  assume "take (length (tag b)) (tag a @ m) = tag b"
  then have "tag a @ m = tag b @ drop (length (tag b)) (tag a @ m)" by (metis append_take_drop_id)
  then obtain r where eq: "replicate (length a) (CHR 0x01) @ CHR 0x00 # a @ m
      = replicate (length b) (CHR 0x01) @ CHR 0x00 # b @ r"
    by (auto simp: tag_def)
  have "takeWhile (\<lambda>c. c = CHR 0x01) (replicate n (CHR 0x01) @ CHR 0x00 # s) = replicate n (CHR 0x01)" for n s
    by (induction n) simp_all
  then have "length a = length b" using arg_cong [OF eq, of "takeWhile (\<lambda>c. c = CHR 0x01)"] by simp
  then show "a = b" using eq by simp
qed

lemma demo_crypto_ok: "crypto_ok demo_crypto"
  unfolding crypto_ok_def
proof (intro allI impI conjI)
  fix k n a m ct
  assume "cr_encrypt demo_crypto k n a m = Some ct"
  then have ct: "ct = tag a @ m" by (simp add: demo_crypto_def)
  show "cr_decrypt demo_crypto k n a ct = Some m" by (simp add: ct demo_crypto_def)
  fix a'
  assume "a' \<noteq> a"
  then have "take (length (tag a')) ct \<noteq> tag a'" using tag_prefix [of a' a m] unfolding ct by blast
  then show "cr_decrypt demo_crypto k n a' ct = None" by (simp add: demo_crypto_def)
qed

definition demo_cipher :: multi_key_cipher where
  "demo_cipher = \<lparr> mk_keys = [(''v1'', ''k1''), (''v2'', ''k2'')], mk_primary = ''v2'' \<rparr>"

theorem ciphertext_bound_to_character_witness:
  "\<exists>ct n kid. encrypt demo_crypto demo_cipher ''abcdefghijkl'' ''secret'' (to_be_bytes 91) = Some (Inr (ct, n, kid))
     \<and> decrypt demo_crypto demo_cipher ct n kid (to_be_bytes 91) = Inr ''secret''
     \<and> decrypt demo_crypto demo_cipher ct n kid (to_be_bytes 92) = Inl (DecryptFailed kid)"
proof -
  obtain ct n kid where e: "encrypt demo_crypto demo_cipher ''abcdefghijkl'' ''secret'' (to_be_bytes 91) = Some (Inr (ct, n, kid))"
    by (simp add: encrypt_def demo_crypto_def demo_cipher_def)
  have i: "is_i64 91" "is_i64 92" "length ''abcdefghijkl'' = 12" by (simp_all add: is_i64_def)
  show ?thesis
    using e ciphertext_bound_to_character [OF demo_crypto_ok i(3,1,1) e]
      ciphertext_bound_to_character [OF demo_crypto_ok i(3,1,2) e] by auto
qed

section \<open>Rotation\<close>

definition nonces_ok :: "('a \<Rightarrow> string) \<Rightarrow> bool" where
  "nonces_ok nonce \<longleftrightarrow> (\<forall>i. length (nonce i) = 12)"

text \<open>A rotated token that was written back is the token that is loaded: after
  \<^verbatim>\<open>persist_rotations\<close> succeeds for a client whose token changed, the row of the character
  decrypts, under the primary key, to the tokens the client holds.\<close>

theorem persist_then_load:
  assumes "crypto_ok cr" "nonces_ok nonce" "cs chid = Some e" "cc_tokens e = Some tk"
    and "cc_last_refresh_hash e \<noteq> cr_hash cr (et_refresh_token tk)"
    and "find (\<lambda>ch. ch_id ch = chid) (characters d) = Some ch" "ch_character_id ch = cc_eve_character_id e"
    and "valid_utf8 (et_refresh_token tk)" "valid_utf8 (et_access_token tk)"
    and run: "persist_rotations cr c nonce True now chid cs d = (Some (Inr ()), cs', d')"
  shows "load_tokens cr c d' chid = Inr \<lparr> lt_refresh_token = et_refresh_token tk,
      lt_access_token = Some (et_access_token tk), lt_access_token_expires_at = Some (et_expires_at tk),
      lt_eve_character_id = cc_eve_character_id e \<rparr>"
proof -
  let ?aad = "to_be_bytes (cc_eve_character_id e)"
  obtain rt rn kid at an kid' where rt: "encrypt cr c (nonce True) (et_refresh_token tk) ?aad = Some (Inr (rt, rn, kid))"
    and at: "encrypt cr c (nonce False) (et_access_token tk) ?aad = Some (Inr (at, an, kid'))"
    and d': "d' = d \<lparr> characters := upd_where (\<lambda>ch. ch_id ch = chid)
       (\<lambda>ch. ch \<lparr> ch_refresh_token_ciphertext := rt, ch_refresh_token_nonce := rn,
                 ch_access_token_ciphertext := Some at, ch_access_token_nonce := Some an,
                 ch_access_token_expires_at := Some (et_expires_at tk),
                 ch_last_refreshed_at := Some now, ch_token_key_id := kid \<rparr>) (characters d) \<rparr>"
    using run assms(3-5)
    by (auto simp: persist_rotations_def Let_def split: option.splits sum.splits if_splits)
  have kid: "kid' = kid" using rt at by (auto elim!: encrypt_Inr)
  have n: "length (nonce b) = 12" for b using assms(2) by (simp add: nonces_ok_def)
  have dec: "decrypt cr c rt rn kid ?aad = Inr (et_refresh_token tk)" "decrypt cr c at an kid ?aad = Inr (et_access_token tk)"
    using decrypt_encrypted [OF assms(1) rt n] decrypt_encrypted [OF assms(1) at n] kid by simp_all
  have f: "find (\<lambda>ch. ch_id ch = chid) (upd_where (\<lambda>ch. ch_id ch = chid) g chs)
      = map_option g (find (\<lambda>ch. ch_id ch = chid) chs)" if "\<And>x. ch_id (g x) = ch_id x" for g and chs :: "character list"
    using that by (induction chs) auto
  show ?thesis
    using assms(6-9) dec by (simp add: load_tokens_def d' f row_tokens_def row_access_def utf8_str_def)
qed

text \<open>The hash that detects a rotation is swapped before the row is written: when the write
  fails, the next call finds nothing to do and the rotated token is lost with the process.\<close>

theorem failed_persist_is_forgotten:
  assumes "cs chid = Some e" "cc_tokens e = Some tk" "cc_last_refresh_hash e \<noteq> cr_hash cr (et_refresh_token tk)"
    and "persist_rotations cr c nonce False now chid cs d = (r, cs', d')"
  shows "d' = d \<and> persist_rotations cr c nonce True later chid cs' d' = (Some (Inr ()), cs', d)"
proof -
  have s: "cs' = cs(chid \<mapsto> e \<lparr> cc_last_refresh_hash := cr_hash cr (et_refresh_token tk) \<rparr>)" "d' = d"
    using assms by (auto simp: persist_rotations_def Let_def split: option.splits sum.splits if_splits)
  then show ?thesis using assms(2) by (simp add: persist_rotations_def Let_def)
qed

section \<open>The sweep\<close>

lemma reencrypt_blob_Inr:
  assumes "crypto_ok cr" "length nonce' = 12" "reencrypt_blob cr c nonce' ct nonce kid aad = Inr (ct', n')"
  shows "decrypt cr c ct' n' (mk_primary c) aad = decrypt cr c ct nonce kid aad"
proof -
  obtain pt where pt: "decrypt cr c ct nonce kid aad = Inr pt"
    and e: "encrypt cr c nonce' pt aad = Some (Inr (ct', n', mk_primary c))"
    using assms(3)
    by (auto simp: reencrypt_blob_def bind_res_eq_Inr encrypt_def split: option.splits sum.splits)
  show ?thesis using decrypt_encrypted [OF assms(1) e assms(2)] pt by simp
qed

lemma reencrypt_row_Inr:
  assumes "crypto_ok cr" "nonces_ok nonce" "reencrypt_row cr c nonce row = Inr row'"
  shows "row_tokens cr c row' = row_tokens cr c row" "ch_token_key_id row' = mk_primary c" "ch_id row' = ch_id row"
    "row' = row \<lparr> ch_refresh_token_ciphertext := ch_refresh_token_ciphertext row',
       ch_refresh_token_nonce := ch_refresh_token_nonce row',
       ch_access_token_ciphertext := ch_access_token_ciphertext row',
       ch_access_token_nonce := ch_access_token_nonce row', ch_token_key_id := ch_token_key_id row' \<rparr>"
proof -
  let ?aad = "to_be_bytes (ch_character_id row)" and ?kid = "ch_token_key_id row"
  have n: "length (nonce b) = 12" for b using assms(2) by (simp add: nonces_ok_def)
  obtain rt rn at an where
    rt: "reencrypt_blob cr c (nonce True) (ch_refresh_token_ciphertext row) (ch_refresh_token_nonce row) ?kid ?aad = Inr (rt, rn)"
    and at: "(case (ch_access_token_ciphertext row, ch_access_token_nonce row) of
        (Some ct, Some n) \<Rightarrow> bind_res (reencrypt_blob cr c (nonce False) ct n ?kid ?aad) (\<lambda>(ct', n'). Inr (Some ct', Some n'))
      | _ \<Rightarrow> Inr (None, None)) = Inr (at, an)"
    and row': "row' = row \<lparr> ch_refresh_token_ciphertext := rt, ch_refresh_token_nonce := rn,
        ch_access_token_ciphertext := at, ch_access_token_nonce := an, ch_token_key_id := mk_primary c \<rparr>"
    using assms(3) by (auto simp: reencrypt_row_def Let_def bind_res_eq_Inr)
  note d1 = reencrypt_blob_Inr [OF assms(1) n rt]
  have "row_access cr c row' = row_access cr c row"
    using at reencrypt_blob_Inr [OF assms(1) n]
    by (auto simp: row' row_access_def bind_res_eq_Inr split: option.splits)
  then show "row_tokens cr c row' = row_tokens cr c row"
    unfolding row_tokens_def using d1 by (simp add: row')
  show "ch_token_key_id row' = mk_primary c" "ch_id row' = ch_id row" by (simp_all add: row')
  show "row' = row \<lparr> ch_refresh_token_ciphertext := ch_refresh_token_ciphertext row',
       ch_refresh_token_nonce := ch_refresh_token_nonce row',
       ch_access_token_ciphertext := ch_access_token_ciphertext row',
       ch_access_token_nonce := ch_access_token_nonce row', ch_token_key_id := ch_token_key_id row' \<rparr>"
    by (simp add: row')
qed

text \<open>What the sweep writes for a row it was given, and the sweep as a map over the table.\<close>

definition swept :: "crypto \<Rightarrow> multi_key_cipher \<Rightarrow> (uuid \<Rightarrow> bool \<Rightarrow> string) \<Rightarrow> character list \<Rightarrow> character \<Rightarrow> character" where
  "swept cr c nonce rows ch =
     (if ch \<in> set rows then (case reencrypt_row cr c (nonce (ch_id ch)) ch of Inr r \<Rightarrow> r | Inl _ \<Rightarrow> ch) else ch)"

lemma rewrite_row_map:
  assumes "distinct (map ch_id chs)" "row \<in> set chs"
    and "row' = row \<lparr> ch_refresh_token_ciphertext := ch_refresh_token_ciphertext row',
       ch_refresh_token_nonce := ch_refresh_token_nonce row',
       ch_access_token_ciphertext := ch_access_token_ciphertext row',
       ch_access_token_nonce := ch_access_token_nonce row', ch_token_key_id := ch_token_key_id row' \<rparr>"
  shows "rewrite_row row row' chs = map (\<lambda>ch. if ch = row then row' else ch) chs"
    and "count_where (\<lambda>ch. ch_id ch = ch_id row \<and> ch_token_key_id ch = ch_token_key_id row) chs = 1"
proof -
  have same: "(ch_id ch = ch_id row \<and> ch_token_key_id ch = ch_token_key_id row) \<longleftrightarrow> ch = row" if "ch \<in> set chs" for ch
    using distinct_map_unique [OF assms(1) that assms(2)] by blast
  show "rewrite_row row row' chs = map (\<lambda>ch. if ch = row then row' else ch) chs"
    unfolding rewrite_row_def upd_where_def by (rule map_cong [OF refl]) (use same assms(3) in auto)
  have "filter (\<lambda>ch. ch_id ch = ch_id row \<and> ch_token_key_id ch = ch_token_key_id row) chs = filter (\<lambda>ch. ch = row) chs"
    by (rule filter_cong [OF refl]) (rule same)
  moreover have "length (filter (\<lambda>ch. ch = row) chs) = 1"
    using assms(1,2) unfolding distinct_map by (induction chs) (auto simp: filter_empty_conv)
  ultimately show "count_where (\<lambda>ch. ch_id ch = ch_id row \<and> ch_token_key_id ch = ch_token_key_id row) chs = 1"
    by (simp add: count_where_def)
qed

lemma sweep_rows_map:
  assumes "crypto_ok cr" "\<And>i. nonces_ok (nonce i)"
    and "distinct (map ch_id chs)" "distinct (map ch_id rows)" "set rows \<subseteq> set chs"
    and "sweep_rows cr c nonce rows (chs, k) = Inr (chs', k')"
  shows "chs' = map (swept cr c nonce rows) chs \<and> k' = k + length rows
    \<and> (\<forall>r\<in>set rows. \<exists>r'. reencrypt_row cr c (nonce (ch_id r)) r = Inr r')"
  using assms(3-6)
proof (induction rows arbitrary: chs k)
  case Nil
  then show ?case by (simp add: swept_def map_idI)
next
  case (Cons row rows)
  obtain row' where row': "reencrypt_row cr c (nonce (ch_id row)) row = Inr row'"
    and rest: "sweep_rows cr c nonce rows (rewrite_row row row' chs,
       k + count_where (\<lambda>ch. ch_id ch = ch_id row \<and> ch_token_key_id ch = ch_token_key_id row) chs) = Inr (chs', k')"
    using Cons.prems(4) by (auto simp: bind_res_eq_Inr)
  note r = reencrypt_row_Inr [OF assms(1,2) row']
  have mem: "row \<in> set chs" using Cons.prems(3) by simp
  note rw = rewrite_row_map [OF Cons.prems(1) mem r(4)]
  let ?f = "\<lambda>ch. if ch = row then row' else ch"
  have ids: "map ch_id (map ?f chs) = map ch_id chs" using r(3) by simp
  have "row \<notin> set rows" using Cons.prems(2) by auto
  then have sub: "set rows \<subseteq> set (map ?f chs)" using Cons.prems(3) by auto
  have IH: "chs' = map (swept cr c nonce rows) (map ?f chs) \<and> k' = k + 1 + length rows
    \<and> (\<forall>r\<in>set rows. \<exists>r'. reencrypt_row cr c (nonce (ch_id r)) r = Inr r')"
    by (rule Cons.IH [OF Cons.prems(1) [folded ids] _ sub]) (use Cons.prems(2) rest rw in simp_all)
  have "row' \<notin> set rows" using Cons.prems(2) r(3) by (metis distinct.simps(2) image_eqI list.map(2) set_map)
  then have "swept cr c nonce rows (?f ch) = swept cr c nonce (row # rows) ch" for ch
    using row' by (auto simp: swept_def)
  then have "map (swept cr c nonce rows) (map ?f chs) = map (swept cr c nonce (row # rows)) chs" by simp
  then show ?case using IH row' by auto
qed

lemma stale_rows_sub: "r \<in> set (stale_rows c batch free d) \<Longrightarrow> r \<in> set (characters d) \<and> stale c r"
  by (auto simp: stale_rows_def dest!: in_set_takeD)

lemma stale_rows_distinct:
  assumes "distinct (map ch_id (characters d))"
  shows "distinct (map ch_id (stale_rows c batch free d))"
proof -
  have "distinct (map ch_id (sort_key ch_last_refreshed_at (filter P (characters d))))" for P
    using distinct_map_filter [OF assms] by (simp add: distinct_map)
  then show ?thesis unfolding stale_rows_def take_map [symmetric] by (rule distinct_take)
qed

lemma reencrypt_stale_Inr:
  assumes "crypto_ok cr" "\<And>i. nonces_ok (nonce i)" "distinct (map ch_id (characters d))"
    and "reencrypt_stale cr c batch free nonce d = Inr (out, d')"
  defines "rows \<equiv> stale_rows c batch free d"
  shows "d' = d \<lparr> characters := map (swept cr c nonce rows) (characters d) \<rparr>"
    and "ro_scanned out = length rows" "ro_rewritten out = length rows"
    and "r \<in> set rows \<Longrightarrow> \<exists>r'. reencrypt_row cr c (nonce (ch_id r)) r = Inr r'"
proof -
  obtain chs k where sw: "sweep_rows cr c nonce rows (characters d, 0) = Inr (chs, k)"
    and out: "out = \<lparr> ro_scanned = length rows, ro_rewritten = k \<rparr>" "d' = d \<lparr> characters := chs \<rparr>"
    using assms(4) by (auto simp: reencrypt_stale_def Let_def bind_res_eq_Inr rows_def)
  have "chs = map (swept cr c nonce rows) (characters d) \<and> k = 0 + length rows
    \<and> (\<forall>r\<in>set rows. \<exists>r'. reencrypt_row cr c (nonce (ch_id r)) r = Inr r')"
    by (rule sweep_rows_map [OF assms(1,2,3) _ _ sw])
      (use stale_rows_distinct [OF assms(3)] stale_rows_sub in \<open>auto simp: rows_def\<close>)
  then show "d' = d \<lparr> characters := map (swept cr c nonce rows) (characters d) \<rparr>" "ro_scanned out = length rows"
    "ro_rewritten out = length rows" "r \<in> set rows \<Longrightarrow> \<exists>r'. reencrypt_row cr c (nonce (ch_id r)) r = Inr r'"
    using out by auto
qed

lemma swept_row:
  assumes "crypto_ok cr" "\<And>i. nonces_ok (nonce i)"
  shows "row_tokens cr c (swept cr c nonce rows ch) = row_tokens cr c ch" "ch_id (swept cr c nonce rows ch) = ch_id ch"
  using reencrypt_row_Inr [OF assms] by (auto simp: swept_def split: sum.split)

lemma find_map_key:
  "(\<And>x. k (f x) = k x) \<Longrightarrow> find (\<lambda>x. k x = i) (map f xs) = map_option f (find (\<lambda>x. k x = i) xs)"
  by (induction xs) auto

lemma load_swept:
  assumes "crypto_ok cr" "\<And>i. nonces_ok (nonce i)" "d' = d \<lparr> characters := map (swept cr c nonce rows) (characters d) \<rparr>"
  shows "load_tokens cr c d' chid = load_tokens cr c d chid"
  using find_map_key [of ch_id, OF swept_row(2) [OF assms(1,2)]] swept_row(1) [OF assms(1,2)]
  by (cases "find (\<lambda>ch. ch_id ch = chid) (characters d)") (auto simp: load_tokens_def assms(3))

text \<open>The sweep changes no token.  Whatever rows a run of it takes, every character loads
  the same tokens as before, every row it took is now under the primary key, and no row
  left the primary key.\<close>

theorem reencrypt_changes_no_token:
  assumes "crypto_ok cr" "\<And>i. nonces_ok (nonce i)" "distinct (map ch_id (characters d))"
    and "reencrypt_stale cr c batch free nonce d = Inr (out, d')"
  shows "load_tokens cr c d' chid = load_tokens cr c d chid
    \<and> filter (stale c) (characters d') = filter (\<lambda>ch. stale c ch \<and> ch \<notin> set (stale_rows c batch free d)) (characters d)
    \<and> ro_rewritten out = ro_scanned out"
proof -
  let ?rows = "stale_rows c batch free d"
  note r = reencrypt_stale_Inr [OF assms]
  have st: "stale c (swept cr c nonce ?rows ch) \<longleftrightarrow> stale c ch \<and> ch \<notin> set ?rows" for ch
    using r(4) [of ch] reencrypt_row_Inr(2) [OF assms(1,2)] by (auto simp: swept_def stale_def split: sum.split)
  have "filter (stale c) (map (swept cr c nonce ?rows) chs) = filter (\<lambda>ch. stale c ch \<and> ch \<notin> set ?rows) chs" for chs
    using st by (induction chs) (auto simp: swept_def)
  then show ?thesis using load_swept [OF assms(1,2) r(1)] r(1-3) by simp
qed

section \<open>Retiring keys\<close>

definition crypto_total :: "crypto \<Rightarrow> bool" where
  "crypto_total cr \<longleftrightarrow> (\<forall>k n a m. cr_encrypt cr k n a m \<noteq> None)"

lemma reencrypt_blob_total:
  assumes "crypto_total cr" "knows c (mk_primary c)" "decrypt cr c ct n kid aad = Inr pt"
  shows "\<exists>x. reencrypt_blob cr c nonce' ct n kid aad = Inr x"
proof -
  obtain key ct' where "map_of (mk_keys c) (mk_primary c) = Some key" "cr_encrypt cr key nonce' aad pt = Some ct'"
    using assms(1,2) unfolding knows_def crypto_total_def by blast
  then show ?thesis using assms(3) by (simp add: reencrypt_blob_def encrypt_def)
qed

lemma reencrypt_row_total:
  assumes "crypto_total cr" "knows c (mk_primary c)" "row_tokens cr c row = Inr lt"
  shows "\<exists>row'. reencrypt_row cr c nonce row = Inr row'"
proof -
  let ?aad = "to_be_bytes (ch_character_id row)" and ?kid = "ch_token_key_id row"
  obtain rt acc where rt: "decrypt cr c (ch_refresh_token_ciphertext row) (ch_refresh_token_nonce row) ?kid ?aad = Inr rt"
    and acc: "row_access cr c row = Inr acc"
    using assms(3) by (auto simp: row_tokens_def bind_res_eq_Inr)
  obtain x where x: "reencrypt_blob cr c (nonce True) (ch_refresh_token_ciphertext row) (ch_refresh_token_nonce row) ?kid ?aad = Inr x"
    using reencrypt_blob_total [OF assms(1,2) rt] by blast
  have "\<exists>y. (case (ch_access_token_ciphertext row, ch_access_token_nonce row) of
        (Some ct, Some n) \<Rightarrow> bind_res (reencrypt_blob cr c (nonce False) ct n ?kid ?aad) (\<lambda>(ct', n'). Inr (Some ct', Some n'))
      | _ \<Rightarrow> Inr (None, None)) = (Inr y :: token_error + string option \<times> string option)"
  proof (cases "(ch_access_token_ciphertext row, ch_access_token_nonce row)")
    case (Pair a b)
    show ?thesis
    proof (cases "\<exists>ct n. a = Some ct \<and> b = Some n")
      case True
      then obtain ct n where ab: "a = Some ct" "b = Some n" by blast
      then obtain pt where "decrypt cr c ct n ?kid ?aad = Inr pt"
        using acc Pair by (auto simp: row_access_def bind_res_eq_Inr)
      then obtain y where "reencrypt_blob cr c (nonce False) ct n ?kid ?aad = Inr y"
        using reencrypt_blob_total [OF assms(1,2)] by blast
      then show ?thesis using Pair ab by (cases y) simp
    next
      case False
      then show ?thesis using Pair by (auto split: option.split)
    qed
  qed
  then show ?thesis using x by (cases x) (auto simp: reencrypt_row_def Let_def)
qed

lemma sweep_rows_total:
  assumes "\<And>r. r \<in> set rows \<Longrightarrow> \<exists>r'. reencrypt_row cr c (nonce (ch_id r)) r = Inr r'"
  shows "\<exists>st'. sweep_rows cr c nonce rows st = Inr st'"
  using assms
proof (induction rows arbitrary: st)
  case (Cons row rows)
  obtain chs k where st: "st = (chs, k)" by (cases st)
  obtain row' where "reencrypt_row cr c (nonce (ch_id row)) row = Inr row'" using Cons.prems by auto
  then show ?case using Cons by (simp add: st)
qed simp

definition readable :: "crypto \<Rightarrow> multi_key_cipher \<Rightarrow> db \<Rightarrow> bool" where
  "readable cr c d \<longleftrightarrow> distinct (map ch_id (characters d)) \<and> (\<forall>ch\<in>set (characters d). \<exists>lt. row_tokens cr c ch = Inr lt)"

definition stale_count :: "multi_key_cipher \<Rightarrow> db \<Rightarrow> nat" where
  "stale_count c d = length (filter (stale c) (characters d))"

lemma reencrypt_stale_total:
  assumes "crypto_total cr" "knows c (mk_primary c)" "readable cr c d"
  shows "\<exists>out d'. reencrypt_stale cr c batch free nonce d = Inr (out, d')"
proof -
  let ?rows = "stale_rows c batch free d"
  have "\<exists>r'. reencrypt_row cr c (nonce (ch_id r)) r = Inr r'" if "r \<in> set ?rows" for r
    using reencrypt_row_total [OF assms(1,2)] stale_rows_sub [OF that] assms(3) unfolding readable_def by blast
  then show ?thesis
    using sweep_rows_total [of ?rows cr c nonce "(characters d, 0)"] by (auto simp: reencrypt_stale_def Let_def)
qed

lemma stale_rows_length: "length (stale_rows c batch (\<lambda>_. True) d) = min batch (stale_count c d)"
  by (simp add: stale_rows_def stale_count_def min.commute)

lemma job_step:
  assumes "crypto_ok cr" "crypto_total cr" "\<And>i. nonces_ok (nonce i)" "knows c (mk_primary c)" "readable cr c d"
  defines "d' \<equiv> token_reencrypt_job cr c (\<lambda>_. True) nonce d"
  shows "readable cr c d'" "load_tokens cr c d' chid = load_tokens cr c d chid"
    "stale_count c d' \<le> stale_count c d - SWEEP_BATCH"
proof -
  let ?rows = "stale_rows c SWEEP_BATCH (\<lambda>_. True) d"
  have dis: "distinct (map ch_id (characters d))" using assms(5) by (simp add: readable_def)
  obtain out d1 where run: "reencrypt_stale cr c SWEEP_BATCH (\<lambda>_. True) nonce d = Inr (out, d1)"
    using reencrypt_stale_total [OF assms(2,4,5)] by blast
  then have d': "d' = d1" by (simp add: d'_def token_reencrypt_job_def)
  note r = reencrypt_stale_Inr [OF assms(1,3) dis run] reencrypt_changes_no_token [OF assms(1,3) dis run]
  show "load_tokens cr c d' chid = load_tokens cr c d chid" using r(5) d' by simp
  show "readable cr c d'"
    using assms(5) swept_row [OF assms(1,3)] by (simp add: readable_def d' r(1) comp_def)
  have "length (filter (\<lambda>ch. stale c ch \<and> ch \<notin> set ?rows) (characters d)) + length ?rows \<le> stale_count c d"
  proof -
    have d1: "distinct (characters d)" and d2: "distinct ?rows"
      using dis stale_rows_distinct [OF dis] unfolding distinct_map by blast+
    have "card ({ch. stale c ch \<and> ch \<notin> set ?rows} \<inter> set (characters d)) + card (set ?rows)
        = card ({ch. stale c ch \<and> ch \<notin> set ?rows} \<inter> set (characters d) \<union> set ?rows)"
      by (rule card_Un_disjoint [symmetric]) auto
    also have "\<dots> \<le> card ({ch. stale c ch} \<inter> set (characters d))"
      using stale_rows_sub by (intro card_mono) auto
    finally show ?thesis
      by (simp add: stale_count_def distinct_length_filter [OF d1] distinct_card [OF d2])
  qed
  then show "stale_count c d' \<le> stale_count c d - SWEEP_BATCH"
    using r(5) by (auto simp: d' stale_count_def stale_rows_length min_def split: if_splits)
qed

fun sweeps :: "crypto \<Rightarrow> multi_key_cipher \<Rightarrow> (nat \<Rightarrow> uuid \<Rightarrow> bool \<Rightarrow> string) \<Rightarrow> nat \<Rightarrow> db \<Rightarrow> db" where
  "sweeps cr c nonce 0 d = d"
| "sweeps cr c nonce (Suc n) d = token_reencrypt_job cr c (\<lambda>_. True) (nonce n) (sweeps cr c nonce n d)"

lemma sweeps_inv:
  assumes "crypto_ok cr" "crypto_total cr" "\<And>n i. nonces_ok (nonce n i)" "knows c (mk_primary c)" "readable cr c d"
  shows "readable cr c (sweeps cr c nonce n d) \<and> load_tokens cr c (sweeps cr c nonce n d) chid = load_tokens cr c d chid
    \<and> stale_count c (sweeps cr c nonce n d) \<le> stale_count c d - n * SWEEP_BATCH"
proof (induction n)
  case (Suc n)
  let ?d = "sweeps cr c nonce n d"
  have r: "readable cr c ?d" using Suc by blast
  note s = job_step [where nonce = "nonce n", OF assms(1,2) assms(3) assms(4) r]
  have "stale_count c (sweeps cr c nonce (Suc n) d) \<le> stale_count c ?d - SWEEP_BATCH" using s(3) by simp
  then show ?case using s(1,2) Suc by (auto simp: algebra_simps)
qed (simp add: assms(5))

lemma restrict_keys:
  assumes "ch_token_key_id ch = mk_primary c" "map_of (mk_keys c) (mk_primary c) = Some key"
  shows "row_tokens cr \<lparr> mk_keys = [(mk_primary c, key)], mk_primary = mk_primary c \<rparr> ch = row_tokens cr c ch"
proof -
  have "decrypt cr \<lparr> mk_keys = [(mk_primary c, key)], mk_primary = mk_primary c \<rparr> ct n (mk_primary c) aad
      = decrypt cr c ct n (mk_primary c) aad" for ct n aad
    using assms(2) by (simp add: decrypt_def)
  then show ?thesis by (simp add: row_tokens_def row_access_def assms(1) cong: option.case_cong)
qed

text \<open>C31: key rotation completes.  If every token can be read, then after one run of the
  sweep per hundred stale rows every row is under the primary key, and a server that knows
  only that key loads the same tokens as before: every other key can be retired.\<close>

theorem key_rotation_completes:
  assumes "crypto_ok cr" "crypto_total cr" "\<And>n i. nonces_ok (nonce n i)" "readable cr c d"
    and "map_of (mk_keys c) (mk_primary c) = Some key" "stale_count c d \<le> n * 100"
  shows "(\<forall>ch\<in>set (characters (sweeps cr c nonce n d)). ch_token_key_id ch = mk_primary c)
    \<and> load_tokens cr \<lparr> mk_keys = [(mk_primary c, key)], mk_primary = mk_primary c \<rparr> (sweeps cr c nonce n d) chid
      = load_tokens cr c d chid"
proof -
  let ?d = "sweeps cr c nonce n d"
  have k: "knows c (mk_primary c)" using assms(5) by (simp add: knows_def)
  note inv = sweeps_inv [where nonce = nonce and n = n and chid = chid, OF assms(1-3) k assms(4)]
  then have "stale_count c ?d = 0" using assms(6) by (simp add: SWEEP_BATCH_def)
  then have all: "\<forall>ch\<in>set (characters ?d). ch_token_key_id ch = mk_primary c"
    by (auto simp: stale_count_def filter_empty_conv stale_def)
  have "load_tokens cr \<lparr> mk_keys = [(mk_primary c, key)], mk_primary = mk_primary c \<rparr> ?d chid = load_tokens cr c ?d chid"
  proof (cases "find (\<lambda>ch. ch_id ch = chid) (characters ?d)")
    case (Some ch)
    then show ?thesis using all restrict_keys [OF _ assms(5)] find_Some_memD [OF Some] by (simp add: load_tokens_def)
  qed (simp add: load_tokens_def)
  then show ?thesis using all inv by simp
qed

section \<open>Witnesses\<close>

definition demo_token_row :: "uuid \<Rightarrow> int \<Rightarrow> string \<Rightarrow> character" where
  "demo_token_row i eve kid =
     \<lparr> ch_id = i, ch_user_id = 1, ch_character_id = eve, ch_character_name = ''Alt'', ch_owner_hash = ''h'',
       ch_scopes = [], ch_refresh_token_ciphertext = tag (to_be_bytes eve) @ ''rt'',
       ch_refresh_token_nonce = ''abcdefghijkl'', ch_access_token_ciphertext = Some (tag (to_be_bytes eve) @ ''at''),
       ch_access_token_nonce = Some ''abcdefghijkl'', ch_access_token_expires_at = Some 7, ch_token_key_id = kid,
       ch_created_at = 0, ch_last_refreshed_at = None, ch_contracts_next_poll_at = None,
       ch_contracts_last_polled_at = None \<rparr>"

definition demo_token_db :: db where
  "demo_token_db = empty_db \<lparr> characters := [demo_token_row 31 91 ''v1'', demo_token_row 32 92 ''v2''] \<rparr>"

definition demo_nonce :: "'a \<Rightarrow> string" where
  "demo_nonce _ = ''ABCDEFGHIJKL''"

lemma demo_nonce_ok: "nonces_ok demo_nonce"
  by (simp add: nonces_ok_def demo_nonce_def)

lemma demo_token_distinct: "distinct (map ch_id (characters demo_token_db))"
  by (simp add: demo_token_db_def demo_token_row_def)

lemma demo_tokens_readable: "readable demo_crypto demo_cipher demo_token_db"
proof -
  have "\<exists>lt. row_tokens demo_crypto demo_cipher (demo_token_row 31 91 ''v1'') = Inr lt"
    "\<exists>lt. row_tokens demo_crypto demo_cipher (demo_token_row 32 92 ''v2'') = Inr lt"
    by (rule exI, code_simp)+
  then show ?thesis using demo_token_distinct by (simp add: readable_def demo_token_db_def)
qed

lemma demo_crypto_total: "crypto_total demo_crypto"
  by (simp add: crypto_total_def demo_crypto_def)

theorem reencrypt_changes_no_token_witness:
  "\<exists>out d'. reencrypt_stale demo_crypto demo_cipher 100 (\<lambda>_. True) (\<lambda>_. demo_nonce) demo_token_db = Inr (out, d')
     \<and> ro_rewritten out = 1 \<and> load_tokens demo_crypto demo_cipher d' 31 = load_tokens demo_crypto demo_cipher demo_token_db 31"
proof -
  have one: "length (stale_rows demo_cipher 100 (\<lambda>_. True) demo_token_db) = 1" by code_simp
  have k: "knows demo_cipher (mk_primary demo_cipher)" by (simp add: knows_def demo_cipher_def)
  obtain out d' where run: "reencrypt_stale demo_crypto demo_cipher 100 (\<lambda>_. True) (\<lambda>_. demo_nonce) demo_token_db = Inr (out, d')"
    using reencrypt_stale_total [OF demo_crypto_total k demo_tokens_readable] by blast
  show ?thesis
    using run one reencrypt_changes_no_token [OF demo_crypto_ok demo_nonce_ok demo_token_distinct run, of 31]
      reencrypt_stale_Inr(2) [OF demo_crypto_ok demo_nonce_ok demo_token_distinct run] by auto
qed

theorem key_rotation_completes_witness:
  "load_tokens demo_crypto \<lparr> mk_keys = [(''v2'', ''k2'')], mk_primary = ''v2'' \<rparr>
     (sweeps demo_crypto demo_cipher (\<lambda>_ _. demo_nonce) 1 demo_token_db) 31
   = load_tokens demo_crypto demo_cipher demo_token_db 31"
proof -
  have key: "map_of (mk_keys demo_cipher) (mk_primary demo_cipher) = Some ''k2''" "mk_primary demo_cipher = ''v2''"
    by (simp_all add: demo_cipher_def)
  have "stale_count demo_cipher demo_token_db \<le> 1 * 100" by code_simp
  from key_rotation_completes [OF demo_crypto_ok demo_crypto_total demo_nonce_ok demo_tokens_readable key(1) this]
  show ?thesis unfolding key(2) by blast
qed

definition demo_rotated :: cached_client where
  "demo_rotated = \<lparr> cc_tokens = Some \<lparr> et_access_token = ''at2'', et_refresh_token = ''rt-2'', et_expires_at = 9 \<rparr>,
     cc_last_refresh_hash = 2, cc_eve_character_id = 91 \<rparr>"

theorem persist_then_load_witness:
  "\<exists>cs' d'. persist_rotations demo_crypto demo_cipher demo_nonce True 8 31 [31 \<mapsto> demo_rotated] demo_token_db
       = (Some (Inr ()), cs', d')
     \<and> load_tokens demo_crypto demo_cipher d' 31 = Inr \<lparr> lt_refresh_token = ''rt-2'', lt_access_token = Some ''at2'',
         lt_access_token_expires_at = Some 9, lt_eve_character_id = 91 \<rparr>"
proof -
  let ?tk = "\<lparr> et_access_token = ''at2'', et_refresh_token = ''rt-2'', et_expires_at = 9 \<rparr>"
  obtain cs' d' where run: "persist_rotations demo_crypto demo_cipher demo_nonce True 8 31 [31 \<mapsto> demo_rotated] demo_token_db
       = (Some (Inr ()), cs', d')"
    by (simp add: persist_rotations_def Let_def demo_rotated_def encrypt_def demo_crypto_def demo_cipher_def)
  have f: "find (\<lambda>ch. ch_id ch = 31) (characters demo_token_db) = Some (demo_token_row 31 91 ''v1'')"
    by (simp add: demo_token_db_def demo_token_row_def)
  have u: "valid_utf8 ''rt-2''" "valid_utf8 ''at2''" by code_simp+
  have "load_tokens demo_crypto demo_cipher d' 31 = Inr \<lparr> lt_refresh_token = et_refresh_token ?tk,
      lt_access_token = Some (et_access_token ?tk), lt_access_token_expires_at = Some (et_expires_at ?tk),
      lt_eve_character_id = cc_eve_character_id demo_rotated \<rparr>"
    by (rule persist_then_load [OF demo_crypto_ok demo_nonce_ok _ _ _ f _ _ _ run])
      (use u in \<open>simp_all add: demo_rotated_def demo_crypto_def demo_token_row_def\<close>)
  then show ?thesis using run by (simp add: demo_rotated_def)
qed

section \<open>The budget\<close>

text \<open>The budget counts exactly: after a reset and \<open>n\<close> failed calls the guard has the
  ceiling less \<open>n\<close> left, never less than zero, and lets a batch start exactly while that is
  at least the threshold.\<close>

theorem budget_exact:
  assumes "0 \<le> eb_ceiling b"
  shows "eb_remaining ((record_non_2xx ^^ n) (reset_budget b)) = max 0 (eb_ceiling b - int n)
    \<and> (has_budget ((record_non_2xx ^^ n) (reset_budget b)) \<longleftrightarrow> eb_defer_threshold b \<le> max 0 (eb_ceiling b - int n))"
proof -
  have "eb_remaining ((record_non_2xx ^^ n) (reset_budget b)) = max 0 (eb_ceiling b - int n)
    \<and> eb_defer_threshold ((record_non_2xx ^^ n) (reset_budget b)) = eb_defer_threshold b"
    using assms by (induction n) (auto simp: reset_budget_def record_non_2xx_def)
  then show ?thesis by (simp add: has_budget_def)
qed

theorem budget_exact_witness:
  "has_budget ((record_non_2xx ^^ 80) (reset_budget default_budget))
     \<and> \<not> has_budget ((record_non_2xx ^^ 81) (reset_budget default_budget))"
proof -
  have b: "0 \<le> eb_ceiling default_budget" "eb_ceiling default_budget = 100" "eb_defer_threshold default_budget = 20"
    by (simp_all add: default_budget_def new_budget_def)
  show ?thesis using budget_exact [OF b(1), of 80] budget_exact [OF b(1), of 81] unfolding b(2,3) by simp
qed

end
