(* ===== verification/Auth.thy ===== *)
theory Auth
  imports Tokens Lists System "HOL-Library.Sublist" "HOL-Library.List_Lexorder" "HOL-Library.Char_ord"
begin

text \<open>
  Logging in with EVE SSO (\<^verbatim>\<open>api/src/auth.rs\<close>, the claims of \<^verbatim>\<open>api/src/jwt.rs\<close>) and the account
  of the caller.  A browser session holds the user and, between the redirect to EVE and
  the callback, the pending consent.  The authorization server, the verification of the
  access token and the captcha are an argument (\<open>sso_env\<close>); so are the nonces of the
  cipher and the identifiers the database generates.
\<close>

section \<open>Claims\<close>

datatype scopes_field = NoScopes | One string | Many "string list"

record eve_claims =
  ec_sub :: string
  ec_name :: string
  ec_owner :: string
  ec_scp :: scopes_field

text \<open>\<^verbatim>\<open>rsplit(':').next()\<close> is what follows the last colon.\<close>

definition claims_character_id :: "eve_claims \<Rightarrow> int res" where
  "claims_character_id c =
     ok_or (Internal (''non-numeric character id in sub: '' @ ec_sub c))
       (parse_i64 (rev (takeWhile (\<lambda>x. x \<noteq> CHR '':'') (rev (ec_sub c)))))"

definition claims_scopes :: "eve_claims \<Rightarrow> string list" where
  "claims_scopes c = (case ec_scp c of NoScopes \<Rightarrow> []
     | One s \<Rightarrow> split_on (\<lambda>x. x = CHR '' '') s | Many v \<Rightarrow> v)"

section \<open>Sessions and the outside world\<close>

record pending_auth =
  pa_code_verifier :: string
  pa_state :: string
  pa_attach :: bool
  pa_return_to :: "string option"
  pa_target_character_id :: "int option"
  pa_requested_scopes :: "string list"

record web_session =
  ws_user :: "uuid option"
  ws_pending :: "pending_auth option"

record pkce_challenge =
  pk_authorize_url :: string
  pk_state :: string
  pk_code_verifier :: string

record sso_config =
  sc_login_scopes :: "string list"
  sc_upgrade_scopes :: "string list"
  sc_callback_url :: string
  sc_turnstile_disabled :: bool
  sc_characters_per_user :: int

record sso_env =
  se_turnstile :: "string \<Rightarrow> string option \<Rightarrow> bool option"            \<comment> \<open>token and address; \<open>None\<close>: no answer\<close>
  se_authorize_url :: "string \<Rightarrow> string list \<Rightarrow> pkce_challenge option"
  se_exchange_code :: "string \<Rightarrow> string \<Rightarrow> string \<Rightarrow> esi_tokens option"
  se_verify :: "string \<Rightarrow> eve_claims option"

section \<open>Redirect targets and scopes\<close>

definition safe_return_to :: "string option \<Rightarrow> string option" where
  "safe_return_to r =
     (case r of None \<Rightarrow> None
      | Some path \<Rightarrow>
          if prefix ''/'' path \<and> \<not> prefix ''//'' path \<and> CHR 0x5C \<notin> set path
             \<and> \<not> (CR \<in> set path \<or> LF \<in> set path)
          then Some path else None)"

definition merge_upgrade_scopes :: "string list \<Rightarrow> string list \<Rightarrow> string list \<Rightarrow> string list" where
  "merge_upgrade_scopes login_scopes existing requested =
     fold insort_insert requested (fold insort_insert existing (fold insort_insert login_scopes []))"

definition requested_scopes :: "string \<Rightarrow> string list" where
  "requested_scopes q = filter (\<lambda>s. s \<noteq> []) (map trim (split_on (\<lambda>c. c = CHR '','') q))"

section \<open>Starting a consent\<close>

definition captcha_required :: api_error where
  "captcha_required = Forbidden ''captcha verification required for new accounts''"

definition remote_ip :: "string option \<Rightarrow> string option" where
  "remote_ip forwarded_for = map_option (\<lambda>s. trim (hd (split_on (\<lambda>c. c = CHR '','') s))) forwarded_for"

definition login_gate ::
  "sso_config \<Rightarrow> sso_env \<Rightarrow> web_session \<Rightarrow> bool \<Rightarrow> string option \<Rightarrow> string option \<Rightarrow> unit res" where
  "login_gate cfg env s attach cf forwarded_for =
     (if attach then (if ws_user s = None then Inl Unauthorized else Inr ())
      else if ws_user s = None \<and> \<not> sc_turnstile_disabled cfg then
        bind_res (ok_or captcha_required cf) (\<lambda>token.
        bind_res (ok_or (Internal ''turnstile'') (se_turnstile env token (remote_ip forwarded_for))) (\<lambda>success.
        if \<not> success then Inl captcha_required else Inr ()))
      else Inr ())"

text \<open>Both consent requests store what the callback will check and redirect to EVE.  On an
  error the session is left as it was.\<close>

definition start_consent ::
  "sso_config \<Rightarrow> sso_env \<Rightarrow> string list \<Rightarrow> bool \<Rightarrow> string option \<Rightarrow> int option \<Rightarrow> web_session \<Rightarrow>
     (string \<times> web_session) res" where
  "start_consent cfg env scopes attach return_to target s =
     bind_res (ok_or (Internal ''authorize_url'') (se_authorize_url env (sc_callback_url cfg) scopes)) (\<lambda>challenge.
     Inr (pk_authorize_url challenge, s \<lparr> ws_pending := Some
       \<lparr> pa_code_verifier = pk_code_verifier challenge, pa_state = pk_state challenge,
         pa_attach = attach, pa_return_to = safe_return_to return_to,
         pa_target_character_id = target, pa_requested_scopes = scopes \<rparr> \<rparr>))"

definition login ::
  "sso_config \<Rightarrow> sso_env \<Rightarrow> web_session \<Rightarrow> bool \<Rightarrow> string option \<Rightarrow> string option \<Rightarrow> string option \<Rightarrow>
     (string \<times> web_session) res" where
  "login cfg env s attach return_to cf forwarded_for =
     bind_res (login_gate cfg env s attach cf forwarded_for) (\<lambda>_.
     start_consent cfg env (sc_login_scopes cfg) attach return_to None s)"

fun check_allowed :: "string list \<Rightarrow> string list \<Rightarrow> unit res" where
  "check_allowed allowed [] = Inr ()"
| "check_allowed allowed (s # ss) =
     (if s \<notin> set allowed then Inl (Internal (''scope not allowed: '' @ s)) else check_allowed allowed ss)"

definition upgrade ::
  "sso_config \<Rightarrow> sso_env \<Rightarrow> web_session \<Rightarrow> int \<Rightarrow> string \<Rightarrow> string option \<Rightarrow> db \<Rightarrow>
     (string \<times> web_session) res" where
  "upgrade cfg env s character_id scopes return_to d =
     bind_res (current_user (ws_user s)) (\<lambda>uid.
     let requested = requested_scopes scopes in
     if requested = [] then Inl (BadRequest ''no scopes requested'')
     else bind_res (check_allowed (sc_login_scopes cfg @ sc_upgrade_scopes cfg) requested) (\<lambda>_.
     bind_res (ok_or Unauthorized
        (find (\<lambda>ch. ch_character_id ch = character_id \<and> ch_user_id ch = uid) (characters d))) (\<lambda>ch.
     start_consent cfg env (merge_upgrade_scopes (sc_login_scopes cfg) (ch_scopes ch) requested)
       True return_to (Some character_id) s)))"

section \<open>The callback\<close>

record new_ids =
  ni_user :: uuid
  ni_principal :: uuid
  ni_character :: uuid

definition create_user :: "new_ids \<Rightarrow> string \<Rightarrow> instant \<Rightarrow> db \<Rightarrow> (uuid \<times> db) res" where
  "create_user ids name now d =
     (if ni_user ids \<in> u_id ` set (users d) then Inl db_unique_violation
      else Inr (ni_user ids,
        d \<lparr> users := users d @ [\<lparr> u_id = ni_user ids, u_display_name = name, u_active_character_id = None,
                                 u_created_at = now \<rparr>],
            principals :=
              (if \<exists>p\<in>set (principals d). p_id p = ni_principal ids \<or> (p_kind p = PUser \<and> p_user_id p = Some (ni_user ids))
               then principals d
               else principals d @ [\<lparr> p_id = ni_principal ids, p_kind = PUser,
                                      p_user_id = Some (ni_user ids), p_corp_id = None \<rparr>]) \<rparr>))"

definition target_user ::
  "new_ids \<Rightarrow> eve_claims \<Rightarrow> character option \<Rightarrow> uuid option \<Rightarrow> bool \<Rightarrow> instant \<Rightarrow> db \<Rightarrow> (uuid \<times> db) res" where
  "target_user ids cl existing session_user attach now d =
     (if attach then
        bind_res (ok_or (Internal ''attach without session'') session_user) (\<lambda>sid. Inr (sid, d))
      else case existing of
        Some ch \<Rightarrow>
          if ch_owner_hash ch = ec_owner cl then Inr (ch_user_id ch, d)
          else (case session_user of Some sid \<Rightarrow> Inr (sid, d) | None \<Rightarrow> create_user ids (ec_name cl) now d)
      | None \<Rightarrow> (case session_user of Some sid \<Rightarrow> Inr (sid, d) | None \<Rightarrow> create_user ids (ec_name cl) now d))"

definition characters_of :: "uuid \<Rightarrow> db \<Rightarrow> int" where
  "characters_of uid d = int (count_where (\<lambda>ch. ch_user_id ch = uid) (characters d))"

definition check_character_quota :: "int \<Rightarrow> character option \<Rightarrow> uuid \<Rightarrow> db \<Rightarrow> unit res" where
  "check_character_quota cap existing uid d =
     (if (case existing of None \<Rightarrow> True | Some ch \<Rightarrow> ch_user_id ch \<noteq> uid) \<and> cap \<le> characters_of uid d
      then Inl (QuotaExceeded (''you already have '' @ string_of_int (characters_of uid d)
             @ '' linked characters (cap '' @ string_of_int cap @ '')''))
      else Inr ())"

text \<open>A cipher without its primary key panics; the request then fails and its transaction is
  dropped, like an internal error.\<close>

definition seal ::
  "crypto \<Rightarrow> multi_key_cipher \<Rightarrow> string \<Rightarrow> string \<Rightarrow> int \<Rightarrow> (string \<times> string \<times> string) res" where
  "seal cr c nonce plaintext character_id =
     (case encrypt cr c nonce plaintext (to_be_bytes character_id) of
        Some (Inr r) \<Rightarrow> Inr r | _ \<Rightarrow> Inl (Internal ''encrypt''))"

text \<open>The insert fails when the user does not exist (foreign key), and is an update when the
  character is known.\<close>

definition refreshed :: "character \<Rightarrow> character \<Rightarrow> character" where
  "refreshed row ch =
     ch \<lparr> ch_user_id := ch_user_id row, ch_character_name := ch_character_name row,
          ch_owner_hash := ch_owner_hash row, ch_scopes := ch_scopes row,
          ch_refresh_token_ciphertext := ch_refresh_token_ciphertext row,
          ch_refresh_token_nonce := ch_refresh_token_nonce row,
          ch_access_token_ciphertext := ch_access_token_ciphertext row,
          ch_access_token_nonce := ch_access_token_nonce row,
          ch_access_token_expires_at := ch_access_token_expires_at row,
          ch_token_key_id := ch_token_key_id row,
          ch_last_refreshed_at := ch_last_refreshed_at row \<rparr>"

definition write_character :: "uuid \<Rightarrow> character \<Rightarrow> db \<Rightarrow> db res" where
  "write_character new_id row d =
     (if find_user d (ch_user_id row) = None then Inl (Internal ''upserting character'')
      else if \<exists>ch\<in>set (characters d). ch_character_id ch = ch_character_id row
      then Inr (d \<lparr> characters := upd_where (\<lambda>ch. ch_character_id ch = ch_character_id row)
             (refreshed row) (characters d) \<rparr>)
      else if new_id \<in> ch_id ` set (characters d) then Inl db_unique_violation
      else Inr (d \<lparr> characters := characters d @ [row] \<rparr>))"

definition upsert_character ::
  "crypto \<Rightarrow> multi_key_cipher \<Rightarrow> (bool \<Rightarrow> string) \<Rightarrow> new_ids \<Rightarrow> instant \<Rightarrow> int \<Rightarrow> eve_claims \<Rightarrow> esi_tokens \<Rightarrow>
     uuid option \<Rightarrow> bool \<Rightarrow> db \<Rightarrow> (uuid \<times> db) res" where
  "upsert_character cr c nonce ids now cap cl tokens session_user attach d =
     bind_res (claims_character_id cl) (\<lambda>character_id.
     let existing = find (\<lambda>ch. ch_character_id ch = character_id) (characters d) in
     bind_res (target_user ids cl existing session_user attach now d) (\<lambda>(uid, d1).
     bind_res (check_character_quota cap existing uid d1) (\<lambda>_.
     bind_res (seal cr c (nonce True) (et_refresh_token tokens) character_id) (\<lambda>(rt_ct, rt_nonce, kid).
     bind_res (seal cr c (nonce False) (et_access_token tokens) character_id) (\<lambda>(at_ct, at_nonce, _).
     bind_res (write_character (ni_character ids)
       \<lparr> ch_id = ni_character ids, ch_user_id = uid, ch_character_id = character_id,
         ch_character_name = ec_name cl, ch_owner_hash = ec_owner cl, ch_scopes = claims_scopes cl,
         ch_refresh_token_ciphertext = rt_ct, ch_refresh_token_nonce = rt_nonce,
         ch_access_token_ciphertext = Some at_ct, ch_access_token_nonce = Some at_nonce,
         ch_access_token_expires_at = Some (et_expires_at tokens), ch_token_key_id = kid,
         ch_created_at = now, ch_last_refreshed_at = Some now,
         ch_contracts_next_poll_at = None, ch_contracts_last_polled_at = None \<rparr> d1) (\<lambda>d2.
     Inr (uid, d2)))))))"

text \<open>The pending consent is taken out of the session whatever happens next.\<close>

definition callback_account ::
  "crypto \<Rightarrow> multi_key_cipher \<Rightarrow> sso_config \<Rightarrow> sso_env \<Rightarrow> (bool \<Rightarrow> string) \<Rightarrow> new_ids \<Rightarrow> instant \<Rightarrow>
     pending_auth \<Rightarrow> uuid option \<Rightarrow> string \<Rightarrow> string \<Rightarrow> db \<Rightarrow> (uuid \<times> db) res" where
  "callback_account cr c cfg env nonce ids now pending session_user code state d =
     (if pa_state pending \<noteq> state then Inl (BadRequest ''state mismatch'')
      else bind_res (ok_or (Internal ''exchange_code'')
             (se_exchange_code env code (pa_code_verifier pending) (sc_callback_url cfg))) (\<lambda>tokens.
      bind_res (ok_or (Internal ''JWT verification failed'') (se_verify env (et_access_token tokens))) (\<lambda>cl.
      bind_res (case pa_target_character_id pending of None \<Rightarrow> Inr ()
                | Some target \<Rightarrow> bind_res (claims_character_id cl) (\<lambda>returned.
                    if returned \<noteq> target
                    then Inl (BadRequest ''consent returned a different character than the one requested'')
                    else Inr ())) (\<lambda>_.
      upsert_character cr c nonce ids now (sc_characters_per_user cfg) cl tokens
        session_user (pa_attach pending) d))))"

definition callback ::
  "crypto \<Rightarrow> multi_key_cipher \<Rightarrow> sso_config \<Rightarrow> sso_env \<Rightarrow> (bool \<Rightarrow> string) \<Rightarrow> new_ids \<Rightarrow> instant \<Rightarrow>
     string \<Rightarrow> string \<Rightarrow> web_session \<Rightarrow> db \<Rightarrow> string res \<times> web_session \<times> db" where
  "callback cr c cfg env nonce ids now code state s d =
     (case ws_pending s of
        None \<Rightarrow> (Inl (BadRequest ''no pending auth in session''), s, d)
      | Some pending \<Rightarrow>
          let s1 = s \<lparr> ws_pending := None \<rparr> in
          (case callback_account cr c cfg env nonce ids now pending (ws_user s) code state d of
             Inl e \<Rightarrow> (Inl e, s1, d)
           | Inr (uid, d') \<Rightarrow>
               (Inr (case safe_return_to (pa_return_to pending) of None \<Rightarrow> ''/me'' | Some p \<Rightarrow> p),
                s1 \<lparr> ws_user := Some uid \<rparr>, d')))"

section \<open>The transaction of a request that redirects\<close>

text \<open>\<^verbatim>\<open>Redirect::to\<close> answers 303; the middleware commits exactly on a 2xx status.\<close>

definition is_success :: "nat \<Rightarrow> bool" where
  "is_success st \<longleftrightarrow> 200 \<le> st \<and> st < 300"

definition redirect_status :: "string res \<Rightarrow> nat" where
  "redirect_status r = (case r of Inl e \<Rightarrow> status_code e | Inr _ \<Rightarrow> 303)"

definition commit_on_success :: "nat \<Rightarrow> db \<Rightarrow> db \<Rightarrow> db" where
  "commit_on_success st before after = (if is_success st then after else before)"

definition callback_request ::
  "crypto \<Rightarrow> multi_key_cipher \<Rightarrow> sso_config \<Rightarrow> sso_env \<Rightarrow> (bool \<Rightarrow> string) \<Rightarrow> new_ids \<Rightarrow> instant \<Rightarrow>
     string \<Rightarrow> string \<Rightarrow> web_session \<Rightarrow> db \<Rightarrow> string res \<times> web_session \<times> db" where
  "callback_request cr c cfg env nonce ids now code state s d =
     (case callback cr c cfg env nonce ids now code state s d of
        (r, s', d') \<Rightarrow> (r, s', commit_on_success (redirect_status r) d d'))"

definition logout :: "web_session \<Rightarrow> string \<times> web_session" where
  "logout s = (''/'', \<lparr> ws_user = None, ws_pending = None \<rparr>)"

section \<open>The account\<close>

record character_view =
  cv_id :: uuid
  cv_user_id :: uuid
  cv_character_id :: int
  cv_character_name :: string
  cv_owner_hash :: string
  cv_scopes :: "string list"
  cv_access_token_expires_at :: "instant option"
  cv_created_at :: instant
  cv_last_refreshed_at :: "instant option"

definition character_view_of :: "character \<Rightarrow> character_view" where
  "character_view_of ch =
     \<lparr> cv_id = ch_id ch, cv_user_id = ch_user_id ch, cv_character_id = ch_character_id ch,
       cv_character_name = ch_character_name ch, cv_owner_hash = ch_owner_hash ch, cv_scopes = ch_scopes ch,
       cv_access_token_expires_at = ch_access_token_expires_at ch, cv_created_at = ch_created_at ch,
       cv_last_refreshed_at = ch_last_refreshed_at ch \<rparr>"

record me_response =
  mr_user_id :: uuid
  mr_display_name :: string
  mr_created_at :: instant
  mr_characters :: "character_view list"
  mr_active_character_id :: "uuid option"

definition me :: "session \<Rightarrow> db \<Rightarrow> me_response res" where
  "me s d =
     bind_res (current_user s) (\<lambda>uid.
     bind_res (ok_or Unauthorized (find_user d uid)) (\<lambda>u.
     Inr \<lparr> mr_user_id = u_id u, mr_display_name = u_display_name u, mr_created_at = u_created_at u,
           mr_characters = map character_view_of
             (sort_key ch_created_at (filter (\<lambda>ch. ch_user_id ch = uid) (characters d))),
           mr_active_character_id = u_active_character_id u \<rparr>))"

definition do_set_active_character :: "uuid \<Rightarrow> uuid option \<Rightarrow> db \<Rightarrow> db res" where
  "do_set_active_character uid chid d =
     (let hit = (\<lambda>u. u_id u = uid \<and> (chid = None
              \<or> (\<exists>ch\<in>set (characters d). Some (ch_id ch) = chid \<and> ch_user_id ch = uid)))
      in if \<exists>u\<in>set (users d). hit u
         then Inr (d \<lparr> users := upd_where hit (\<lambda>u. u \<lparr> u_active_character_id := chid \<rparr>) (users d) \<rparr>)
         else Inl Unauthorized)"

definition set_active_character :: "session \<Rightarrow> uuid option \<Rightarrow> db \<Rightarrow> (me_response \<times> db) res" where
  "set_active_character s chid d =
     bind_res (current_user s) (\<lambda>uid.
     bind_res (do_set_active_character uid chid d) (\<lambda>d'.
     bind_res (me s d') (\<lambda>r. Inr (r, d'))))"

section \<open>The export of personal data\<close>

record exported_character =
  xc_id :: uuid
  xc_character_id :: int
  xc_character_name :: string
  xc_owner_hash :: string
  xc_scopes :: "string list"
  xc_access_token_expires_at :: "instant option"
  xc_created_at :: instant
  xc_last_refreshed_at :: "instant option"
  xc_token_key_id :: string

definition exported_character_of :: "character \<Rightarrow> exported_character" where
  "exported_character_of ch =
     \<lparr> xc_id = ch_id ch, xc_character_id = ch_character_id ch, xc_character_name = ch_character_name ch,
       xc_owner_hash = ch_owner_hash ch, xc_scopes = ch_scopes ch,
       xc_access_token_expires_at = ch_access_token_expires_at ch, xc_created_at = ch_created_at ch,
       xc_last_refreshed_at = ch_last_refreshed_at ch, xc_token_key_id = ch_token_key_id ch \<rparr>"

record export =
  ex_user :: "uuid \<times> string \<times> instant"
  ex_characters :: "exported_character list"
  ex_group_memberships :: "(uuid \<times> string \<times> group_role \<times> instant) list"
  ex_lists_created :: "(uuid \<times> uuid \<times> string option \<times> list_status \<times> isk \<times> instant \<times> instant) list"
  ex_fulfillments :: "(uuid \<times> uuid \<times> qty \<times> isk \<times> uuid option \<times> instant \<times> instant option) list"
  ex_reimbursements :: "(uuid \<times> uuid \<times> reimbursement_status \<times> isk \<times> uuid option \<times> instant option) list"

text \<open>The lists, fulfillments and reimbursements are read under row-level security: only those
  of the groups the caller is still a member of.\<close>

definition do_export_me :: "uuid \<Rightarrow> db \<Rightarrow> export res" where
  "do_export_me uid d =
     bind_res (ok_or (Internal ''user not found'') (find_user d uid)) (\<lambda>u.
     Inr \<lparr> ex_user = (u_id u, u_display_name u, u_created_at u),
       ex_characters = map exported_character_of
         (sort_key ch_created_at (filter (\<lambda>ch. ch_user_id ch = uid) (characters d))),
       ex_group_memberships = concat (map (\<lambda>gm. map (\<lambda>g. (g_id g, g_name g, gm_role gm, gm_joined_at gm))
           (filter (\<lambda>g. g_id g = gm_group_id gm) (groups d)))
         (sort_key gm_joined_at (filter (\<lambda>gm. gm_user_id gm = uid) (memberships d)))),
       ex_lists_created = map (\<lambda>l. (l_id l, l_group_id l, l_destination_label l, l_status l,
           l_total_estimate_isk l, l_created_at l, l_updated_at l))
         (sort_key (\<lambda>l. - l_created_at l) (filter (\<lambda>l. l_created_by_user_id l = uid
           \<and> is_group_member d uid (l_group_id l)) (lists d))),
       ex_fulfillments = map (\<lambda>f. (f_id f, f_list_item_id f, f_qty f, f_unit_price_isk f,
           f_bought_at_market_id f, f_bought_at f, f_reversed_at f))
         (sort_key (\<lambda>f. - f_bought_at f) (filter (\<lambda>f. f_hauler_user_id f = uid
           \<and> fulfillment_visible d uid f) (fulfillments d))),
       ex_reimbursements = map (\<lambda>r. (r_id r, r_list_id r, r_status r, r_total_isk r, r_contract_id r, r_settled_at r))
         (sort_key r_id (filter (\<lambda>r. (r_requester_user_id r = Some uid \<or> r_hauler_user_id r = uid)
           \<and> is_list_member d uid (r_list_id r)) (reimbursements d))) \<rparr>)"

definition export_me :: "session \<Rightarrow> db \<Rightarrow> export res" where
  "export_me s d = bind_res (current_user s) (\<lambda>uid. do_export_me uid d)"

end
