(* ===== verification/Auth_Facts.thy ===== *)
theory Auth_Facts
  imports Auth Token_Facts Group_Facts
begin

text \<open>
  What logging in guarantees: the callback only ever redirects within the site, lets
  nobody into the account of somebody else, keeps the accounts well formed and within
  the limit, and stores the tokens it was given; the middleware around it throws the
  account away.
\<close>

section \<open>Case analysis of the callback\<close>

lemma callback_Inr:
  assumes "callback cr c cfg env nonce ids now code state s d = (Inr url, s', d')"
  obtains pending tokens cl chid uid where "ws_pending s = Some pending" "pa_state pending = state"
    "se_exchange_code env code (pa_code_verifier pending) (sc_callback_url cfg) = Some tokens"
    "se_verify env (et_access_token tokens) = Some cl"
    "claims_character_id cl = Inr chid" "pa_target_character_id pending \<in> {None, Some chid}"
    "upsert_character cr c nonce ids now (sc_characters_per_user cfg) cl tokens (ws_user s)
       (pa_attach pending) d = Inr (uid, d')"
    "s' = \<lparr> ws_user = Some uid, ws_pending = None \<rparr>"
    "url = (case safe_return_to (pa_return_to pending) of None \<Rightarrow> ''/me'' | Some p \<Rightarrow> p)"
proof -
  obtain pending uid where p: "ws_pending s = Some pending"
    and acc: "callback_account cr c cfg env nonce ids now pending (ws_user s) code state d = Inr (uid, d')"
    and s': "s' = s \<lparr> ws_pending := None, ws_user := Some uid \<rparr>"
    and url: "url = (case safe_return_to (pa_return_to pending) of None \<Rightarrow> ''/me'' | Some p \<Rightarrow> p)"
    using assms by (auto simp: callback_def Let_def split: option.splits sum.splits)
  obtain tokens cl where st: "pa_state pending = state"
    and tk: "se_exchange_code env code (pa_code_verifier pending) (sc_callback_url cfg) = Some tokens"
    and cl: "se_verify env (et_access_token tokens) = Some cl"
    and tgt: "\<forall>x. pa_target_character_id pending = Some x \<longrightarrow> claims_character_id cl = Inr x"
    and up: "upsert_character cr c nonce ids now (sc_characters_per_user cfg) cl tokens (ws_user s)
       (pa_attach pending) d = Inr (uid, d')"
    using acc by (auto simp: callback_account_def bind_res_eq_Inr split: if_splits option.splits)
  obtain chid where id: "claims_character_id cl = Inr chid"
    using up by (auto simp: upsert_character_def bind_res_eq_Inr)
  have "pa_target_character_id pending \<in> {None, Some chid}"
    using tgt id by (cases "pa_target_character_id pending") auto
  then show ?thesis using that [OF p st tk cl id _ up _ url] s' by simp
qed

definition stored_row ::
  "new_ids \<Rightarrow> instant \<Rightarrow> eve_claims \<Rightarrow> esi_tokens \<Rightarrow> uuid \<Rightarrow> int \<Rightarrow> string \<Rightarrow> string \<Rightarrow> string \<Rightarrow> string \<Rightarrow> string \<Rightarrow> character" where
  "stored_row ids now cl tokens uid chid rt_ct rt_nonce kid at_ct at_nonce =
     \<lparr> ch_id = ni_character ids, ch_user_id = uid, ch_character_id = chid,
       ch_character_name = ec_name cl, ch_owner_hash = ec_owner cl, ch_scopes = claims_scopes cl,
       ch_refresh_token_ciphertext = rt_ct, ch_refresh_token_nonce = rt_nonce,
       ch_access_token_ciphertext = Some at_ct, ch_access_token_nonce = Some at_nonce,
       ch_access_token_expires_at = Some (et_expires_at tokens), ch_token_key_id = kid,
       ch_created_at = now, ch_last_refreshed_at = Some now,
       ch_contracts_next_poll_at = None, ch_contracts_last_polled_at = None \<rparr>"

lemma upsert_character_Inr:
  assumes "upsert_character cr c nonce ids now cap cl tokens session_user attach d = Inr (uid, d')"
    and "claims_character_id cl = Inr chid"
  obtains d1 rt_ct rt_nonce kid at_ct at_nonce kid' where
    "target_user ids cl (find (\<lambda>ch. ch_character_id ch = chid) (characters d)) session_user attach now d = Inr (uid, d1)"
    "check_character_quota cap (find (\<lambda>ch. ch_character_id ch = chid) (characters d)) uid d1 = Inr ()"
    "encrypt cr c (nonce True) (et_refresh_token tokens) (to_be_bytes chid) = Some (Inr (rt_ct, rt_nonce, kid))"
    "encrypt cr c (nonce False) (et_access_token tokens) (to_be_bytes chid) = Some (Inr (at_ct, at_nonce, kid'))"
    "write_character (ni_character ids) (stored_row ids now cl tokens uid chid rt_ct rt_nonce kid at_ct at_nonce) d1 = Inr d'"
  using assms
  by (auto simp: upsert_character_def bind_res_eq_Inr Let_def seal_def stored_row_def [symmetric]
      split: option.splits sum.splits)

text \<open>Whose account it is, and that finding it leaves every other table alone.\<close>

lemma target_user_Inr:
  assumes "target_user ids cl existing session_user attach now d = Inr (uid, d1)"
  shows "characters d1 = characters d"
    and "session_user = Some uid \<or> (\<not> attach \<and> (\<exists>ch. existing = Some ch \<and> ch_owner_hash ch = ec_owner cl \<and> ch_user_id ch = uid))
      \<or> (\<not> attach \<and> session_user = None \<and> uid = ni_user ids \<and> uid \<notin> u_id ` set (users d))"
    and "d1 = d \<or> (\<exists>d2. create_user ids (ec_name cl) now d = Inr (uid, d2) \<and> d1 = d2)"
    and "attach \<Longrightarrow> session_user = Some uid"
  using assms
  by (auto simp: target_user_def create_user_def bind_res_eq_Inr split: if_splits option.splits)

lemma create_user_Inr:
  assumes "create_user ids name now d = Inr (uid, d1)"
  shows "uid = ni_user ids" "uid \<notin> u_id ` set (users d)" "map u_id (users d1) = map u_id (users d) @ [uid]"
    "characters d1 = characters d"
  using assms by (auto simp: create_user_def split: if_splits)

section \<open>Well-formed accounts\<close>

definition accounts_ok :: "int \<Rightarrow> db \<Rightarrow> bool" where
  "accounts_ok cap d \<longleftrightarrow> distinct (map u_id (users d)) \<and> distinct (map ch_id (characters d))
     \<and> distinct (map ch_character_id (characters d))
     \<and> (\<forall>ch\<in>set (characters d). ch_user_id ch \<in> u_id ` set (users d))
     \<and> (\<forall>uid. characters_of uid d \<le> cap)"

lemma accounts_okD:
  assumes "accounts_ok cap d"
  shows "distinct (map u_id (users d))" "distinct (map ch_id (characters d))"
    "distinct (map ch_character_id (characters d))"
    "ch \<in> set (characters d) \<Longrightarrow> ch_user_id ch \<in> u_id ` set (users d)" "characters_of uid d \<le> cap"
  using assms by (simp_all add: accounts_ok_def)

lemma find_character:
  "find (\<lambda>ch. ch_character_id ch = k) chs = Some ch \<Longrightarrow> ch \<in> set chs \<and> ch_character_id ch = k"
  by (auto dest: find_Some_memD)

text \<open>Writing a row of an existing character moves it to its new user.\<close>

lemma count_move:
  assumes "distinct (map ch_character_id chs)" "ch \<in> set chs" "ch_character_id ch = k" "\<And>x. ch_user_id (g x) = uid"
  shows "count_where (\<lambda>x. ch_user_id x = u) (upd_where (\<lambda>x. ch_character_id x = k) g chs)
      + (if ch_user_id ch = u then 1 else 0)
    = count_where (\<lambda>x. ch_user_id x = u) chs + (if uid = u then 1 else 0)"
proof -
  obtain as bs where chs: "chs = as @ ch # bs" using assms(2) by (auto dest: split_list)
  have no: "upd_where (\<lambda>x. ch_character_id x = k) g xs = xs" if "k \<notin> ch_character_id ` set xs" for xs
    using that by (induction xs) auto
  have "upd_where (\<lambda>x. ch_character_id x = k) g as = as" "upd_where (\<lambda>x. ch_character_id x = k) g bs = bs"
    using assms(1,3) by (intro no; simp add: chs; blast)+
  then show ?thesis using assms(3,4) by (simp add: chs count_where_def upd_where_def)
qed

lemma upd_where_keys:
  "(\<And>x. k (g x) = k x) \<Longrightarrow> map k (upd_where P g xs) = map k xs"
  by (induction xs) auto

text \<open>What the write of the row does, in the two cases.\<close>

lemma refreshed_sel [simp]:
  "ch_user_id (refreshed row x) = ch_user_id row" "ch_id (refreshed row x) = ch_id x"
  "ch_character_id (refreshed row x) = ch_character_id x" "ch_owner_hash (refreshed row x) = ch_owner_hash row"
  by (simp_all add: refreshed_def)

lemma refreshed_tokens:
  "ch_character_id x = ch_character_id row \<Longrightarrow> row_tokens cr c (refreshed row x) = row_tokens cr c row"
  by (cases "ch_access_token_ciphertext row"; cases "ch_access_token_nonce row")
    (simp_all add: refreshed_def row_tokens_def row_access_def)

lemma write_character_Inr:
  assumes "write_character new_id row d = Inr d'"
  obtains (upd) ch where "find (\<lambda>ch. ch_character_id ch = ch_character_id row) (characters d) = Some ch"
      "characters d' = upd_where (\<lambda>ch. ch_character_id ch = ch_character_id row) (refreshed row) (characters d)"
      "users d' = users d" "ch_user_id row \<in> u_id ` set (users d)"
    | (ins) "find (\<lambda>ch. ch_character_id ch = ch_character_id row) (characters d) = None"
      "new_id \<notin> ch_id ` set (characters d)"
      "characters d' = characters d @ [row]" "users d' = users d" "ch_user_id row \<in> u_id ` set (users d)"
proof -
  have "find_user d (ch_user_id row) \<noteq> None"
    using assms by (auto simp: write_character_def split: if_splits)
  then have user: "ch_user_id row \<in> u_id ` set (users d)"
    using lock_user_Inr [of "ch_user_id row" d "()"] by (auto simp: lock_user_for_quota_def)
  show ?thesis
  proof (cases "find (\<lambda>ch. ch_character_id ch = ch_character_id row) (characters d)")
    case None
    then have "\<not> (\<exists>ch\<in>set (characters d). ch_character_id ch = ch_character_id row)"
      by (auto simp: find_None_iff)
    then show ?thesis using None assms user ins by (auto simp: write_character_def split: if_splits)
  next
    case (Some ch)
    then have "\<exists>ch\<in>set (characters d). ch_character_id ch = ch_character_id row"
      using find_character by blast
    then show ?thesis using Some assms user upd by (auto simp: write_character_def split: if_splits)
  qed
qed

lemma quota_Inr:
  "check_character_quota cap existing uid d = Inr () \<longleftrightarrow>
     ((\<exists>ch. existing = Some ch \<and> ch_user_id ch = uid) \<or> characters_of uid d < cap)"
  by (auto simp: check_character_quota_def split: option.splits)

lemma write_character_ok:
  assumes ok: "accounts_ok cap d" and "write_character new_id row d = Inr d'" "ch_id row = new_id"
    and "check_character_quota cap (find (\<lambda>ch. ch_character_id ch = ch_character_id row) (characters d)) (ch_user_id row) d = Inr ()"
  shows "accounts_ok cap d'"
  using assms(2)
proof (cases rule: write_character_Inr)
  case (upd ch)
  note ch = find_character [OF upd(1)]
  have "characters_of u d' \<le> cap" for u
    using count_move [OF accounts_okD(3) [OF ok] conjunct1 [OF ch] conjunct2 [OF ch], of "refreshed row" "ch_user_id row" u]
      accounts_okD(5) [OF ok, of u] assms(4) upd(1)
    by (auto simp: quota_Inr characters_of_def upd(2) split: if_splits)
  moreover have "\<forall>x\<in>set (characters d'). ch_user_id x \<in> u_id ` set (users d')"
    using accounts_okD(4) [OF ok] upd(4) by (auto simp: upd(2,3) upd_where_def)
  ultimately show ?thesis
    using accounts_okD(1-3) [OF ok] by (simp add: accounts_ok_def upd(2,3) upd_where_keys)
next
  case ins
  have "ch_character_id row \<notin> ch_character_id ` set (characters d)" using ins(1) by (auto simp: find_None_iff)
  moreover have "characters_of u d' \<le> cap" for u
    using accounts_okD(5) [OF ok, of u] assms(4) ins(1)
    by (auto simp: quota_Inr characters_of_def ins(3) count_where_def)
  ultimately show ?thesis
    using ok ins(2,5) assms(3) by (auto simp: accounts_ok_def ins(3,4))
qed

lemma create_user_ok:
  assumes "accounts_ok cap d" "create_user ids name now d = Inr (uid, d1)"
  shows "accounts_ok cap d1"
proof -
  note u = create_user_Inr [OF assms(2)]
  have "u_id ` set (users d1) = insert uid (u_id ` set (users d))" using u(3) by (metis list.set_map set_append list.simps(15) empty_set Un_insert_right sup_bot_right)
  then show ?thesis using assms(1) u(2,3,4) by (auto simp: accounts_ok_def characters_of_def)
qed

lemma upsert_character_ok:
  assumes "accounts_ok cap d" "upsert_character cr c nonce ids now cap cl tokens session_user attach d = Inr (uid, d')"
  shows "accounts_ok cap d'"
proof -
  obtain chid where id: "claims_character_id cl = Inr chid"
    using assms(2) by (auto simp: upsert_character_def bind_res_eq_Inr)
  from assms(2) id show ?thesis
  proof (cases rule: upsert_character_Inr)
    case (1 d1 rt rn kid at an kid')
    have "accounts_ok cap d1" using target_user_Inr(3) [OF 1(1)] assms(1) create_user_ok by auto
    then show ?thesis
      by (rule write_character_ok [OF _ 1(5)]) (use 1(2) target_user_Inr(1) [OF 1(1)] in \<open>simp_all add: stored_row_def\<close>)
  qed
qed

section \<open>A login to try the properties on\<close>

definition demo_sso :: sso_env where
  "demo_sso = \<lparr> se_turnstile = (\<lambda>_ _. Some True),
     se_authorize_url = (\<lambda>_ _. Some \<lparr> pk_authorize_url = ''https://login.eveonline.com/'', pk_state = ''s3'',
                                       pk_code_verifier = ''v'' \<rparr>),
     se_exchange_code = (\<lambda>code _ _. if code = ''code''
        then Some \<lparr> et_access_token = ''at'', et_refresh_token = ''rt'', et_expires_at = 1200 \<rparr> else None),
     se_verify = (\<lambda>_. Some \<lparr> ec_sub = ''CHARACTER:EVE:91'', ec_name = ''Pilot'', ec_owner = ''h1'',
                             ec_scp = One ''publicData'' \<rparr>) \<rparr>"

definition demo_sso_config :: sso_config where
  "demo_sso_config = \<lparr> sc_login_scopes = [''publicData''], sc_upgrade_scopes = [''esi-wallet''],
     sc_callback_url = ''https://jitacart.example/callback'', sc_turnstile_disabled = False, sc_characters_per_user = 10 \<rparr>"

definition demo_ids :: new_ids where
  "demo_ids = \<lparr> ni_user = 1, ni_principal = 11, ni_character = 31 \<rparr>"

definition demo_browser :: web_session where
  "demo_browser = \<lparr> ws_user = None, ws_pending = Some \<lparr> pa_code_verifier = ''v'', pa_state = ''s3'', pa_attach = False,
     pa_return_to = Some ''/groups'', pa_target_character_id = None, pa_requested_scopes = [''publicData''] \<rparr> \<rparr>"

definition demo_callback :: "db \<Rightarrow> string res \<times> web_session \<times> db" where
  "demo_callback d = callback demo_crypto demo_cipher demo_sso_config demo_sso demo_nonce demo_ids 100
     ''code'' ''s3'' demo_browser d"

lemma demo_claims:
  "claims_character_id \<lparr> ec_sub = ''CHARACTER:EVE:91'', ec_name = n, ec_owner = h, ec_scp = sc \<rparr> = Inr 91"
  by code_simp

lemma demo_callback_empty:
  "demo_callback empty_db = (Inr ''/groups'', \<lparr> ws_user = Some 1, ws_pending = None \<rparr>, snd (snd (demo_callback empty_db)))"
proof -
  have "fst (demo_callback empty_db) = Inr ''/groups''" by code_simp
  moreover have "fst (snd (demo_callback empty_db)) = \<lparr> ws_user = Some 1, ws_pending = None \<rparr>" by code_simp
  ultimately show ?thesis by (simp add: prod_eq_iff)
qed

lemma demo_accounts: "accounts_ok 10 empty_db"
  by (simp add: accounts_ok_def empty_db_def characters_of_def count_where_def)

section \<open>Nobody logs into another account\<close>

definition site_relative :: "string \<Rightarrow> bool" where
  "site_relative url \<longleftrightarrow> (\<exists>rest. url = CHR ''/'' # rest \<and> (rest = [] \<or> hd rest \<notin> {CHR ''/'', CHR 0x5C}))
     \<and> set url \<inter> {CHR 0x0D, CHR 0x0A} = {}"

lemma safe_return_to_relative: "safe_return_to r = Some p \<Longrightarrow> site_relative p"
  by (cases p; cases "tl p")
    (auto simp: safe_return_to_def site_relative_def CR_def LF_def split: option.splits if_splits)

lemma me_relative: "site_relative ''/me''"
  by (simp add: site_relative_def)



lemma stored_row_tokens:
  assumes "crypto_ok cr" "nonces_ok nonce" "valid_utf8 (et_refresh_token tokens)" "valid_utf8 (et_access_token tokens)"
    and rt: "encrypt cr c (nonce True) (et_refresh_token tokens) (to_be_bytes chid) = Some (Inr (rt_ct, rt_nonce, kid))"
    and at: "encrypt cr c (nonce False) (et_access_token tokens) (to_be_bytes chid) = Some (Inr (at_ct, at_nonce, kid'))"
  shows "row_tokens cr c (stored_row ids now cl tokens uid chid rt_ct rt_nonce kid at_ct at_nonce) =
    Inr \<lparr> lt_refresh_token = et_refresh_token tokens, lt_access_token = Some (et_access_token tokens),
          lt_access_token_expires_at = Some (et_expires_at tokens), lt_eve_character_id = chid \<rparr>"
proof -
  have n: "length (nonce b) = 12" for b using assms(2) by (simp add: nonces_ok_def)
  have "kid' = kid" using rt at by (auto elim!: encrypt_Inr)
  then show ?thesis
    using decrypt_encrypted [OF assms(1) rt n] decrypt_encrypted [OF assms(1) at n] assms(3,4)
    by (simp add: stored_row_def row_tokens_def row_access_def utf8_str_def)
qed

lemma write_character_row:
  assumes "write_character new_id row d = Inr d'"
  obtains ch where "ch \<in> set (characters d')" "ch_character_id ch = ch_character_id row"
    "ch_user_id ch = ch_user_id row" "row_tokens cr c ch = row_tokens cr c row"
  using assms
proof (cases rule: write_character_Inr)
  case (upd ch)
  note ch = find_character [OF upd(1)]
  have "refreshed row ch \<in> set (characters d')" using ch by (auto simp: upd(2) upd_where_def)
  then show ?thesis using that ch refreshed_tokens by simp
next
  case ins
  then show ?thesis using that [of row] by simp
qed

lemma upsert_character_row:
  assumes "crypto_ok cr" "nonces_ok nonce"
    and "upsert_character cr c nonce ids now cap cl tokens session_user attach d = Inr (uid, d')"
    and "claims_character_id cl = Inr chid"
  obtains ch where "ch \<in> set (characters d')" "ch_character_id ch = chid" "ch_user_id ch = uid"
    "valid_utf8 (et_refresh_token tokens) \<and> valid_utf8 (et_access_token tokens) \<longrightarrow>
       row_tokens cr c ch = Inr \<lparr> lt_refresh_token = et_refresh_token tokens,
         lt_access_token = Some (et_access_token tokens),
         lt_access_token_expires_at = Some (et_expires_at tokens), lt_eve_character_id = chid \<rparr>"
  using assms(3,4)
proof (cases rule: upsert_character_Inr)
  case (1 d1 rt rn kid at an kid')
  let ?row = "stored_row ids now cl tokens uid chid rt rn kid at an"
  obtain ch where ch: "ch \<in> set (characters d')" "ch_character_id ch = chid" "ch_user_id ch = uid"
    "row_tokens cr c ch = row_tokens cr c ?row"
    by (rule write_character_row [OF 1(5), of cr c]) (simp add: stored_row_def)
  show ?thesis
    by (rule that [OF ch(1-3)]) (use ch(4) stored_row_tokens [OF assms(1,2) _ _ 1(3,4)] in simp)
qed



section \<open>The login is rolled back\<close>

lemma status_code_not_success: "\<not> is_success (status_code e)"
  by (cases e) (simp_all add: is_success_def)

lemma redirect_not_success: "\<not> is_success (redirect_status r)"
  by (cases r) (simp_all add: redirect_status_def status_code_not_success, simp add: is_success_def)

text \<open>C33: the transaction of the callback is never committed.  The callback answers a redirect
  (303) and the middleware commits on a 2xx status only, so the user, the character and
  its tokens are rolled back although the session already names the user: after a first
  login the session acts for a user that does not exist, and the account page answers
  that nobody is logged in.\<close>

theorem callback_rolled_back:
  assumes "callback_request cr c cfg env nonce ids now code state s d = (r, s', d')"
  shows "d' = d \<and> (\<forall>url uid. r = Inr url \<and> ws_user s' = Some uid \<and> uid \<notin> u_id ` set (users d) \<longrightarrow>
      me (ws_user s') d' = Inl Unauthorized)"
proof -
  have d': "d' = d"
    using assms by (auto simp: callback_request_def commit_on_success_def redirect_not_success split: prod.splits)
  have "me (Some uid) d = Inl Unauthorized" if "uid \<notin> u_id ` set (users d)" for uid
  proof -
    have "find_user d uid = None" using that by (auto simp: find_user_def find_None_iff)
    then show ?thesis by (simp add: me_def current_user_def)
  qed
  then show ?thesis using d' by auto
qed

theorem callback_rolled_back_witness:
  "\<exists>s' d'. callback_request demo_crypto demo_cipher demo_sso_config demo_sso demo_nonce demo_ids 100
       ''code'' ''s3'' demo_browser empty_db = (Inr ''/groups'', s', d')
     \<and> d' = empty_db \<and> me (ws_user s') d' = Inl Unauthorized"
proof -
  obtain d2 where c: "callback demo_crypto demo_cipher demo_sso_config demo_sso demo_nonce demo_ids 100
       ''code'' ''s3'' demo_browser empty_db = (Inr ''/groups'', \<lparr> ws_user = Some 1, ws_pending = None \<rparr>, d2)"
    using demo_callback_empty unfolding demo_callback_def by blast
  obtain d' where run: "callback_request demo_crypto demo_cipher demo_sso_config demo_sso demo_nonce demo_ids 100
       ''code'' ''s3'' demo_browser empty_db = (Inr ''/groups'', \<lparr> ws_user = Some 1, ws_pending = None \<rparr>, d')"
    unfolding callback_request_def c by simp
  have "(1::uuid) \<notin> u_id ` set (users empty_db)" by (simp add: empty_db_def)
  then have "me (Some 1) d' = Inl Unauthorized" "d' = empty_db"
    using callback_rolled_back [OF run] by auto
  then show ?thesis using run by auto
qed

section \<open>Scopes\<close>

lemma fold_insort_insert:
  "set (fold insort_insert xs acc) = set xs \<union> set acc"
  "sorted acc \<Longrightarrow> sorted (fold insort_insert xs acc)"
  "distinct acc \<Longrightarrow> distinct (fold insort_insert xs acc)"
  by (induction xs arbitrary: acc)
    (auto simp: set_insort_insert sorted_insort_insert distinct_insort_insert)

lemma merge_upgrade_scopes:
  "set (merge_upgrade_scopes l e r) = set l \<union> set e \<union> set r"
  "sorted (merge_upgrade_scopes l e r)" "distinct (merge_upgrade_scopes l e r)"
  by (auto simp: merge_upgrade_scopes_def fold_insort_insert)

lemma check_allowed_Inr: "check_allowed allowed ss = Inr u \<longleftrightarrow> set ss \<subseteq> set allowed"
  by (induction ss) auto

text \<open>An upgrade of the scopes of a character asks for a character of the caller, for
  configured scopes only, and never drops one: the consent asks for exactly the login
  scopes, the scopes the character has and the requested ones, each once and in order,
  and the callback will only accept that character.\<close>

theorem upgrade_keeps_scopes:
  assumes "upgrade cfg env s character_id scopes return_to d = Inr (url, s')"
  shows "\<exists>uid ch pending. ws_user s = Some uid \<and> ch \<in> set (characters d) \<and> ch_user_id ch = uid
    \<and> ch_character_id ch = character_id \<and> s' = s \<lparr> ws_pending := Some pending \<rparr>
    \<and> pa_target_character_id pending = Some character_id \<and> pa_attach pending
    \<and> set (pa_requested_scopes pending) = set (sc_login_scopes cfg) \<union> set (ch_scopes ch) \<union> set (requested_scopes scopes)
    \<and> sorted (pa_requested_scopes pending) \<and> distinct (pa_requested_scopes pending)
    \<and> requested_scopes scopes \<noteq> []
    \<and> set (requested_scopes scopes) \<subseteq> set (sc_login_scopes cfg) \<union> set (sc_upgrade_scopes cfg)"
proof -
  obtain uid ch where u: "ws_user s = Some uid" "requested_scopes scopes \<noteq> []"
    "set (requested_scopes scopes) \<subseteq> set (sc_login_scopes cfg) \<union> set (sc_upgrade_scopes cfg)"
    and ch: "find (\<lambda>ch. ch_character_id ch = character_id \<and> ch_user_id ch = uid) (characters d) = Some ch"
    and st: "start_consent cfg env (merge_upgrade_scopes (sc_login_scopes cfg) (ch_scopes ch) (requested_scopes scopes))
       True return_to (Some character_id) s = Inr (url, s')"
    using assms
    by (auto simp: upgrade_def current_user_def Let_def bind_res_eq_Inr check_allowed_Inr split: option.splits if_splits)
  obtain pending where "s' = s \<lparr> ws_pending := Some pending \<rparr>" "pa_target_character_id pending = Some character_id"
    "pa_attach pending"
    "pa_requested_scopes pending = merge_upgrade_scopes (sc_login_scopes cfg) (ch_scopes ch) (requested_scopes scopes)"
    using st by (auto simp: start_consent_def bind_res_eq_Inr)
  then show ?thesis
    using u find_Some_memD [OF ch]
    by (intro exI [of _ uid] exI [of _ ch] exI [of _ pending]) (simp add: merge_upgrade_scopes)
qed

definition demo_pilots :: db where
  "demo_pilots = demo_token_db \<lparr> users := [demo_user 1 ''Ann'' \<lparr> u_active_character_id := Some 31 \<rparr>] \<rparr>"

theorem upgrade_keeps_scopes_witness:
  "\<exists>url s'. upgrade demo_sso_config demo_sso \<lparr> ws_user = Some 1, ws_pending = None \<rparr> 91 '' esi-wallet,'' None demo_pilots
      = Inr (url, s')
     \<and> (\<exists>pending. ws_pending s' = Some pending \<and> set (pa_requested_scopes pending) = {''publicData'', ''esi-wallet''})"
proof -
  let ?s = "\<lparr> ws_user = Some 1, ws_pending = None \<rparr>"
  have "\<exists>x. upgrade demo_sso_config demo_sso ?s 91 '' esi-wallet,'' None demo_pilots = Inr x"
    by (cases "upgrade demo_sso_config demo_sso ?s 91 '' esi-wallet,'' None demo_pilots"; simp; code_simp)
  then obtain url s' where run: "upgrade demo_sso_config demo_sso ?s 91 '' esi-wallet,'' None demo_pilots = Inr (url, s')"
    by auto
  have req: "requested_scopes '' esi-wallet,'' = [''esi-wallet'']" by code_simp
  have sc: "ch_scopes ch = []" if "ch \<in> set (characters demo_pilots)" for ch
    using that by (auto simp: demo_pilots_def demo_token_db_def demo_token_row_def)
  show ?thesis
    using run upgrade_keeps_scopes [OF run] sc by (auto simp: req demo_sso_config_def)
qed

text \<open>A character that changes hands stays the active character of its former user, although
  the trigger on the users table means to keep the active character among one's own.\<close>

lemma transfer_leaves_active_character:
  "map (\<lambda>u. (u_id u, u_active_character_id u)) (users (snd (snd (callback demo_crypto demo_cipher demo_sso_config
      demo_sso demo_nonce (demo_ids \<lparr> ni_user := 2 \<rparr>) 100 ''code'' ''s3'' demo_browser demo_pilots)))) = [(1, Some 31), (2, None)]
   \<and> map (\<lambda>ch. (ch_id ch, ch_user_id ch)) (characters (snd (snd (callback demo_crypto demo_cipher demo_sso_config
      demo_sso demo_nonce (demo_ids \<lparr> ni_user := 2 \<rparr>) 100 ''code'' ''s3'' demo_browser demo_pilots)))) = [(31, 2), (32, 1)]"
  by code_simp

end
