(* ===== verification/Corp_Wallet.thy ===== *)
theory Corp_Wallet
  imports Contract_Worker Tokens
begin

text \<open>
  The wallet poller of the worker (\<^verbatim>\<open>worker/src/jobs/corp_wallet.rs\<close>).  Every statement of a
  poll is committed on its own, so an early return keeps what was written before it; the
  budget of ESI errors is threaded through.  What ESI answers to each ambassador, and the
  clients of the token store after the calls, are arguments (\<open>wallet_env\<close>).  The corps of a
  tick are polled one after the other: their tasks write rows of their own corp only.
\<close>

definition CORP_WALLET_SCOPE :: string where
  "CORP_WALLET_SCOPE = ''esi-wallet.read_corporation_wallets.v1''"

section \<open>What ESI answers\<close>

record esi_wallet =
  ew_division :: int
  ew_balance :: decimal

record esi_journal =
  ej_id :: int
  ej_date :: instant
  ej_ref_type :: string
  ej_amount :: "decimal option"
  ej_balance :: "decimal option"
  ej_first_party_id :: "int option"
  ej_second_party_id :: "int option"
  ej_context_id :: "int option"
  ej_context_id_type :: "string option"
  ej_reason :: "string option"

text \<open>The journal is asked for with the client that answered the balances, so there \<open>NoClient\<close>
  does not occur; it would end the poll like any error.\<close>

record wallet_env =
  we_balances :: "uuid \<Rightarrow> esi_wallet list esi_reply"
  we_journal :: "uuid \<Rightarrow> int \<Rightarrow> esi_journal list esi_reply"
  we_store :: store_env

text \<open>\<^verbatim>\<open>as i16\<close> keeps the low 16 bits.\<close>

definition as_i16 :: "int \<Rightarrow> int" where
  "as_i16 x = (x + 32768) mod 65536 - 32768"

section \<open>Balances\<close>

definition upsert_division :: "uuid \<Rightarrow> esi_wallet \<Rightarrow> instant \<Rightarrow> db \<Rightarrow> unit + db" where
  "upsert_division corp w now d =
     (let dv = as_i16 (ew_division w);
          bal = to_numeric 2 (ew_balance w);
          hit = (\<lambda>x. wd_corp_id x = corp \<and> wd_division x = dv)
      in if dv < 1 \<or> 7 < dv \<or> \<not> fits 20 bal then Inl ()
         else Inr (d \<lparr> wallet_divisions :=
                (if \<exists>x\<in>set (wallet_divisions d). hit x
                 then upd_where hit (\<lambda>x. x \<lparr> wd_balance_isk := bal, wd_last_synced_at := Some now \<rparr>) (wallet_divisions d)
                 else wallet_divisions d @ [\<lparr> wd_corp_id = corp, wd_division = dv, wd_name = None,
                        wd_balance_isk = bal, wd_last_synced_at = Some now \<rparr>]) \<rparr>))"

fun upsert_divisions :: "uuid \<Rightarrow> instant \<Rightarrow> esi_wallet list \<Rightarrow> db \<Rightarrow> (unit + unit) \<times> db" where
  "upsert_divisions corp now [] d = (Inr (), d)"
| "upsert_divisions corp now (w # ws) d =
     (case upsert_division corp w now d of Inl _ \<Rightarrow> (Inl (), d)
      | Inr d' \<Rightarrow> upsert_divisions corp now ws d')"

section \<open>The journal\<close>

definition j_key :: "journal_entry \<Rightarrow> uuid \<times> int \<times> int" where
  "j_key j = (j_corp_id j, j_division j, j_esi_journal_ref_id j)"

definition journal_row :: "uuid \<Rightarrow> int \<Rightarrow> esi_journal \<Rightarrow> journal_entry" where
  "journal_row corp division e =
     \<lparr> j_corp_id = corp, j_division = as_i16 division, j_esi_journal_ref_id = ej_id e, j_date = ej_date e,
       j_ref_type = ej_ref_type e, j_amount = to_numeric 2 (isk_or_zero (ej_amount e)),
       j_balance = to_numeric 2 (isk_or_zero (ej_balance e)), j_first_party_id = ej_first_party_id e,
       j_second_party_id = ej_second_party_id e, j_context_id = ej_context_id e,
       j_context_id_type = ej_context_id_type e, j_reason = ej_reason e \<rparr>"

text \<open>Inserting an entry gives whether it is new; one that is there already is left alone.\<close>

definition insert_entry :: "journal_entry \<Rightarrow> db \<Rightarrow> unit + bool \<times> db" where
  "insert_entry j d =
     (if \<not> fits 20 (j_amount j) \<or> \<not> fits 20 (j_balance j) then Inl ()
      else if j_key j \<in> j_key ` set (journal d) then Inr (False, d)
      else Inr (True, d \<lparr> journal := journal d @ [j] \<rparr>))"

definition queued_contract :: "journal_entry \<Rightarrow> int list" where
  "queued_contract j = (case j_context_id j of
       Some c \<Rightarrow> if j_context_id_type j = Some ''contract_id'' then [c] else [] | None \<Rightarrow> [])"

fun insert_entries :: "journal_entry list \<Rightarrow> int list \<Rightarrow> db \<Rightarrow> (unit + int list) \<times> db" where
  "insert_entries [] ids d = (Inr ids, d)"
| "insert_entries (j # js) ids d =
     (case insert_entry j d of Inl _ \<Rightarrow> (Inl (), d)
      | Inr (new, d') \<Rightarrow> insert_entries js (ids @ (if new then queued_contract j else [])) d')"

datatype journal_outcome = JDone "int list" | JForbidden | JEsi | JDb

fun poll_divisions ::
  "(int \<Rightarrow> esi_journal list esi_reply) \<Rightarrow> uuid \<Rightarrow> uuid \<Rightarrow> instant \<Rightarrow> esi_wallet list \<Rightarrow> int list \<Rightarrow> db \<Rightarrow>
     journal_outcome \<times> db" where
  "poll_divisions reply corp chid now [] ids d = (JDone ids, d)"
| "poll_divisions reply corp chid now (w # ws) ids d =
     (case reply (ew_division w) of
        EsiOk es \<Rightarrow>
          (case insert_entries (map (journal_row corp (ew_division w)) es) ids d of
             (Inl _, d') \<Rightarrow> (JDb, d')
           | (Inr ids', d') \<Rightarrow> poll_divisions reply corp chid now ws ids' d')
      | Esi403 \<Rightarrow> (JForbidden, mark_ambassador (\<lambda>x. x \<lparr> ca_last_auth_error_at := Some now \<rparr>) corp chid d)
      | _ \<Rightarrow> (JEsi, d))"

section \<open>Contracts to verify\<close>

definition resolve_contracts :: "int list \<Rightarrow> db \<Rightarrow> uuid list" where
  "resolve_contracts ids d = map ct_id (filter (\<lambda>c. ct_esi_contract_id c \<in> set ids) (contracts d))"

definition pays_contract :: "uuid \<Rightarrow> contract \<Rightarrow> journal_entry \<Rightarrow> bool" where
  "pays_contract corp c j \<longleftrightarrow> j_context_id j = Some (ct_esi_contract_id c)
     \<and> j_context_id_type j = Some ''contract_id'' \<and> j_corp_id j = corp"

definition backfill :: "uuid \<Rightarrow> db \<Rightarrow> uuid list" where
  "backfill corp d = concat (map (\<lambda>c. map (\<lambda>_. ct_id c) (filter (pays_contract corp c) (journal d)))
     (filter (\<lambda>c. ct_wallet_verified_at c = None) (contracts d)))"

definition contracts_to_verify :: "uuid \<Rightarrow> int list \<Rightarrow> db \<Rightarrow> uuid list" where
  "contracts_to_verify corp ids d =
     (let fresh = resolve_contracts ids d
      in fresh @ filter (\<lambda>i. i \<notin> set fresh) (backfill corp d))"

section \<open>Polling a corporation\<close>

definition advance_wallet_cursor :: "uuid \<Rightarrow> int \<Rightarrow> int \<Rightarrow> instant \<Rightarrow> db \<Rightarrow> db" where
  "advance_wallet_cursor corp interval rnd now d =
     d \<lparr> corps := upd_where (\<lambda>cp. cp_id cp = corp)
            (\<lambda>cp. cp \<lparr> cp_wallet_last_polled_at := Some now,
                      cp_wallet_next_poll_at := Some (now + interval + jitter_secs interval rnd) \<rparr>)
            (corps d) \<rparr>"

text \<open>How a poll ended: with an error, without asking for the journal (no budget, no
  ambassador, or none that ESI accepts), with a 403 for a journal, or with all of it.
  The job is only told the contracts to verify.\<close>

datatype wallet_result = WFailed | WSkipped | WPaused | WPolled "uuid list"

fun returned :: "wallet_result \<Rightarrow> unit + uuid list" where
  "returned WFailed = Inl ()"
| "returned WSkipped = Inr []"
| "returned WPaused = Inr []"
| "returned (WPolled ids) = Inr ids"

definition finish_poll ::
  "wallet_env \<Rightarrow> uuid \<Rightarrow> uuid \<Rightarrow> int \<Rightarrow> int \<Rightarrow> instant \<Rightarrow> db \<Rightarrow> db" where
  "finish_poll env corp chid interval rnd now d =
     (let d1 = mark_ambassador (\<lambda>x. x \<lparr> ca_last_used_at := Some now \<rparr>) corp chid d;
          d2 = persist_after (we_store env) now chid d1
      in advance_wallet_cursor corp interval rnd now d2)"

definition poll_as ::
  "wallet_env \<Rightarrow> uuid \<Rightarrow> uuid \<Rightarrow> int \<Rightarrow> int \<Rightarrow> instant \<Rightarrow> esi_wallet list \<Rightarrow> esi_budget \<Rightarrow> db \<Rightarrow>
     wallet_result \<times> esi_budget \<times> db" where
  "poll_as env corp chid interval rnd now ws b d =
     (case upsert_divisions corp now ws d of
        (Inl _, d1) \<Rightarrow> (WFailed, b, d1)
      | (Inr _, d1) \<Rightarrow>
          (case poll_divisions (we_journal env chid) corp chid now ws [] d1 of
             (JDb, d2) \<Rightarrow> (WFailed, b, d2)
           | (JEsi, d2) \<Rightarrow> (WFailed, record_non_2xx b, d2)
           | (JForbidden, d2) \<Rightarrow> (WPaused, record_non_2xx b, d2)
           | (JDone ids, d2) \<Rightarrow>
               (WPolled (contracts_to_verify corp ids d2), b, finish_poll env corp chid interval rnd now d2)))"

fun try_wallets ::
  "wallet_env \<Rightarrow> uuid \<Rightarrow> int \<Rightarrow> int \<Rightarrow> instant \<Rightarrow> corp_ambassador list \<Rightarrow> esi_budget \<Rightarrow> db \<Rightarrow>
     wallet_result \<times> esi_budget \<times> db" where
  "try_wallets env corp interval rnd now [] b d =
     (WSkipped, b, advance_wallet_cursor corp interval rnd now
        (d \<lparr> corps := upd_where (\<lambda>cp. cp_id cp = corp)
               (\<lambda>cp. cp \<lparr> cp_last_auth_error_at := Some now \<rparr>) (corps d) \<rparr>))"
| "try_wallets env corp interval rnd now (ca # cas) b d =
     (case we_balances env (ca_character_id ca) of
        NoClient \<Rightarrow> try_wallets env corp interval rnd now cas b d
      | Esi403 \<Rightarrow> try_wallets env corp interval rnd now cas (record_non_2xx b)
                   (mark_ambassador (\<lambda>x. x \<lparr> ca_last_auth_error_at := Some now \<rparr>) corp (ca_character_id ca) d)
      | EsiError \<Rightarrow> (WFailed, record_non_2xx b, d)
      | EsiOk ws \<Rightarrow> poll_as env corp (ca_character_id ca) interval rnd now ws b d)"

definition poll_one_corp_wallet ::
  "wallet_env \<Rightarrow> uuid \<Rightarrow> int \<Rightarrow> int \<Rightarrow> instant \<Rightarrow> esi_budget \<Rightarrow> db \<Rightarrow> wallet_result \<times> esi_budget \<times> db" where
  "poll_one_corp_wallet env corp interval rnd now b d =
     (if \<not> has_budget b then (WSkipped, b, d)
      else let cas = usable_ambassadors d corp CORP_WALLET_SCOPE now in
      if cas = [] then (WSkipped, b, advance_wallet_cursor corp interval rnd now d)
      else try_wallets env corp interval rnd now cas b d)"

section \<open>A tick of the job\<close>

text \<open>The share of the corps that a tick polls: \<^verbatim>\<open>f64\<close> arithmetic, exact for such numbers, so
  the ceiling of the fraction.  \<open>interval\<close> is positive.\<close>

definition slice_size :: "int \<Rightarrow> int \<Rightarrow> int \<Rightarrow> int" where
  "slice_size eligible tick interval = max 1 ((eligible * tick + interval - 1) div interval)"

definition due_wallet_corps :: "int \<Rightarrow> int \<Rightarrow> instant \<Rightarrow> db \<Rightarrow> corp list" where
  "due_wallet_corps tick interval now d =
     (let eligible = filter (\<lambda>cp. cp_disabled_at cp = None) (corps d)
      in if eligible = [] then []
         else take (nat (slice_size (int (length eligible)) tick interval))
                (sort_key cp_wallet_next_poll_at (filter (\<lambda>cp. case cp_wallet_next_poll_at cp of
                    None \<Rightarrow> True | Some t \<Rightarrow> t \<le> now) eligible)))"

fun poll_corps ::
  "(uuid \<Rightarrow> wallet_env) \<Rightarrow> (uuid \<Rightarrow> int) \<Rightarrow> int \<Rightarrow> instant \<Rightarrow> corp list \<Rightarrow> esi_budget \<Rightarrow> db \<Rightarrow>
     uuid list \<times> esi_budget \<times> db" where
  "poll_corps env rnd interval now [] b d = ([], b, d)"
| "poll_corps env rnd interval now (cp # cps) b d =
     (case poll_one_corp_wallet (env (cp_id cp)) (cp_id cp) interval (rnd (cp_id cp)) now b d of
        (r, b1, d1) \<Rightarrow>
          (case poll_corps env rnd interval now cps b1 d1 of
             (ids, b2, d2) \<Rightarrow> ((case returned r of Inl _ \<Rightarrow> [] | Inr xs \<Rightarrow> xs) @ ids, b2, d2)))"

text \<open>Each verification has a transaction of its own; one that fails is rolled back.\<close>

definition verify_one :: "(int \<Rightarrow> int \<Rightarrow> int) \<Rightarrow> instant \<Rightarrow> uuid \<Rightarrow> db \<Rightarrow> db" where
  "verify_one div_round now cid d =
     (case verify_contract_against_journal div_round cid now d of Inl _ \<Rightarrow> d | Inr d' \<Rightarrow> d')"

definition corp_wallet_run ::
  "(int \<Rightarrow> int \<Rightarrow> int) \<Rightarrow> (uuid \<Rightarrow> wallet_env) \<Rightarrow> (uuid \<Rightarrow> int) \<Rightarrow> int \<Rightarrow> int \<Rightarrow> instant \<Rightarrow> esi_budget \<Rightarrow> db \<Rightarrow>
     esi_budget \<times> db" where
  "corp_wallet_run div_round env rnd tick interval now b d =
     (if \<not> has_budget b then (b, d)
      else case poll_corps env rnd interval now (due_wallet_corps tick interval now d) b d of
        (ids, b', d') \<Rightarrow> (b', fold (verify_one div_round now) ids d'))"

end
