(* ===== verification/Wallet_Facts.thy ===== *)
theory Wallet_Facts
  imports Corp_Wallet Token_Facts Corp_Facts
begin

text \<open>
  The wallet poller: the journal only grows and holds every entry once, the cursor of a
  corporation advances only over a journal that was stored completely, and a poll that
  completes leaves no contract unverified that the journal pays for.
\<close>

section \<open>The journal grows\<close>

definition journal_ok :: "db \<Rightarrow> bool" where
  "journal_ok d \<longleftrightarrow> distinct (map j_key (journal d))"

definition appends :: "uuid set \<Rightarrow> db \<Rightarrow> db \<Rightarrow> bool" where
  "appends cps d d' \<longleftrightarrow> (journal_ok d \<longrightarrow> journal_ok d')
     \<and> (\<exists>new. journal d' = journal d @ new \<and> j_corp_id ` set new \<subseteq> cps)"

lemma appends_same [intro]: "journal d' = journal d \<Longrightarrow> appends cps d d'"
  by (simp add: appends_def journal_ok_def)

lemma appends_trans [trans]: "appends A d d1 \<Longrightarrow> appends B d1 d2 \<Longrightarrow> appends (A \<union> B) d d2"
  unfolding appends_def by fastforce

lemma appends_trans1: "appends A d d1 \<Longrightarrow> appends A d1 d2 \<Longrightarrow> appends A d d2"
  using appends_trans [of A d d1 A d2] by simp

lemma appends_keys: "appends A d d' \<Longrightarrow> j_key ` set (journal d) \<subseteq> j_key ` set (journal d')"
  by (auto simp: appends_def)

text \<open>What polling leaves alone.\<close>

definition keeps :: "db \<Rightarrow> db \<Rightarrow> bool" where
  "keeps d d' \<longleftrightarrow> contracts d' = contracts d \<and> reimbursements d' = reimbursements d
     \<and> lists d' = lists d \<and> corps d' = corps d"

lemma keeps_refl [simp]: "keeps d d"
  by (simp add: keeps_def)

lemma keeps_trans: "keeps d d1 \<Longrightarrow> keeps d1 d2 \<Longrightarrow> keeps d d2"
  by (simp add: keeps_def)

lemma insert_entry_appends:
  assumes "insert_entry j d = Inr (new, d')" "j_corp_id j = corp"
  shows "appends {corp} d d'" "j_key j \<in> j_key ` set (journal d')" "keeps d d'"
  using assms by (auto simp: keeps_def insert_entry_def appends_def journal_ok_def split: if_splits)

lemma insert_entries_appends:
  assumes "insert_entries js ids d = (r, d')" "j_corp_id ` set js \<subseteq> {corp}"
  shows "appends {corp} d d' \<and> keeps d d'
    \<and> (\<forall>ids'. r = Inr ids' \<longrightarrow> j_key ` set js \<subseteq> j_key ` set (journal d'))"
  using assms
proof (induction js ids d rule: insert_entries.induct)
  case (2 j js ids d)
  show ?case
  proof (cases "insert_entry j d")
    case (Inr p)
    obtain new d1 where p: "p = (new, d1)" by (cases p)
    have rest: "insert_entries js (ids @ (if new then queued_contract j else [])) d1 = (r, d')"
      using 2(2) Inr p by simp
    have step: "appends {corp} d d1" "j_key j \<in> j_key ` set (journal d1)" "keeps d d1"
      using insert_entry_appends [of j d new d1 corp] Inr p 2(3) by auto
    have IH: "appends {corp} d1 d'" "keeps d1 d'"
      "\<forall>ids'. r = Inr ids' \<longrightarrow> j_key ` set js \<subseteq> j_key ` set (journal d')"
      using 2(1) [OF Inr p [symmetric] rest] 2(3) by auto
    show ?thesis
      using appends_trans1 [OF step(1) IH(1)] keeps_trans [OF step(3) IH(2)] IH(3) appends_keys [OF IH(1)] step(2) by auto
  qed (use 2(2) in auto)
qed auto

lemma poll_divisions_appends:
  assumes "poll_divisions reply corp chid now ws ids d = (r, d')"
  shows "appends {corp} d d' \<and> keeps d d'
    \<and> (\<forall>ids'. r = JDone ids' \<longrightarrow> (\<forall>w\<in>set ws. \<exists>es. reply (ew_division w) = EsiOk es
         \<and> (\<forall>e\<in>set es. j_key (journal_row corp (ew_division w) e) \<in> j_key ` set (journal d'))))"
  using assms
proof (induction reply corp chid now ws ids d rule: poll_divisions.induct)
  case (2 reply corp chid now w ws ids d)
  show ?case
  proof (cases "reply (ew_division w)")
    case (EsiOk es)
    let ?js = "map (journal_row corp (ew_division w)) es"
    obtain q d1 where ins: "insert_entries ?js ids d = (q, d1)" by (cases "insert_entries ?js ids d")
    have js: "j_corp_id ` set ?js \<subseteq> {corp}" by (auto simp: journal_row_def)
    note step = insert_entries_appends [OF ins js]
    show ?thesis
    proof (cases q)
      case (Inl u)
      then show ?thesis using 2(2) EsiOk ins step by auto
    next
      case (Inr ids1)
      have rest: "poll_divisions reply corp chid now ws ids1 d1 = (r, d')" using 2(2) EsiOk ins Inr by simp
      note IH = 2(1) [OF EsiOk ins [symmetric] Inr rest]
      have "appends {corp} d d'" using appends_trans1 [OF conjunct1 [OF step] conjunct1 [OF IH]] .
      moreover have "keeps d d'"
        using keeps_trans [OF conjunct1 [OF conjunct2 [OF step]] conjunct1 [OF conjunct2 [OF IH]]] .
      moreover have "\<forall>e\<in>set es. j_key (journal_row corp (ew_division w) e) \<in> j_key ` set (journal d')"
      proof
        fix e assume "e \<in> set es"
        then have "j_key (journal_row corp (ew_division w) e) \<in> j_key ` set ?js" by auto
        then show "j_key (journal_row corp (ew_division w) e) \<in> j_key ` set (journal d')"
          using conjunct2 [OF conjunct2 [OF step]] Inr appends_keys [OF conjunct1 [OF IH]] by blast
      qed
      ultimately show ?thesis using conjunct2 [OF conjunct2 [OF IH]] EsiOk by auto
    qed
  qed (use 2(2) in \<open>auto simp: mark_ambassador_def keeps_def\<close>)
qed auto

lemma upsert_divisions_appends:
  "upsert_divisions corp now ws d = (r, d') \<Longrightarrow> journal d' = journal d \<and> keeps d d'"
proof (induction corp now ws d rule: upsert_divisions.induct)
  case (2 corp now w ws d)
  show ?case
  proof (cases "upsert_division corp w now d")
    case (Inr d1)
    have one: "journal d1 = journal d" "keeps d d1"
      using Inr by (auto simp: upsert_division_def Let_def keeps_def split: if_splits)
    have "upsert_divisions corp now ws d1 = (r, d')" using 2(2) Inr by simp
    then show ?thesis using 2(1) [OF Inr] one keeps_trans [OF one(2)] by simp
  qed (use 2(2) in simp)
qed simp

lemma persist_after_frame:
  "journal (persist_after st now chid d) = journal d" "keeps d (persist_after st now chid d)"
  by (auto simp: persist_after_def persist_rotations_def Let_def keeps_def split: option.splits sum.splits)

lemma finish_poll_frame:
  "journal (finish_poll env corp chid interval rnd now d) = journal d"
  "contracts (finish_poll env corp chid interval rnd now d) = contracts d"
  "reimbursements (finish_poll env corp chid interval rnd now d) = reimbursements d"
  "lists (finish_poll env corp chid interval rnd now d) = lists d"
  using persist_after_frame
  by (simp_all add: finish_poll_def Let_def advance_wallet_cursor_def mark_ambassador_def keeps_def)

text \<open>What a poll with one ambassador does.\<close>

lemma poll_as_facts:
  assumes "poll_as env corp chid interval rnd now ws b d = (r, b', d')"
  shows "appends {corp} d d'" "contracts d' = contracts d \<and> reimbursements d' = reimbursements d \<and> lists d' = lists d"
    "r = WPaused \<or> r = WFailed \<Longrightarrow> corps d' = corps d" "r \<noteq> WSkipped"
    "r = WPolled ids \<Longrightarrow> (\<exists>new. ids = contracts_to_verify corp new d')
       \<and> (\<forall>w\<in>set ws. \<exists>es. we_journal env chid (ew_division w) = EsiOk es
         \<and> (\<forall>e\<in>set es. j_key (journal_row corp (ew_division w) e) \<in> j_key ` set (journal d')))"
proof -
  obtain q d1 where up: "upsert_divisions corp now ws d = (q, d1)" by (cases "upsert_divisions corp now ws d")
  obtain jo d2 where pd: "poll_divisions (we_journal env chid) corp chid now ws [] d1 = (jo, d2)"
    by (cases "poll_divisions (we_journal env chid) corp chid now ws [] d1")
  note u = upsert_divisions_appends [OF up]
  note p = poll_divisions_appends [OF pd]
  have app: "appends {corp} d d2" and k: "keeps d d2"
    using appends_trans1 [OF appends_same conjunct1 [OF p]] keeps_trans u p by auto
  have fin: "contracts_to_verify corp x (finish_poll env corp chid interval rnd now d2) = contracts_to_verify corp x d2" for x
    by (simp add: contracts_to_verify_def resolve_contracts_def backfill_def finish_poll_frame)
  have appf: "appends {corp} d (finish_poll env corp chid interval rnd now d2)"
    using app by (simp add: appends_def journal_ok_def finish_poll_frame)
  consider (early) "\<exists>u. q = Inl u" "r = WFailed" "d' = d1" | (bad) "\<exists>u. q = Inr u" "r = WPaused \<or> r = WFailed" "d' = d2"
    | (ok) x where "q = Inr ()" "jo = JDone x" "r = WPolled (contracts_to_verify corp x d2)"
        "d' = finish_poll env corp chid interval rnd now d2"
    using assms by (cases q; cases jo) (auto simp: poll_as_def up pd)
  note c = this
  show "appends {corp} d d'" using c u app appf by cases auto
  show "contracts d' = contracts d \<and> reimbursements d' = reimbursements d \<and> lists d' = lists d"
    using c u k by cases (auto simp: keeps_def finish_poll_frame)
  show "corps d' = corps d" if "r = WPaused \<or> r = WFailed" using c that u k by cases (auto simp: keeps_def)
  show "r \<noteq> WSkipped" using c by cases auto
  show "(\<exists>new. ids = contracts_to_verify corp new d')
       \<and> (\<forall>w\<in>set ws. \<exists>es. we_journal env chid (ew_division w) = EsiOk es
         \<and> (\<forall>e\<in>set es. j_key (journal_row corp (ew_division w) e) \<in> j_key ` set (journal d')))"
    if "r = WPolled ids"
    using c
  proof cases
    case (ok x)
    then show ?thesis using that p fin by (auto simp: finish_poll_frame)
  qed (use that in auto)
qed

text \<open>Every entry of every division that ESI answered is in the journal.\<close>

definition stored_journal :: "wallet_env \<Rightarrow> uuid \<Rightarrow> uuid \<Rightarrow> esi_wallet list \<Rightarrow> db \<Rightarrow> bool" where
  "stored_journal env corp chid ws d \<longleftrightarrow> (\<forall>w\<in>set ws. \<exists>es. we_journal env chid (ew_division w) = EsiOk es
     \<and> (\<forall>e\<in>set es. j_key (journal_row corp (ew_division w) e) \<in> j_key ` set (journal d)))"

definition poll_ok :: "wallet_env \<Rightarrow> uuid \<Rightarrow> corp_ambassador set \<Rightarrow> wallet_result \<Rightarrow> db \<Rightarrow> db \<Rightarrow> bool" where
  "poll_ok env corp cas r d d' \<longleftrightarrow> appends {corp} d d'
     \<and> contracts d' = contracts d \<and> reimbursements d' = reimbursements d \<and> lists d' = lists d
     \<and> (r = WPaused \<or> r = WFailed \<longrightarrow> corps d' = corps d)
     \<and> (\<forall>ids. r = WPolled ids \<longrightarrow> (\<exists>new. ids = contracts_to_verify corp new d')
          \<and> (\<exists>ca\<in>cas. \<exists>ws. we_balances env (ca_character_id ca) = EsiOk ws
               \<and> stored_journal env corp (ca_character_id ca) ws d'))"

lemma poll_okI:
  assumes "appends {corp} d d'" "contracts d' = contracts d" "reimbursements d' = reimbursements d" "lists d' = lists d"
    and "r = WPaused \<or> r = WFailed \<Longrightarrow> corps d' = corps d"
    and "\<And>ids. r = WPolled ids \<Longrightarrow> \<exists>new. ids = contracts_to_verify corp new d'"
    and "\<And>ids. r = WPolled ids \<Longrightarrow> \<exists>ca\<in>cas. \<exists>ws. we_balances env (ca_character_id ca) = EsiOk ws
         \<and> stored_journal env corp (ca_character_id ca) ws d'"
  shows "poll_ok env corp cas r d d'"
  unfolding poll_ok_def using assms by blast

lemma poll_okD:
  assumes "poll_ok env corp cas r d d'"
  shows "appends {corp} d d'" "contracts d' = contracts d" "reimbursements d' = reimbursements d" "lists d' = lists d"
    and "r = WPaused \<or> r = WFailed \<Longrightarrow> corps d' = corps d"
    and "r = WPolled ids \<Longrightarrow> \<exists>new. ids = contracts_to_verify corp new d'"
    and "r = WPolled ids \<Longrightarrow> \<exists>ca\<in>cas. \<exists>ws. we_balances env (ca_character_id ca) = EsiOk ws
         \<and> stored_journal env corp (ca_character_id ca) ws d'"
  using assms unfolding poll_ok_def by blast+

lemma poll_ok_later:
  assumes "poll_ok env corp cas r d1 d'" "journal d1 = journal d" "keeps d d1" "cas \<subseteq> cas'"
  shows "poll_ok env corp cas' r d d'"
proof (rule poll_okI)
  show "appends {corp} d d'" using poll_okD(1) [OF assms(1)] assms(2) by (simp add: appends_def journal_ok_def)
  show "contracts d' = contracts d" "reimbursements d' = reimbursements d" "lists d' = lists d"
    using poll_okD(2-4) [OF assms(1)] assms(3) by (simp_all add: keeps_def)
  show "corps d' = corps d" if "r = WPaused \<or> r = WFailed"
    using poll_okD(5) [OF assms(1) that] assms(3) by (simp add: keeps_def)
  show "\<exists>new. ids = contracts_to_verify corp new d'" if "r = WPolled ids" for ids
    by (rule poll_okD(6) [OF assms(1) that])
  show "\<exists>ca\<in>cas'. \<exists>ws. we_balances env (ca_character_id ca) = EsiOk ws
         \<and> stored_journal env corp (ca_character_id ca) ws d'" if "r = WPolled ids" for ids
    using poll_okD(7) [OF assms(1) that] assms(4) by blast
qed

lemma try_wallets_ok:
  "try_wallets env corp interval rnd now cas b d = (r, b', d') \<Longrightarrow> poll_ok env corp (set cas) r d d'"
proof (induction env corp interval rnd now cas b d rule: try_wallets.induct)
  case (1 env corp interval rnd now b d)
  then show ?case by (auto simp: poll_ok_def advance_wallet_cursor_def)
next
  case (2 env corp interval rnd now ca cas b d)
  show ?case
  proof (cases "we_balances env (ca_character_id ca)")
    case NoClient
    have "poll_ok env corp (set cas) r d d'" using 2(1) [OF NoClient] 2(3) NoClient by simp
    then show ?thesis by (rule poll_ok_later) auto
  next
    case (EsiOk ws)
    have run: "poll_as env corp (ca_character_id ca) interval rnd now ws b d = (r, b', d')" using 2(3) EsiOk by simp
    note p = poll_as_facts [OF run]
    have st: "stored_journal env corp (ca_character_id ca) ws d'" if "r = WPolled ids" for ids
      using p(5) [OF that] by (simp add: stored_journal_def)
    show ?thesis
      by (rule poll_okI) (use p(1-3) p(5) st EsiOk in auto)
  next
    case Esi403
    let ?d = "mark_ambassador (\<lambda>x. x \<lparr> ca_last_auth_error_at := Some now \<rparr>) corp (ca_character_id ca) d"
    have "try_wallets env corp interval rnd now cas (record_non_2xx b) ?d = (r, b', d')" using 2(3) Esi403 by simp
    then have "poll_ok env corp (set cas) r ?d d'" by (rule 2(2) [OF Esi403])
    then show ?thesis by (rule poll_ok_later) (auto simp: mark_ambassador_def keeps_def)
  next
    case EsiError
    then show ?thesis using 2(3) by (auto simp: poll_ok_def)
  qed
qed

lemma poll_one_ok:
  assumes "poll_one_corp_wallet env corp interval rnd now b d = (r, b', d')"
  shows "poll_ok env corp (set (usable_ambassadors d corp CORP_WALLET_SCOPE now)) r d d'"
proof -
  have skip: "poll_ok env corp X WSkipped d d" "poll_ok env corp X WSkipped d (advance_wallet_cursor corp interval rnd now d)" for X
    by (auto simp: poll_ok_def advance_wallet_cursor_def)
  show ?thesis using assms skip try_wallets_ok
    by (auto simp: poll_one_corp_wallet_def Let_def split: if_splits)
qed

section \<open>What a verification reads and writes\<close>

text \<open>A verification depends on these parts of contracts and reimbursements and changes none
  of them.\<close>

definition ct_core :: "contract \<Rightarrow> uuid \<times> int \<times> uuid option" where
  "ct_core c = (ct_id c, ct_esi_contract_id c, ct_source_corp_id c)"

definition r_core :: "reimbursement \<Rightarrow> uuid \<times> uuid option \<times> reimbursement_status \<times> isk" where
  "r_core r = (r_list_id r, r_contract_id r, r_status r, r_total_isk r)"

definition same_audit :: "db \<Rightarrow> db \<Rightarrow> bool" where
  "same_audit d d' \<longleftrightarrow> journal d' = journal d \<and> lists d' = lists d
     \<and> map ct_core (contracts d') = map ct_core (contracts d)
     \<and> map r_core (reimbursements d') = map r_core (reimbursements d)"

lemma same_audit_refl [simp]: "same_audit d d"
  by (simp add: same_audit_def)

lemma same_audit_trans: "same_audit d d1 \<Longrightarrow> same_audit d1 d2 \<Longrightarrow> same_audit d d2"
  by (simp add: same_audit_def)

lemma map_upd_where: "(\<And>x. k (f x) = k x) \<Longrightarrow> map k (upd_where P f xs) = map k xs"
  by (induction xs) (auto simp: upd_where_def)

lemma record_payout_audit:
  assumes "record_payout div_round cid v now d = Inr d'"
  shows "same_audit d d'"
    "contracts d' = upd_where (\<lambda>x. ct_id x = cid) (\<lambda>x. x \<lparr> ct_wallet_verified_at := Some now,
        ct_wallet_payout_aggregate_isk := Some v \<rparr>) (contracts d)"
  using assms
  by (auto simp: record_payout_def Let_def same_audit_def ct_core_def r_core_def map_upd_where split: if_splits)

lemma payer_of_audit:
  assumes "same_audit d d'"
  shows "payer_of d' cid = payer_of d cid"
proof -
  have "concat (map (\<lambda>r. case find_list d (r_list_id r) of None \<Rightarrow> []
                            | Some l \<Rightarrow> (case (l_payer_corp_id l, l_payer_division l) of
                                 (Some c, Some dv) \<Rightarrow> [(c, dv)] | _ \<Rightarrow> []))
                 (filter (bound_to cid) rs))
      = concat (map (\<lambda>x. case find_list d (fst x) of None \<Rightarrow> []
                            | Some l \<Rightarrow> (case (l_payer_corp_id l, l_payer_division l) of
                                 (Some c, Some dv) \<Rightarrow> [(c, dv)] | _ \<Rightarrow> []))
                 (filter (\<lambda>x. fst (snd x) = Some cid) (map r_core rs)))" for rs
    by (induction rs) (auto simp: r_core_def bound_to_def)
  moreover have "find_list d' = find_list d" using assms by (auto simp: same_audit_def find_list_def)
  ultimately show ?thesis using assms by (simp add: payer_of_def same_audit_def)
qed

lemma payout_of_audit:
  assumes "same_audit d d'" "ct_core c' = ct_core c"
  shows "payout_of d' cid c' = payout_of d cid c"
proof -
  have jp: "journal_payout d' = journal_payout d"
    unfolding journal_payout_def conjunct1 [OF assms(1) [unfolded same_audit_def]] by simp
  have c: "ct_esi_contract_id c' = ct_esi_contract_id c" "ct_source_corp_id c' = ct_source_corp_id c"
    using assms(2) by (simp_all add: ct_core_def)
  show ?thesis unfolding payout_of_def payer_of_audit [OF assms(1)] jp c ..
qed

definition payable :: "(int \<Rightarrow> int \<Rightarrow> int) \<Rightarrow> uuid \<Rightarrow> isk \<Rightarrow> db \<Rightarrow> bool" where
  "payable div_round cid v d \<longleftrightarrow> (\<exists>d'. record_payout div_round cid v 0 d = Inr d')"

lemma payable_iff:
  "(\<exists>d'. record_payout div_round cid v now d = Inr d') \<longleftrightarrow> payable div_round cid v d"
  by (auto simp: payable_def record_payout_def Let_def)

lemma payable_audit:
  assumes "same_audit d d'"
  shows "payable div_round cid v d' = payable div_round cid v d"
proof -
  let ?hit = "\<lambda>x :: uuid \<times> uuid option \<times> reimbursement_status \<times> isk.
     fst (snd x) = Some cid \<and> fst (snd (snd x)) \<in> {RPending, RSettled}"
  have s: "sum_where (\<lambda>r. bound_to cid r \<and> r_status r \<in> {RPending, RSettled}) r_total_isk rs
      = sum_where ?hit (\<lambda>x. snd (snd (snd x))) (map r_core rs)" for rs
    by (induction rs) (auto simp: sum_where_def r_core_def bound_to_def)
  have e: "(\<exists>r\<in>set rs. (bound_to cid r \<and> r_status r \<in> {RPending, RSettled}) \<and> \<not> fits 20 (f (r_total_isk r)))
      \<longleftrightarrow> (\<exists>x\<in>set (map r_core rs). ?hit x \<and> \<not> fits 20 (f (snd (snd (snd x)))))" for rs f
    by (induction rs) (auto simp: r_core_def bound_to_def)
  have p: "payable div_round cid v d = (fits 20 v \<and> \<not> (\<exists>x\<in>set (map r_core (reimbursements d)). ?hit x
      \<and> \<not> fits 20 (wallet_delta div_round v (sum_where ?hit (\<lambda>x. snd (snd (snd x))) (map r_core (reimbursements d)))
            (snd (snd (snd x))))))" for d
    unfolding payable_def record_payout_def Let_def s e by auto
  show ?thesis unfolding p using assms by (simp only: same_audit_def)
qed

lemma verify_one_audit:
  "same_audit d (verify_one div_round now cid d)"
  using record_payout_audit(1)
  by (auto simp: verify_one_def verify_contract_against_journal_def split: sum.splits option.splits if_splits)

lemma fold_verify_audit: "same_audit d (fold (verify_one div_round now) ids d)"
  by (induction ids arbitrary: d) (auto intro: same_audit_trans verify_one_audit)

section \<open>The properties\<close>

lemma verified_stays:
  assumes "\<And>c. c \<in> set (contracts d) \<Longrightarrow> ct_id c = cid \<Longrightarrow> ct_wallet_verified_at c \<noteq> None"
    and "c \<in> set (contracts (verify_one div_round now x d))" "ct_id c = cid"
  shows "ct_wallet_verified_at c \<noteq> None"
proof (cases "\<exists>v d'. record_payout div_round x v now d = Inr d' \<and> verify_one div_round now x d = d'")
  case True
  then show ?thesis using assms record_payout_audit(2) by (fastforce simp: upd_where_def)
next
  case False
  then have "verify_one div_round now x d = d"
    by (auto simp: verify_one_def verify_contract_against_journal_def split: sum.splits option.splits if_splits)
  then show ?thesis using assms by simp
qed

lemma fold_verified_stays:
  assumes "\<And>c. c \<in> set (contracts d) \<Longrightarrow> ct_id c = cid \<Longrightarrow> ct_wallet_verified_at c \<noteq> None"
    and "c \<in> set (contracts (fold (verify_one div_round now) ids d))" "ct_id c = cid"
  shows "ct_wallet_verified_at c \<noteq> None"
  using assms
proof (induction ids arbitrary: d)
  case (Cons x ids)
  show ?case using Cons.IH [of "verify_one div_round now x d"] Cons.prems verified_stays by fastforce
qed simp

text \<open>The contracts before and after a verification correspond row by row.\<close>

lemma same_audit_contract:
  assumes "same_audit d d'" "c' \<in> set (contracts d')"
  obtains c where "c \<in> set (contracts d)" "ct_core c = ct_core c'"
proof -
  have "ct_core c' \<in> set (map ct_core (contracts d'))" using assms(2) by simp
  then have "ct_core c' \<in> set (map ct_core (contracts d))" using assms(1) by (simp only: same_audit_def)
  then show ?thesis using that by auto
qed

lemma same_audit_ids:
  assumes "same_audit d d'"
  shows "map ct_id (contracts d') = map ct_id (contracts d)"
proof -
  have "map ct_id cs = map fst (map ct_core cs)" for cs by (simp add: ct_core_def)
  then show ?thesis using assms by (simp only: same_audit_def)
qed

lemma verify_one_done:
  assumes "distinct (map ct_id (contracts d))" "c \<in> set (contracts d)" "payout_of d (ct_id c) c = Some v" "0 < v"
    and "payable div_round (ct_id c) v d" "c' \<in> set (contracts (verify_one div_round now (ct_id c) d))" "ct_id c' = ct_id c"
  shows "ct_wallet_verified_at c' \<noteq> None"
proof -
  have f: "find_contract d (ct_id c) = Some c"
    using find_keyI [OF assms(1,2)] by (simp add: find_contract_def)
  obtain d1 where run: "record_payout div_round (ct_id c) v now d = Inr d1" using assms(5) payable_iff by blast
  then have "verify_one div_round now (ct_id c) d = d1"
    using f assms(3,4) by (simp add: verify_one_def verify_contract_against_journal_def)
  then show ?thesis using assms(6,7) record_payout_audit(2) [OF run] by (auto simp: upd_where_def split: if_splits)
qed

definition demo_payout :: esi_journal where
  "demo_payout = \<lparr> ej_id = 9001, ej_date = 50, ej_ref_type = ''contract_price'', ej_amount = Some (Dec (- 6563) 2),
     ej_balance = Some (Dec 100000 2), ej_first_party_id = Some 98, ej_second_party_id = Some 92,
     ej_context_id = Some 7000, ej_context_id_type = Some ''contract_id'', ej_reason = None \<rparr>"

definition demo_store :: store_env where
  "demo_store = \<lparr> st_crypto = demo_crypto, st_cipher = demo_cipher, st_nonce = demo_nonce, st_db_up = True,
     st_clients = Map.empty \<rparr>"

definition demo_wallet_env :: wallet_env where
  "demo_wallet_env = \<lparr> we_balances = (\<lambda>_. EsiOk [\<lparr> ew_division = 1, ew_balance = Dec 100000 2 \<rparr>,
       \<lparr> ew_division = 2, ew_balance = Dec 0 0 \<rparr>]),
     we_journal = (\<lambda>_ dv. EsiOk (if dv = 1 then [demo_payout] else [])),
     we_store = demo_store \<rparr>"

definition demo_paused_env :: wallet_env where
  "demo_paused_env = demo_wallet_env \<lparr> we_journal := (\<lambda>_ dv. if dv = 1 then EsiOk [demo_payout] else Esi403) \<rparr>"

definition demo_poll_db :: db where
  "demo_poll_db = demo_wallet_db \<lparr> contracts := [demo_contract],
     characters := map (\<lambda>ch. ch \<lparr> ch_scopes := [CORP_WALLET_SCOPE] \<rparr>) (characters demo_wallet_db) \<rparr>"

definition demo_poll :: "wallet_env \<Rightarrow> db \<Rightarrow> wallet_result \<times> esi_budget \<times> db" where
  "demo_poll env d = poll_one_corp_wallet env 40 3600 0 100 default_budget d"

lemma demo_poll_polled: "fst (demo_poll demo_wallet_env demo_poll_db) = WPolled [500]"
  by code_simp

lemma demo_poll_paused: "fst (demo_poll demo_paused_env demo_poll_db) = WPaused"
  by code_simp

lemma poll_corps_appends:
  "poll_corps env rnd interval now cps b d = (ids, b', d') \<Longrightarrow> appends (cp_id ` set cps) d d'"
proof (induction cps arbitrary: b d ids b' d')
  case (Cons cp cps)
  obtain r b1 d1 where one: "poll_one_corp_wallet (env (cp_id cp)) (cp_id cp) interval (rnd (cp_id cp)) now b d = (r, b1, d1)"
    by (cases "poll_one_corp_wallet (env (cp_id cp)) (cp_id cp) interval (rnd (cp_id cp)) now b d") auto
  obtain ids' b2 where rest: "poll_corps env rnd interval now cps b1 d1 = (ids', b2, d')"
    using Cons.prems one by (auto split: prod.splits)
  show ?case using appends_trans [OF poll_okD(1) [OF poll_one_ok [OF one]] Cons.IH [OF rest]] by simp
qed auto

text \<open>The wallet journal is an audit trail: a tick of the wallet job, whatever ESI answers
  and whatever verification follows, only appends rows, all of corporations it polled,
  and stores no entry of a division twice.\<close>

theorem wallet_journal_append_only:
  assumes "corp_wallet_run div_round env rnd tick interval now b d = (b', d')"
  shows "(distinct (map j_key (journal d)) \<longrightarrow> distinct (map j_key (journal d')))
    \<and> (\<exists>new. journal d' = journal d @ new
        \<and> j_corp_id ` set new \<subseteq> cp_id ` set (due_wallet_corps tick interval now d))"
proof (cases "has_budget b")
  case True
  obtain ids d1 where poll: "poll_corps env rnd interval now (due_wallet_corps tick interval now d) b d = (ids, b', d1)"
    and d': "d' = fold (verify_one div_round now) ids d1"
    using assms True by (auto simp: corp_wallet_run_def split: prod.splits)
  have "journal d' = journal d1" using fold_verify_audit [of d1] by (simp add: d' same_audit_def)
  then show ?thesis using poll_corps_appends [OF poll] by (simp add: appends_def journal_ok_def)
next
  case False
  then show ?thesis using assms by (simp add: corp_wallet_run_def)
qed

theorem wallet_journal_append_only_witness:
  "\<exists>new b' d'. corp_wallet_run (\<lambda>n m. n div m) (\<lambda>_. demo_wallet_env) (\<lambda>_. 0) 60 3600 100 default_budget demo_poll_db = (b', d')
     \<and> journal d' = journal demo_poll_db @ new \<and> distinct (map j_key (journal d')) \<and> length (journal d') = 1"
proof -
  let ?run = "corp_wallet_run (\<lambda>n m. n div m) (\<lambda>_. demo_wallet_env) (\<lambda>_. 0) 60 3600 100 default_budget demo_poll_db"
  obtain b' d' where run: "?run = (b', d')" by (cases ?run)
  have "length (journal (snd ?run)) = 1" by code_simp
  moreover have "distinct (map j_key (journal demo_poll_db))" by code_simp
  ultimately show ?thesis using run wallet_journal_append_only [OF run] by auto
qed

text \<open>The cursor of a corporation advances only over a complete journal.  A poll that was
  refused in the middle (403) or failed leaves the corporation due again; a poll that
  completes has stored every entry of every division that ESI reported, and no poll
  touches contracts, reimbursements or lists.\<close>

theorem wallet_cursor_atomic:
  assumes "poll_one_corp_wallet env corp interval rnd now b d = (r, b', d')"
  shows "contracts d' = contracts d \<and> reimbursements d' = reimbursements d \<and> lists d' = lists d
    \<and> (r = WPaused \<or> r = WFailed \<longrightarrow> corps d' = corps d)
    \<and> (\<forall>ids. r = WPolled ids \<longrightarrow> (\<exists>ca\<in>set (usable_ambassadors d corp CORP_WALLET_SCOPE now). \<exists>ws.
          we_balances env (ca_character_id ca) = EsiOk ws
        \<and> (\<forall>w\<in>set ws. \<exists>es. we_journal env (ca_character_id ca) (ew_division w) = EsiOk es
             \<and> (\<forall>e\<in>set es. j_key (journal_row corp (ew_division w) e) \<in> j_key ` set (journal d')))))"
  using poll_okD(2-5,7) [OF poll_one_ok [OF assms]] unfolding stored_journal_def by blast

theorem wallet_cursor_atomic_witness:
  "corps (snd (snd (demo_poll demo_paused_env demo_poll_db))) = corps demo_poll_db
   \<and> corps (snd (snd (demo_poll demo_wallet_env demo_poll_db))) \<noteq> corps demo_poll_db"
proof -
  obtain b' d' where run: "demo_poll demo_paused_env demo_poll_db = (WPaused, b', d')"
    using demo_poll_paused by (cases "demo_poll demo_paused_env demo_poll_db") auto
  have "corps (snd (snd (demo_poll demo_wallet_env demo_poll_db))) \<noteq> corps demo_poll_db" by code_simp
  then show ?thesis using run wallet_cursor_atomic [OF run [unfolded demo_poll_def]] by simp
qed

lemma backfill_mem:
  assumes "c \<in> set (contracts d)" "ct_wallet_verified_at c = None" "j \<in> set (journal d)" "pays_contract corp c j"
  shows "ct_id c \<in> set (contracts_to_verify corp new d)"
  using assms by (auto simp: contracts_to_verify_def Let_def backfill_def)

lemma not_payable_overflow:
  "\<not> payable div_round cid v d \<Longrightarrow> record_payout div_round cid v now d = Inl (SDb ''numeric field overflow'')"
  by (auto simp: payable_def record_payout_def Let_def split: if_splits)



section \<open>A payout that is not verified again\<close>

text \<open>The contracts of the entries a refused poll has stored are forgotten.  A contract that
  was verified before is not found by the search for unverified ones either, so a second
  payout for it that arrives in a poll that is refused at a later division is not
  counted by the polls that follow.\<close>

definition demo_verified_db :: db where
  "demo_verified_db = demo_poll_db \<lparr> contracts := [demo_contract \<lparr> ct_wallet_verified_at := Some 10,
      ct_wallet_payout_aggregate_isk := Some 100 \<rparr>] \<rparr>"

lemma second_payout_forgotten:
  "fst (demo_poll demo_paused_env demo_verified_db) = WPaused
   \<and> fst (poll_one_corp_wallet demo_wallet_env 40 3600 0 7200 default_budget
       (snd (snd (demo_poll demo_paused_env demo_verified_db)))) = WPolled []
   \<and> fst (demo_poll demo_wallet_env demo_verified_db) = WPolled [500]"
  by code_simp

end
