(* ===== verification/Citadels.thy ===== *)
theory Citadels
  imports Pricing Contract_Worker Tokens Lists "HOL-Library.Sublist" "HOL-Library.Product_Lexorder"
begin

text \<open>
  Citadels: searching and tracking them (\<^verbatim>\<open>api/src/citadels.rs\<close>), the market lists
  (\<^verbatim>\<open>api/src/markets.rs\<close>) and the worker jobs that discover structures, resolve their
  details and refresh prices (\<^verbatim>\<open>citadel_discovery.rs\<close>, \<^verbatim>\<open>citadel_details.rs\<close>,
  \<^verbatim>\<open>citadel_orders.rs\<close>, \<^verbatim>\<open>csa.rs\<close>, \<^verbatim>\<open>npc_hubs.rs\<close>).  The worker's statements are committed one by
  one.  The answers of ESI and the collation of the database (\<open>coll\<close>, a sort key of
  texts) are arguments; the concurrent tasks of a tick run one after the other.
\<close>

section \<open>Searching\<close>

text \<open>\<^verbatim>\<open>ILIKE\<close>: \<open>%\<close> matches any text, \<open>_\<close> any character, a backslash makes the next character
  literal; case is ignored.\<close>

definition ESC :: char where "ESC = CHR 0x5C"

fun ilike :: "string \<Rightarrow> string \<Rightarrow> bool" where
  "ilike [] s = (s = [])"
| "ilike (p # ps) s =
     (if p = CHR ''%'' then
        (case s of [] \<Rightarrow> ilike ps [] | c # s' \<Rightarrow> ilike ps s \<or> ilike (p # ps) s')
      else if p = CHR ''_'' then (case s of [] \<Rightarrow> False | c # s' \<Rightarrow> ilike ps s')
      else if p = ESC then
        (case ps of [] \<Rightarrow> False
         | x # ps' \<Rightarrow> (case s of [] \<Rightarrow> False | c # s' \<Rightarrow> lower c = lower x \<and> ilike ps' s'))
      else (case s of [] \<Rightarrow> False | c # s' \<Rightarrow> lower c = lower p \<and> ilike ps s'))"

definition replace_char :: "char \<Rightarrow> string \<Rightarrow> string \<Rightarrow> string" where
  "replace_char c r s = concat (map (\<lambda>x. if x = c then r else [x]) s)"

definition escape_like :: "string \<Rightarrow> string" where
  "escape_like s = replace_char (CHR ''_'') [ESC, CHR ''_'']
     (replace_char (CHR ''%'') [ESC, CHR ''%''] (replace_char ESC [ESC, ESC] s))"

record search_hit =
  sh_market_id :: uuid
  sh_name :: string
  sh_short_label :: "string option"
  sh_region_id :: "int option"
  sh_solar_system_id :: "int option"
  sh_structure_type_id :: "int option"
  sh_is_public :: bool
  sh_tracked :: bool

definition tracks :: "db \<Rightarrow> uuid \<Rightarrow> uuid \<Rightarrow> bool" where
  "tracks d gid mid \<longleftrightarrow> (\<exists>t\<in>set (tracked_markets d). tm_group_id t = gid \<and> tm_market_id t = mid)"

definition hit_of :: "db \<Rightarrow> uuid \<Rightarrow> market \<Rightarrow> search_hit" where
  "hit_of d gid m =
     \<lparr> sh_market_id = mk_id m, sh_name = (case mk_name m of None \<Rightarrow> [] | Some n \<Rightarrow> n),
       sh_short_label = mk_short_label m, sh_region_id = mk_region_id m, sh_solar_system_id = mk_solar_system_id m,
       sh_structure_type_id = mk_structure_type_id m, sh_is_public = mk_is_public m, sh_tracked = tracks d gid (mk_id m) \<rparr>"

definition detailed_citadel :: "market \<Rightarrow> bool" where
  "detailed_citadel m \<longleftrightarrow> mk_kind m = PublicStructure \<and> mk_is_public m \<and> mk_details_synced_at m \<noteq> None"

definition search_citadels ::
  "(string \<Rightarrow> int) \<Rightarrow> session \<Rightarrow> uuid \<Rightarrow> string \<Rightarrow> db \<Rightarrow> search_hit list res" where
  "search_citadels coll s gid q d =
     bind_res (current_group_ex s gid d) (\<lambda>cur.
     let trimmed = trim q in
     if trimmed = [] then Inr []
     else if 100 < utf8_len trimmed then Inl (BadRequest ''query too long'')
     else let pattern = ''%'' @ escape_like trimmed @ ''%'' in
       Inr (take 25 (sort_key (\<lambda>h. (\<not> sh_tracked h, coll (sh_name h))) (map (hit_of d gid)
         (filter (\<lambda>m. detailed_citadel m
            \<and> (case mk_name m of None \<Rightarrow> False | Some n \<Rightarrow> ilike pattern n)) (markets d))))))"

section \<open>Tracking\<close>

definition require_owner :: "current_group \<Rightarrow> unit res" where
  "require_owner cur = (if cg_role cur = Owner then Inr () else Inl (Forbidden ''owner only''))"

definition track_market :: "session \<Rightarrow> uuid \<Rightarrow> uuid \<Rightarrow> db \<Rightarrow> db res" where
  "track_market s gid mid d =
     bind_res (current_group_ex s gid d) (\<lambda>cur.
     bind_res (require_owner cur) (\<lambda>_.
     bind_res (ok_or not_found (find (\<lambda>m. mk_id m = mid) (markets d))) (\<lambda>m.
     if \<not> detailed_citadel m then Inl (BadRequest ''market is not a tracked-eligible public citadel'')
     else Inr (if tracks d gid mid then d
               else d \<lparr> tracked_markets := tracked_markets d @
                 [\<lparr> tm_group_id = gid, tm_market_id = mid, tm_added_by_user_id = cg_user_id cur \<rparr>] \<rparr>))))"

definition untrack_market :: "session \<Rightarrow> uuid \<Rightarrow> uuid \<Rightarrow> db \<Rightarrow> db res" where
  "untrack_market s gid mid d =
     bind_res (current_group_ex s gid d) (\<lambda>cur.
     bind_res (require_owner cur) (\<lambda>_.
     if \<not> tracks d gid mid then Inl not_found
     else Inr (d \<lparr> tracked_markets := del_where (\<lambda>t. tm_group_id t = gid \<and> tm_market_id t = mid)
                 (tracked_markets d) \<rparr>)))"

section \<open>Market lists\<close>

text \<open>The character of the group that last read the orders of a market, latest check first
  and unchecked ones last.\<close>

definition accessing_character :: "db \<Rightarrow> uuid \<Rightarrow> uuid \<Rightarrow> (uuid \<times> string) option" where
  "accessing_character d gid mid =
     (case sort_key (\<lambda>p. case sa_market_checked_at (snd p) of None \<Rightarrow> (True, 0) | Some t \<Rightarrow> (False, - t))
       (concat (map (\<lambda>ch. map (\<lambda>sa. (ch, sa)) (filter (\<lambda>sa. sa_character_id sa = ch_id ch \<and> sa_market_id sa = mid
            \<and> sa_market_status sa = SaOk) (structure_accesses d)))
          (filter (\<lambda>ch. is_group_member d (ch_user_id ch) gid) (characters d)))) of
        [] \<Rightarrow> None | p # _ \<Rightarrow> Some (ch_id (fst p), ch_character_name (fst p)))"

record group_market =
  gk_market :: market
  gk_accessing_character_id :: "uuid option"
  gk_accessing_character_name :: "string option"

definition group_market_of :: "db \<Rightarrow> uuid \<Rightarrow> market \<Rightarrow> group_market" where
  "group_market_of d gid m =
     \<lparr> gk_market = m, gk_accessing_character_id = map_option fst (accessing_character d gid (mk_id m)),
       gk_accessing_character_name = map_option snd (accessing_character d gid (mk_id m)) \<rparr>"

definition tracked_by :: "db \<Rightarrow> uuid \<Rightarrow> market list" where
  "tracked_by d gid = concat (map (\<lambda>t. filter (\<lambda>m. mk_id m = tm_market_id t) (markets d))
     (filter (\<lambda>t. tm_group_id t = gid) (tracked_markets d)))"

definition nulls_last :: "(string \<Rightarrow> int) \<Rightarrow> string option \<Rightarrow> bool \<times> int" where
  "nulls_last coll x = (case x of None \<Rightarrow> (True, 0) | Some s \<Rightarrow> (False, coll s))"

definition list_tracked :: "(string \<Rightarrow> int) \<Rightarrow> session \<Rightarrow> uuid \<Rightarrow> db \<Rightarrow> group_market list res" where
  "list_tracked coll s gid d =
     bind_res (current_group_ex s gid d) (\<lambda>cur.
     Inr (map (group_market_of d gid) (sort_key (\<lambda>m. nulls_last coll (mk_name m)) (tracked_by d gid))))"

definition npc_hubs :: "db \<Rightarrow> market list" where
  "npc_hubs d = filter (\<lambda>m. mk_is_public m \<and> mk_kind m = NpcHub) (markets d)"

definition market_order :: "(string \<Rightarrow> int) \<Rightarrow> market \<Rightarrow> bool \<times> bool \<times> int" where
  "market_order coll m = (\<not> mk_is_hub m, nulls_last coll (mk_short_label m))"

definition list_global :: "(string \<Rightarrow> int) \<Rightarrow> session \<Rightarrow> db \<Rightarrow> market list res" where
  "list_global coll s d =
     bind_res (current_user s) (\<lambda>_. Inr (sort_key (market_order coll) (npc_hubs d)))"

definition list_for_group :: "(string \<Rightarrow> int) \<Rightarrow> session \<Rightarrow> uuid \<Rightarrow> db \<Rightarrow> group_market list res" where
  "list_for_group coll s gid d =
     bind_res (current_group_ex s gid d) (\<lambda>cur.
     Inr (sort_key (\<lambda>g. market_order coll (gk_market g))
       (map (\<lambda>m. \<lparr> gk_market = m, gk_accessing_character_id = None, gk_accessing_character_name = None \<rparr>) (npc_hubs d)
        @ map (group_market_of d gid) (tracked_by d gid))))"

section \<open>Discovery\<close>

definition discovered :: "(int \<Rightarrow> uuid) \<Rightarrow> instant \<Rightarrow> int \<Rightarrow> market" where
  "discovered new_id now loc =
     \<lparr> mk_id = new_id loc, mk_kind = PublicStructure, mk_esi_location_id = loc, mk_region_id = None, mk_name = None,
       mk_short_label = None, mk_is_hub = False, mk_is_public = True, mk_last_orders_synced_at = None,
       mk_last_seen_public_at = Some now, mk_solar_system_id = None, mk_structure_type_id = None,
       mk_details_synced_at = None, mk_missing_poll_count = 0, mk_untrackable_until = None, mk_created_at = now \<rparr>"

definition seen_again :: "instant \<Rightarrow> market \<Rightarrow> market" where
  "seen_again now m = m \<lparr> mk_last_seen_public_at := Some now, mk_missing_poll_count := 0, mk_is_public := True \<rparr>"

definition public_citadel :: "market \<Rightarrow> bool" where
  "public_citadel m \<longleftrightarrow> mk_kind m = PublicStructure \<and> mk_is_public m"

definition bump_missing :: "int list \<Rightarrow> market \<Rightarrow> market" where
  "bump_missing ids m =
     (if public_citadel m \<and> mk_esi_location_id m \<notin> set ids
      then m \<lparr> mk_missing_poll_count := mk_missing_poll_count m + 1 \<rparr> else m)"

definition soft_disable :: "int \<Rightarrow> market \<Rightarrow> market" where
  "soft_disable threshold m =
     (if public_citadel m \<and> threshold \<le> mk_missing_poll_count m then m \<lparr> mk_is_public := False \<rparr> else m)"

text \<open>A repeated identifier makes the upsert fail: it would affect a row twice.\<close>

definition discover :: "(int \<Rightarrow> uuid) \<Rightarrow> instant \<Rightarrow> int \<Rightarrow> int list \<Rightarrow> market list \<Rightarrow> unit + market list" where
  "discover new_id now threshold ids ms =
     (let new = filter (\<lambda>i. i \<notin> mk_esi_location_id ` set ms) ids in
      if \<not> distinct ids \<or> \<not> distinct (map new_id new) \<or> (\<exists>i\<in>set new. new_id i \<in> mk_id ` set ms) then Inl ()
      else let m1 = upd_where (\<lambda>m. mk_esi_location_id m \<in> set ids) (seen_again now) ms @ map (discovered new_id now) new;
               m2 = map (bump_missing ids) m1
           in Inr (map (soft_disable threshold) m2))"

definition citadel_discovery ::
  "(unit + int list) \<Rightarrow> (int \<Rightarrow> uuid) \<Rightarrow> instant \<Rightarrow> int \<Rightarrow> esi_budget \<Rightarrow> db \<Rightarrow> esi_budget \<times> db" where
  "citadel_discovery reply new_id now threshold b d =
     (if \<not> has_budget b then (b, d)
      else case budgeted reply b of
        (Inl _, b') \<Rightarrow> (b', d)
      | (Inr ids, b') \<Rightarrow> (b', case discover new_id now threshold ids (markets d) of
            Inl _ \<Rightarrow> d | Inr ms \<Rightarrow> d \<lparr> markets := ms \<rparr>))"

section \<open>Who can read a structure\<close>

datatype access_dimension = Details | Market_Orders

fun access_status :: "access_dimension \<Rightarrow> structure_access \<Rightarrow> structure_access_status" where
  "access_status Details sa = sa_details_status sa"
| "access_status Market_Orders sa = sa_market_status sa"

fun access_checked_at :: "access_dimension \<Rightarrow> structure_access \<Rightarrow> instant option" where
  "access_checked_at Details sa = sa_details_checked_at sa"
| "access_checked_at Market_Orders sa = sa_market_checked_at sa"

fun set_access :: "access_dimension \<Rightarrow> structure_access_status \<Rightarrow> instant \<Rightarrow> structure_access \<Rightarrow> structure_access" where
  "set_access Details st now sa = sa \<lparr> sa_details_status := st, sa_details_checked_at := Some now \<rparr>"
| "set_access Market_Orders st now sa = sa \<lparr> sa_market_status := st, sa_market_checked_at := Some now \<rparr>"

definition upsert_access ::
  "uuid \<Rightarrow> uuid \<Rightarrow> structure_access_status \<Rightarrow> access_dimension \<Rightarrow> instant \<Rightarrow> db \<Rightarrow> db" where
  "upsert_access chid mid st dim now d =
     (let hit = (\<lambda>sa. sa_character_id sa = chid \<and> sa_market_id sa = mid) in
      d \<lparr> structure_accesses :=
        (if \<exists>sa\<in>set (structure_accesses d). hit sa
         then upd_where hit (set_access dim st now) (structure_accesses d)
         else structure_accesses d @ [set_access dim st now
           \<lparr> sa_character_id = chid, sa_market_id = mid, sa_details_status = SaUnknown, sa_details_checked_at = None,
             sa_market_status = SaUnknown, sa_market_checked_at = None \<rparr>]) \<rparr>)"

definition access_of :: "db \<Rightarrow> uuid \<Rightarrow> uuid \<Rightarrow> structure_access option" where
  "access_of d chid mid = find (\<lambda>sa. sa_character_id sa = chid \<and> sa_market_id sa = mid) (structure_accesses d)"

fun access_rank :: "structure_access_status \<Rightarrow> nat" where
  "access_rank SaOk = 0"
| "access_rank SaUnknown = 1"
| "access_rank SaForbidden = 2"

definition known_status :: "access_dimension \<Rightarrow> structure_access option \<Rightarrow> structure_access_status" where
  "known_status dim a = (case a of None \<Rightarrow> SaUnknown | Some sa \<Rightarrow> access_status dim sa)"

definition known_checked_at :: "access_dimension \<Rightarrow> structure_access option \<Rightarrow> instant option" where
  "known_checked_at dim a = Option.bind a (access_checked_at dim)"

definition in_tracking_group :: "db \<Rightarrow> uuid \<Rightarrow> character \<Rightarrow> bool" where
  "in_tracking_group d mid ch \<longleftrightarrow>
     (\<exists>gm\<in>set (memberships d). gm_user_id gm = ch_user_id ch \<and> tracks d (gm_group_id gm) mid)"

definition eligible ::
  "db \<Rightarrow> uuid \<Rightarrow> string \<Rightarrow> access_dimension \<Rightarrow> int \<Rightarrow> bool \<Rightarrow> instant \<Rightarrow> character \<Rightarrow> bool" where
  "eligible d mid scope dim backoff require_tracking now ch \<longleftrightarrow>
     (require_tracking \<longrightarrow> in_tracking_group d mid ch) \<and> scope \<in> set (ch_scopes ch)
   \<and> (let a = access_of d (ch_id ch) mid in
       known_status dim a \<noteq> SaForbidden
     \<or> (case known_checked_at dim a of None \<Rightarrow> True | Some t \<Rightarrow> t < now - backoff))"

definition candidate_order :: "db \<Rightarrow> uuid \<Rightarrow> access_dimension \<Rightarrow> character \<Rightarrow> nat \<times> instant option \<times> uuid" where
  "candidate_order d mid dim ch =
     (let a = access_of d (ch_id ch) mid
      in (access_rank (known_status dim a), known_checked_at dim a, ch_id ch))"

definition select_candidates ::
  "db \<Rightarrow> uuid \<Rightarrow> string \<Rightarrow> access_dimension \<Rightarrow> int \<Rightarrow> bool \<Rightarrow> instant \<Rightarrow> uuid list" where
  "select_candidates d mid scope dim backoff require_tracking now =
     map ch_id (take 5 (sort_key (candidate_order d mid dim)
       (filter (eligible d mid scope dim backoff require_tracking now) (characters d))))"

section \<open>Details\<close>

definition REFRESH_BATCH :: nat where "REFRESH_BATCH = 50"
definition BACKFILL_BATCH :: nat where "BACKFILL_BATCH = 25"

definition UNIVERSE_SCOPE :: string where
  "UNIVERSE_SCOPE = ''esi-universe.read_structures.v1''"

fun split_once :: "string \<Rightarrow> string \<Rightarrow> (string \<times> string) option" where
  "split_once pat [] = (if pat = [] then Some ([], []) else None)"
| "split_once pat (c # s) =
     (if prefix pat (c # s) then Some ([], drop (length pat) (c # s))
      else map_option (\<lambda>(a, b). (c # a, b)) (split_once pat s))"

text \<open>U+2026 is outside the modelled characters; it is written as 0x85, as in code page 1252.\<close>

definition ELLIPSIS :: char where "ELLIPSIS = CHR 0x85"

definition truncated_label :: "string \<Rightarrow> string" where
  "truncated_label name =
     (if length (trim name) \<le> 24 then trim name else take 23 (trim name) @ [ELLIPSIS])"

definition derive_short_label :: "string \<Rightarrow> string" where
  "derive_short_label name =
     (case split_once '' - '' name of
        Some (pre, _) \<Rightarrow> if length (trim pre) \<le> 24 then trim pre else truncated_label name
      | None \<Rightarrow> truncated_label name)"

record esi_structure =
  es_name :: string
  es_solar_system_id :: int
  es_type_id :: "int option"

record citadel_env =
  ce_structure :: "uuid \<Rightarrow> int \<Rightarrow> esi_structure esi_reply"
  ce_system :: "int \<Rightarrow> int option"            \<comment> \<open>constellation of a system\<close>
  ce_constellation :: "int \<Rightarrow> int option"     \<comment> \<open>region of a constellation\<close>
  ce_store :: store_env

definition resolve_region_for_system ::
  "citadel_env \<Rightarrow> int \<Rightarrow> (int \<rightharpoonup> int) \<Rightarrow> int option \<times> (int \<rightharpoonup> int)" where
  "resolve_region_for_system env sys cache =
     (case cache sys of Some r \<Rightarrow> (Some r, cache)
      | None \<Rightarrow> (case Option.bind (ce_system env sys) (ce_constellation env) of
           None \<Rightarrow> (None, cache) | Some r \<Rightarrow> (Some r, cache(sys \<mapsto> r))))"

fun try_structure ::
  "citadel_env \<Rightarrow> uuid \<Rightarrow> int \<Rightarrow> instant \<Rightarrow> uuid list \<Rightarrow> esi_budget \<Rightarrow> db \<Rightarrow> esi_structure option \<times> esi_budget \<times> db" where
  "try_structure env mid loc now [] b d = (None, b, d)"
| "try_structure env mid loc now (chid # cs) b d =
     (case ce_structure env chid loc of
        NoClient \<Rightarrow> try_structure env mid loc now cs b d
      | EsiOk s \<Rightarrow> (Some s, b, persist_after (ce_store env) now chid (upsert_access chid mid SaOk Details now d))
      | Esi403 \<Rightarrow> try_structure env mid loc now cs (record_non_2xx b) (upsert_access chid mid SaForbidden Details now d)
      | EsiError \<Rightarrow> try_structure env mid loc now cs (record_non_2xx b) d)"

definition store_details :: "uuid \<Rightarrow> esi_structure \<Rightarrow> int \<Rightarrow> instant \<Rightarrow> db \<Rightarrow> db" where
  "store_details mid s region now d =
     d \<lparr> markets := upd_where (\<lambda>m. mk_id m = mid)
           (\<lambda>m. m \<lparr> mk_name := Some (es_name s), mk_short_label := Some (derive_short_label (es_name s)),
                    mk_region_id := Some region, mk_solar_system_id := Some (es_solar_system_id s),
                    mk_structure_type_id := es_type_id s, mk_details_synced_at := Some now \<rparr>) (markets d) \<rparr>"

definition resolve_one ::
  "citadel_env \<Rightarrow> int \<Rightarrow> instant \<Rightarrow> uuid \<times> int \<Rightarrow> (int \<rightharpoonup> int) \<times> esi_budget \<times> db \<Rightarrow> (int \<rightharpoonup> int) \<times> esi_budget \<times> db" where
  "resolve_one env backoff now row st =
     (case (row, st) of ((mid, loc), (cache, b, d)) \<Rightarrow>
        (case try_structure env mid loc now (select_candidates d mid UNIVERSE_SCOPE Details backoff False now) b d of
           (None, b1, d1) \<Rightarrow> (cache, b1, d1)
         | (Some s, b1, d1) \<Rightarrow>
             (case resolve_region_for_system env (es_solar_system_id s) cache of
                (None, cache') \<Rightarrow> (cache', b1, d1)
              | (Some region, cache') \<Rightarrow> (cache', b1, store_details mid s region now d1))))"

definition refresh_rows :: "int \<Rightarrow> instant \<Rightarrow> db \<Rightarrow> (uuid \<times> int) list" where
  "refresh_rows refresh_secs now d =
     map (\<lambda>m. (mk_id m, mk_esi_location_id m)) (take REFRESH_BATCH (sort_key mk_details_synced_at
       (filter (\<lambda>m. public_citadel m \<and> mk_id m \<in> tm_market_id ` set (tracked_markets d)
          \<and> (case mk_details_synced_at m of None \<Rightarrow> True | Some t \<Rightarrow> t < now - refresh_secs)) (markets d))))"

definition backfill_rows :: "db \<Rightarrow> (uuid \<times> int) list" where
  "backfill_rows d =
     map (\<lambda>m. (mk_id m, mk_esi_location_id m)) (take BACKFILL_BATCH (sort_key mk_created_at
       (filter (\<lambda>m. public_citadel m \<and> mk_details_synced_at m = None) (markets d))))"

definition citadel_details ::
  "citadel_env \<Rightarrow> int \<Rightarrow> int \<Rightarrow> instant \<Rightarrow> (int \<rightharpoonup> int) \<times> esi_budget \<times> db \<Rightarrow> (int \<rightharpoonup> int) \<times> esi_budget \<times> db" where
  "citadel_details env refresh_secs backoff now st =
     (case st of (cache, b, d) \<Rightarrow>
        if \<not> has_budget b then st
        else fold (resolve_one env backoff now) (refresh_rows refresh_secs now d @ backfill_rows d) st)"

section \<open>Orders\<close>

definition ORDERS_BATCH :: nat where "ORDERS_BATCH = 50"

text \<open>What a candidate gets for the orders of a structure.\<close>

datatype orders_reply = ONoClient | OOrders "esi_order list" | O403 | O404 | OError

record orders_state =
  os_succeeded :: bool
  os_denied :: nat
  os_transient :: nat

definition wanted_types :: "db \<Rightarrow> uuid \<Rightarrow> int list" where
  "wanted_types d mid = sort (remdups (concat (map (\<lambda>lm. concat (map (\<lambda>l.
       map li_type_id (filter (\<lambda>i. li_list_id i = l_id l \<and> li_status i \<in> {IOpen, IClaimed}) (list_items d)))
     (filter (\<lambda>l. l_id l = lm_list_id lm \<and> l_status l = LOpen) (lists d))))
     (filter (\<lambda>lm. lm_market_id lm = mid) (list_markets d)))))"

definition driver_rows :: "int \<Rightarrow> instant \<Rightarrow> db \<Rightarrow> (uuid \<times> int list) list" where
  "driver_rows cadence now d =
     map (\<lambda>m. (mk_id m, wanted_types d (mk_id m))) (take ORDERS_BATCH (sort_key mk_last_orders_synced_at
       (filter (\<lambda>m. public_citadel m \<and> wanted_types d (mk_id m) \<noteq> []
          \<and> (case mk_untrackable_until m of None \<Rightarrow> True | Some t \<Rightarrow> t < now)
          \<and> mk_id m \<in> tm_market_id ` set (tracked_markets d)
          \<and> (case mk_last_orders_synced_at m of None \<Rightarrow> True | Some t \<Rightarrow> t < now - cadence)) (markets d))))"

text \<open>\<open>None\<close>: the structure is gone (404) and was marked as not public.\<close>

fun try_orders ::
  "(uuid \<Rightarrow> orders_reply) \<Rightarrow> store_env \<Rightarrow> uuid \<Rightarrow> int list \<Rightarrow> instant \<Rightarrow> uuid list \<Rightarrow> orders_state \<Rightarrow> esi_budget \<Rightarrow> db \<Rightarrow>
     orders_state option \<times> esi_budget \<times> db" where
  "try_orders reply store mid tys now [] st b d = (Some st, b, d)"
| "try_orders reply store mid tys now (chid # cs) st b d =
     (case reply chid of
        ONoClient \<Rightarrow> try_orders reply store mid tys now cs (st \<lparr> os_transient := os_transient st + 1 \<rparr>) b d
      | O403 \<Rightarrow> try_orders reply store mid tys now cs (st \<lparr> os_denied := os_denied st + 1 \<rparr>) (record_non_2xx b)
                  (upsert_access chid mid SaForbidden Market_Orders now d)
      | O404 \<Rightarrow> (None, record_non_2xx b, d \<lparr> markets := upd_where (\<lambda>m. mk_id m = mid)
                   (\<lambda>m. m \<lparr> mk_is_public := False \<rparr>) (markets d) \<rparr>)
      | OError \<Rightarrow> try_orders reply store mid tys now cs (st \<lparr> os_transient := os_transient st + 1 \<rparr>) (record_non_2xx b) d
      | OOrders ords \<Rightarrow>
          (case refresh_many_for_citadel (Some ords) mid tys now d of
             Inl _ \<Rightarrow> try_orders reply store mid tys now cs (st \<lparr> os_transient := os_transient st + 1 \<rparr>) (record_non_2xx b) d
           | Inr (_, d1) \<Rightarrow> (Some (st \<lparr> os_succeeded := True \<rparr>), b,
               persist_after store now chid (upsert_access chid mid SaOk Market_Orders now d1))))"

definition refresh_citadel ::
  "(uuid \<Rightarrow> uuid \<Rightarrow> orders_reply) \<Rightarrow> store_env \<Rightarrow> int \<Rightarrow> instant \<Rightarrow> uuid \<times> int list \<Rightarrow> esi_budget \<times> db \<Rightarrow> esi_budget \<times> db" where
  "refresh_citadel reply store backoff now row st =
     (case (row, st) of ((mid, tys), (b, d)) \<Rightarrow>
        (let cands = select_candidates d mid STRUCTURE_MARKETS_SCOPE Market_Orders backoff True now in
         if cands = [] then (b, d)
         else case try_orders (reply mid) store mid tys now cands
                     \<lparr> os_succeeded = False, os_denied = 0, os_transient = 0 \<rparr> b d of
           (None, b1, d1) \<Rightarrow> (b1, d1)
         | (Some os, b1, d1) \<Rightarrow>
             (b1, if \<not> os_succeeded os \<and> 0 < os_denied os \<and> os_transient os = 0
                  then d1 \<lparr> markets := upd_where (\<lambda>m. mk_id m = mid)
                         (\<lambda>m. m \<lparr> mk_untrackable_until := Some (now + backoff) \<rparr>) (markets d1) \<rparr>
                  else d1)))"

definition citadel_orders ::
  "(uuid \<Rightarrow> uuid \<Rightarrow> orders_reply) \<Rightarrow> store_env \<Rightarrow> int \<Rightarrow> int \<Rightarrow> instant \<Rightarrow> esi_budget \<Rightarrow> db \<Rightarrow> esi_budget \<times> db" where
  "citadel_orders reply store cadence backoff now b d =
     (if \<not> has_budget b then (b, d)
      else fold (refresh_citadel reply store backoff now) (driver_rows cadence now d) (b, d))"

section \<open>Hubs\<close>

definition stale_price :: "db \<Rightarrow> int \<Rightarrow> instant \<Rightarrow> uuid \<Rightarrow> int \<Rightarrow> bool" where
  "stale_price d ttl now mid ty \<longleftrightarrow>
     (case find (\<lambda>p. mp_market_id p = mid \<and> mp_type_id p = ty) (market_prices d) of
        None \<Rightarrow> True | Some p \<Rightarrow> mp_computed_at p < now - ttl)"

definition hub_pairs :: "int \<Rightarrow> instant \<Rightarrow> db \<Rightarrow> (market \<times> int) list" where
  "hub_pairs ttl now d =
     concat (map (\<lambda>m. map (\<lambda>ty. (m, ty)) (filter (stale_price d ttl now (mk_id m))
       (remdups (concat (map (\<lambda>i. if \<exists>l\<in>set (lists d). l_id l = li_list_id i \<and> l_status l = LOpen
            \<and> (\<exists>lm\<in>set (list_markets d). lm_list_id lm = l_id l \<and> lm_market_id lm = mk_id m)
          then [li_type_id i] else []) (list_items d)))))) (npc_hubs d))"

definition refresh_pair ::
  "(int \<Rightarrow> int \<Rightarrow> esi_order list option) \<Rightarrow> instant \<Rightarrow> market \<times> int \<Rightarrow> esi_budget \<times> db \<Rightarrow> esi_budget \<times> db" where
  "refresh_pair orders now p st =
     (case budgeted (refresh_one orders (fst p) (snd p) now (snd st)) (fst st) of
        (Inl _, b) \<Rightarrow> (b, snd st) | (Inr (_, d'), b) \<Rightarrow> (b, d'))"

definition npc_hubs_run ::
  "(int \<Rightarrow> int \<Rightarrow> esi_order list option) \<Rightarrow> int \<Rightarrow> instant \<Rightarrow> esi_budget \<Rightarrow> db \<Rightarrow> esi_budget \<times> db" where
  "npc_hubs_run orders ttl now b d =
     (if \<not> has_budget b then (b, d) else fold (refresh_pair orders now) (hub_pairs ttl now d) (b, d))"

end
