(* ===== verification/Citadel_Facts.thy ===== *)
theory Citadel_Facts
  imports Citadels Wallet_Facts List_Facts
begin

text \<open>
  Citadels: the search matches its query literally, a structure leaves the lists after
  exactly the configured number of polls without it, orders are read only through
  characters of groups that track the citadel, and a citadel is paused only when all of
  them are refused.  The backlog of details starves behind structures nobody can read.
\<close>

section \<open>The search\<close>

definition contains_ci :: "string \<Rightarrow> string \<Rightarrow> bool" where
  "contains_ci q name \<longleftrightarrow> sublist (map lower q) (map lower name)"

definition esc1 :: "char \<Rightarrow> string" where
  "esc1 c = (if c = ESC \<or> c = CHR ''%'' \<or> c = CHR ''_'' then [ESC, c] else [c])"

lemma escape_like_Nil [simp]: "escape_like [] = []"
  by (simp add: escape_like_def replace_char_def)

lemma escape_like_Cons: "escape_like (c # s) = esc1 c @ escape_like s"
  by (auto simp: escape_like_def replace_char_def esc1_def ESC_def)

lemma ilike_percent: "ilike (CHR ''%'' # p) s \<longleftrightarrow> (\<exists>a b. s = a @ b \<and> ilike p b)"
proof (induction s)
  case (Cons c s)
  have "ilike (CHR ''%'' # p) (c # s) \<longleftrightarrow> ilike p (c # s) \<or> ilike (CHR ''%'' # p) s" by (subst ilike.simps(2)) simp
  also have "\<dots> \<longleftrightarrow> (\<exists>a b. c # s = a @ b \<and> ilike p b)"
    unfolding Cons.IH by (metis append_Cons append_Nil neq_Nil_conv list.inject)
  finally show ?case .
qed (subst ilike.simps(2), simp)

lemma ilike_esc1: "ilike (esc1 c @ p) s \<longleftrightarrow> (\<exists>x s'. s = x # s' \<and> lower x = lower c \<and> ilike p s')"
proof (cases "c = ESC \<or> c = CHR ''%'' \<or> c = CHR ''_''")
  case True
  then have "esc1 c @ p = ESC # c # p" by (simp add: esc1_def)
  then show ?thesis by (simp only:) (subst ilike.simps(2), simp add: ESC_def split: list.split)
next
  case False
  then have "esc1 c @ p = c # p" by (simp add: esc1_def)
  then show ?thesis using False by (simp only:) (subst ilike.simps(2), simp split: list.split)
qed

lemma ilike_escaped:
  "ilike (escape_like q @ p) s \<longleftrightarrow> (\<exists>a b. s = a @ b \<and> map lower a = map lower q \<and> ilike p b)"
proof (induction q arbitrary: s)
  case (Cons c q)
  have "ilike (escape_like (c # q) @ p) s
      \<longleftrightarrow> (\<exists>x a b. s = x # a @ b \<and> lower x = lower c \<and> map lower a = map lower q \<and> ilike p b)"
    by (auto simp: escape_like_Cons ilike_esc1 Cons.IH)
  also have "\<dots> \<longleftrightarrow> (\<exists>a b. s = a @ b \<and> map lower a = map lower (c # q) \<and> ilike p b)"
  proof
    assume "\<exists>x a b. s = x # a @ b \<and> lower x = lower c \<and> map lower a = map lower q \<and> ilike p b"
    then obtain x a b where "s = (x # a) @ b" "map lower (x # a) = map lower (c # q)" "ilike p b" by auto
    then show "\<exists>a b. s = a @ b \<and> map lower a = map lower (c # q) \<and> ilike p b" by blast
  next
    assume "\<exists>a b. s = a @ b \<and> map lower a = map lower (c # q) \<and> ilike p b"
    then obtain a b where a: "s = a @ b" "map lower a = map lower (c # q)" "ilike p b" by blast
    then obtain x a' where "a = x # a'" "lower x = lower c" "map lower a' = map lower q" by auto
    then show "\<exists>x a b. s = x # a @ b \<and> lower x = lower c \<and> map lower a = map lower q \<and> ilike p b"
      using a by auto
  qed
  finally show ?case .
qed simp

lemma ilike_contains: "ilike (''%'' @ escape_like q @ ''%'') name \<longleftrightarrow> contains_ci q name"
proof -
  have "ilike ''%'' s" for s using ilike_percent [of "[]" s] by auto
  then have "ilike (''%'' @ escape_like q @ ''%'') name
      \<longleftrightarrow> (\<exists>x a b. name = x @ a @ b \<and> map lower a = map lower q)"
    unfolding append.simps ilike_percent ilike_escaped by auto
  also have "\<dots> \<longleftrightarrow> contains_ci q name"
  proof
    assume "\<exists>x a b. name = x @ a @ b \<and> map lower a = map lower q"
    then obtain x a b where "map lower name = map lower x @ map lower q @ map lower b" by auto
    then show "contains_ci q name" unfolding contains_ci_def sublist_def by blast
  next
    assume "contains_ci q name"
    then obtain u v where "map lower name = u @ map lower q @ v" by (auto simp: contains_ci_def sublist_def)
    then obtain x y where n: "name = x @ y" "map lower y = map lower q @ v" by (metis map_eq_append_conv)
    then obtain a b where "y = a @ b" "map lower a = map lower q" by (metis map_eq_append_conv)
    then show "\<exists>x a b. name = x @ a @ b \<and> map lower a = map lower q" using n(1) by blast
  qed
  finally show ?thesis .
qed

text \<open>C38: the search for citadels matches its query literally: wildcards typed by the user
  have no effect.  The hits are public citadels with known details whose name contains
  the trimmed query, ignoring case; at most 25, and all of them when there are no more.\<close>

theorem search_citadels_literal:
  assumes "search_citadels coll s gid q d = Inr hits" "trim q \<noteq> []"
  defines "matches \<equiv> filter (\<lambda>m. detailed_citadel m \<and> (\<exists>n. mk_name m = Some n \<and> contains_ci (trim q) n)) (markets d)"
  shows "length hits = min 25 (length matches) \<and> set hits \<subseteq> hit_of d gid ` set matches
    \<and> (length matches \<le> 25 \<longrightarrow> mset hits = mset (map (hit_of d gid) matches))"
proof -
  have m: "filter (\<lambda>m. detailed_citadel m \<and> (case mk_name m of None \<Rightarrow> False
      | Some n \<Rightarrow> ilike (''%'' @ escape_like (trim q) @ ''%'') n)) (markets d) = matches"
    unfolding matches_def ilike_contains by (rule filter_cong) (auto split: option.splits)
  have "hits = take 25 (sort_key (\<lambda>h. (\<not> sh_tracked h, coll (sh_name h))) (map (hit_of d gid) matches))"
    using assms(1,2) unfolding search_citadels_def Let_def m by (auto simp: bind_res_eq_Inr split: if_splits)
  then show ?thesis by (auto dest: in_set_takeD)
qed

section \<open>Discovery\<close>

text \<open>What a poll does to one market that is known already.\<close>

definition polled :: "instant \<Rightarrow> int \<Rightarrow> int list \<Rightarrow> market \<Rightarrow> market" where
  "polled now threshold ids m =
     soft_disable threshold (bump_missing ids (if mk_esi_location_id m \<in> set ids then seen_again now m else m))"

lemma discover_Inr:
  assumes "discover new_id now threshold ids ms = Inr ms'"
  shows "ms' = map (polled now threshold ids) ms @ map (\<lambda>i. soft_disable threshold (bump_missing ids (discovered new_id now i)))
      (filter (\<lambda>i. i \<notin> mk_esi_location_id ` set ms) ids)"
  using assms by (auto simp: discover_def Let_def upd_where_def polled_def split: if_splits)

text \<open>A sequence of polls.\<close>

fun discoveries :: "(int \<Rightarrow> uuid) \<Rightarrow> int \<Rightarrow> (instant \<times> int list) list \<Rightarrow> market list \<Rightarrow> unit + market list" where
  "discoveries new_id threshold [] ms = Inr ms"
| "discoveries new_id threshold ((now, ids) # ps) ms =
     bind_res (discover new_id now threshold ids ms) (discoveries new_id threshold ps)"

lemma polled_missing:
  assumes "public_citadel m" "mk_esi_location_id m \<notin> set ids"
  shows "mk_missing_poll_count (polled now threshold ids m) = mk_missing_poll_count m + 1"
    "public_citadel (polled now threshold ids m) \<longleftrightarrow> mk_missing_poll_count m + 1 < threshold"
    "mk_esi_location_id (polled now threshold ids m) = mk_esi_location_id m" "mk_id (polled now threshold ids m) = mk_id m"
  using assms by (auto simp: polled_def soft_disable_def bump_missing_def public_citadel_def)

lemma polled_private:
  assumes "mk_kind m = PublicStructure" "\<not> mk_is_public m" "mk_esi_location_id m \<notin> set ids"
  shows "polled now threshold ids m = m"
  using assms by (simp add: polled_def soft_disable_def bump_missing_def public_citadel_def)

lemma discoveries_missing:
  assumes "discoveries new_id threshold ps ms = Inr ms'" "m \<in> set ms" "mk_kind m = PublicStructure"
    and "\<And>now ids. (now, ids) \<in> set ps \<Longrightarrow> mk_esi_location_id m \<notin> set ids"
    and "mk_is_public m \<longleftrightarrow> mk_missing_poll_count m < threshold"
  shows "\<exists>m'\<in>set ms'. mk_id m' = mk_id m \<and> mk_esi_location_id m' = mk_esi_location_id m \<and> mk_kind m' = PublicStructure
    \<and> (mk_is_public m' \<longleftrightarrow> mk_missing_poll_count m + int (length ps) < threshold)"
  using assms
proof (induction ps arbitrary: ms m)
  case (Cons p ps)
  obtain now ids where p: "p = (now, ids)" by (cases p)
  obtain ms1 where one: "discover new_id now threshold ids ms = Inr ms1" and rest: "discoveries new_id threshold ps ms1 = Inr ms'"
    using Cons.prems(1) by (auto simp: p bind_res_eq_Inr)
  let ?m = "polled now threshold ids m"
  have no: "mk_esi_location_id m \<notin> set ids" using Cons.prems(4) p by auto
  have mem: "?m \<in> set ms1" using discover_Inr [OF one] Cons.prems(2) by simp
  have id: "mk_id ?m = mk_id m" "mk_kind ?m = PublicStructure" "mk_esi_location_id ?m = mk_esi_location_id m"
    using Cons.prems(3) no by (auto simp: polled_def soft_disable_def bump_missing_def)
  show ?case
  proof (cases "mk_is_public m")
    case True
    then have pub: "public_citadel m" using Cons.prems(3) by (simp add: public_citadel_def)
    note q = polled_missing [OF pub no, of now threshold]
    have "mk_is_public ?m \<longleftrightarrow> mk_missing_poll_count ?m < threshold"
      using q id(2) by (simp add: public_citadel_def)
    then show ?thesis
      using Cons.IH [OF rest mem id(2)] Cons.prems(4) id q(1) p by (fastforce simp: algebra_simps)
  next
    case False
    then have "?m = m" using polled_private Cons.prems(3) no by blast
    moreover have "\<not> mk_missing_poll_count m + int (length (p # ps)) < threshold"
      "\<not> mk_missing_poll_count m + int (length ps) < threshold" using False Cons.prems(5) by auto
    moreover have "mk_esi_location_id m \<notin> set i" if "(t, i) \<in> set ps" for t i using Cons.prems(4) that by auto
    ultimately show ?thesis
      using Cons.IH [OF rest _ Cons.prems(3) _ Cons.prems(5)] mem by simp
  qed
qed auto

text \<open>C39: a citadel disappears from the lists only when it has been missing often enough.  A
  public citadel just seen that is absent from every one of a sequence of polls is
  public exactly while there have been fewer polls than the threshold, and one that a
  poll reports is public again, with its count of misses reset.\<close>

theorem discovery_debounced:
  assumes "m \<in> set ms" "public_citadel m" "mk_missing_poll_count m = 0" "0 < threshold"
    and "discoveries new_id threshold ps ms = Inr ms'"
    and "\<And>now ids. (now, ids) \<in> set ps \<Longrightarrow> mk_esi_location_id m \<notin> set ids"
    and "discover new_id now threshold ids ms' = Inr ms''" "mk_esi_location_id m \<in> set ids"
  shows "(\<exists>m'\<in>set ms'. mk_id m' = mk_id m \<and> (mk_is_public m' \<longleftrightarrow> int (length ps) < threshold))
    \<and> (\<exists>m''\<in>set ms''. mk_id m'' = mk_id m \<and> mk_is_public m'' \<and> mk_missing_poll_count m'' = 0)"
proof -
  have k: "mk_kind m = PublicStructure" "mk_is_public m \<longleftrightarrow> mk_missing_poll_count m < threshold"
    using assms(2-4) by (simp_all add: public_citadel_def)
  have seen: "\<exists>m'\<in>set ms'. mk_id m' = mk_id m \<and> mk_esi_location_id m' = mk_esi_location_id m \<and> mk_kind m' = PublicStructure
    \<and> (mk_is_public m' \<longleftrightarrow> mk_missing_poll_count m + int (length ps) < threshold)"
    by (rule discoveries_missing [OF assms(5,1) k(1) _ k(2)]) (rule assms(6))
  obtain m' where m': "m' \<in> set ms'" "mk_id m' = mk_id m" "mk_esi_location_id m' = mk_esi_location_id m"
    "mk_is_public m' \<longleftrightarrow> int (length ps) < threshold"
    using seen assms(3) by auto
  have "polled now threshold ids m' \<in> set ms''" using discover_Inr [OF assms(7)] m'(1) by simp
  moreover have "mk_id (polled now threshold ids m') = mk_id m" "mk_is_public (polled now threshold ids m')"
    "mk_missing_poll_count (polled now threshold ids m') = 0"
    using m'(2,3) assms(4,8) by (auto simp: polled_def seen_again_def bump_missing_def soft_disable_def)
  ultimately show ?thesis using m' by blast
qed

section \<open>Who reads the orders\<close>

lemma select_candidates_mem:
  assumes "chid \<in> set (select_candidates d mid scope dim backoff req now)"
  obtains ch where "ch \<in> set (characters d)" "ch_id ch = chid" "eligible d mid scope dim backoff req now ch"
  using assms by (auto simp: select_candidates_def dest!: in_set_takeD)

lemma upsert_access_markets [simp]: "markets (upsert_access chid mid st dim now d) = markets d"
  by (simp add: upsert_access_def Let_def)

lemma persist_after_markets [simp]: "markets (persist_after st now chid d) = markets d"
  by (auto simp: persist_after_def persist_rotations_def Let_def split: option.splits sum.splits)

lemma store_aggregates_markets: "store_aggregates mid ords now tys d = Inr d' \<Longrightarrow> markets d' = markets d"
  by (induction mid ords now tys d rule: store_aggregates.induct)
    (auto simp: bind_res_eq_Inr upsert_price_row_def Let_def split: if_splits)

text \<open>When the attempts end without an answer, every candidate was refused or failed, and the
  counters say which.\<close>

lemma try_orders_Some:
  assumes "try_orders reply store mid tys now cs st b d = (Some os, b', d')" "\<not> os_succeeded os"
  shows "markets d' = markets d \<and> os_denied st \<le> os_denied os \<and> os_transient st \<le> os_transient os
    \<and> (os_transient os = os_transient st \<longrightarrow> (\<forall>c\<in>set cs. reply c = O403))"
  using assms
proof (induction reply store mid tys now cs st b d rule: try_orders.induct)
  case (2 reply store mid tys now chid cs st b d)
  show ?case
  proof (cases "reply chid")
    case (OOrders ords)
    show ?thesis
    proof (cases "refresh_many_for_citadel (Some ords) mid tys now d")
      case (Inl u)
      then show ?thesis using "2.IH"(2) [OF OOrders Inl] "2.prems" OOrders by auto
    next
      case (Inr p)
      then show ?thesis using "2.prems" OOrders by (auto split: prod.splits)
    qed
  next
    case ONoClient
    then show ?thesis using "2.IH"(1) [OF ONoClient] "2.prems" by auto
  next
    case O403
    then show ?thesis using "2.IH"(3) [OF O403] "2.prems" by auto
  next
    case OError
    then show ?thesis using "2.IH"(4) [OF OError] "2.prems" by auto
  qed (use "2.prems" in auto)
qed auto

lemma upd_untrackable:
  assumes "\<And>m. mk_untrackable_until (f m) = mk_untrackable_until m"
  shows "mk_untrackable_until ` set (upd_where P f ms) = mk_untrackable_until ` set ms"
  using map_upd_where [of mk_untrackable_until f P ms] assms by (simp flip: set_map)

lemma refresh_many_untrackable:
  assumes "refresh_many_for_citadel (Some ords) mid tys now d = Inr (n, d1)"
  shows "mk_untrackable_until ` set (markets d1) = mk_untrackable_until ` set (markets d)"
  using assms by (clarsimp simp: refresh_many_for_citadel_def bind_res_eq_Inr upd_untrackable dest!: store_aggregates_markets)

lemma try_orders_untrackable:
  assumes "try_orders reply store mid tys now cs st b d = (r, b', d')"
  shows "mk_untrackable_until ` set (markets d') = mk_untrackable_until ` set (markets d)"
  using assms
proof (induction reply store mid tys now cs st b d rule: try_orders.induct)
  case (2 reply store mid tys now chid cs st b d)
  show ?case
  proof (cases "reply chid")
    case (OOrders ords)
    show ?thesis
    proof (cases "refresh_many_for_citadel (Some ords) mid tys now d")
      case (Inl u)
      then show ?thesis using "2.IH"(2) [OF OOrders Inl] "2.prems" OOrders by auto
    next
      case (Inr p)
      obtain n d1 where p: "p = (n, d1)" by (cases p)
      then have "markets d' = markets d1" using "2.prems" OOrders Inr by auto
      then show ?thesis using refresh_many_untrackable [OF Inr [unfolded p]] by simp
    qed
  next
    case ONoClient
    then show ?thesis using "2.IH"(1) [OF ONoClient] "2.prems" by auto
  next
    case O403
    then show ?thesis using "2.IH"(3) [OF O403] "2.prems" by auto
  next
    case O404
    then show ?thesis using "2.prems" by (clarsimp simp: upd_untrackable)
  next
    case OError
    then show ?thesis using "2.IH"(4) [OF OError] "2.prems" by auto
  qed
qed auto

text \<open>C40: a citadel is paused only when its orders are really out of reach.  A refresh pauses
  no other market, and pauses the citadel only if there were candidates and every one
  of them was refused by ESI (not merely unreachable); each was a character that holds
  the market scope, belongs to a member of a group that tracks the citadel, and had not
  been refused within the backoff.\<close>

theorem citadel_paused_when_refused:
  assumes "refresh_citadel reply store backoff now (mid, tys) (b, d) = (b', d')"
    and "m' \<in> set (markets d')" "mk_untrackable_until m' = Some (now + backoff)"
    and "Some (now + backoff) \<notin> mk_untrackable_until ` set (markets d)"
  defines "cands \<equiv> select_candidates d mid STRUCTURE_MARKETS_SCOPE Market_Orders backoff True now"
  shows "mk_id m' = mid \<and> cands \<noteq> [] \<and> (\<forall>chid\<in>set cands. reply mid chid = O403
    \<and> (\<exists>ch\<in>set (characters d). ch_id ch = chid \<and> STRUCTURE_MARKETS_SCOPE \<in> set (ch_scopes ch)
         \<and> in_tracking_group d mid ch
         \<and> (known_status Market_Orders (access_of d chid mid) = SaForbidden \<longrightarrow>
              (\<forall>t. known_checked_at Market_Orders (access_of d chid mid) = Some t \<longrightarrow> t < now - backoff))))"
proof -
  let ?st = "\<lparr> os_succeeded = False, os_denied = 0, os_transient = 0 \<rparr>"
  have nu: "mk_untrackable_until m \<noteq> Some (now + backoff)" if "m \<in> set (markets d)" for m
    using assms(4) that by (metis image_eqI)
  have ne: "cands \<noteq> []"
    using assms(1-3) nu by (auto simp: refresh_citadel_def Let_def cands_def)
  obtain r b1 d1 where att: "try_orders (reply mid) store mid tys now cands ?st b d = (r, b1, d1)"
    by (cases "try_orders (reply mid) store mid tys now cands ?st b d") auto
  have keep: "mk_untrackable_until ` set (markets d1) = mk_untrackable_until ` set (markets d)"
    by (rule try_orders_untrackable [OF att])
  have nu1: "mk_untrackable_until m \<noteq> Some (now + backoff)" if "m \<in> set (markets d1)" for m
    using assms(4) keep that by (metis image_eqI)
  obtain os where os: "r = Some os" "\<not> os_succeeded os" "os_transient os = 0"
    and d': "d' = d1 \<lparr> markets := upd_where (\<lambda>m. mk_id m = mid)
                         (\<lambda>m. m \<lparr> mk_untrackable_until := Some (now + backoff) \<rparr>) (markets d1) \<rparr>"
    using assms(1-3) att ne nu1
    by (auto simp: refresh_citadel_def Let_def cands_def [symmetric] split: option.splits if_splits)
  have "mk_id m' = mid" using assms(2,3) nu1 by (auto simp: d' set_upd_where split: if_splits)
  moreover have "\<forall>c\<in>set cands. reply mid c = O403" using try_orders_Some [OF att [unfolded os(1)] os(2)] os(3) by simp
  moreover have "\<exists>ch\<in>set (characters d). ch_id ch = chid \<and> STRUCTURE_MARKETS_SCOPE \<in> set (ch_scopes ch)
         \<and> in_tracking_group d mid ch
         \<and> (known_status Market_Orders (access_of d chid mid) = SaForbidden \<longrightarrow>
              (\<forall>t. known_checked_at Market_Orders (access_of d chid mid) = Some t \<longrightarrow> t < now - backoff))"
    if "chid \<in> set cands" for chid
    using that unfolding cands_def
    by (elim select_candidates_mem) (auto simp: eligible_def Let_def split: option.splits)
  ultimately show ?thesis using ne by blast
qed

section \<open>Details\<close>

lemma truncated_label_length: "length (truncated_label name) \<le> 24"
  by (simp add: truncated_label_def)

lemma derive_short_label_length: "length (derive_short_label name) \<le> 24"
  using truncated_label_length by (auto simp: derive_short_label_def split: option.split prod.split)

lemma try_structure_refused:
  assumes "\<And>chid s. ce_structure env chid loc \<noteq> EsiOk s"
  shows "fst (try_structure env mid loc now cs b d) = None
    \<and> markets (snd (snd (try_structure env mid loc now cs b d))) = markets d"
  using assms
proof (induction env mid loc now cs b d rule: try_structure.induct)
  case (2 env mid loc now chid cs b d)
  show ?case
  proof (cases "ce_structure env chid loc")
    case NoClient
    then show ?thesis using "2.IH"(1) [OF NoClient] "2.prems" by simp
  next
    case (EsiOk s)
    then show ?thesis using "2.prems" by simp
  next
    case Esi403
    then show ?thesis using "2.IH"(2) [OF Esi403] "2.prems" by simp
  next
    case EsiError
    then show ?thesis using "2.IH"(3) [OF EsiError] "2.prems" by simp
  qed
qed simp

lemma resolve_one_refused:
  assumes "\<And>chid s. ce_structure env chid (snd row) \<noteq> EsiOk s"
  shows "markets (snd (snd (resolve_one env backoff now row st))) = markets (snd (snd st))"
proof -
  obtain mid loc cache b d where [simp]: "row = (mid, loc)" "st = (cache, b, d)" by (cases row, cases st) auto
  show ?thesis
    using try_structure_refused [of env loc mid now "select_candidates d mid UNIVERSE_SCOPE Details backoff False now" b d]
      assms by (auto simp: resolve_one_def split: prod.split)
qed

text \<open>The backlog starves: when nobody can read the structures of the batch, the next tick
  takes the same batch, and the structures behind it are never tried.\<close>

lemma backlog_starves:
  assumes "\<And>row chid s. row \<in> set (refresh_rows secs now d @ backfill_rows d) \<Longrightarrow> ce_structure env chid (snd row) \<noteq> EsiOk s"
  shows "backfill_rows (snd (snd (citadel_details env secs backoff now (cache, b, d)))) = backfill_rows d"
proof -
  have keep: "markets (snd (snd (fold (resolve_one env backoff now) rows st))) = markets (snd (snd st))"
    if "\<And>row chid s. row \<in> set rows \<Longrightarrow> ce_structure env chid (snd row) \<noteq> EsiOk s" for rows st
    using that by (induction rows arbitrary: st) (simp_all add: resolve_one_refused)
  from keep [of "refresh_rows secs now d @ backfill_rows d" "(cache, b, d)", OF assms] show ?thesis
    by (simp add: citadel_details_def backfill_rows_def)
qed

section \<open>Witnesses\<close>

definition demo_citadel :: market where
  "demo_citadel = (demo_market 7) \<lparr> mk_kind := PublicStructure, mk_esi_location_id := 35,
     mk_name := Some ''Keep - 50% off'', mk_details_synced_at := Some 0 \<rparr>"

definition demo_citadel_db :: db where
  "demo_citadel_db = demo_db \<lparr> markets := [demo_market 1, demo_citadel],
     characters := [demo_character \<lparr> ch_scopes := [STRUCTURE_MARKETS_SCOPE] \<rparr>],
     tracked_markets := [\<lparr> tm_group_id = 5, tm_market_id = 7, tm_added_by_user_id = 1 \<rparr>] \<rparr>"

lemma length_matches:
  assumes "\<not> detailed_citadel a" "detailed_citadel b" "mk_name b = Some n"
  shows "length (filter (\<lambda>m. detailed_citadel m \<and> (\<exists>n. mk_name m = Some n \<and> contains_ci q n)) [a, b]) =
    (if contains_ci q n then 1 else 0)"
  using assms by simp

theorem search_citadels_literal_witness:
  "contains_ci ''0% O'' ''Keep - 50% off'' \<and> \<not> contains_ci ''K%'' ''Keep - 50% off''
   \<and> search_citadels (int \<circ> length) (Some 1) 5 ''K%'' demo_citadel_db = Inr []"
proof -
  have h: "search_citadels (int \<circ> length) (Some 1) 5 ''0% O '' demo_citadel_db = Inr [hit_of demo_citadel_db 5 demo_citadel]"
    and e: "search_citadels (int \<circ> length) (Some 1) 5 ''K%'' demo_citadel_db = Inr []"
    and t: "trim ''0% O '' = ''0% O''" "trim ''K%'' = ''K%''" by code_simp+
  have m: "markets demo_citadel_db = [demo_market 1, demo_citadel]" "\<not> detailed_citadel (demo_market 1)"
    "detailed_citadel demo_citadel" "mk_name demo_citadel = Some ''Keep - 50% off''"
    by (simp_all add: demo_citadel_db_def demo_citadel_def demo_market_def detailed_citadel_def)
  have "min 25 (if contains_ci ''0% O'' ''Keep - 50% off'' then 1 else 0) = (1::nat)"
    using search_citadels_literal [OF h, unfolded t m(1) length_matches [OF m(2-4)], THEN conjunct1] by simp
  moreover have "min 25 (if contains_ci ''K%'' ''Keep - 50% off'' then 1 else 0) = (0::nat)"
    using search_citadels_literal [OF e, unfolded t m(1) length_matches [OF m(2-4)], THEN conjunct1] by simp
  ultimately have "contains_ci ''0% O'' ''Keep - 50% off'' \<and> \<not> contains_ci ''K%'' ''Keep - 50% off''"
    by (simp only: split: if_splits) simp_all
  with e show ?thesis by blast
qed

definition demo_polls :: "(instant \<times> int list) list" where
  "demo_polls = [(10, [44]), (20, [44])]"

definition demo_missing :: "market list" where
  "demo_missing = (case discoveries nat 2 demo_polls [demo_citadel] of Inr ms \<Rightarrow> ms | Inl _ \<Rightarrow> [])"

definition demo_seen :: "market list" where
  "demo_seen = (case discover nat 30 2 [35] demo_missing of Inr ms \<Rightarrow> ms | Inl _ \<Rightarrow> [])"

theorem discovery_debounced_witness:
  "discoveries nat 2 demo_polls [demo_citadel] = Inr demo_missing \<and> discover nat 30 2 [35] demo_missing = Inr demo_seen
   \<and> (\<exists>m'\<in>set demo_missing. mk_id m' = 7 \<and> \<not> mk_is_public m')
   \<and> (\<exists>m''\<in>set demo_seen. mk_id m'' = 7 \<and> mk_is_public m'' \<and> mk_missing_poll_count m'' = 0)"
proof -
  have run: "discoveries nat 2 demo_polls [demo_citadel] = Inr demo_missing" "discover nat 30 2 [35] demo_missing = Inr demo_seen"
    by code_simp+
  have m: "public_citadel demo_citadel" "mk_missing_poll_count demo_citadel = 0" "mk_esi_location_id demo_citadel = 35"
    "mk_id demo_citadel = 7"
    by (simp_all add: demo_citadel_def demo_market_def public_citadel_def)
  have "(\<exists>m'\<in>set demo_missing. mk_id m' = 7 \<and> (mk_is_public m' \<longleftrightarrow> int (length demo_polls) < 2))
    \<and> (\<exists>m''\<in>set demo_seen. mk_id m'' = 7 \<and> mk_is_public m'' \<and> mk_missing_poll_count m'' = 0)"
    by (rule discovery_debounced [of demo_citadel "[demo_citadel]", OF _ m(1,2) _ run(1) _ run(2), unfolded m])
      (auto simp: demo_polls_def)
  then show ?thesis using run by (simp add: demo_polls_def)
qed

definition demo_refused :: "esi_budget \<times> db" where
  "demo_refused = refresh_citadel (\<lambda>_ _. O403) demo_store 60 100 (7, [34]) (new_budget 100 20, demo_citadel_db)"

theorem citadel_paused_when_refused_witness:
  "mk_untrackable_until (markets (snd demo_refused) ! 1) = Some 160
   \<and> select_candidates demo_citadel_db 7 STRUCTURE_MARKETS_SCOPE Market_Orders 60 True 100 \<noteq> []"
proof -
  have p: "mk_untrackable_until (markets (snd demo_refused) ! 1) = Some (100 + 60)" "1 < length (markets (snd demo_refused))"
    by code_simp+
  have n: "Some (100 + 60) \<notin> mk_untrackable_until ` set (markets demo_citadel_db)"
    by (simp add: demo_citadel_db_def demo_citadel_def demo_market_def)
  have "refresh_citadel (\<lambda>_ _. O403) demo_store 60 100 (7, [34]) (new_budget 100 20, demo_citadel_db) =
      (fst demo_refused, snd demo_refused)" by (simp add: demo_refused_def)
  from citadel_paused_when_refused [OF this nth_mem [OF p(2)] p(1) n] p(1) show ?thesis by simp
qed

end
