(* ===== verification/Token_Refinement.thy ===== *)
theory Token_Refinement
  imports Token_Facts
begin

text \<open>
  The token store refines a plain vault.  The vault is a map from characters to tokens in
  the clear, with the same cache of clients; handing out a client, a rotation inside the
  ESI client, writing a rotation back and the key-rotation sweep are one step each.  The
  sweep is no step at all for the vault, and the ciphertexts, nonces and key identifiers
  are invisible.
\<close>

section \<open>Refinement of sequences\<close>

locale functional_refinement =
  fixes step :: "'op \<Rightarrow> 's \<Rightarrow> 's" and spec :: "'op \<Rightarrow> 'a \<Rightarrow> 'a" and abs_state :: "'s \<Rightarrow> 'a"
    and inv :: "'s \<Rightarrow> bool" and allowed :: "'op \<Rightarrow> bool"
  assumes keeps: "allowed x \<Longrightarrow> inv s \<Longrightarrow> inv (step x s)"
    and simulates: "allowed x \<Longrightarrow> inv s \<Longrightarrow> abs_state (step x s) = spec x (abs_state s)"
begin

lemma runs:
  assumes "list_all allowed xs" "inv s"
  shows "inv (fold step xs s) \<and> abs_state (fold step xs s) = fold spec xs (abs_state s)"
  using assms by (induction xs arbitrary: s) (simp_all add: keeps simulates)

end

section \<open>The store\<close>

datatype store_op =
    Serve instant uuid
  | Rotated uuid esi_tokens                       \<comment> \<open>inside the ESI client\<close>
  | Persist "bool \<Rightarrow> string" instant uuid
  | Sweep "uuid \<Rightarrow> bool" "uuid \<Rightarrow> bool \<Rightarrow> string"

fun store_step :: "crypto \<Rightarrow> multi_key_cipher \<Rightarrow> store_op \<Rightarrow> clients \<times> db \<Rightarrow> clients \<times> db" where
  "store_step cr c (Serve now chid) (cs, d) =
     (case authed_client_for cr c now d chid cs of Inl _ \<Rightarrow> (cs, d) | Inr (_, cs') \<Rightarrow> (cs', d))"
| "store_step cr c (Rotated chid tk) (cs, d) =
     (case cs chid of None \<Rightarrow> (cs, d) | Some e \<Rightarrow> (cs(chid \<mapsto> e \<lparr> cc_tokens := Some tk \<rparr>), d))"
| "store_step cr c (Persist nonce now chid) (cs, d) = snd (persist_rotations cr c nonce True now chid cs d)"
| "store_step cr c (Sweep free nonce) (cs, d) = (cs, token_reencrypt_job cr c free nonce d)"

section \<open>The vault\<close>

type_synonym vault = "uuid \<rightharpoonup> loaded_tokens"

definition persisted :: "cached_client \<Rightarrow> esi_tokens \<Rightarrow> loaded_tokens" where
  "persisted e tk = \<lparr> lt_refresh_token = et_refresh_token tk, lt_access_token = Some (et_access_token tk),
     lt_access_token_expires_at = Some (et_expires_at tk), lt_eve_character_id = cc_eve_character_id e \<rparr>"

fun vault_step :: "crypto \<Rightarrow> store_op \<Rightarrow> clients \<times> vault \<Rightarrow> clients \<times> vault" where
  "vault_step cr (Serve now chid) (cs, v) =
     (case v chid of None \<Rightarrow> (cs, v)
      | Some row \<Rightarrow>
          (if \<exists>e. cs chid = Some e \<and> cc_last_refresh_hash e = cr_hash cr (lt_refresh_token row) then cs
           else cs(chid \<mapsto> fresh_client cr now row), v))"
| "vault_step cr (Rotated chid tk) (cs, v) =
     (case cs chid of None \<Rightarrow> (cs, v) | Some e \<Rightarrow> (cs(chid \<mapsto> e \<lparr> cc_tokens := Some tk \<rparr>), v))"
| "vault_step cr (Persist nonce now chid) (cs, v) =
     (case cs chid of None \<Rightarrow> (cs, v)
      | Some e \<Rightarrow> (case cc_tokens e of None \<Rightarrow> (cs, v)
      | Some tk \<Rightarrow>
          (cs(chid \<mapsto> e \<lparr> cc_last_refresh_hash := cr_hash cr (et_refresh_token tk) \<rparr>),
           if cc_last_refresh_hash e = cr_hash cr (et_refresh_token tk) then v
           else v(chid \<mapsto> persisted e tk))))"
| "vault_step cr (Sweep free nonce) (cs, v) = (cs, v)"

definition vault_of :: "crypto \<Rightarrow> multi_key_cipher \<Rightarrow> db \<Rightarrow> vault" where
  "vault_of cr c d = (\<lambda>chid. case load_tokens cr c d chid of Inl _ \<Rightarrow> None | Inr lt \<Rightarrow> Some lt)"

definition abs_store :: "crypto \<Rightarrow> multi_key_cipher \<Rightarrow> clients \<times> db \<Rightarrow> clients \<times> vault" where
  "abs_store cr c s = (fst s, vault_of cr c (snd s))"

text \<open>Rust strings are UTF-8, and nonces have twelve bytes.\<close>

definition tokens_utf8 :: "esi_tokens \<Rightarrow> bool" where
  "tokens_utf8 tk \<longleftrightarrow> valid_utf8 (et_refresh_token tk) \<and> valid_utf8 (et_access_token tk)"

fun op_ok :: "store_op \<Rightarrow> bool" where
  "op_ok (Serve now chid) \<longleftrightarrow> True"
| "op_ok (Rotated chid tk) \<longleftrightarrow> tokens_utf8 tk"
| "op_ok (Persist nonce now chid) \<longleftrightarrow> nonces_ok nonce"
| "op_ok (Sweep free nonce) \<longleftrightarrow> (\<forall>i. nonces_ok (nonce i))"

definition client_ok :: "vault \<Rightarrow> uuid \<Rightarrow> cached_client \<Rightarrow> bool" where
  "client_ok v chid e \<longleftrightarrow> (\<exists>lt. v chid = Some lt \<and> lt_eve_character_id lt = cc_eve_character_id e)
     \<and> (\<forall>tk. cc_tokens e = Some tk \<longrightarrow> tokens_utf8 tk)"

definition clients_ok :: "clients \<Rightarrow> vault \<Rightarrow> bool" where
  "clients_ok cs v \<longleftrightarrow> (\<forall>chid e. cs chid = Some e \<longrightarrow> client_ok v chid e)"

definition store_ok :: "crypto \<Rightarrow> multi_key_cipher \<Rightarrow> clients \<times> db \<Rightarrow> bool" where
  "store_ok cr c s \<longleftrightarrow> crypto_ok cr \<and> crypto_total cr \<and> knows c (mk_primary c)
     \<and> readable cr c (snd s) \<and> clients_ok (fst s) (vault_of cr c (snd s))"

section \<open>The steps\<close>

lemma vault_of_Some: "vault_of cr c d chid = Some lt \<longleftrightarrow> load_tokens cr c d chid = Inr lt"
  by (simp add: vault_of_def split: sum.split)

lemma load_utf8:
  assumes "load_tokens cr c d chid = Inr lt"
  shows "valid_utf8 (lt_refresh_token lt)" "lt_access_token lt = Some a \<Longrightarrow> valid_utf8 a"
  using assms
  by (auto simp: load_tokens_def row_tokens_def row_access_def bind_res_eq_Inr utf8_str_def
      split: if_splits option.splits)

lemma fresh_client_ok:
  assumes "vault_of cr c d chid = Some lt"
  shows "client_ok (vault_of cr c d) chid (fresh_client cr now lt)"
  using assms load_utf8 [of cr c d chid lt]
  by (auto simp: client_ok_def fresh_client_def tokens_utf8_def vault_of_Some split: option.split)

lemma clients_ok_upd: "clients_ok cs v \<Longrightarrow> client_ok v chid e \<Longrightarrow> clients_ok (cs(chid \<mapsto> e)) v"
  by (simp add: clients_ok_def)

lemma serve_step:
  "abs_store cr c (store_step cr c (Serve now chid) (cs, d)) = vault_step cr (Serve now chid) (cs, vault_of cr c d)"
  by (auto simp: abs_store_def authed_client_for_def vault_of_def split: sum.split option.split)

lemma encrypt_total:
  assumes "crypto_total cr" "knows c (mk_primary c)"
  obtains ct n kid where "encrypt cr c nonce pt aad = Some (Inr (ct, n, kid))"
proof -
  obtain key ct where "map_of (mk_keys c) (mk_primary c) = Some key" "cr_encrypt cr key nonce aad pt = Some ct"
    using assms unfolding knows_def crypto_total_def by blast
  then show ?thesis using that by (simp add: encrypt_def)
qed

text \<open>A rotation that is written changes the row of its character only.\<close>

lemma persist_written:
  assumes "crypto_total cr" "knows c (mk_primary c)" "cs chid = Some e" "cc_tokens e = Some tk"
    and "cc_last_refresh_hash e \<noteq> cr_hash cr (et_refresh_token tk)"
  obtains d' where "persist_rotations cr c nonce True now chid cs d =
      (Some (Inr ()), cs(chid \<mapsto> e \<lparr> cc_last_refresh_hash := cr_hash cr (et_refresh_token tk) \<rparr>), d')"
    "map ch_id (characters d') = map ch_id (characters d)"
    "\<And>i. i \<noteq> chid \<Longrightarrow> find (\<lambda>ch. ch_id ch = i) (characters d') = find (\<lambda>ch. ch_id ch = i) (characters d)"
proof -
  let ?aad = "to_be_bytes (cc_eve_character_id e)"
  obtain a1 a2 a3 where a: "encrypt cr c (nonce True) (et_refresh_token tk) ?aad = Some (Inr (a1, a2, a3))"
    using encrypt_total [OF assms(1,2)] .
  obtain b1 b2 b3 where b: "encrypt cr c (nonce False) (et_access_token tk) ?aad = Some (Inr (b1, b2, b3))"
    using encrypt_total [OF assms(1,2)] .
  define g where "g = (\<lambda>ch :: character. ch \<lparr> ch_refresh_token_ciphertext := a1, ch_refresh_token_nonce := a2,
     ch_access_token_ciphertext := Some b1, ch_access_token_nonce := Some b2,
     ch_access_token_expires_at := Some (et_expires_at tk), ch_last_refreshed_at := Some now, ch_token_key_id := a3 \<rparr>)"
  have g: "ch_id (g ch) = ch_id ch" for ch :: character by (simp add: g_def)
  have f: "find (\<lambda>ch. ch_id ch = i) (upd_where (\<lambda>ch. ch_id ch = chid) g chs) = find (\<lambda>ch. ch_id ch = i) chs"
    if "i \<noteq> chid" for i and chs :: "character list" using that g by (induction chs) auto
  have ids: "map ch_id (upd_where (\<lambda>ch. ch_id ch = chid) g chs) = map ch_id chs" for chs :: "character list"
    using g by (induction chs) auto
  show ?thesis
    by (rule that [of "d \<lparr> characters := upd_where (\<lambda>ch. ch_id ch = chid) g (characters d) \<rparr>"])
      (use assms(3-5) a b f g in \<open>simp_all add: persist_rotations_def Let_def g_def [symmetric] ids\<close>)
qed

lemma vault_of_cong:
  "find (\<lambda>ch. ch_id ch = i) (characters d') = find (\<lambda>ch. ch_id ch = i) (characters d) \<Longrightarrow> vault_of cr c d' i = vault_of cr c d i"
  by (simp add: vault_of_def load_tokens_def)

lemma load_find:
  assumes "load_tokens cr c d chid = Inr lt"
  obtains ch where "find (\<lambda>ch. ch_id ch = chid) (characters d) = Some ch" "ch_character_id ch = lt_eve_character_id lt"
  using assms by (auto simp: load_tokens_def row_tokens_def bind_res_eq_Inr split: option.splits)

text \<open>All rows can be read exactly when every character is in the vault.\<close>

lemma readable_vault:
  "readable cr c d \<longleftrightarrow> distinct (map ch_id (characters d)) \<and> (\<forall>i\<in>set (map ch_id (characters d)). vault_of cr c d i \<noteq> None)"
proof (cases "distinct (map ch_id (characters d))")
  case True
  have "find (\<lambda>x. ch_id x = ch_id ch) (characters d) = Some ch" if "ch \<in> set (characters d)" for ch
    using find_keyI [OF True that refl] .
  then show ?thesis using True
    by (auto simp: readable_def vault_of_def load_tokens_def split: sum.split) (metis obj_sumE)
qed (simp add: readable_def)

lemma persist_step:
  assumes "store_ok cr c (cs, d)" "nonces_ok nonce" "cs chid = Some e" "cc_tokens e = Some tk"
    and "cc_last_refresh_hash e \<noteq> cr_hash cr (et_refresh_token tk)"
  obtains d' where "persist_rotations cr c nonce True now chid cs d =
      (Some (Inr ()), cs(chid \<mapsto> e \<lparr> cc_last_refresh_hash := cr_hash cr (et_refresh_token tk) \<rparr>), d')"
    "vault_of cr c d' = (vault_of cr c d)(chid \<mapsto> persisted e tk)" "readable cr c d'"
proof -
  have env: "crypto_ok cr" "crypto_total cr" "knows c (mk_primary c)" "readable cr c d"
    and cl: "client_ok (vault_of cr c d) chid e"
    using assms(1,3) by (auto simp: store_ok_def clients_ok_def)
  obtain d' where run: "persist_rotations cr c nonce True now chid cs d =
      (Some (Inr ()), cs(chid \<mapsto> e \<lparr> cc_last_refresh_hash := cr_hash cr (et_refresh_token tk) \<rparr>), d')"
    and ids: "map ch_id (characters d') = map ch_id (characters d)"
    and other: "\<And>i. i \<noteq> chid \<Longrightarrow> find (\<lambda>ch. ch_id ch = i) (characters d') = find (\<lambda>ch. ch_id ch = i) (characters d)"
    using persist_written [where cr = cr and c = c and cs = cs and chid = chid and nonce = nonce and now = now and d = d, OF env(2,3) assms(3-5)] by blast
  have utf8: "tokens_utf8 tk" using cl assms(4) by (simp add: client_ok_def)
  obtain lt where lt: "load_tokens cr c d chid = Inr lt" "lt_eve_character_id lt = cc_eve_character_id e"
    using cl by (auto simp: client_ok_def vault_of_Some)
  obtain ch where ch: "find (\<lambda>ch. ch_id ch = chid) (characters d) = Some ch" "ch_character_id ch = cc_eve_character_id e"
    using load_find [OF lt(1)] lt(2) by metis
  have "vault_of cr c d' chid = Some (persisted e tk)"
    using persist_then_load [OF env(1) assms(2-5) ch _ _ run] utf8
    by (simp add: vault_of_Some persisted_def tokens_utf8_def)
  then have v: "vault_of cr c d' = (vault_of cr c d)(chid \<mapsto> persisted e tk)"
    using vault_of_cong [OF other] by (auto simp: fun_eq_iff)
  have "readable cr c d'" using env(4) unfolding readable_vault ids v by auto
  with run v show ?thesis by (rule that)
qed

lemma sweep_step:
  assumes "store_ok cr c (cs, d)" "\<And>i. nonces_ok (nonce i)"
  shows "vault_of cr c (token_reencrypt_job cr c free nonce d) = vault_of cr c d"
    "readable cr c (token_reencrypt_job cr c free nonce d)"
proof -
  have env: "crypto_ok cr" "crypto_total cr" "knows c (mk_primary c)" "readable cr c d"
    using assms(1) by (auto simp: store_ok_def)
  have dis: "distinct (map ch_id (characters d))" using env(4) by (simp add: readable_def)
  obtain out d' where run: "reencrypt_stale cr c SWEEP_BATCH free nonce d = Inr (out, d')"
    using reencrypt_stale_total [OF env(2-4)] by blast
  have job: "token_reencrypt_job cr c free nonce d = d'" using run by (simp add: token_reencrypt_job_def)
  note r = reencrypt_stale_Inr(1) [OF env(1) assms(2) dis run]
  show "vault_of cr c (token_reencrypt_job cr c free nonce d) = vault_of cr c d"
    unfolding job vault_of_def load_swept [OF env(1) assms(2) r] ..
  show "readable cr c (token_reencrypt_job cr c free nonce d)"
    using env(4) swept_row [OF env(1) assms(2)] by (simp add: job r readable_def comp_def)
qed

lemma clients_ok_persist:
  assumes "clients_ok cs v" "cs chid = Some e" "cc_tokens e = Some tk"
  shows "clients_ok (cs(chid \<mapsto> e \<lparr> cc_last_refresh_hash := h \<rparr>)) v"
    "clients_ok (cs(chid \<mapsto> e \<lparr> cc_last_refresh_hash := h \<rparr>)) (v(chid \<mapsto> persisted e tk))"
  using assms by (auto simp: clients_ok_def client_ok_def persisted_def)

lemma store_step_refines:
  assumes "op_ok x" "store_ok cr c (cs, d)"
  shows "store_ok cr c (store_step cr c x (cs, d))
    \<and> abs_store cr c (store_step cr c x (cs, d)) = vault_step cr x (abs_store cr c (cs, d))"
proof (cases x)
  case (Serve now chid)
  have "clients_ok (fst (store_step cr c x (cs, d))) (vault_of cr c d) \<and> snd (store_step cr c x (cs, d)) = d"
  proof (cases "load_tokens cr c d chid")
    case (Inr lt)
    then have "client_ok (vault_of cr c d) chid (fresh_client cr now lt)" by (simp add: fresh_client_ok vault_of_Some)
    then show ?thesis using assms(2) Inr
      by (auto simp: Serve authed_client_for_def store_ok_def clients_ok_upd split: option.split)
  qed (use assms(2) in \<open>simp add: Serve authed_client_for_def store_ok_def\<close>)
  then show ?thesis using assms(2) serve_step [of cr c now chid cs d] by (simp add: Serve store_ok_def abs_store_def)
next
  case (Rotated chid tk)
  then show ?thesis using assms
    by (auto simp: store_ok_def abs_store_def clients_ok_def client_ok_def split: option.split)
next
  case (Persist nonce now chid)
  show ?thesis
  proof (cases "\<exists>e tk. cs chid = Some e \<and> cc_tokens e = Some tk")
    case True
    then obtain e tk where e: "cs chid = Some e" "cc_tokens e = Some tk" by blast
    have cl: "clients_ok cs (vault_of cr c d)" using assms(2) by (simp add: store_ok_def)
    show ?thesis
    proof (cases "cc_last_refresh_hash e = cr_hash cr (et_refresh_token tk)")
      case True
      then show ?thesis using e assms(2) clients_ok_persist(1) [OF cl e]
        by (simp add: Persist persist_rotations_def Let_def store_ok_def abs_store_def)
    next
      case False
      have n: "nonces_ok nonce" using assms(1) Persist by simp
      obtain d' where "persist_rotations cr c nonce True now chid cs d =
          (Some (Inr ()), cs(chid \<mapsto> e \<lparr> cc_last_refresh_hash := cr_hash cr (et_refresh_token tk) \<rparr>), d')"
        "vault_of cr c d' = (vault_of cr c d)(chid \<mapsto> persisted e tk)" "readable cr c d'"
        using persist_step [OF assms(2) n e False] .
      then show ?thesis using e False assms(2) clients_ok_persist(2) [OF cl e]
        by (simp add: Persist store_ok_def abs_store_def)
    qed
  next
    case False
    then show ?thesis using assms(2)
      by (auto simp: Persist persist_rotations_def abs_store_def split: option.split)
  qed
next
  case (Sweep free nonce)
  then show ?thesis using assms sweep_step [OF assms(2), of nonce free]
    by (simp add: store_ok_def abs_store_def)
qed

interpretation token_store: functional_refinement "store_step cr c" "vault_step cr" "abs_store cr c" "store_ok cr c" op_ok
  for cr c
  using store_step_refines by unfold_locales (metis surj_pair)+

text \<open>C37: the encrypted token store behaves like a vault that keeps the tokens in the clear.
  Over any sequence of clients handed out, rotations, write-backs and key-rotation sweeps,
  whatever keys and nonces they use, what the table decrypts to and what the clients hold
  is what the vault has: a sweep is invisible, and a write-back replaces the tokens of its
  character and of nobody else.  All rows stay readable.\<close>

theorem token_store_refines_vault:
  assumes "list_all op_ok ops" "store_ok cr c s"
  shows "abs_store cr c (fold (store_step cr c) ops s) = fold (vault_step cr) ops (abs_store cr c s)
    \<and> store_ok cr c (fold (store_step cr c) ops s)"
  using token_store.runs [OF assms] by blast

definition demo_store_ops :: "store_op list" where
  "demo_store_ops = [Serve 1 31, Rotated 31 \<lparr> et_access_token = ''at2'', et_refresh_token = ''rt-2'', et_expires_at = 9 \<rparr>,
     Persist demo_nonce 8 31, Sweep (\<lambda>_. True) (\<lambda>_. demo_nonce), Serve 10 31]"

lemma demo_decrypt: "decrypt demo_crypto demo_cipher (tag aad @ m) ''abcdefghijkl'' ''v1'' aad = Inr m"
  by (simp add: decrypt_def demo_crypto_def demo_cipher_def)

theorem token_store_refines_vault_witness:
  "map_option lt_refresh_token (snd (abs_store demo_crypto demo_cipher
     (fold (store_step demo_crypto demo_cipher) demo_store_ops (Map.empty, demo_token_db))) 31) = Some ''rt-2''"
proof -
  have u: "valid_utf8 ''rt-2''" "valid_utf8 ''at2''" by code_simp+
  have utf8: "utf8_str ''rt'' = Inr ''rt''" "utf8_str ''at'' = Inr ''at''" by (simp_all add: utf8_str_def between_def)
  have l: "vault_of demo_crypto demo_cipher demo_token_db 31 = Some \<lparr> lt_refresh_token = ''rt'', lt_access_token = Some ''at'',
      lt_access_token_expires_at = Some 7, lt_eve_character_id = 91 \<rparr>"
    by (simp add: vault_of_Some load_tokens_def demo_token_db_def demo_token_row_def row_tokens_def row_access_def
        demo_decrypt utf8)
  have "list_all op_ok demo_store_ops" unfolding demo_store_ops_def list.pred_inject op_ok.simps tokens_utf8_def
      esi_tokens.simps by (intro conjI allI TrueI u demo_nonce_ok) simp
  moreover have "store_ok demo_crypto demo_cipher (Map.empty, demo_token_db)"
    using demo_crypto_ok demo_crypto_total demo_tokens_readable
    by (simp add: store_ok_def clients_ok_def knows_def demo_cipher_def)
  ultimately have eq: "abs_store demo_crypto demo_cipher (fold (store_step demo_crypto demo_cipher) demo_store_ops (Map.empty, demo_token_db))
      = fold (vault_step demo_crypto) demo_store_ops (abs_store demo_crypto demo_cipher (Map.empty, demo_token_db))"
    using token_store_refines_vault by blast
  have h: "cr_hash demo_crypto w = int (length w)" for w by (simp add: demo_crypto_def)
  show ?thesis unfolding eq
    by (simp add: demo_store_ops_def abs_store_def l fresh_client_def persisted_def h)
qed

end
