(* ===== verification/Worker.thy ===== *)
theory Worker
  imports Citadels Corp_Wallet Webhooks System
begin

text \<open>
  The worker process (\<^verbatim>\<open>worker/src/main.rs\<close>, \<^verbatim>\<open>jobs/mod.rs\<close>): its configuration with the
  defaults of every key, the ticks of the two contract jobs (\<^verbatim>\<open>contracts.rs\<close>,
  \<^verbatim>\<open>corp_contracts.rs\<close>), the registry of jobs and the driver of a job.  The tasks that a
  tick spawns run one after the other.
\<close>

section \<open>Configuration\<close>

text \<open>A raw section holds what the configuration file has; \<^verbatim>\<open>serde\<close> fills in the defaults.\<close>

definition or_default :: "'a option \<Rightarrow> 'a \<Rightarrow> 'a" where
  "or_default x v = (case x of None \<Rightarrow> v | Some y \<Rightarrow> y)"

record 'a poll_intervals =
  pi_market_prices :: 'a
  pi_contracts :: 'a
  pi_citadel_discovery :: 'a
  pi_citadel_details :: 'a
  pi_citadel_orders :: 'a
  pi_structure_access_backoff :: 'a
  pi_corp_contracts :: 'a
  pi_corp_wallet :: 'a

definition default_market_prices_secs :: int where "default_market_prices_secs = 300"
definition default_contracts_secs :: int where "default_contracts_secs = 300"
definition default_citadel_discovery_secs :: int where "default_citadel_discovery_secs = 3600"
definition default_citadel_details_secs :: int where "default_citadel_details_secs = 86400"
definition default_citadel_orders_secs :: int where "default_citadel_orders_secs = 600"
definition default_structure_access_backoff_secs :: int where "default_structure_access_backoff_secs = 86400"
definition default_corp_contracts_secs :: int where "default_corp_contracts_secs = 300"
definition default_corp_wallet_secs :: int where "default_corp_wallet_secs = 3600"

definition default_poll_intervals :: "int poll_intervals" where
  "default_poll_intervals =
     \<lparr> pi_market_prices = default_market_prices_secs, pi_contracts = default_contracts_secs,
       pi_citadel_discovery = default_citadel_discovery_secs, pi_citadel_details = default_citadel_details_secs,
       pi_citadel_orders = default_citadel_orders_secs,
       pi_structure_access_backoff = default_structure_access_backoff_secs,
       pi_corp_contracts = default_corp_contracts_secs, pi_corp_wallet = default_corp_wallet_secs \<rparr>"

definition parse_poll_intervals :: "int option poll_intervals option \<Rightarrow> int poll_intervals" where
  "parse_poll_intervals sec =
     (case sec of None \<Rightarrow> default_poll_intervals
      | Some r \<Rightarrow>
         \<lparr> pi_market_prices = or_default (pi_market_prices r) default_market_prices_secs,
           pi_contracts = or_default (pi_contracts r) default_contracts_secs,
           pi_citadel_discovery = or_default (pi_citadel_discovery r) default_citadel_discovery_secs,
           pi_citadel_details = or_default (pi_citadel_details r) default_citadel_details_secs,
           pi_citadel_orders = or_default (pi_citadel_orders r) default_citadel_orders_secs,
           pi_structure_access_backoff = or_default (pi_structure_access_backoff r) default_structure_access_backoff_secs,
           pi_corp_contracts = or_default (pi_corp_contracts r) default_corp_contracts_secs,
           pi_corp_wallet = or_default (pi_corp_wallet r) default_corp_wallet_secs \<rparr>)"

text \<open>Seconds, thresholds and numbers of permits are of one type here; the bind address is not
  used by a job and left out.\<close>

record 'a worker_section =
  wk_tick_secs :: 'a
  wk_citadel_discovery_missing_threshold :: 'a
  wk_citadel_details_concurrency :: 'a
  wk_citadel_orders_concurrency :: 'a
  wk_contracts_concurrency :: 'a
  wk_corp_contracts_concurrency :: 'a
  wk_corp_wallet_concurrency :: 'a
  wk_npc_hub_concurrency :: 'a

definition default_tick_secs :: int where "default_tick_secs = 60"
definition default_citadel_discovery_missing_threshold :: int where "default_citadel_discovery_missing_threshold = 3"
definition default_citadel_details_concurrency :: int where "default_citadel_details_concurrency = 4"
definition default_citadel_orders_concurrency :: int where "default_citadel_orders_concurrency = 8"
definition default_contracts_concurrency :: int where "default_contracts_concurrency = 4"
definition default_corp_contracts_concurrency :: int where "default_corp_contracts_concurrency = 2"
definition default_corp_wallet_concurrency :: int where "default_corp_wallet_concurrency = 2"
definition default_npc_hub_concurrency :: int where "default_npc_hub_concurrency = 8"

definition default_worker_section :: "int worker_section" where
  "default_worker_section =
     \<lparr> wk_tick_secs = default_tick_secs,
       wk_citadel_discovery_missing_threshold = default_citadel_discovery_missing_threshold,
       wk_citadel_details_concurrency = default_citadel_details_concurrency,
       wk_citadel_orders_concurrency = default_citadel_orders_concurrency,
       wk_contracts_concurrency = default_contracts_concurrency,
       wk_corp_contracts_concurrency = default_corp_contracts_concurrency,
       wk_corp_wallet_concurrency = default_corp_wallet_concurrency,
       wk_npc_hub_concurrency = default_npc_hub_concurrency \<rparr>"

definition parse_worker_section :: "int option worker_section option \<Rightarrow> int worker_section" where
  "parse_worker_section sec =
     (case sec of None \<Rightarrow> default_worker_section
      | Some r \<Rightarrow>
         \<lparr> wk_tick_secs = or_default (wk_tick_secs r) default_tick_secs,
           wk_citadel_discovery_missing_threshold =
             or_default (wk_citadel_discovery_missing_threshold r) default_citadel_discovery_missing_threshold,
           wk_citadel_details_concurrency = or_default (wk_citadel_details_concurrency r) default_citadel_details_concurrency,
           wk_citadel_orders_concurrency = or_default (wk_citadel_orders_concurrency r) default_citadel_orders_concurrency,
           wk_contracts_concurrency = or_default (wk_contracts_concurrency r) default_contracts_concurrency,
           wk_corp_contracts_concurrency = or_default (wk_corp_contracts_concurrency r) default_corp_contracts_concurrency,
           wk_corp_wallet_concurrency = or_default (wk_corp_wallet_concurrency r) default_corp_wallet_concurrency,
           wk_npc_hub_concurrency = or_default (wk_npc_hub_concurrency r) default_npc_hub_concurrency \<rparr>)"

record worker_config =
  wc_poll_intervals :: "int poll_intervals"
  wc_worker :: "int worker_section"

section \<open>The contract jobs\<close>

text \<open>What the contract jobs get from outside: ESI, the random jitter, generated keys, the
  decoding and rounding of the matcher, and the token store.\<close>

record contract_env =
  kv_contracts :: "uuid \<Rightarrow> (uuid \<times> esi_contract) list esi_reply"
  kv_corp_contracts :: "uuid \<Rightarrow> uuid \<Rightarrow> (uuid \<times> esi_contract) list esi_reply"
  kv_items :: "uuid \<Rightarrow> uuid \<Rightarrow> esi_contract_item list esi_reply"
  kv_jitter :: "uuid \<Rightarrow> int"
  kv_text_of :: "contract_type \<Rightarrow> string option"
  kv_round4 :: "int \<Rightarrow> int \<Rightarrow> int"
  kv_new_id :: "uuid \<Rightarrow> uuid \<Rightarrow> uuid"
  kv_store :: store_env

definition is_ok :: "'a esi_reply \<Rightarrow> bool" where
  "is_ok reply = (case reply of EsiOk v \<Rightarrow> True | _ \<Rightarrow> False)"

definition is_error :: "'a esi_reply \<Rightarrow> bool" where
  "is_error reply = (case reply of EsiError \<Rightarrow> True | _ \<Rightarrow> False)"

definition is_403 :: "'a esi_reply \<Rightarrow> bool" where
  "is_403 reply = (case reply of Esi403 \<Rightarrow> True | _ \<Rightarrow> False)"

definition due :: "instant \<Rightarrow> instant option \<Rightarrow> bool" where
  "due now t = (case t of None \<Rightarrow> True | Some x \<Rightarrow> x \<le> now)"

definition eligible_characters :: "db \<Rightarrow> character list" where
  "eligible_characters d = filter (\<lambda>ch. CONTRACTS_SCOPE \<in> set (ch_scopes ch)) (characters d)"

definition due_characters :: "int \<Rightarrow> int \<Rightarrow> instant \<Rightarrow> db \<Rightarrow> character list" where
  "due_characters tick interval now d =
     take (nat (slice_size (int (length (eligible_characters d))) tick interval))
       (sort_key ch_contracts_next_poll_at (filter (\<lambda>ch. due now (ch_contracts_next_poll_at ch)) (eligible_characters d)))"

text \<open>The task of one character: after the poll, a rotated token is written back.\<close>

definition character_task ::
  "contract_env \<Rightarrow> int \<Rightarrow> instant \<Rightarrow> character \<Rightarrow> upserted_contract list \<times> esi_budget \<times> db \<Rightarrow>
     upserted_contract list \<times> esi_budget \<times> db" where
  "character_task env interval now ch st =
     (case st of (ups, b, d) \<Rightarrow>
        let reply = kv_contracts env (ch_id ch) in
        (case poll_one_character (has_budget b) reply (ch_id ch) interval (kv_jitter env (ch_id ch)) now d of
           (Inl _, d1) \<Rightarrow> (ups, if is_error reply then record_non_2xx b else b, d1)
         | (Inr us, d1) \<Rightarrow> (ups @ us, b,
             if has_budget b \<and> is_ok reply then persist_after (kv_store env) now (ch_id ch) d1 else d1)))"

text \<open>The rows of \<open>contracts\<close> are in the order they were first seen.\<close>

definition ITEMS_BATCH :: nat where "ITEMS_BATCH = 50"

definition needs_items :: "db \<Rightarrow> contract list" where
  "needs_items d = take ITEMS_BATCH
     (filter (\<lambda>c. ct_items_synced_at c = None \<and> ct_contract_type c = ItemExchange) (contracts d))"

text \<open>The character that reads the items of a contract, as \<open>sync_items_for\<close> picks it.\<close>

definition items_reader :: "db \<Rightarrow> contract \<Rightarrow> instant \<Rightarrow> uuid option" where
  "items_reader d row now =
     (case find (\<lambda>ch. ch_character_id ch \<in> set (ct_issuer_character_id row #
             (case ct_assignee_character_id row of None \<Rightarrow> [] | Some a \<Rightarrow> [a])) \<and> CONTRACTS_SCOPE \<in> set (ch_scopes ch))
          (characters d) of
        Some ch \<Rightarrow> Some (ch_id ch)
      | None \<Rightarrow> Option.bind (ct_source_corp_id row) (\<lambda>corp.
          case usable_ambassadors d corp CORP_CONTRACTS_SCOPE now of [] \<Rightarrow> None | ca # _ \<Rightarrow> Some (ca_character_id ca)))"

definition items_task ::
  "contract_env \<Rightarrow> instant \<Rightarrow> contract \<Rightarrow> uuid list \<times> esi_budget \<times> db \<Rightarrow> uuid list \<times> esi_budget \<times> db" where
  "items_task env now row st =
     (case st of (synced, b, d) \<Rightarrow>
        let refused = (has_budget b \<and> (case items_reader d row now of None \<Rightarrow> False
              | Some chid \<Rightarrow> is_403 (kv_items env (ct_id row) chid) \<or> is_error (kv_items env (ct_id row) chid))) in
        (case sync_items_for (has_budget b) (kv_items env (ct_id row)) row now d of
           (Inr True, d1) \<Rightarrow> (synced @ [ct_id row], b,
              case items_reader d row now of None \<Rightarrow> d1 | Some chid \<Rightarrow> persist_after (kv_store env) now chid d1)
         | (_, d1) \<Rightarrow> (synced, if refused then record_non_2xx b else b, d1)))"

definition sync_pending_items :: "contract_env \<Rightarrow> instant \<Rightarrow> esi_budget \<times> db \<Rightarrow> uuid list \<times> esi_budget \<times> db" where
  "sync_pending_items env now st =
     (case st of (b, d) \<Rightarrow> fold (items_task env now) (needs_items d) ([], b, d))"

definition match_contracts :: "contract_env \<Rightarrow> uuid list \<Rightarrow> db \<Rightarrow> db" where
  "match_contracts env cids d = run_for_contracts (kv_text_of env) (kv_round4 env) (kv_new_id env) cids d"

definition contracts_run ::
  "contract_env \<Rightarrow> int \<Rightarrow> int \<Rightarrow> instant \<Rightarrow> esi_budget \<times> db \<Rightarrow> esi_budget \<times> db" where
  "contracts_run env tick interval now st =
     (case st of (b, d) \<Rightarrow>
        if \<not> has_budget b then (b, d)
        else if eligible_characters d = [] then
          (case sync_pending_items env now (b, d) of (synced, b1, d1) \<Rightarrow> (b1, match_contracts env synced d1))
        else
          (case fold (character_task env interval now) (due_characters tick interval now d) ([], b, d) of (ups, b1, d1) \<Rightarrow>
          (case sync_pending_items env now (b1, d1) of (synced, b2, d2) \<Rightarrow>
             (b2, handle_upserts ups now
                (match_contracts env (remdups (map uc_contract_id ups @ synced)) d2)))))"

text \<open>The ambassador whose answer is used, and how many were refused before.\<close>

fun answering :: "(uuid \<Rightarrow> 'a esi_reply) \<Rightarrow> corp_ambassador list \<Rightarrow> uuid option \<times> nat" where
  "answering reply [] = (None, 0)"
| "answering reply (ca # cas) =
     (case reply (ca_character_id ca) of
        NoClient \<Rightarrow> answering reply cas
      | EsiOk v \<Rightarrow> (Some (ca_character_id ca), 0)
      | Esi403 \<Rightarrow> (case answering reply cas of (u, n) \<Rightarrow> (u, Suc n))
      | EsiError \<Rightarrow> (None, 1))"

definition due_corps :: "int \<Rightarrow> int \<Rightarrow> instant \<Rightarrow> db \<Rightarrow> corp list" where
  "due_corps tick interval now d =
     (let enabled = filter (\<lambda>cp. cp_disabled_at cp = None) (corps d)
      in take (nat (slice_size (int (length enabled)) tick interval))
           (sort_key cp_contracts_next_poll_at (filter (\<lambda>cp. due now (cp_contracts_next_poll_at cp)) enabled)))"

definition corp_task ::
  "contract_env \<Rightarrow> int \<Rightarrow> instant \<Rightarrow> corp \<Rightarrow> upserted_contract list \<times> esi_budget \<times> db \<Rightarrow>
     upserted_contract list \<times> esi_budget \<times> db" where
  "corp_task env interval now cp st =
     (case st of (ups, b, d) \<Rightarrow>
        let reply = kv_corp_contracts env (cp_id cp);
            (used, refused) = (if has_budget b
               then answering reply (usable_ambassadors d (cp_id cp) CORP_CONTRACTS_SCOPE now) else (None, 0));
            b' = (record_non_2xx ^^ refused) b;
            persist = (case used of None \<Rightarrow> (\<lambda>d. d) | Some chid \<Rightarrow> persist_after (kv_store env) now chid)
        in (case poll_one_corp (has_budget b) reply (cp_id cp) (cp_esi_corporation_id cp) interval
                   (kv_jitter env (cp_id cp)) now d of
              (Inl _, d1) \<Rightarrow> (ups, b', persist d1)
            | (Inr us, d1) \<Rightarrow> (ups @ us, b', persist d1)))"

definition corp_contracts_run ::
  "contract_env \<Rightarrow> int \<Rightarrow> int \<Rightarrow> instant \<Rightarrow> esi_budget \<times> db \<Rightarrow> esi_budget \<times> db" where
  "corp_contracts_run env tick interval now st =
     (case st of (b, d) \<Rightarrow>
        if \<not> has_budget b then (b, d)
        else
          (case fold (corp_task env interval now) (due_corps tick interval now d) ([], b, d) of (ups, b1, d1) \<Rightarrow>
             (b1, handle_upserts ups now (match_contracts env (remdups (map uc_contract_id ups)) d1))))"

section \<open>The registry\<close>

datatype job_slot =
    Npc_Hubs | Citadel_Discovery | Citadel_Details | Citadel_Orders | Contracts | Corp_Contracts
  | Corp_Wallets | Pending_Webhooks | Token_Reencrypt

definition registry :: "job_slot list" where
  "registry = [Npc_Hubs, Citadel_Discovery, Citadel_Details, Citadel_Orders, Contracts, Corp_Contracts,
     Corp_Wallets, Pending_Webhooks, Token_Reencrypt]"

fun slot_name :: "job_slot \<Rightarrow> string" where
  "slot_name Npc_Hubs = ''npc_hubs''"
| "slot_name Citadel_Discovery = ''citadel_discovery''"
| "slot_name Citadel_Details = ''citadel_details''"
| "slot_name Citadel_Orders = ''citadel_orders''"
| "slot_name Contracts = ''contracts''"
| "slot_name Corp_Contracts = ''corp_contracts''"
| "slot_name Corp_Wallets = ''corp_wallet''"
| "slot_name Pending_Webhooks = ''pending_webhooks''"
| "slot_name Token_Reencrypt = ''token_reencrypt''"

definition WEBHOOK_INTERVAL_SECS :: int where "WEBHOOK_INTERVAL_SECS = 30"
definition REENCRYPT_INTERVAL_SECS :: int where "REENCRYPT_INTERVAL_SECS = 3600"

definition npc_hubs_interval_secs :: "worker_config \<Rightarrow> int" where
  "npc_hubs_interval_secs cfg = wk_tick_secs (wc_worker cfg)"

definition citadel_discovery_interval_secs :: "worker_config \<Rightarrow> int" where
  "citadel_discovery_interval_secs cfg = pi_citadel_discovery (wc_poll_intervals cfg)"

definition citadel_details_interval_secs :: "worker_config \<Rightarrow> int" where
  "citadel_details_interval_secs cfg = min (pi_citadel_details (wc_poll_intervals cfg)) 300"

definition citadel_orders_interval_secs :: "worker_config \<Rightarrow> int" where
  "citadel_orders_interval_secs cfg = pi_citadel_orders (wc_poll_intervals cfg)"

definition contracts_interval_secs :: "worker_config \<Rightarrow> int" where
  "contracts_interval_secs cfg = wk_tick_secs (wc_worker cfg)"

definition corp_contracts_interval_secs :: "worker_config \<Rightarrow> int" where
  "corp_contracts_interval_secs cfg = wk_tick_secs (wc_worker cfg)"

definition corp_wallet_interval_secs :: "worker_config \<Rightarrow> int" where
  "corp_wallet_interval_secs cfg = wk_tick_secs (wc_worker cfg)"

definition pending_webhooks_interval_secs :: "worker_config \<Rightarrow> int" where
  "pending_webhooks_interval_secs cfg = WEBHOOK_INTERVAL_SECS"

definition token_reencrypt_interval_secs :: "worker_config \<Rightarrow> int" where
  "token_reencrypt_interval_secs cfg = REENCRYPT_INTERVAL_SECS"

fun interval_secs :: "job_slot \<Rightarrow> worker_config \<Rightarrow> int" where
  "interval_secs Npc_Hubs = npc_hubs_interval_secs"
| "interval_secs Citadel_Discovery = citadel_discovery_interval_secs"
| "interval_secs Citadel_Details = citadel_details_interval_secs"
| "interval_secs Citadel_Orders = citadel_orders_interval_secs"
| "interval_secs Contracts = contracts_interval_secs"
| "interval_secs Corp_Contracts = corp_contracts_interval_secs"
| "interval_secs Corp_Wallets = corp_wallet_interval_secs"
| "interval_secs Pending_Webhooks = pending_webhooks_interval_secs"
| "interval_secs Token_Reencrypt = token_reencrypt_interval_secs"

text \<open>The process: the shared error budget, the database, the webhook queue and the cache of
  regions; and what each job gets from outside during one tick.\<close>

record worker_state =
  ws_budget :: esi_budget
  ws_db :: db
  ws_queue :: "queued list"
  ws_regions :: "int \<rightharpoonup> int"

record tick_env =
  tk_now :: instant
  tk_orders :: "int \<Rightarrow> int \<Rightarrow> esi_order list option"
  tk_structures :: "unit + int list"
  tk_new_market :: "int \<Rightarrow> uuid"
  tk_citadel :: citadel_env
  tk_structure_orders :: "uuid \<Rightarrow> uuid \<Rightarrow> orders_reply"
  tk_contracts :: contract_env
  tk_wallet :: "uuid \<Rightarrow> wallet_env"
  tk_jitter :: "uuid \<Rightarrow> int"
  tk_div_round :: "int \<Rightarrow> int \<Rightarrow> int"
  tk_send :: "instant \<Rightarrow> string \<Rightarrow> json \<Rightarrow> bool"
  tk_free :: "uuid \<Rightarrow> bool"
  tk_clock :: "uuid \<Rightarrow> instant"
  tk_store :: store_env
  tk_nonce :: "uuid \<Rightarrow> bool \<Rightarrow> string"

definition on_db :: "(esi_budget \<times> db \<Rightarrow> esi_budget \<times> db) \<Rightarrow> worker_state \<Rightarrow> worker_state" where
  "on_db f w = (case f (ws_budget w, ws_db w) of (b, d) \<Rightarrow> w \<lparr> ws_budget := b, ws_db := d \<rparr>)"

fun run_slot :: "job_slot \<Rightarrow> worker_config \<Rightarrow> tick_env \<Rightarrow> worker_state \<Rightarrow> worker_state" where
  "run_slot Npc_Hubs cfg t w =
     on_db (\<lambda>(b, d). npc_hubs_run (tk_orders t) (pi_market_prices (wc_poll_intervals cfg)) (tk_now t) b d) w"
| "run_slot Citadel_Discovery cfg t w =
     on_db (\<lambda>(b, d). citadel_discovery (tk_structures t) (tk_new_market t) (tk_now t)
       (wk_citadel_discovery_missing_threshold (wc_worker cfg)) b d) w"
| "run_slot Citadel_Details cfg t w =
     (case citadel_details (tk_citadel t) (pi_citadel_details (wc_poll_intervals cfg))
             (pi_structure_access_backoff (wc_poll_intervals cfg)) (tk_now t) (ws_regions w, ws_budget w, ws_db w) of
        (regions, b, d) \<Rightarrow> w \<lparr> ws_regions := regions, ws_budget := b, ws_db := d \<rparr>)"
| "run_slot Citadel_Orders cfg t w =
     on_db (\<lambda>(b, d). citadel_orders (tk_structure_orders t) (tk_store t) (pi_citadel_orders (wc_poll_intervals cfg))
       (pi_structure_access_backoff (wc_poll_intervals cfg)) (tk_now t) b d) w"
| "run_slot Contracts cfg t w =
     on_db (contracts_run (tk_contracts t) (wk_tick_secs (wc_worker cfg)) (pi_contracts (wc_poll_intervals cfg)) (tk_now t)) w"
| "run_slot Corp_Contracts cfg t w =
     on_db (corp_contracts_run (tk_contracts t) (wk_tick_secs (wc_worker cfg)) (pi_corp_contracts (wc_poll_intervals cfg))
       (tk_now t)) w"
| "run_slot Corp_Wallets cfg t w =
     on_db (\<lambda>(b, d). corp_wallet_run (tk_div_round t) (tk_wallet t) (tk_jitter t) (wk_tick_secs (wc_worker cfg))
       (pi_corp_wallet (wc_poll_intervals cfg)) (tk_now t) b d) w"
| "run_slot Pending_Webhooks cfg t w =
     w \<lparr> ws_queue := drain (tk_send t) (ws_db w) (tk_free t) (tk_clock t) (tk_now t) (ws_queue w) \<rparr>"
| "run_slot Token_Reencrypt cfg t w =
     w \<lparr> ws_db := token_reencrypt_job (st_crypto (tk_store t)) (st_cipher (tk_store t)) (tk_free t) (tk_nonce t) (ws_db w) \<rparr>"

section \<open>Driving a job\<close>

datatype tick_outcome = Tick_Ok | Tick_Err | Tick_Panic

text \<open>\<^verbatim>\<open>mk_interval\<close>, in milliseconds: at least a second.\<close>

definition mk_interval :: "int \<Rightarrow> int" where
  "mk_interval secs = 1000 * max secs 1"

text \<open>The loop of \<^verbatim>\<open>drive_slot\<close>, \<open>n\<close> rounds of it.  \<open>ticker period deadline now\<close> is tokio's
  \<^verbatim>\<open>Interval\<close> with \<^verbatim>\<open>MissedTickBehavior::Delay\<close>: when the next tick is served and the deadline
  after it.  \<open>run\<close> is the job: its outcome, how long it took and the state it left.  All
  three outcomes only differ in what is counted.\<close>

fun drive_slot ::
  "nat \<Rightarrow> (int \<Rightarrow> int \<Rightarrow> int \<Rightarrow> int \<times> int) \<Rightarrow> int \<Rightarrow> (int \<Rightarrow> 's \<Rightarrow> tick_outcome \<times> nat \<times> 's) \<Rightarrow>
     int \<Rightarrow> int \<Rightarrow> 's \<Rightarrow> (int \<times> tick_outcome) list \<times> 's" where
  "drive_slot 0 ticker secs run deadline now s = ([], s)"
| "drive_slot (Suc n) ticker secs run deadline now s =
     (case ticker (mk_interval secs) deadline now of (at, deadline') \<Rightarrow>
      (case run at s of (oc, took, s') \<Rightarrow>
       (case drive_slot n ticker secs run deadline' (at + int took) s' of (log, s'') \<Rightarrow> ((at, oc) # log, s''))))"

end
