(* ===== verification/List_Views.thy ===== *)
theory List_Views
  imports Citadels
begin

text \<open>
  The read handlers of lists and contracts: the detail of a list
  (\<^verbatim>\<open>api/src/lists/detail.rs\<close>), the preview of a paste and the lists of a group
  (\<^verbatim>\<open>lists/crud.rs\<close>), the hauler's runs (\<^verbatim>\<open>fulfillment/runs.rs\<close>), suggestions and bound
  contracts (\<^verbatim>\<open>api/src/contracts.rs\<close>).

  Rows are kept in the order in which they were inserted, which is the order of their
  \<^verbatim>\<open>created_at\<close> where the model does not carry that column.  Once the list itself has passed
  row-level security all its rows have; contracts have a policy of their own.
\<close>

section \<open>Answers\<close>

definition as_i32 :: "int \<Rightarrow> int" where
  "as_i32 x = (x + 2 ^ 31) mod 2 ^ 32 - 2 ^ 31"

record live_item_price =
  lp_list_item_id :: uuid
  lp_market_id :: uuid
  lp_best_sell :: "isk option"
  lp_best_buy :: "isk option"
  lp_sell_volume :: int
  lp_buy_volume :: int
  lp_computed_at :: "instant option"

record claim_view =
  cv_claim :: claim
  cv_hauler_display_name :: string
  cv_item_ids :: "uuid list"

record fulfillment_view =
  fv_fulfillment :: fulfillment
  fv_hauler_character_name :: "string option"
  fv_bought_at_market_short_label :: "string option"

record contract_summary =
  cs_esi_contract_id :: int
  cs_status :: contract_status
  cs_price_isk :: isk
  cs_expected_total_isk :: "isk option"
  cs_settlement_delta_isk :: "isk option"
  cs_date_completed :: "instant option"

record reimbursement_view =
  rv_reimbursement :: reimbursement
  rv_requester_display_name :: string
  rv_hauler_display_name :: string
  rv_contract :: "contract_summary option"

record list_detail =
  ld_list :: shopping_list
  ld_items :: "list_item list"
  ld_markets :: "market list"
  ld_primary_market_id :: uuid
  ld_live_prices :: "live_item_price list"
  ld_claims :: "claim_view list"
  ld_fulfillments :: "fulfillment_view list"
  ld_reimbursements :: "reimbursement_view list"
  ld_last_hauler_character_id :: "uuid option"
  ld_viewer_user_id :: uuid
  ld_viewer_role :: group_role

section \<open>The detail of a list\<close>

definition find_market :: "db \<Rightarrow> uuid \<Rightarrow> market option" where
  "find_market d mid = find (\<lambda>m. mk_id m = mid) (markets d)"

definition find_character :: "db \<Rightarrow> uuid \<Rightarrow> character option" where
  "find_character d chid = find (\<lambda>ch. ch_id ch = chid) (characters d)"

definition into_item :: "list_item \<Rightarrow> list_item" where
  "into_item i = i \<lparr> li_type_id := as_i32 (li_type_id i) \<rparr>"

definition detail_items :: "db \<Rightarrow> uuid \<Rightarrow> list_item list" where
  "detail_items d lid =
     map into_item (sort_key (\<lambda>i. case li_source_line_no i of None \<Rightarrow> (True, 0) | Some n \<Rightarrow> (False, n))
       (filter (\<lambda>i. li_list_id i = lid) (list_items d)))"

text \<open>The markets of a list, each with its primary flag, the primary one first.\<close>

definition markets_with_primary :: "(string \<Rightarrow> int) \<Rightarrow> db \<Rightarrow> uuid \<Rightarrow> (market \<times> bool) list" where
  "markets_with_primary coll d lid =
     sort_key (\<lambda>(m, p). (\<not> p, nulls_last coll (mk_short_label m)))
       (concat (map (\<lambda>lm. map (\<lambda>m. (m, lm_is_primary lm)) (filter (\<lambda>m. mk_id m = lm_market_id lm) (markets d)))
         (filter (\<lambda>lm. lm_list_id lm = lid) (list_markets d))))"

definition into_live :: "uuid \<Rightarrow> uuid \<Rightarrow> market_price option \<Rightarrow> live_item_price" where
  "into_live iid mid row =
     \<lparr> lp_list_item_id = iid, lp_market_id = mid,
       lp_best_sell = Option.bind row mp_best_sell, lp_best_buy = Option.bind row mp_best_buy,
       lp_sell_volume = (case row of None \<Rightarrow> 0 | Some p \<Rightarrow> mp_sell_volume p),
       lp_buy_volume = (case row of None \<Rightarrow> 0 | Some p \<Rightarrow> mp_buy_volume p),
       lp_computed_at = map_option mp_computed_at row \<rparr>"

definition live_prices :: "db \<Rightarrow> uuid \<Rightarrow> uuid list \<Rightarrow> live_item_price list" where
  "live_prices d lid accessible =
     concat (map (\<lambda>i. map (\<lambda>m. into_live (li_id i) (mk_id m)
         (if mk_id m \<in> set accessible
          then find (\<lambda>p. mp_market_id p = mk_id m \<and> mp_type_id p = li_type_id i) (market_prices d) else None))
       (list_market_rows d lid))
     (filter (\<lambda>i. li_list_id i = lid) (list_items d)))"

definition detail_claims :: "db \<Rightarrow> uuid \<Rightarrow> claim_view list" where
  "detail_claims d lid =
     concat (map (\<lambda>c. case find_user d (c_hauler_user_id c) of None \<Rightarrow> []
         | Some u \<Rightarrow> [\<lparr> cv_claim = c, cv_hauler_display_name = u_display_name u,
              cv_item_ids = map ci_list_item_id
                (filter (\<lambda>ci. ci_claim_id ci = c_id c \<and> ci_active ci) (claim_items d)) \<rparr>])
       (sort_key c_created_at (filter (\<lambda>c. c_list_id c = lid) (claims d))))"

definition item_of_list :: "db \<Rightarrow> uuid \<Rightarrow> uuid \<Rightarrow> bool" where
  "item_of_list d lid iid \<longleftrightarrow> (\<exists>i\<in>set (list_items d). li_id i = iid \<and> li_list_id i = lid)"

definition fulfillment_view_of :: "db \<Rightarrow> fulfillment \<Rightarrow> fulfillment_view" where
  "fulfillment_view_of d f =
     \<lparr> fv_fulfillment = f,
       fv_hauler_character_name = map_option ch_character_name (Option.bind (f_hauler_character_id f) (find_character d)),
       fv_bought_at_market_short_label = Option.bind (Option.bind (f_bought_at_market_id f) (find_market d)) mk_short_label \<rparr>"

definition detail_fulfillments :: "db \<Rightarrow> uuid \<Rightarrow> fulfillment_view list" where
  "detail_fulfillments d lid =
     map (fulfillment_view_of d) (sort_key f_bought_at
       (filter (\<lambda>f. item_of_list d lid (f_list_item_id f) \<and> f_reversed_at f = None) (fulfillments d)))"

definition corp_name_of :: "db \<Rightarrow> uuid \<Rightarrow> string option" where
  "corp_name_of d pid =
     Option.bind (find_principal d pid) (\<lambda>p. if p_kind p \<noteq> PCorp then None
       else Option.bind (p_corp_id p) (\<lambda>cid. map_option cp_name (find (\<lambda>c. cp_id c = cid) (corps d))))"

definition requester_name :: "db \<Rightarrow> reimbursement \<Rightarrow> string" where
  "requester_name d r =
     (case map_option u_display_name (Option.bind (r_requester_user_id r) (find_user d)) of Some n \<Rightarrow> n
      | None \<Rightarrow> (case corp_name_of d (r_requester_principal_id r) of Some n \<Rightarrow> n | None \<Rightarrow> ''Corp''))"

definition summary_of :: "contract \<Rightarrow> contract_summary" where
  "summary_of c =
     \<lparr> cs_esi_contract_id = ct_esi_contract_id c, cs_status = ct_status c, cs_price_isk = ct_price_isk c,
       cs_expected_total_isk = ct_expected_total_isk c, cs_settlement_delta_isk = ct_settlement_delta_isk c,
       cs_date_completed = ct_date_completed c \<rparr>"

definition detail_reimbursements :: "db \<Rightarrow> uuid \<Rightarrow> uuid \<Rightarrow> reimbursement_view list" where
  "detail_reimbursements d uid lid =
     concat (map (\<lambda>r. case find_user d (r_hauler_user_id r) of None \<Rightarrow> []
         | Some hu \<Rightarrow> [\<lparr> rv_reimbursement = r, rv_requester_display_name = requester_name d r,
              rv_hauler_display_name = u_display_name hu,
              rv_contract = map_option summary_of (Option.bind (r_contract_id r) (rls_find_contract d uid)) \<rparr>])
       (filter (\<lambda>r. r_list_id r = lid) (reimbursements d)))"

definition last_hauler_character :: "db \<Rightarrow> uuid \<Rightarrow> uuid \<Rightarrow> uuid option" where
  "last_hauler_character d uid lid =
     (case sort_key (\<lambda>f. - f_bought_at f) (filter (\<lambda>f. item_of_list d lid (f_list_item_id f)
          \<and> f_hauler_user_id f = uid \<and> f_reversed_at f = None \<and> f_hauler_character_id f \<noteq> None) (fulfillments d)) of
        f # _ \<Rightarrow> f_hauler_character_id f
      | [] \<Rightarrow> (case sort_key ch_created_at (filter (\<lambda>ch. ch_user_id ch = uid) (characters d)) of
          ch # _ \<Rightarrow> Some (ch_id ch) | [] \<Rightarrow> None))"

definition load_list_detail :: "(string \<Rightarrow> int) \<Rightarrow> uuid \<Rightarrow> uuid \<Rightarrow> group_role \<Rightarrow> db \<Rightarrow> list_detail res" where
  "load_list_detail coll lid uid role d =
     bind_res (ok_or not_found (rls_find_list d uid lid)) (\<lambda>l.
     let mrows = markets_with_primary coll d lid in
     bind_res (ok_or (Internal ''list has no primary market'') (find snd mrows)) (\<lambda>primary.
     let ms = map fst mrows;
         accessible = accessible_market_ids d (l_group_id l) (map mk_id ms)
     in Inr \<lparr> ld_list = l, ld_items = detail_items d lid, ld_markets = ms,
          ld_primary_market_id = mk_id (fst primary), ld_live_prices = live_prices d lid accessible,
          ld_claims = detail_claims d lid, ld_fulfillments = detail_fulfillments d lid,
          ld_reimbursements = detail_reimbursements d uid lid,
          ld_last_hauler_character_id = last_hauler_character d uid lid,
          ld_viewer_user_id = uid, ld_viewer_role = role \<rparr>))"

definition detail :: "(string \<Rightarrow> int) \<Rightarrow> session \<Rightarrow> uuid \<Rightarrow> db \<Rightarrow> list_detail res" where
  "detail coll s lid d =
     bind_res (current_list_ex s lid d) (\<lambda>cur. load_list_detail coll lid (cl_user_id cur) (cl_role cur) d)"

section \<open>The lists of a group\<close>

record list_summary =
  ls_id :: uuid
  ls_destination_label :: "string option"
  ls_status :: list_status
  ls_item_count :: nat
  ls_total_estimate_isk :: isk
  ls_primary_market_short_label :: "string option"
  ls_created_at :: instant

definition summary_row :: "db \<Rightarrow> shopping_list \<Rightarrow> list_summary" where
  "summary_row d l =
     \<lparr> ls_id = l_id l, ls_destination_label = l_destination_label l, ls_status = l_status l,
       ls_item_count = count_where (\<lambda>i. li_list_id i = l_id l) (list_items d),
       ls_total_estimate_isk = l_total_estimate_isk l,
       ls_primary_market_short_label =
         Option.bind (Option.bind (find (\<lambda>lm. lm_list_id lm = l_id l \<and> lm_is_primary lm) (list_markets d))
           (\<lambda>lm. find_market d (lm_market_id lm))) mk_short_label,
       ls_created_at = l_created_at l \<rparr>"

definition lists_for_group :: "session \<Rightarrow> uuid \<Rightarrow> bool \<Rightarrow> db \<Rightarrow> list_summary list res" where
  "lists_for_group s gid include_archived d =
     bind_res (current_group_ex s gid d) (\<lambda>cur.
     Inr (map (summary_row d) (sort_key (\<lambda>l. - l_created_at l)
       (filter (\<lambda>l. l_group_id l = gid \<and> (include_archived \<or> l_status l \<noteq> LArchived)) (lists d)))))"

section \<open>Runs\<close>

record run_market_ref =
  rm_market_id :: uuid
  rm_short_label :: "string option"
  rm_is_primary :: bool

record run_summary =
  rs_list_id :: uuid
  rs_destination_label :: "string option"
  rs_status :: list_status
  rs_created_at :: instant
  rs_accepted_markets :: "run_market_ref list"
  rs_items_open :: nat
  rs_items_claimed :: nat
  rs_items_bought :: nat
  rs_items_delivered :: nat
  rs_items_settled :: nat
  rs_total_estimate_isk :: isk
  rs_claimed_by_me :: bool
  rs_my_active_claim_id :: "uuid option"

definition items_in :: "db \<Rightarrow> uuid \<Rightarrow> list_item_status \<Rightarrow> nat" where
  "items_in d lid st = count_where (\<lambda>i. li_list_id i = lid \<and> li_status i = st) (list_items d)"

definition my_claim :: "db \<Rightarrow> uuid \<Rightarrow> uuid \<Rightarrow> uuid option" where
  "my_claim d uid lid =
     (case rev (sort_key (\<lambda>c. (c_created_at c, c_id c))
         (filter (\<lambda>c. c_list_id c = lid \<and> c_hauler_user_id c = uid \<and> c_status c = CActive) (claims d))) of
        [] \<Rightarrow> None | c # _ \<Rightarrow> Some (c_id c))"

definition run_of :: "(string \<Rightarrow> int) \<Rightarrow> db \<Rightarrow> uuid \<Rightarrow> shopping_list \<Rightarrow> run_summary" where
  "run_of coll d uid l =
     \<lparr> rs_list_id = l_id l, rs_destination_label = l_destination_label l, rs_status = l_status l,
       rs_created_at = l_created_at l,
       rs_accepted_markets = map (\<lambda>(m, p). \<lparr> rm_market_id = mk_id m, rm_short_label = mk_short_label m, rm_is_primary = p \<rparr>)
         (markets_with_primary coll d (l_id l)),
       rs_items_open = items_in d (l_id l) IOpen, rs_items_claimed = items_in d (l_id l) IClaimed,
       rs_items_bought = items_in d (l_id l) IBought, rs_items_delivered = items_in d (l_id l) IDelivered,
       rs_items_settled = items_in d (l_id l) ISettled, rs_total_estimate_isk = l_total_estimate_isk l,
       rs_claimed_by_me = (my_claim d uid (l_id l) \<noteq> None), rs_my_active_claim_id = my_claim d uid (l_id l) \<rparr>"

definition runs :: "(string \<Rightarrow> int) \<Rightarrow> session \<Rightarrow> uuid \<Rightarrow> db \<Rightarrow> run_summary list res" where
  "runs coll s gid d =
     bind_res (current_group_ex s gid d) (\<lambda>cur.
     Inr (map (run_of coll d (cg_user_id cur)) (sort_key (\<lambda>l. - l_created_at l)
       (filter (\<lambda>l. l_group_id l = gid \<and> l_status l = LOpen) (lists d)))))"

section \<open>Previewing a paste\<close>

record preview_price =
  pp_best_sell :: "decimal option"
  pp_best_buy :: "decimal option"
  pp_sell_volume :: int
  pp_buy_volume :: int
  pp_computed_at :: "instant option"

record preview_line =
  pv_line_nos :: "int list"
  pv_name :: string
  pv_type_id :: "int option"
  pv_type_name :: "string option"
  pv_qty :: int
  pv_prices :: "(uuid \<times> preview_price) list"
  pv_error :: "string option"

record preview_response =
  pr_lines :: "preview_line list"
  pr_unresolved_names :: "string list"
  pr_errors :: "line_error list"

definition preview_price_of :: "price_aggregate option \<Rightarrow> preview_price" where
  "preview_price_of agg =
     \<lparr> pp_best_sell = Option.bind agg pa_best_sell, pp_best_buy = Option.bind agg pa_best_buy,
       pp_sell_volume = (case agg of None \<Rightarrow> 0 | Some a \<Rightarrow> pa_sell_volume a),
       pp_buy_volume = (case agg of None \<Rightarrow> 0 | Some a \<Rightarrow> pa_buy_volume a),
       pp_computed_at = map_option pa_computed_at agg \<rparr>"

definition preview_line_of ::
  "(string \<times> resolved_type) list \<Rightarrow> market list \<Rightarrow> price_map \<Rightarrow> parsed_line \<Rightarrow> preview_line" where
  "preview_line_of resolved ms prices p =
     (let r = map_of resolved (name_key (pl_name p)) in
      \<lparr> pv_line_nos = pl_line_nos p, pv_name = pl_name p, pv_type_id = map_option rt_type_id r,
        pv_type_name = map_option rt_type_name r, pv_qty = pl_qty p,
        pv_prices = (case r of None \<Rightarrow> [] | Some rt \<Rightarrow> map (\<lambda>m. (mk_id m, preview_price_of
            (Option.bind (map_of prices (mk_id m)) (\<lambda>t. map_of t (rt_type_id rt))))) ms),
        pv_error = (if r = None then Some (''unknown item: '' @ pl_name p) else None) \<rparr>)"

definition preview :: "list_env \<Rightarrow> session \<Rightarrow> uuid \<Rightarrow> string \<Rightarrow> uuid list \<Rightarrow> instant \<Rightarrow> db \<Rightarrow> preview_response res" where
  "preview env s gid mb market_ids now d =
     bind_res (current_group_ex s gid d) (\<lambda>cur.
     bind_res (validate_multibuy_size mb) (\<lambda>_.
     bind_res (validate_market_ids_size market_ids) (\<lambda>_.
     let parsed = parse_multibuy mb; ls = pm_lines parsed in
     if MAX_PARSED_LINES < len ls then Inl (too_many ''parsed lines'' (len ls) MAX_PARSED_LINES)
     else if MAX_DISTINCT_NAMES < len ls then Inl (too_many ''distinct items'' (len ls) MAX_DISTINCT_NAMES)
     else bind_res (load_markets market_ids d) (\<lambda>ms.
     bind_res (validate_markets_for_group d gid ms) (\<lambda>_.
     bind_res (ok_or (Internal ''resolve_type_ids'') (env_resolve env (map pl_name ls))) (\<lambda>(resolved, un).
     let tys = dedup_type_ids (map (\<lambda>(_, r). rt_type_id r) resolved);
         prices = fetch_prices_for_markets (env_npc env) (env_citadel_ttl env) now gid ms tys d
     in Inr \<lparr> pr_lines = map (preview_line_of resolved ms prices) ls, pr_unresolved_names = un,
              pr_errors = pm_errors parsed \<rparr>))))))"

section \<open>Suggestions and bound contracts\<close>

record suggestion_dto =
  sd_suggestion :: suggestion
  sd_esi_contract_id :: int
  sd_contract_status :: contract_status
  sd_contract_price_isk :: isk
  sd_contract_expected_total_isk :: "isk option"
  sd_list_id :: uuid
  sd_list_destination_label :: "string option"
  sd_requester_display_name :: "string option"
  sd_hauler_display_name :: string
  sd_reimbursement_total_isk :: isk

text \<open>Here the corporation is joined whatever the kind of the principal.\<close>

definition suggestion_requester :: "db \<Rightarrow> reimbursement \<Rightarrow> string option" where
  "suggestion_requester d r =
     (case map_option u_display_name (Option.bind (r_requester_user_id r) (find_user d)) of Some n \<Rightarrow> Some n
      | None \<Rightarrow> Option.bind (Option.bind (find_principal d (r_requester_principal_id r)) p_corp_id)
          (\<lambda>cid. map_option cp_name (find (\<lambda>c. cp_id c = cid) (corps d))))"

definition suggestion_dto_of :: "db \<Rightarrow> uuid \<Rightarrow> uuid \<Rightarrow> suggestion \<Rightarrow> suggestion_dto option" where
  "suggestion_dto_of d uid gid g =
     (case (rls_find_contract d uid (sg_contract_id g), rls_find_reimbursement d uid (sg_reimbursement_id g)) of
        (Some c, Some r) \<Rightarrow>
          (case (rls_find_list d uid (r_list_id r), find_user d (r_hauler_user_id r)) of
             (Some l, Some hu) \<Rightarrow>
               if l_group_id l = gid \<and> r_hauler_user_id r = uid \<and> sg_state g \<in> {MPending, MConfirmed}
               then Some \<lparr> sd_suggestion = g, sd_esi_contract_id = ct_esi_contract_id c, sd_contract_status = ct_status c,
                 sd_contract_price_isk = ct_price_isk c, sd_contract_expected_total_isk = ct_expected_total_isk c,
                 sd_list_id = l_id l, sd_list_destination_label = l_destination_label l,
                 sd_requester_display_name = suggestion_requester d r, sd_hauler_display_name = u_display_name hu,
                 sd_reimbursement_total_isk = r_total_isk r \<rparr>
               else None
           | _ \<Rightarrow> None)
      | _ \<Rightarrow> None)"

text \<open>Pending before confirmed, newest first; a missing requester name cannot be decoded.\<close>

definition list_suggestions :: "session \<Rightarrow> uuid \<Rightarrow> db \<Rightarrow> suggestion_dto list res" where
  "list_suggestions s gid d =
     bind_res (current_group_ex s gid d) (\<lambda>cur.
     let uid = cg_user_id cur;
         rows = List.map_filter (suggestion_dto_of d uid gid) (rev (filter (suggestion_visible d uid) (suggestions d)));
         page = take 200 (sort_key (\<lambda>r. sg_state (sd_suggestion r) \<noteq> MPending) rows)
     in if \<exists>r\<in>set page. sd_requester_display_name r = None then Inl (Internal ''unexpected null'') else Inr page)"

record bound_contract_dto =
  bc_contract_id :: uuid
  bc_summary :: contract_summary
  bc_bound_reimbursement_count :: nat

text \<open>\<open>updated\<close> is the column \<^verbatim>\<open>contracts.updated_at\<close>.\<close>

definition bound_count :: "db \<Rightarrow> uuid \<Rightarrow> uuid \<Rightarrow> contract \<Rightarrow> nat" where
  "bound_count d uid gid c =
     count_where (\<lambda>r. r_contract_id r = Some (ct_id c) \<and> r_hauler_user_id r = uid
       \<and> (\<exists>l\<in>set (lists d). l_id l = r_list_id r \<and> l_group_id l = gid)) (reimbursements d)"

definition list_contracts :: "(contract \<Rightarrow> instant) \<Rightarrow> session \<Rightarrow> uuid \<Rightarrow> db \<Rightarrow> bound_contract_dto list res" where
  "list_contracts updated s gid d =
     bind_res (current_group_ex s gid d) (\<lambda>cur.
     Inr (map (\<lambda>c. \<lparr> bc_contract_id = ct_id c, bc_summary = summary_of c,
                     bc_bound_reimbursement_count = bound_count d (cg_user_id cur) gid c \<rparr>)
       (take 200 (sort_key (\<lambda>c. - updated c)
         (filter (\<lambda>c. contract_visible d (cg_user_id cur) c \<and> bound_count d (cg_user_id cur) gid c \<noteq> 0) (contracts d))))))"

end
