(* ===== verification/List_View_Facts.thy ===== *)
theory List_View_Facts
  imports List_Views Citadel_Facts Haul_Facts Group_Facts
begin

text \<open>
  What the read handlers show: the numbers in the detail of a list add up, prices and
  contracts are shown only to those who may see them, the runs of a hauler account for
  every item, and a list that was just created is shown with the lines of its paste.
\<close>

section \<open>The detail of a list\<close>

lemma detail_Inr:
  assumes "detail coll s lid d = Inr det"
  obtains uid role l where "s = Some uid" "rls_find_list d uid lid = Some l" "is_group_member d uid (l_group_id l)"
    "load_list_detail coll lid uid role d = Inr det"
  using assms
  by (auto simp: detail_def current_list_ex_def current_user_def bind_res_eq_Inr ok_or_def
      dest: rls_find_list_SomeD split: option.splits)

lemma load_list_detail_Inr:
  assumes "load_list_detail coll lid uid role d = Inr det"
  obtains l where "rls_find_list d uid lid = Some l" "ld_list det = l" "ld_items det = detail_items d lid"
    "ld_fulfillments det = detail_fulfillments d lid" "ld_reimbursements det = detail_reimbursements d uid lid"
    "ld_live_prices det = live_prices d lid
       (accessible_market_ids d (l_group_id l) (map (mk_id \<circ> fst) (markets_with_primary coll d lid)))"
  using assms by (auto simp: load_list_detail_def Let_def bind_res_eq_Inr ok_or_def split: option.splits)

lemma sum_list_sort_key: "sum_list (map f (sort_key k xs)) = sum_list (map f xs)" for f :: "'a \<Rightarrow> int"
  by (metis mset_map mset_sort sum_mset_sum_list)

lemma detail_fulfillments_sum:
  assumes "item_of_list d lid iid"
  shows "sum_list (map (\<lambda>v. f_qty (fv_fulfillment v))
      (filter (\<lambda>v. f_list_item_id (fv_fulfillment v) = iid) (detail_fulfillments d lid))) = fulfilled_qty d iid"
proof -
  have "filter (\<lambda>f. item_of_list d lid (f_list_item_id f) \<and> f_reversed_at f = None \<and> f_list_item_id f = iid) fs
      = filter (\<lambda>f. f_list_item_id f = iid \<and> f_reversed_at f = None) fs" for fs :: "fulfillment list"
    by (rule filter_cong) (use assms in auto)
  then show ?thesis
    by (simp add: detail_fulfillments_def fulfillment_view_of_def filter_map comp_def filter_sort
        sum_list_sort_key fulfilled_qty_def sum_where_def)
qed


lemma accessible_market_mem:
  assumes "mid \<in> set (accessible_market_ids d gid ids)"
  shows "\<exists>m\<in>set (markets d). mk_id m = mid \<and> (mk_kind m = NpcHub
          \<or> (\<exists>ch\<in>set (characters d). is_group_member d (ch_user_id ch) gid
               \<and> STRUCTURE_MARKETS_SCOPE \<in> set (ch_scopes ch)
               \<and> (\<exists>sa\<in>set (structure_accesses d). sa_character_id sa = ch_id ch
                    \<and> sa_market_id sa = mk_id m \<and> sa_market_status sa = SaOk)))"
  using assms unfolding accessible_market_ids_def set_map set_filter by blast

text \<open>C25: the detail of a list keeps what is not the viewer's.  It is answered only to a member
  of the group of the list; a price is shown only for a hub or a citadel whose orders a
  character of the group, with the market scope, was able to read; and a contract is
  shown only to those who may see it.\<close>

theorem detail_confidential:
  assumes "detail coll s lid d = Inr det"
  shows "\<exists>uid l. s = Some uid \<and> l \<in> set (lists d) \<and> l_id l = lid \<and> is_group_member d uid (l_group_id l)
    \<and> (\<forall>p\<in>set (ld_live_prices det). lp_computed_at p \<noteq> None \<longrightarrow>
        (\<exists>m\<in>set (markets d). mk_id m = lp_market_id p \<and> (mk_kind m = NpcHub
          \<or> (\<exists>ch\<in>set (characters d). is_group_member d (ch_user_id ch) (l_group_id l)
               \<and> STRUCTURE_MARKETS_SCOPE \<in> set (ch_scopes ch)
               \<and> (\<exists>sa\<in>set (structure_accesses d). sa_character_id sa = ch_id ch
                    \<and> sa_market_id sa = mk_id m \<and> sa_market_status sa = SaOk)))))
    \<and> (\<forall>v\<in>set (ld_reimbursements det). \<forall>c. rv_contract v = Some c \<longrightarrow>
        (\<exists>k\<in>set (contracts d). c = summary_of k \<and> r_contract_id (rv_reimbursement v) = Some (ct_id k)
          \<and> contract_visible d uid k))"
proof -
  obtain uid role l where s: "s = Some uid" and l: "rls_find_list d uid lid = Some l" "is_group_member d uid (l_group_id l)"
    and load: "load_list_detail coll lid uid role d = Inr det"
    using assms by (elim detail_Inr)
  let ?acc = "accessible_market_ids d (l_group_id l) (map (mk_id \<circ> fst) (markets_with_primary coll d lid))"
  have det: "ld_live_prices det = live_prices d lid ?acc" "ld_reimbursements det = detail_reimbursements d uid lid"
    using load l(1) by (auto elim!: load_list_detail_Inr)
  have prices: "lp_market_id p \<in> set ?acc" if "p \<in> set (ld_live_prices det)" "lp_computed_at p \<noteq> None" for p
    using that by (auto simp: det(1) live_prices_def into_live_def split: if_splits)
  have contracts: "\<exists>k\<in>set (contracts d). c = summary_of k \<and> r_contract_id (rv_reimbursement v) = Some (ct_id k)
      \<and> contract_visible d uid k" if "v \<in> set (ld_reimbursements det)" "rv_contract v = Some c" for v c
    using that
    by (auto simp: det(2) detail_reimbursements_def Option.bind_eq_Some_conv dest!: rls_find_contract_SomeD
        split: option.splits)
  have mem: "l \<in> set (lists d)" "l_id l = lid" using rls_find_list_SomeD [OF l(1)] by auto
  show ?thesis
  proof (intro exI [of _ uid] exI [of _ l] conjI ballI impI allI)
    fix p assume "p \<in> set (ld_live_prices det)" "lp_computed_at p \<noteq> None"
    from accessible_market_mem [OF prices [OF this]] show "\<exists>m\<in>set (markets d). mk_id m = lp_market_id p \<and> (mk_kind m = NpcHub
          \<or> (\<exists>ch\<in>set (characters d). is_group_member d (ch_user_id ch) (l_group_id l)
               \<and> STRUCTURE_MARKETS_SCOPE \<in> set (ch_scopes ch)
               \<and> (\<exists>sa\<in>set (structure_accesses d). sa_character_id sa = ch_id ch
                    \<and> sa_market_id sa = mk_id m \<and> sa_market_status sa = SaOk)))" .
  qed (use s l(2) mem contracts in auto)
qed

section \<open>Runs\<close>

lemma count_statuses:
  "length (filter (\<lambda>i. li_list_id i = lid) its) =
     length (filter (\<lambda>i. li_list_id i = lid \<and> li_status i = IOpen) its)
   + length (filter (\<lambda>i. li_list_id i = lid \<and> li_status i = IClaimed) its)
   + length (filter (\<lambda>i. li_list_id i = lid \<and> li_status i = IBought) its)
   + length (filter (\<lambda>i. li_list_id i = lid \<and> li_status i = IDelivered) its)
   + length (filter (\<lambda>i. li_list_id i = lid \<and> li_status i = ISettled) its)"
proof (induction its)
  case (Cons i its)
  then show ?case by (cases "li_status i") auto
qed simp

lemma sort_key_Nil [simp]: "sort_key k xs = [] \<longleftrightarrow> xs = []"
  by (metis length_0_conv length_sort)

lemma my_claim_Some:
  assumes "my_claim d uid lid = Some cid"
  shows "\<exists>c\<in>set (claims d). c_id c = cid \<and> c_list_id c = lid \<and> c_hauler_user_id c = uid \<and> c_status c = CActive"
proof -
  let ?cs = "sort_key (\<lambda>c. (c_created_at c, c_id c))
     (filter (\<lambda>c. c_list_id c = lid \<and> c_hauler_user_id c = uid \<and> c_status c = CActive) (claims d))"
  obtain c cs where "rev ?cs = c # cs" "c_id c = cid"
    using assms by (auto simp: my_claim_def split: list.splits)
  then have "c \<in> set (rev ?cs)" by simp
  then show ?thesis using \<open>c_id c = cid\<close> by auto
qed

text \<open>The runs of a member are the open lists of the group, each once and newest first; the
  five counts of a run account for every item of the list, and a run counts as the
  caller's exactly when the caller has an active claim on it.\<close>

theorem runs_account_for_items:
  assumes "runs coll (Some uid) gid d = Inr rs"
  shows "mset (map rs_list_id rs) = mset (map l_id (filter (\<lambda>l. l_group_id l = gid \<and> l_status l = LOpen) (lists d)))
    \<and> sorted (map (\<lambda>r. - rs_created_at r) rs)
    \<and> (\<forall>r\<in>set rs. rs_items_open r + rs_items_claimed r + rs_items_bought r + rs_items_delivered r + rs_items_settled r
          = length (filter (\<lambda>i. li_list_id i = rs_list_id r) (list_items d))
        \<and> (rs_claimed_by_me r \<longleftrightarrow> (\<exists>c\<in>set (claims d). c_list_id c = rs_list_id r \<and> c_hauler_user_id c = uid
              \<and> c_status c = CActive)))"
proof -
  let ?ls = "sort_key (\<lambda>l. - l_created_at l) (filter (\<lambda>l. l_group_id l = gid \<and> l_status l = LOpen) (lists d))"
  have rs: "rs = map (run_of coll d uid) ?ls"
    using assms by (auto simp: runs_def current_group_ex_def current_user_def bind_res_eq_Inr)
  have "map rs_list_id rs = map l_id ?ls" "map (\<lambda>r. - rs_created_at r) rs = map (\<lambda>l. - l_created_at l) ?ls"
    by (simp_all add: rs run_of_def)
  moreover have "rs_items_open r + rs_items_claimed r + rs_items_bought r + rs_items_delivered r + rs_items_settled r
          = length (filter (\<lambda>i. li_list_id i = rs_list_id r) (list_items d))
        \<and> (rs_claimed_by_me r \<longleftrightarrow> (\<exists>c\<in>set (claims d). c_list_id c = rs_list_id r \<and> c_hauler_user_id c = uid
              \<and> c_status c = CActive))" if mem: "r \<in> set rs" for r
  proof -
    obtain l where r: "r = run_of coll d uid l" using mem unfolding rs set_map by blast
    have "my_claim d uid (l_id l) \<noteq> None"
      if "c \<in> set (claims d)" "c_list_id c = l_id l" "c_hauler_user_id c = uid" "c_status c = CActive" for c
      using that by (auto simp: my_claim_def filter_empty_conv split: list.split)
    then have "my_claim d uid (l_id l) \<noteq> None \<longleftrightarrow> (\<exists>c\<in>set (claims d). c_list_id c = l_id l
        \<and> c_hauler_user_id c = uid \<and> c_status c = CActive)"
      using my_claim_Some by blast
    then show ?thesis by (simp add: r run_of_def items_in_def count_where_def count_statuses [of "l_id l"])
  qed
  ultimately show ?thesis by simp
qed

section \<open>A list that was just created\<close>

lemma created_cases:
  assumes "create_list env (Some uid) gid b lid new_id now d = Inr d'"
  obtains ls m rs pick g t ms where
    "is_group_member d uid gid" "checked_lines (cb_multibuy b) = Inr ls"
    "cb_primary_market_id b \<in> set (cb_market_ids b)" "distinct (cb_market_ids b)"
    "load_markets (cb_market_ids b) d = Inr ms"
    "resolve_lines m (map (\<lambda>l. (pl_name l, pl_qty l, first_line_no l)) ls) = Inr rs" "lid \<notin> l_id ` set (lists d)"
    "lists d' = lists d @ [new_list_row b lid gid uid g t now]" "markets d' = markets d" "memberships d' = memberships d"
    "list_markets d' = list_markets d @ market_links lid (cb_primary_market_id b) ms"
    "list_items d' = list_items d @ new_items new_id lid uid pick rs"
proof -
  have dist: "distinct ids" if "validate_market_ids_size ids = Inr u" for ids u
    using that card_distinct [of ids] by (auto simp: validate_market_ids_size_def length_remdups_card_conv split: if_splits)
  show ?thesis using assms
    by (clarsimp simp: create_list_def current_group_ex_def current_user_def Let_def bind_res_eq_Inr insert_items_def
          fire_webhook_def split: if_splits)
      (rule that, auto dest: dist member_role_Some_member)
qed

text \<open>When as many rows were found as identifiers were given, every identifier has its market.\<close>

lemma load_markets_ids:
  assumes "load_markets ids d = Inr ms" "distinct ids" "distinct (map mk_id (markets d))"
  shows "set (map mk_id ms) = set ids" "set ms \<subseteq> set (markets d)"
proof -
  have ms: "ms = filter (\<lambda>m. mk_id m \<in> set ids) (markets d)" "length ms = length ids"
    using assms(1) by (auto simp: load_markets_def Let_def split: if_splits)
  have "distinct (map mk_id ms)" using assms(3) by (simp add: ms(1) distinct_map_filter)
  then have "card (set (map mk_id ms)) = card (set ids)"
    using assms(2) ms(2) by (metis distinct_card length_map)
  then show "set (map mk_id ms) = set ids" by (intro card_subset_eq) (auto simp: ms(1))
  show "set ms \<subseteq> set (markets d)" by (auto simp: ms(1))
qed

lemma new_items_shape:
  "map (\<lambda>i. (li_list_id i, li_source_line_no i, li_qty_requested i, li_status i)) (new_items new_id lid uid pick rs)
     = map (\<lambda>(r, q, no). (lid, Some no, q, IOpen)) rs"
proof -
  have "map (\<lambda>(k, (r, q, no)). (lid, Some no, q, IOpen)) (enumerate n rs) = map (\<lambda>(r, q, no). (lid, Some no, q, IOpen)) rs" for n
    by (induction rs arbitrary: n) auto
  then show ?thesis by (simp add: new_items_def set_estimate_def split_def comp_def)
qed

lemma resolve_lines_shape:
  "resolve_lines m ls = Inr rs \<Longrightarrow> map (\<lambda>(r, q, no). (q, no)) rs = map snd ls"
  by (induction m ls arbitrary: rs rule: resolve_lines.induct) (auto simp: bind_res_eq_Inr)

text \<open>C17: a list that was just created is shown to its creator: open, with the chosen primary
  market, and with one open item per line of the paste, of the quantity of that line.\<close>

theorem created_list_shown:
  assumes "create_list env (Some uid) gid b lid new_id now d = Inr d'" "distinct (map mk_id (markets d))"
    and "lid \<notin> li_list_id ` set (list_items d)" "lid \<notin> lm_list_id ` set (list_markets d)"
  shows "\<exists>det. detail coll (Some uid) lid d' = Inr det \<and> l_status (ld_list det) = LOpen
    \<and> ld_primary_market_id det = cb_primary_market_id b
    \<and> mset (map (\<lambda>i. (li_source_line_no i, li_qty_requested i, li_status i)) (ld_items det))
      = mset (map (\<lambda>l. (Some (first_line_no l), pl_qty l, IOpen)) (pm_lines (parse_multibuy (cb_multibuy b))))"
  using assms(1)
proof (cases rule: created_cases)
  case (1 ls m rs pick g t ms)
  let ?l = "new_list_row b lid gid uid g t now" and ?p = "cb_primary_market_id b"
  have l: "l_id ?l = lid" "l_group_id ?l = gid" "l_status ?l = LOpen" by (simp_all add: new_list_row_def)
  have mem: "is_group_member d' uid gid" using 1(1,10) by (simp add: is_group_member_def)
  then obtain role where role: "member_role d' uid gid = Some role" using member_role_iff_member by blast
  have none: "find (\<lambda>l. l_id l = lid) (filter P (lists d)) = None" for P
    using 1(7) by (auto simp: find_None_iff)
  have find: "rls_find_list d' uid lid = Some ?l"
    using mem none by (simp add: rls_find_list_def 1(8) l find_snoc split: option.split)
  have links: "filter (\<lambda>lm. lm_list_id lm = lid) (list_markets d') = market_links lid ?p ms"
    using assms(4) by (auto simp: 1(11) market_links_def filter_empty_conv comp_def)
  let ?rows = "markets_with_primary coll d' lid"
  have rows: "(x, y) \<in> set ?rows \<longleftrightarrow> x \<in> set (markets d) \<and> (\<exists>m\<in>set ms. mk_id x = mk_id m) \<and> y = (mk_id x = ?p)" for x y
    by (auto simp: markets_with_primary_def links market_links_def 1(9) image_iff)
  note ids = load_markets_ids [OF 1(5,4) assms(2)]
  have "?p \<in> mk_id ` set ms" using ids(1) 1(3) by simp
  then obtain x where "x \<in> set ms" "mk_id x = ?p" by auto
  then have "(x, True) \<in> set ?rows" unfolding rows using ids(2) by (intro conjI bexI [of _ x]) auto
  then obtain pr where pr: "find snd ?rows = Some pr" by (cases "find snd ?rows") (auto simp: find_None_iff)
  then have prim: "mk_id (fst pr) = ?p"
    using find_Some_memD [OF pr] rows [of "fst pr" "snd pr"] unfolding prod.collapse by blast
  obtain det where det: "load_list_detail coll lid uid role d' = Inr det" "ld_list det = ?l"
    "ld_primary_market_id det = ?p" "ld_items det = detail_items d' lid"
    by (simp add: load_list_detail_def find pr Let_def prim)
  have "detail coll (Some uid) lid d' = Inr det"
    using find role det(1) by (simp add: detail_def current_list_ex_def current_user_def l)
  moreover have "mset (map (\<lambda>i. (li_source_line_no i, li_qty_requested i, li_status i)) (ld_items det))
      = mset (map (\<lambda>l. (Some (first_line_no l), pl_qty l, IOpen)) (pm_lines (parse_multibuy (cb_multibuy b))))"
  proof -
    have lines: "ls = pm_lines (parse_multibuy (cb_multibuy b))"
      using 1(2) by (auto simp: checked_lines_def Let_def split: if_splits)
    have its: "filter (\<lambda>i. li_list_id i = lid) (list_items d') = new_items new_id lid uid pick rs"
      using assms(3) by (auto simp: 1(12) filter_new_items filter_empty_conv)
    have "map (\<lambda>(r, q, no). (Some no, q, IOpen)) rs = map (\<lambda>l. (Some (first_line_no l), pl_qty l, IOpen)) ls"
      using arg_cong [OF resolve_lines_shape [OF 1(6)], of "map (\<lambda>(q, no). (Some no, q, IOpen))"]
      by (simp add: split_def comp_def)
    moreover have "map (\<lambda>i. (li_source_line_no i, li_qty_requested i, li_status i)) (new_items new_id lid uid pick rs)
        = map (\<lambda>(r, q, no). (Some no, q, IOpen)) rs"
      using arg_cong [OF new_items_shape [of new_id lid uid pick rs], of "map snd"] by (simp add: split_def comp_def)
    ultimately have "mset (map (\<lambda>i. (li_source_line_no i, li_qty_requested i, li_status i)) (new_items new_id lid uid pick rs))
        = mset (map (\<lambda>l. (Some (first_line_no l), pl_qty l, IOpen)) ls)" by simp
    then show ?thesis by (simp add: det(4) detail_items_def its into_item_def comp_def lines)
  qed
  ultimately show ?thesis using det(2,3) l(3) by auto
qed

section \<open>Witnesses\<close>

lemma same_books_money:
  assumes "same_books_rows d d'" "money_ok d"
  shows "money_ok d'"
proof -
  have "items_follow d d'" using assms(1) by (auto simp: items_follow_def same_books_rows_def)
  then show ?thesis
    using keeps_money_ok [OF assms(2)] same_books_rows_inv [OF assms(1)] keeps_money_books [OF assms(1)] assms(2)
    by (simp add: money_ok_def)
qed

definition demo_view :: db where
  "demo_view = demo_linked \<lparr> markets := [demo_market 1],
     list_markets := [\<lparr> lm_list_id = 10, lm_market_id = 1, lm_is_primary = True \<rparr>],
     market_prices := [\<lparr> mp_market_id = 1, mp_type_id = 34, mp_best_sell = Some 560, mp_best_buy = None,
        mp_sell_volume = 9, mp_buy_volume = 0, mp_computed_at = 0 \<rparr>] \<rparr>"

lemma demo_view_money: "money_ok demo_view"
  by (rule same_books_money [OF _ demo_money(6)]) (simp add: same_books_rows_def demo_view_def)

lemma demo_view_detail:
  obtains det where "detail (int \<circ> length) (Some 1) 10 demo_view = Inr det"
    "map li_qty_fulfilled (ld_items det) = [5, 0]" "map lp_best_sell (ld_live_prices det) = [Some 560, Some 560]"
    "map (\<lambda>v. map_option cs_price_isk (rv_contract v)) (ld_reimbursements det) = [Some 6563]"
proof -
  have "case detail (int \<circ> length) (Some 1) 10 demo_view of Inl _ \<Rightarrow> False | Inr det \<Rightarrow>
    map li_qty_fulfilled (ld_items det) = [5, 0] \<and> map lp_best_sell (ld_live_prices det) = [Some 560, Some 560]
    \<and> map (\<lambda>v. map_option cs_price_isk (rv_contract v)) (ld_reimbursements det) = [Some 6563]"
    by code_simp
  then show ?thesis using that by (auto split: sum.splits)
qed


theorem detail_confidential_witness:
  "\<exists>det. detail (int \<circ> length) (Some 1) 10 demo_view = Inr det \<and> map lp_best_sell (ld_live_prices det) = [Some 560, Some 560]
     \<and> is_group_member demo_view 1 5
     \<and> (\<exists>k\<in>set (contracts demo_view). ct_price_isk k = 6563 \<and> contract_visible demo_view 1 k)"
proof -
  obtain det where det: "detail (int \<circ> length) (Some 1) 10 demo_view = Inr det"
    "map lp_best_sell (ld_live_prices det) = [Some 560, Some 560]"
    "map (\<lambda>v. map_option cs_price_isk (rv_contract v)) (ld_reimbursements det) = [Some 6563]"
    by (rule demo_view_detail)
  then obtain v c where v: "v \<in> set (ld_reimbursements det)" "rv_contract v = Some c" "cs_price_isk c = 6563"
    by (auto simp: map_eq_Cons_conv)
  have l: "l_group_id l = 5" if "l \<in> set (lists demo_view)" for l
    using that by (simp add: demo_view_def demo_linked_def demo_bought_def demo_half_def demo_claimed_def demo_db_def demo_list_def)
  obtain l where "l \<in> set (lists demo_view)" "is_group_member demo_view 1 (l_group_id l)"
    "\<exists>k\<in>set (contracts demo_view). c = summary_of k \<and> contract_visible demo_view 1 k"
    using detail_confidential [OF det(1)] v by fastforce
  then show ?thesis using det(1,2) l v(3) by (auto simp: summary_of_def)
qed

theorem runs_account_for_items_witness:
  "\<exists>r. runs (int \<circ> length) (Some 2) 5 demo_view = Inr [r] \<and> rs_list_id r = 10 \<and> \<not> rs_claimed_by_me r
     \<and> rs_items_open r + rs_items_claimed r + rs_items_bought r + rs_items_delivered r + rs_items_settled r = 2"
proof -
  have "case runs (int \<circ> length) (Some 2) 5 demo_view of Inr [r] \<Rightarrow> rs_list_id r = 10 | _ \<Rightarrow> False" by code_simp
  then obtain r where r: "runs (int \<circ> length) (Some 2) 5 demo_view = Inr [r]" "rs_list_id r = 10"
    by (auto split: sum.splits list.splits)
  have "length (filter (\<lambda>i. li_list_id i = 10) (list_items demo_view)) = 2"
    "filter (\<lambda>c. c_list_id c = 10 \<and> c_hauler_user_id c = 2 \<and> c_status c = CActive) (claims demo_view) = []" by code_simp+
  then show ?thesis using runs_account_for_items [OF r(1)] r by (auto simp: filter_empty_conv)
qed

definition demo_paste :: create_body where
  "demo_paste = \<lparr> cb_destination_label = None, cb_notes = None, cb_market_ids = [1], cb_primary_market_id = 1,
     cb_multibuy = ''Tritanium 5'' \<rparr>"

definition demo_shop :: db where
  "demo_shop = demo_tenants \<lparr> markets := [demo_market 1] \<rparr>"

theorem created_list_shown_witness:
  "\<exists>d' det. create_list (demo_env 3) (Some 1) 5 demo_paste 11 (\<lambda>k. 130 + k) 9 demo_shop = Inr d'
     \<and> detail (int \<circ> length) (Some 1) 11 d' = Inr det \<and> ld_primary_market_id det = 1
     \<and> mset (map (\<lambda>i. (li_source_line_no i, li_qty_requested i, li_status i)) (ld_items det)) = {# (Some 1, 5, IOpen) #}"
proof -
  have "case create_list (demo_env 3) (Some 1) 5 demo_paste 11 (\<lambda>k. 130 + k) 9 demo_shop of Inl _ \<Rightarrow> False | Inr _ \<Rightarrow> True"
    by code_simp
  then obtain d' where ok: "create_list (demo_env 3) (Some 1) 5 demo_paste 11 (\<lambda>k. 130 + k) 9 demo_shop = Inr d'"
    by (auto split: sum.splits)
  have lines: "map (\<lambda>l. (Some (first_line_no l), pl_qty l, IOpen)) (pm_lines (parse_multibuy (cb_multibuy demo_paste)))
      = [(Some 1, 5, IOpen)]" by code_simp
  have fresh: "distinct (map mk_id (markets demo_shop))" "11 \<notin> li_list_id ` set (list_items demo_shop)"
    "11 \<notin> lm_list_id ` set (list_markets demo_shop)"
    by (simp_all add: demo_shop_def demo_tenants_def demo_defs)
  have "cb_primary_market_id demo_paste = 1" by (simp add: demo_paste_def)
  with created_list_shown [OF ok fresh, of "int \<circ> length"] ok show ?thesis unfolding lines by auto
qed

end
