(* ===== verification/Worker_Facts.thy ===== *)
theory Worker_Facts
  imports Worker List_View_Facts
begin

text \<open>
  The worker and the API together.  The jobs that are about markets, tokens and notifications do
  not touch the books; what every operation keeps of the books every tick of every job keeps,
  with any answers of ESI (\<open>books_invariant\<close>).  The driver of a job keeps ticking after errors and
  panics, never faster than its period.
\<close>

section \<open>The books\<close>

definition books where
  "books d = (principals d, memberships d, lists d, list_items d, fulfillments d, claims d, claim_items d,
     reimbursements d, groups d)"

lemma same_books_iff: "same_books_rows d d' \<longleftrightarrow> books d' = books d"
  by (auto simp: same_books_rows_def books_def)

lemma books_updates [simp]:
  "books (d \<lparr> markets := ms \<rparr>) = books d" "books (d \<lparr> market_prices := ps \<rparr>) = books d"
  "books (d \<lparr> structure_accesses := sas \<rparr>) = books d" "books (d \<lparr> characters := chs \<rparr>) = books d"
  "books (d \<lparr> corps := cps \<rparr>) = books d" "books (d \<lparr> ambassadors := cas \<rparr>) = books d"
  "books (d \<lparr> journal := js \<rparr>) = books d" "books (d \<lparr> wallet_divisions := ws \<rparr>) = books d"
  by (simp_all add: books_def)

lemma books_persist [simp]: "books (persist_after st now chid d) = books d"
  by (auto simp: persist_after_def persist_rotations_def Let_def split: option.splits sum.splits)

lemma books_access [simp]: "books (upsert_access chid mid st dim now d) = books d"
  by (simp add: upsert_access_def Let_def)

lemma books_ambassador [simp]: "books (mark_ambassador f corp chid d) = books d"
  by (simp add: mark_ambassador_def)

lemma books_fold:
  assumes "\<And>x s. books (db_of (f x s)) = books (db_of s)"
  shows "books (db_of (fold f xs s)) = books (db_of s)"
  using assms by (induction xs arbitrary: s) simp_all

subsection \<open>Market jobs\<close>

lemma upsert_price_row_books: "upsert_price_row mid ty a d = Inr d' \<Longrightarrow> books d' = books d"
  by (auto simp: upsert_price_row_def Let_def split: if_splits)

lemma npc_hubs_books: "books (snd (npc_hubs_run orders ttl now b d)) = books d"
proof -
  have "books (snd (refresh_pair orders now p st)) = books (snd st)" for p st
    by (auto simp: refresh_pair_def budgeted_def refresh_one_def Let_def bind_res_eq_Inr
        dest!: upsert_price_row_books split: sum.splits option.splits if_splits)
  from books_fold [where db_of = snd and f = "refresh_pair orders now", OF this] show ?thesis by (simp add: npc_hubs_run_def)
qed

lemma discovery_books: "books (snd (citadel_discovery reply new_id now threshold b d)) = books d"
  by (auto simp: citadel_discovery_def split: prod.split sum.split)

lemma try_structure_books: "books (snd (snd (try_structure env mid loc now cs b d))) = books d"
  by (induction env mid loc now cs b d rule: try_structure.induct) (auto split: esi_reply.split)

lemma resolve_one_books: "books (snd (snd (resolve_one env backoff now row st))) = books (snd (snd st))"
proof -
  obtain mid loc cache b d where [simp]: "row = (mid, loc)" "st = (cache, b, d)" by (cases row, cases st) auto
  let ?cs = "select_candidates d mid UNIVERSE_SCOPE Details backoff False now"
  obtain r b1 d1 where t: "try_structure env mid loc now ?cs b d = (r, b1, d1)" by (cases "try_structure env mid loc now ?cs b d")
  have "books d1 = books d" using try_structure_books [of env mid loc now ?cs b d] t by simp
  then show ?thesis by (auto simp: resolve_one_def t store_details_def split: option.split prod.split)
qed

lemma details_books: "books (snd (snd (citadel_details env secs backoff now st))) = books (snd (snd st))"
  using books_fold [where db_of = "\<lambda>s. snd (snd s)" and f = "resolve_one env backoff now", OF resolve_one_books]
  by (auto simp: citadel_details_def split: prod.split)

lemma store_aggregates_books: "store_aggregates mid ords now tys d = Inr d' \<Longrightarrow> books d' = books d"
  by (induction mid ords now tys d rule: store_aggregates.induct)
    (auto simp: bind_res_eq_Inr dest: upsert_price_row_books)

lemma refresh_many_books: "refresh_many_for_citadel ords mid tys now d = Inr (n, d') \<Longrightarrow> books d' = books d"
  by (auto simp: refresh_many_for_citadel_def bind_res_eq_Inr dest: store_aggregates_books split: option.splits)

lemma try_orders_books: "books (snd (snd (try_orders reply store mid tys now cs st b d))) = books d"
proof (induction reply store mid tys now cs st b d rule: try_orders.induct)
  case (2 reply store mid tys now chid cs st b d)
  then show ?case
    by (cases "reply chid") (auto dest: refresh_many_books split: sum.split)
qed simp

lemma refresh_citadel_books: "books (snd (refresh_citadel reply store backoff now row st)) = books (snd st)"
proof -
  obtain mid tys b d where [simp]: "row = (mid, tys)" "st = (b, d)" by (cases row, cases st) auto
  let ?cs = "select_candidates d mid STRUCTURE_MARKETS_SCOPE Market_Orders backoff True now"
  let ?st = "\<lparr> os_succeeded = False, os_denied = 0, os_transient = 0 \<rparr>"
  obtain r b1 d1 where t: "try_orders (reply mid) store mid tys now ?cs ?st b d = (r, b1, d1)"
    by (cases "try_orders (reply mid) store mid tys now ?cs ?st b d")
  have "books d1 = books d" using try_orders_books [of "reply mid" store mid tys now ?cs ?st b d] t by simp
  then show ?thesis by (auto simp: refresh_citadel_def Let_def t split: option.split)
qed

lemma orders_books: "books (snd (citadel_orders reply store cadence backoff now b d)) = books d"
  using books_fold [where db_of = snd and f = "refresh_citadel reply store backoff now", OF refresh_citadel_books]
  by (simp add: citadel_orders_def)

subsection \<open>Tokens\<close>

lemma reencrypt_books: "books (token_reencrypt_job cr c free nonce d) = books d"
  by (auto simp: token_reencrypt_job_def reencrypt_stale_def Let_def bind_res_eq_Inr split: sum.split)

subsection \<open>Contract jobs\<close>

lemma character_task_books: "books (snd (snd (character_task env interval now ch st))) = books (snd (snd st))"
proof -
  obtain ups b d where [simp]: "st = (ups, b, d)" by (cases st)
  obtain r d1 where p: "poll_one_character (has_budget b) (kv_contracts env (ch_id ch)) (ch_id ch) interval
      (kv_jitter env (ch_id ch)) now d = (r, d1)"
    by (cases "poll_one_character (has_budget b) (kv_contracts env (ch_id ch)) (ch_id ch) interval (kv_jitter env (ch_id ch)) now d")
  have "books d1 = books d"
    using poll_one_character_same [of d "has_budget b" "kv_contracts env (ch_id ch)" "ch_id ch" interval "kv_jitter env (ch_id ch)" now]
    by (simp add: p same_books_iff)
  then show ?thesis by (simp add: character_task_def p Let_def split: sum.split)
qed

lemma items_task_books: "books (snd (snd (items_task env now row st))) = books (snd (snd st))"
proof -
  obtain ids b d where [simp]: "st = (ids, b, d)" by (cases st)
  obtain r d1 where p: "sync_items_for (has_budget b) (kv_items env (ct_id row)) row now d = (r, d1)"
    by (cases "sync_items_for (has_budget b) (kv_items env (ct_id row)) row now d")
  have "books d1 = books d"
    using sync_items_same [of d "has_budget b" "kv_items env (ct_id row)" row now] by (simp add: p same_books_iff)
  then show ?thesis by (simp add: items_task_def p Let_def split: sum.split bool.split option.split)
qed

lemma sync_pending_books: "books (snd (snd (sync_pending_items env now st))) = books (snd st)"
  using books_fold [where db_of = "\<lambda>s. snd (snd s)" and f = "items_task env now", OF items_task_books]
  by (simp add: sync_pending_items_def split: prod.split)

lemma corp_task_books: "books (snd (snd (corp_task env interval now cp st))) = books (snd (snd st))"
proof -
  obtain ups b d where [simp]: "st = (ups, b, d)" by (cases st)
  let ?args = "poll_one_corp (has_budget b) (kv_corp_contracts env (cp_id cp)) (cp_id cp) (cp_esi_corporation_id cp)
      interval (kv_jitter env (cp_id cp)) now d"
  obtain r d1 where p: "?args = (r, d1)" by (cases ?args)
  have "books d1 = books d"
    using poll_one_corp_same [of d "has_budget b" "kv_corp_contracts env (cp_id cp)" "cp_id cp" "cp_esi_corporation_id cp"
        interval "kv_jitter env (cp_id cp)" now]
    by (simp add: p same_books_iff)
  then show ?thesis by (simp add: corp_task_def p Let_def split: sum.split prod.split option.split)
qed

lemma match_books: "books (match_contracts env cids d) = books d"
proof -
  have "books (case run_one t r n cid d of Inl _ \<Rightarrow> d | Inr d' \<Rightarrow> d') = books d" for t r n cid d
    using run_one_same same_books_iff by (auto split: sum.split)
  then show ?thesis
    unfolding match_contracts_def run_for_contracts_def by (rule books_fold [where db_of = "\<lambda>d. d"])
qed

subsection \<open>Wallets\<close>

lemma upsert_divisions_books: "books (snd (upsert_divisions corp now ws d)) = books d"
  by (induction corp now ws d rule: upsert_divisions.induct)
    (auto simp: upsert_division_def Let_def split: sum.split if_splits)

lemma insert_entries_books: "books (snd (insert_entries js ids d)) = books d"
proof (induction js ids d rule: insert_entries.induct)
  case (2 j js ids d)
  show ?case
  proof (cases "insert_entry j d")
    case (Inr p)
    obtain new d1 where p: "p = (new, d1)" by (cases p)
    have "books d1 = books d" using Inr by (auto simp: p insert_entry_def split: if_splits)
    then show ?thesis using "2.IH" [OF Inr [unfolded p] refl] Inr by (simp add: p)
  qed simp
qed simp

lemma poll_divisions_books: "books (snd (poll_divisions reply corp chid now ws ids d)) = books d"
proof (induction reply corp chid now ws ids d rule: poll_divisions.induct)
  case (2 reply corp chid now w ws ids d)
  show ?case
  proof (cases "reply (ew_division w)")
    case (EsiOk es)
    obtain r d1 where i: "insert_entries (map (journal_row corp (ew_division w)) es) ids d = (r, d1)"
      by (cases "insert_entries (map (journal_row corp (ew_division w)) es) ids d")
    have "books d1 = books d" using insert_entries_books [of "map (journal_row corp (ew_division w)) es" ids d] i by simp
    then show ?thesis using "2.IH" [OF EsiOk i [symmetric]] EsiOk i by (auto split: sum.split)
  qed auto
qed simp

lemma poll_as_books: "books (snd (snd (poll_as env corp chid interval rnd now ws b d))) = books d"
proof -
  obtain r d1 where u: "upsert_divisions corp now ws d = (r, d1)" by (cases "upsert_divisions corp now ws d")
  obtain q d2 where p: "poll_divisions (we_journal env chid) corp chid now ws [] d1 = (q, d2)"
    by (cases "poll_divisions (we_journal env chid) corp chid now ws [] d1")
  have "books d1 = books d" "books d2 = books d1"
    using upsert_divisions_books [of corp now ws d] poll_divisions_books [of "we_journal env chid" corp chid now ws "[]" d1] u p
    by simp_all
  then show ?thesis
    by (auto simp: poll_as_def u p finish_poll_def Let_def advance_wallet_cursor_def split: sum.split journal_outcome.split)
qed

lemma try_wallets_books: "books (snd (snd (try_wallets env corp interval rnd now cas b d))) = books d"
  by (induction env corp interval rnd now cas b d rule: try_wallets.induct)
    (auto simp: advance_wallet_cursor_def poll_as_books split: esi_reply.split)

lemma poll_corps_books: "books (snd (snd (poll_corps env rnd interval now cps b d))) = books d"
proof (induction env rnd interval now cps b d rule: poll_corps.induct)
  case (2 env rnd interval now cp cps b d)
  obtain r b1 d1 where p: "poll_one_corp_wallet (env (cp_id cp)) (cp_id cp) interval (rnd (cp_id cp)) now b d = (r, b1, d1)"
    by (cases "poll_one_corp_wallet (env (cp_id cp)) (cp_id cp) interval (rnd (cp_id cp)) now b d")
  have "books (snd (snd (poll_one_corp_wallet (env (cp_id cp)) (cp_id cp) interval (rnd (cp_id cp)) now b d))) = books d"
    by (simp add: poll_one_corp_wallet_def Let_def try_wallets_books advance_wallet_cursor_def)
  then have "books d1 = books d" by (simp add: p)
  moreover obtain ids b2 d2 where q: "poll_corps env rnd interval now cps b1 d1 = (ids, b2, d2)"
    by (cases "poll_corps env rnd interval now cps b1 d1")
  moreover have "books (snd (snd (poll_corps env rnd interval now cps b1 d1))) = books d1"
    using "2.IH" [OF p [symmetric]] by simp
  ultimately show ?case by (simp add: p)
qed simp

section \<open>The whole system\<close>

text \<open>An event is a request, a tick of a job or the reset of the error budget, each taken as
  one step.\<close>

datatype event = Request lifecycle_op | Tick job_slot tick_env | Budget_Reset

fun system_step :: "worker_config \<Rightarrow> event \<Rightarrow> worker_state \<Rightarrow> worker_state" where
  "system_step cfg (Request oper) w = w \<lparr> ws_db := snd (tx_middleware (exec_op oper) (ws_db w)) \<rparr>"
| "system_step cfg (Tick slot t) w = run_slot slot cfg t w"
| "system_step cfg Budget_Reset w = w \<lparr> ws_budget := reset_budget (ws_budget w) \<rparr>"

text \<open>The jobs that move contracts and verify payouts are the only ones that write to the books.\<close>

fun quiet :: "event \<Rightarrow> bool" where
  "quiet (Request oper) \<longleftrightarrow> False"
| "quiet (Tick slot t) \<longleftrightarrow> slot \<notin> {Contracts, Corp_Contracts, Corp_Wallets}"
| "quiet Budget_Reset \<longleftrightarrow> True"

lemma on_db_db [simp]: "ws_db (on_db f w) = snd (f (ws_budget w, ws_db w))"
  by (cases "f (ws_budget w, ws_db w)") (simp add: on_db_def)

lemma quiet_books: "quiet ev \<Longrightarrow> books (ws_db (system_step cfg ev w)) = books (ws_db w)"
proof (cases ev)
  case (Tick slot t)
  assume "quiet ev"
  show ?thesis
  proof (cases slot)
    case Citadel_Details
    let ?run = "citadel_details (tk_citadel t) (pi_citadel_details (wc_poll_intervals cfg))
      (pi_structure_access_backoff (wc_poll_intervals cfg)) (tk_now t) (ws_regions w, ws_budget w, ws_db w)"
    obtain regions b d where run: "?run = (regions, b, d)" by (cases ?run)
    moreover have "books (snd (snd ?run)) = books (ws_db w)" by (simp add: details_books)
    ultimately show ?thesis by (simp add: Tick Citadel_Details)
  qed (use \<open>quiet ev\<close> in \<open>simp_all add: Tick npc_hubs_books discovery_books orders_books reencrypt_books\<close>)
qed simp_all

lemma books_money: "books d' = books d \<Longrightarrow> money_ok d \<Longrightarrow> money_ok d'"
  using same_books_money same_books_iff by blast

text \<open>What is kept by every operation of the transition system and only looks at the books is kept by
  every step of the system.\<close>

locale books_invariant =
  fixes J :: "db \<Rightarrow> bool"
  assumes books_J: "books d' = books d \<Longrightarrow> J d \<Longrightarrow> J d'"
    and exec_J: "J d \<Longrightarrow> exec_op oper d = Inr d' \<Longrightarrow> J d'"
begin

lemma request_J: "J d \<Longrightarrow> J (snd (tx_middleware (exec_op oper) d))"
  using exec_J by (auto simp: tx_middleware_def split: sum.split)

lemma handle_upserts_inv: "J d \<Longrightarrow> J (handle_upserts us now d)"
proof -
  have "J (if \<not> uc_status_changed u then d
      else case handle_contract_terminal u now d of Inl _ \<Rightarrow> d | Inr d' \<Rightarrow> d')" if "J d" for u d
    using that exec_J [OF that, of "HandleTerminal u now"] by (auto split: sum.split)
  then show "J d \<Longrightarrow> J (handle_upserts us now d)"
    unfolding handle_upserts_def by (induction us arbitrary: d) simp_all
qed

lemma fold_verify_inv: "J d \<Longrightarrow> J (fold (verify_one dv now) ids d)"
proof (induction ids arbitrary: d)
  case (Cons i ids)
  have "J (verify_one dv now i d)"
    using Cons.prems exec_J [OF Cons.prems, of "VerifyContract dv i now"] by (auto simp: verify_one_def split: sum.split)
  then show ?case using Cons.IH by simp
qed simp

lemma contracts_run_inv:
  assumes "J (snd st)"
  shows "J (snd (contracts_run env tick interval now st))"
proof -
  obtain b d where [simp]: "st = (b, d)" by (cases st)
  have pend: "books (snd (snd (sync_pending_items env now (b', d')))) = books d'" for b' d' by (simp add: sync_pending_books)
  have poll: "books (snd (snd (fold (character_task env interval now) chs ([], b, d)))) = books d" for chs
    using books_fold [where db_of = "\<lambda>s. snd (snd s)" and f = "character_task env interval now", OF character_task_books] by simp
  show ?thesis
  proof (cases "has_budget b \<and> eligible_characters d \<noteq> []")
    case True
    obtain ups b1 d1 where p: "fold (character_task env interval now) (due_characters tick interval now d) ([], b, d) = (ups, b1, d1)"
      by (cases "fold (character_task env interval now) (due_characters tick interval now d) ([], b, d)")
    obtain ids b2 d2 where q: "sync_pending_items env now (b1, d1) = (ids, b2, d2)" by (cases "sync_pending_items env now (b1, d1)")
    have "books d1 = books d" "books d2 = books d1" using poll [of "due_characters tick interval now d"] pend [of b1 d1] p q by simp_all
    then have "J (match_contracts env (remdups (map uc_contract_id ups @ ids)) d2)"
      using assms books_J match_books by (metis \<open>st = (b, d)\<close> snd_conv)
    then show ?thesis using True by (simp add: contracts_run_def p q handle_upserts_inv)
  next
    case False
    obtain ids b1 d1 where q: "sync_pending_items env now (b, d) = (ids, b1, d1)" by (cases "sync_pending_items env now (b, d)")
    have "books (match_contracts env ids d1) = books d" using pend [of b d] q match_books by simp
    then have "J (match_contracts env ids d1)" using books_J assms by simp
    then show ?thesis using False assms by (auto simp: contracts_run_def q)
  qed
qed

lemma corp_contracts_run_inv:
  assumes "J (snd st)"
  shows "J (snd (corp_contracts_run env tick interval now st))"
proof -
  obtain b d where [simp]: "st = (b, d)" by (cases st)
  obtain ups b1 d1 where p: "fold (corp_task env interval now) (due_corps tick interval now d) ([], b, d) = (ups, b1, d1)"
    by (cases "fold (corp_task env interval now) (due_corps tick interval now d) ([], b, d)")
  have "books d1 = books d"
    using books_fold [where db_of = "\<lambda>s. snd (snd s)" and f = "corp_task env interval now", OF corp_task_books,
        of "due_corps tick interval now d" "([], b, d)"] p by simp
  then have "books (match_contracts env (remdups (map uc_contract_id ups)) d1) = books d" using match_books by simp
  then have "J (match_contracts env (remdups (map uc_contract_id ups)) d1)" using books_J assms by simp
  then show ?thesis using assms by (simp add: corp_contracts_run_def p handle_upserts_inv)
qed

lemma corp_wallet_run_inv:
  assumes "J d"
  shows "J (snd (corp_wallet_run dv env rnd tick interval now b d))"
proof -
  obtain ids b1 d1 where p: "poll_corps env rnd interval now (due_wallet_corps tick interval now d) b d = (ids, b1, d1)"
    by (cases "poll_corps env rnd interval now (due_wallet_corps tick interval now d) b d")
  have "books d1 = books d" using poll_corps_books [of env rnd interval now "due_wallet_corps tick interval now d" b d] p by simp
  then have "J d1" using books_J assms by blast
  then show ?thesis using assms by (simp add: corp_wallet_run_def p fold_verify_inv)
qed

lemma system_step_inv:
  assumes "J (ws_db w)"
  shows "J (ws_db (system_step cfg ev w))"
proof (cases "quiet ev")
  case True
  then show ?thesis using books_J [OF quiet_books] assms by blast
next
  case False
  show ?thesis
  proof (cases ev)
    case (Request oper)
    then show ?thesis using request_J [OF assms] by simp
  next
    case (Tick slot t)
    show ?thesis
      using False assms contracts_run_inv [of "(ws_budget w, ws_db w)"] corp_contracts_run_inv [of "(ws_budget w, ws_db w)"]
        corp_wallet_run_inv [OF assms] by (auto simp: Tick)
  next
    case Budget_Reset
    then show ?thesis using False by simp
  qed
qed

end

interpretation books: books_invariant money_ok
  using books_money exec_op_money by unfold_locales blast+

section \<open>The driver\<close>

text \<open>What tokio documents of an \<^verbatim>\<open>Interval\<close> that delays missed ticks: a tick is served no earlier
  than its deadline, and the next deadline is a period after the tick, up to the five
  milliseconds that do not count as missed.\<close>

definition delays :: "(int \<Rightarrow> int \<Rightarrow> int \<Rightarrow> int \<times> int) \<Rightarrow> bool" where
  "delays ticker \<longleftrightarrow> (\<forall>period deadline now. now \<le> fst (ticker period deadline now)
     \<and> deadline \<le> fst (ticker period deadline now)
     \<and> fst (ticker period deadline now) + period - 5 \<le> snd (ticker period deadline now))"

lemma mk_interval_pos: "1000 \<le> mk_interval secs"
  by (simp add: mk_interval_def)

lemma drive_slot_after:
  assumes "delays ticker" "drive_slot n ticker secs run deadline now s = (log, s')"
  shows "length log = n \<and> (\<forall>x\<in>set (take 1 log). deadline \<le> fst x \<and> now \<le> fst x)"
  using assms(2)
proof (induction n arbitrary: deadline now s log s')
  case (Suc n)
  have "deadline \<le> fst (ticker (mk_interval secs) deadline now) \<and> now \<le> fst (ticker (mk_interval secs) deadline now)"
    using assms(1) by (simp add: delays_def)
  then show ?case using Suc by (auto split: prod.splits)
qed simp


definition demo_ticker :: "int \<Rightarrow> int \<Rightarrow> int \<Rightarrow> int \<times> int" where
  "demo_ticker period deadline now =
     (let at = max now deadline in (at, if deadline + 5 < at then at + period else deadline + period))"

lemma demo_ticker_delays: "delays demo_ticker"
  by (auto simp: delays_def demo_ticker_def Let_def max_def)

definition demo_run :: "int \<Rightarrow> nat \<Rightarrow> tick_outcome \<times> nat \<times> nat" where
  "demo_run at s = (if s = 0 then (Tick_Panic, 2500, 1) else (Tick_Ok, 10, Suc s))"


section \<open>The configuration\<close>

text \<open>A section that is present but empty is the same as one that is missing.\<close>

lemma empty_poll_intervals:
  "parse_poll_intervals (Some \<lparr> pi_market_prices = None, pi_contracts = None, pi_citadel_discovery = None,
     pi_citadel_details = None, pi_citadel_orders = None, pi_structure_access_backoff = None,
     pi_corp_contracts = None, pi_corp_wallet = None \<rparr>) = parse_poll_intervals None"
  by (simp add: parse_poll_intervals_def default_poll_intervals_def or_default_def)

lemma empty_worker_section:
  "parse_worker_section (Some \<lparr> wk_tick_secs = None, wk_citadel_discovery_missing_threshold = None,
     wk_citadel_details_concurrency = None, wk_citadel_orders_concurrency = None, wk_contracts_concurrency = None,
     wk_corp_contracts_concurrency = None, wk_corp_wallet_concurrency = None, wk_npc_hub_concurrency = None \<rparr>)
   = parse_worker_section None"
  by (simp add: parse_worker_section_def default_worker_section_def or_default_def)

end
