(* ===== verification/Server.thy ===== *)
theory Server
  imports Worker_Facts Auth
begin

text \<open>
  The API process (\<^verbatim>\<open>api/src/main.rs\<close>, \<^verbatim>\<open>config.rs\<close>, \<^verbatim>\<open>db.rs\<close>, \<^verbatim>\<open>turnstile.rs\<close>): its configuration
  with the default of every key, the layers a request passes through, with everything that can
  fail in them, the health probes and the captcha check.  The session store, the
  connection pool, the rate limiter and Cloudflare are given by their answers.
\<close>

section \<open>Configuration\<close>

record ('a, 'b) rate_limit_config =
  rl_disabled :: 'b
  rl_per_ip_burst :: 'a
  rl_per_ip_period_secs :: 'a
  rl_auth_burst :: 'a
  rl_auth_period_secs :: 'a

definition default_per_ip_burst :: int where "default_per_ip_burst = 30"
definition default_per_ip_period_secs :: int where "default_per_ip_period_secs = 1"
definition default_auth_burst :: int where "default_auth_burst = 5"
definition default_auth_period_secs :: int where "default_auth_period_secs = 10"

definition default_rate_limit :: "(int, bool) rate_limit_config" where
  "default_rate_limit =
     \<lparr> rl_disabled = False, rl_per_ip_burst = default_per_ip_burst, rl_per_ip_period_secs = default_per_ip_period_secs,
       rl_auth_burst = default_auth_burst, rl_auth_period_secs = default_auth_period_secs \<rparr>"

definition parse_rate_limit :: "(int option, bool option) rate_limit_config option \<Rightarrow> (int, bool) rate_limit_config" where
  "parse_rate_limit sec =
     (case sec of None \<Rightarrow> default_rate_limit
      | Some r \<Rightarrow>
         \<lparr> rl_disabled = or_default (rl_disabled r) False,
           rl_per_ip_burst = or_default (rl_per_ip_burst r) default_per_ip_burst,
           rl_per_ip_period_secs = or_default (rl_per_ip_period_secs r) default_per_ip_period_secs,
           rl_auth_burst = or_default (rl_auth_burst r) default_auth_burst,
           rl_auth_period_secs = or_default (rl_auth_period_secs r) default_auth_period_secs \<rparr>)"

record 'a abuse_limits =
  al_groups_per_user :: 'a
  al_lists_per_group :: 'a
  al_items_per_list :: 'a
  al_characters_per_user :: 'a

definition default_groups_per_user :: int where "default_groups_per_user = 10"
definition default_lists_per_group :: int where "default_lists_per_group = 200"
definition default_items_per_list :: int where "default_items_per_list = 500"
definition default_characters_per_user :: int where "default_characters_per_user = 12"

definition default_abuse_limits :: "int abuse_limits" where
  "default_abuse_limits =
     \<lparr> al_groups_per_user = default_groups_per_user, al_lists_per_group = default_lists_per_group,
       al_items_per_list = default_items_per_list, al_characters_per_user = default_characters_per_user \<rparr>"

definition parse_abuse_limits :: "int option abuse_limits option \<Rightarrow> int abuse_limits" where
  "parse_abuse_limits sec =
     (case sec of None \<Rightarrow> default_abuse_limits
      | Some r \<Rightarrow>
         \<lparr> al_groups_per_user = or_default (al_groups_per_user r) default_groups_per_user,
           al_lists_per_group = or_default (al_lists_per_group r) default_lists_per_group,
           al_items_per_list = or_default (al_items_per_list r) default_items_per_list,
           al_characters_per_user = or_default (al_characters_per_user r) default_characters_per_user \<rparr>)"

definition default_login_scopes :: "string list" where
  "default_login_scopes = [''publicData'']"

definition default_cookie_secure :: bool where
  "default_cookie_secure = True"

text \<open>The part of the configuration that the login handlers use.\<close>

definition sso_config_of ::
  "string list option \<Rightarrow> string list option \<Rightarrow> string \<Rightarrow> bool option \<Rightarrow> int option abuse_limits option \<Rightarrow> sso_config" where
  "sso_config_of login_sc upgrade_sc callback_url turnstile_disabled limits =
     \<lparr> sc_login_scopes = or_default login_sc default_login_scopes, sc_upgrade_scopes = or_default upgrade_sc [],
       sc_callback_url = callback_url, sc_turnstile_disabled = or_default turnstile_disabled False,
       sc_characters_per_user = al_characters_per_user (parse_abuse_limits limits) \<rparr>"

section \<open>Captcha\<close>

definition SITEVERIFY_URL :: string where
  "SITEVERIFY_URL = ''https://challenges.cloudflare.com/turnstile/v0/siteverify''"

record verify_response =
  vr_success :: bool
  vr_error_codes :: "string list"

text \<open>\<open>post url form\<close> is the request: no answer for a network error, an error status or a body
  that cannot be read.\<close>

definition verify_at ::
  "(string \<Rightarrow> (string \<times> string) list \<Rightarrow> verify_response option) \<Rightarrow> string \<Rightarrow> string \<Rightarrow> string \<Rightarrow> string option \<Rightarrow>
     verify_response option" where
  "verify_at post url secret token ip =
     post url ([(''secret'', secret), (''response'', token)] @
       (case ip of None \<Rightarrow> [] | Some a \<Rightarrow> [(''remoteip'', a)]))"

definition verify ::
  "(string \<Rightarrow> (string \<times> string) list \<Rightarrow> verify_response option) \<Rightarrow> string \<Rightarrow> string \<Rightarrow> string option \<Rightarrow> verify_response option" where
  "verify post secret token ip = verify_at post SITEVERIFY_URL secret token ip"

section \<open>The layers around a handler\<close>

text \<open>What can happen to one request: the session (\<open>None\<close>: it cannot be read), whether a
  transaction can be begun, given its caller and finished, and the answers of the two rate limiters.\<close>

record request_env =
  re_session :: "uuid option option"
  re_begin :: bool
  re_set_config :: bool
  re_finish :: bool
  re_auth_allowed :: bool
  re_ip_allowed :: bool

definition is_success :: "nat \<Rightarrow> bool" where
  "is_success st \<longleftrightarrow> 200 \<le> st \<and> st < 300"

text \<open>\<^verbatim>\<open>tx_middleware\<close> around \<open>next\<close>, which gets the caller and the state inside the transaction and
  gives a status and a state.  The result is the status, the committed state and the number
  of transactions opened.  A failing commit is only logged.\<close>

definition tx_layer :: "request_env \<Rightarrow> (uuid option \<Rightarrow> db \<Rightarrow> nat \<times> db) \<Rightarrow> db \<Rightarrow> nat \<times> db \<times> nat" where
  "tx_layer env nxt d =
     (case re_session env of None \<Rightarrow> (500, d, 0)
      | Some caller \<Rightarrow>
          if \<not> re_begin env then (500, d, 0)
          else if \<not> re_set_config env then (500, d, 1)
          else (case nxt caller d of (st, d') \<Rightarrow>
                  (st, if is_success st \<and> re_finish env then d' else d, 1)))"

definition limit_layer :: "bool \<Rightarrow> bool \<Rightarrow> (uuid option \<Rightarrow> db \<Rightarrow> nat \<times> db) \<Rightarrow> uuid option \<Rightarrow> db \<Rightarrow> nat \<times> db" where
  "limit_layer disabled allowed h caller d = (if disabled \<or> allowed then h caller d else (429, d))"

datatype route_group = Auth_Routes | Other_Routes

fun serve ::
  "(int, bool) rate_limit_config \<Rightarrow> request_env \<Rightarrow> route_group \<Rightarrow> (uuid option \<Rightarrow> db \<Rightarrow> nat \<times> db) \<Rightarrow> db \<Rightarrow> nat \<times> db \<times> nat" where
  "serve rl env Auth_Routes h d = tx_layer env (limit_layer (rl_disabled rl) (re_auth_allowed env) h) d"
| "serve rl env Other_Routes h d = tx_layer env (limit_layer (rl_disabled rl) (re_ip_allowed env) h) d"

text \<open>A handler's result as a response.\<close>

definition respond :: "(uuid option \<Rightarrow> db \<Rightarrow> db res) \<Rightarrow> uuid option \<Rightarrow> db \<Rightarrow> nat \<times> db" where
  "respond h caller d = (case h caller d of Inl e \<Rightarrow> (status_code e, d) | Inr d' \<Rightarrow> (200, d'))"

section \<open>Health probes\<close>

record pool_state =
  po_reachable :: bool
  po_size :: nat
  po_idle :: nat
  po_max :: nat

definition healthz :: "pool_state \<Rightarrow> nat \<times> string \<times> bool" where
  "healthz p = (200, if po_reachable p then ''ok'' else ''degraded'', po_reachable p)"

definition readyz :: "pool_state \<Rightarrow> nat \<times> bool" where
  "readyz p =
     (let ready = (po_reachable p \<and> (0 < po_idle p \<or> po_size p < po_max p))
      in (if ready then 200 else 503, ready))"

section \<open>Facts\<close>

lemma error_not_success: "\<not> is_success (status_code e)"
  by (cases e) (simp_all add: is_success_def)

lemma serve_layer:
  obtains allowed where "serve rl env g h d = tx_layer env (limit_layer (rl_disabled rl) allowed h) d"
  by (cases g) auto

text \<open>Without failures and within the rate limit the request is the transaction that the other
  theories use.\<close>

lemma serve_calm:
  assumes "re_session env = Some caller" "re_begin env" "re_set_config env" "re_finish env" "re_auth_allowed env" "re_ip_allowed env"
  shows "serve rl env g (respond h) d = (case tx_middleware (h caller) d of (st, d') \<Rightarrow> (st, d', 1))"
  using assms error_not_success
  by (cases g) (auto simp: tx_layer_def limit_layer_def respond_def tx_middleware_def is_success_def split: sum.split)


definition demo_calm :: request_env where
  "demo_calm = \<lparr> re_session = Some (Some 2), re_begin = True, re_set_config = True, re_finish = True,
     re_auth_allowed = True, re_ip_allowed = True \<rparr>"

definition demo_handler :: "uuid option \<Rightarrow> db \<Rightarrow> nat \<times> db" where
  "demo_handler = respond (\<lambda>caller. exec_op (UnlinkContract caller 500 6))"


text \<open>Two things the layers do not promise.  A commit that fails is answered as a success, with nothing
  stored; and a request the rate limiter turns away has opened a transaction by then, since the
  limiter is the inner layer.\<close>

lemma failed_commit_answered_as_success:
  assumes "re_session env = Some caller" "re_begin env" "re_set_config env" "\<not> re_finish env" "h caller d = (200, d')"
    "rl_disabled rl"
  shows "serve rl env g h d = (200, d, 1)"
  using assms by (cases g) (simp_all add: tx_layer_def limit_layer_def)

lemma rejected_request_opens_transaction:
  assumes "re_session env = Some caller" "re_begin env" "re_set_config env" "\<not> re_auth_allowed env" "\<not> rl_disabled rl"
  shows "serve rl env Auth_Routes h d = (429, d, 1)"
  using assms by (simp add: tx_layer_def limit_layer_def is_success_def)

text \<open>The books also survive requests whose layers fail.\<close>

lemma serve_keeps_books:
  assumes "money_ok d" "serve rl env g (respond (\<lambda>caller. exec_op (oper caller))) d = (st, d', n)"
  shows "money_ok d'"
proof -
  obtain allowed where l: "tx_layer env (limit_layer (rl_disabled rl) allowed (respond (\<lambda>caller. exec_op (oper caller)))) d = (st, d', n)"
    using serve_layer assms(2) by metis
  have "money_ok s" if "exec_op (oper caller) d = Inr s" for caller s
    using exec_op_money [OF assms(1) that] .
  with l assms(1) show ?thesis
    by (auto simp: tx_layer_def limit_layer_def respond_def is_success_def split: option.splits sum.splits if_splits)
qed

text \<open>A probe that is ready has a connection for the next request, at once or by opening one.\<close>

lemma readyz_ok_iff: "fst (readyz p) = 200 \<longleftrightarrow> po_reachable p \<and> (po_idle p = 0 \<longrightarrow> po_size p < po_max p)"
  by (auto simp: readyz_def Let_def)

end
