(* ===== verification/Jwks.thy ===== *)
theory Jwks
  imports Auth
begin

text \<open>
  Verification of EVE's access tokens (\<^verbatim>\<open>api/src/jwt.rs\<close>): the cached key set, fetched again
  when a token names a key that is not in it, one fetch at a time.  Signatures and the
  reading of tokens are the \<^verbatim>\<open>jsonwebtoken\<close> library's (\<open>jwt_lib\<close>); the key server is given by its
  answers.
\<close>

definition EVE_ISSUER_HOST :: string where "EVE_ISSUER_HOST = ''login.eveonline.com''"
definition EVE_ISSUER_URL :: string where "EVE_ISSUER_URL = ''https://login.eveonline.com''"

record jwk =
  jk_kid :: "string option"
  jk_alg :: "string option"
  jk_material :: string

record jwt_lib =
  jl_header_kid :: "string \<Rightarrow> string option option"   \<comment> \<open>\<open>None\<close>: malformed header\<close>
  jl_usable :: "jwk \<Rightarrow> bool"
  jl_supported :: "string \<Rightarrow> bool"
  jl_decode :: "string \<Rightarrow> jwk \<Rightarrow> string \<Rightarrow> string list \<Rightarrow> string list \<Rightarrow> eve_claims option"

definition jwks_find :: "jwk list \<Rightarrow> string \<Rightarrow> jwk option" where
  "jwks_find keys kid = find (\<lambda>k. jk_kid k = Some kid) keys"

definition cached_key :: "jwk list option \<Rightarrow> string \<Rightarrow> jwk option" where
  "cached_key cache kid = (case cache of None \<Rightarrow> None | Some keys \<Rightarrow> jwks_find keys kid)"

text \<open>The part of \<^verbatim>\<open>key_for\<close> behind the gate: the cache is looked at again, then the key server is
  asked.  \<open>answers n\<close> is its answer to the \<open>n\<close>-th fetch; the state is the cache and the number of
  fetches so far.\<close>

definition behind_gate ::
  "(nat \<Rightarrow> jwk list option) \<Rightarrow> string \<Rightarrow> jwk list option \<times> nat \<Rightarrow> jwk option \<times> jwk list option \<times> nat" where
  "behind_gate answers kid st =
     (case st of (cache, n) \<Rightarrow>
        (case cached_key cache kid of
           Some k \<Rightarrow> (Some k, cache, n)
         | None \<Rightarrow> (case answers n of
             None \<Rightarrow> (None, cache, Suc n)
           | Some fresh \<Rightarrow> (case jwks_find fresh kid of
               None \<Rightarrow> (None, cache, Suc n)
             | Some k \<Rightarrow> (Some k, Some fresh, Suc n)))))"

definition key_for ::
  "(nat \<Rightarrow> jwk list option) \<Rightarrow> string \<Rightarrow> jwk list option \<times> nat \<Rightarrow> jwk option \<times> jwk list option \<times> nat" where
  "key_for answers kid st =
     (case cached_key (fst st) kid of Some k \<Rightarrow> (Some k, st) | None \<Rightarrow> behind_gate answers kid st)"

definition verify_token ::
  "jwt_lib \<Rightarrow> (nat \<Rightarrow> jwk list option) \<Rightarrow> string \<Rightarrow> string \<Rightarrow> jwk list option \<times> nat \<Rightarrow> eve_claims option \<times> jwk list option \<times> nat" where
  "verify_token lib answers audience token st =
     (case jl_header_kid lib token of None \<Rightarrow> (None, st) | Some None \<Rightarrow> (None, st)
      | Some (Some kid) \<Rightarrow>
         (case key_for answers kid st of
            (None, st') \<Rightarrow> (None, st')
          | (Some k, st') \<Rightarrow>
              (if \<not> jl_usable lib k then None
               else case jk_alg k of None \<Rightarrow> None
                 | Some alg \<Rightarrow> if \<not> jl_supported lib alg then None
                     else jl_decode lib token k alg [EVE_ISSUER_URL, EVE_ISSUER_HOST] [audience, ''EVE Online''], st')))"

text \<open>Requests that all missed the cache wait at the gate and pass one after the other.\<close>

fun through_gate ::
  "(nat \<Rightarrow> jwk list option) \<Rightarrow> string list \<Rightarrow> jwk list option \<times> nat \<Rightarrow> jwk option list \<times> jwk list option \<times> nat" where
  "through_gate answers [] st = ([], st)"
| "through_gate answers (kid # kids) st =
     (case behind_gate answers kid st of (k, st') \<Rightarrow>
      (case through_gate answers kids st' of (ks, st'') \<Rightarrow> (k # ks, st'')))"

fun verify_all :: "jwt_lib \<Rightarrow> (nat \<Rightarrow> jwk list option) \<Rightarrow> string \<Rightarrow> string list \<Rightarrow> jwk list option \<times> nat \<Rightarrow>
     eve_claims option list \<times> jwk list option \<times> nat" where
  "verify_all lib answers audience [] st = ([], st)"
| "verify_all lib answers audience (t # ts) st =
     (case verify_token lib answers audience t st of (c, st') \<Rightarrow>
      (case verify_all lib answers audience ts st' of (cs, st'') \<Rightarrow> (c # cs, st'')))"

section \<open>Facts\<close>

lemma jwks_find_in: "jwks_find keys kid = Some k \<Longrightarrow> k \<in> set keys \<and> jk_kid k = Some kid"
  by (auto simp: jwks_find_def find_Some_iff)

text \<open>The cache holds an answer of the key server.\<close>

definition cache_ok :: "(nat \<Rightarrow> jwk list option) \<Rightarrow> jwk list option \<times> nat \<Rightarrow> bool" where
  "cache_ok answers st \<longleftrightarrow> (case fst st of None \<Rightarrow> True | Some keys \<Rightarrow> \<exists>m<snd st. answers m = Some keys)"

lemma behind_gate_sound:
  assumes "cache_ok answers st" "behind_gate answers kid st = (r, st')"
  shows "cache_ok answers st' \<and> (\<forall>k. r = Some k \<longrightarrow> jk_kid k = Some kid \<and> (\<exists>m<snd st'. \<exists>keys. answers m = Some keys \<and> k \<in> set keys))"
proof (cases st)
  case (Pair cache n)
  then show ?thesis
    using assms unfolding behind_gate_def cache_ok_def cached_key_def
    by (auto split: option.splits dest!: jwks_find_in) (use less_SucI in blast)+
qed

lemma key_for_eq: "key_for answers kid st = behind_gate answers kid st"
  by (cases st) (simp add: key_for_def behind_gate_def split: option.split)

text \<open>A token is accepted only when it decodes, with EVE as issuer and this client as audience, under
  the key its header names, which the key server published.\<close>

lemma verify_token_sound:
  assumes "cache_ok answers st" "verify_token lib answers audience token st = (c, st')"
  shows "cache_ok answers st' \<and> (\<forall>cl. c = Some cl \<longrightarrow>
    (\<exists>kid k m keys alg. jl_header_kid lib token = Some (Some kid) \<and> answers m = Some keys \<and> k \<in> set keys \<and> jk_kid k = Some kid
       \<and> jk_alg k = Some alg \<and> jl_decode lib token k alg [EVE_ISSUER_URL, EVE_ISSUER_HOST] [audience, ''EVE Online''] = Some cl))"
proof (cases "jl_header_kid lib token")
  case None
  then show ?thesis using assms by (simp add: verify_token_def)
next
  case (Some h)
  show ?thesis
  proof (cases h)
    case None
    then show ?thesis using assms Some by (simp add: verify_token_def)
  next
    case (Some kid)
    obtain r st1 where g: "behind_gate answers kid st = (r, st1)" by (cases "behind_gate answers kid st")
    have eq: "verify_token lib answers audience token st = (case r of None \<Rightarrow> (None, st1) | Some k \<Rightarrow>
        (if \<not> jl_usable lib k then None else case jk_alg k of None \<Rightarrow> None
         | Some alg \<Rightarrow> if \<not> jl_supported lib alg then None
             else jl_decode lib token k alg [EVE_ISSUER_URL, EVE_ISSUER_HOST] [audience, ''EVE Online''], st1))"
      using \<open>jl_header_kid lib token = Some h\<close> Some g by (simp add: verify_token_def key_for_eq split: option.split)
    show ?thesis
    proof (cases r)
      case None
      then show ?thesis using behind_gate_sound [OF assms(1) g] assms(2) eq by auto
    next
      case k: (Some k)
      obtain m keys where "answers m = Some keys" "k \<in> set keys" "jk_kid k = Some kid" "cache_ok answers st1"
        using behind_gate_sound [OF assms(1) g] k by blast
      then show ?thesis
        using \<open>jl_header_kid lib token = Some h\<close> Some assms(2) eq k by (auto split: if_splits option.splits)
    qed
  qed
qed

lemma verify_all_sound:
  "cache_ok answers st \<Longrightarrow> verify_all lib answers audience ts st = (cs, st') \<Longrightarrow>
   list_all2 (\<lambda>token c. \<forall>cl. c = Some cl \<longrightarrow> (\<exists>kid k m keys alg. jl_header_kid lib token = Some (Some kid)
      \<and> answers m = Some keys \<and> k \<in> set keys \<and> jk_kid k = Some kid \<and> jk_alg k = Some alg
      \<and> jl_decode lib token k alg [EVE_ISSUER_URL, EVE_ISSUER_HOST] [audience, ''EVE Online''] = Some cl)) ts cs"
proof (induction ts arbitrary: st cs)
  case (Cons t ts)
  obtain c st1 where v: "verify_token lib answers audience t st = (c, st1)" by (cases "verify_token lib answers audience t st")
  obtain cs' st2 where r: "verify_all lib answers audience ts st1 = (cs', st2)" by (cases "verify_all lib answers audience ts st1")
  note one = verify_token_sound [OF Cons.prems(1) v]
  have res: "cs = c # cs'" "st' = st2" using Cons.prems(2) v r by simp_all
  show ?case using one Cons.IH [OF conjunct1 [OF one] r [folded res(2)]] unfolding res(1) by simp
qed simp

text \<open>Once the fetched set is cached, nobody who waits and whose key is in it fetches again.\<close>

lemma gate_cached:
  "\<forall>kid\<in>set kids. jwks_find fresh kid \<noteq> None \<Longrightarrow> through_gate answers kids (Some fresh, n) = (map (jwks_find fresh) kids, Some fresh, n)"
  by (induction kids) (auto simp: behind_gate_def cached_key_def)

text \<open>One fetch serves all.  However many requests miss the cache at the same time, when the
  next answer of the key server has the keys they need all of them get a key and the server is
  asked once at most; with an empty cache, exactly once.\<close>

theorem jwks_single_flight:
  assumes "answers n = Some fresh" "\<forall>kid\<in>set kids. jwks_find fresh kid \<noteq> None"
    "through_gate answers kids (cache, n) = (ks, cache', n')"
  shows "None \<notin> set ks \<and> length ks = length kids \<and> n' \<le> Suc n \<and> (cache = None \<and> kids \<noteq> [] \<longrightarrow> n' = Suc n \<and> ks = map (jwks_find fresh) kids)"
  using assms(2,3)
proof (induction kids arbitrary: ks)
  case (Cons kid kids)
  show ?case
  proof (cases "cached_key cache kid")
    case None
    obtain k where "jwks_find fresh kid = Some k" using Cons.prems(1) by auto
    then have "ks = map (jwks_find fresh) (kid # kids)" "n' = Suc n"
      using None Cons.prems gate_cached [of kids fresh answers "Suc n"] assms(1) by (auto simp: behind_gate_def)
    moreover have "None \<notin> set (map (jwks_find fresh) (kid # kids))" using Cons.prems(1) by (auto simp: image_iff)
    ultimately show ?thesis by (metis le_refl length_map)
  next
    case (Some k)
    obtain ks' where t: "through_gate answers kids (cache, n) = (ks', cache', n')" "ks = Some k # ks'"
      using Some Cons.prems(2) by (auto simp: behind_gate_def split: prod.splits)
    have "cache \<noteq> None" using Some by (auto simp: cached_key_def split: option.splits)
    then show ?thesis using Cons.IH [OF _ t(1)] Cons.prems(1) t(2) by auto
  qed
qed simp

definition demo_jwk :: "string \<Rightarrow> jwk" where
  "demo_jwk kid = \<lparr> jk_kid = Some kid, jk_alg = Some ''RS256'', jk_material = kid \<rparr>"

theorem jwks_single_flight_witness:
  "\<exists>ks cache'. through_gate (\<lambda>_. Some [demo_jwk ''a'', demo_jwk ''b'']) [''b'', ''a'', ''b''] (None, 0) = (ks, cache', 1)
     \<and> ks = [Some (demo_jwk ''b''), Some (demo_jwk ''a''), Some (demo_jwk ''b'')]"
proof -
  let ?fresh = "[demo_jwk ''a'', demo_jwk ''b'']" and ?kids = "[''b'', ''a'', ''b'']"
  have found: "map (jwks_find ?fresh) ?kids = [Some (demo_jwk ''b''), Some (demo_jwk ''a''), Some (demo_jwk ''b'')]"
    by (simp add: jwks_find_def demo_jwk_def)
  then have all: "\<forall>kid\<in>set ?kids. jwks_find ?fresh kid \<noteq> None" by simp
  obtain ks cache' n' where t: "through_gate (\<lambda>_. Some ?fresh) ?kids (None, 0) = (ks, cache', n')"
    by (cases "through_gate (\<lambda>_. Some ?fresh) ?kids (None, 0)")
  have "n' = 1 \<and> ks = map (jwks_find ?fresh) ?kids" using jwks_single_flight [OF refl all t] by simp
  then show ?thesis using t found by auto
qed

end
