(* ===== verification/Deletion_Facts.thy ===== *)
theory Deletion_Facts
  imports Group_Facts
begin

text \<open>
  Deleting a list or a group keeps the books of everything that is left.  What is needed besides
  sound books is that claims stay on their list (\<open>claims_local\<close>), which the claim handlers check:
  otherwise the cascade over claims would take the claim of an item on another list.
\<close>

definition claims_local :: "db \<Rightarrow> bool" where
  "claims_local d \<longleftrightarrow> (\<forall>ci\<in>set (claim_items d). \<forall>c\<in>set (claims d). \<forall>i\<in>set (list_items d).
     c_id c = ci_claim_id ci \<and> li_id i = ci_list_item_id ci \<longrightarrow> c_list_id c = li_list_id i)"

section \<open>The tables after deleting a list\<close>

lemma deleted_frame:
  "principals (delete_list_rows lid d) = principals d" "memberships (delete_list_rows lid d) = memberships d"
  "groups (delete_list_rows lid d) = groups d"
  by (simp_all add: delete_list_rows_def Let_def)

lemma deleted_principals:
  "user_principal (delete_list_rows lid d) = user_principal d" "corp_principal (delete_list_rows lid d) = corp_principal d"
  "payer_principal (delete_list_rows lid d) = payer_principal d"
  using user_principal_cong [OF deleted_frame(1)] corp_principal_cong [OF deleted_frame(1)] payer_principal_cong [OF deleted_frame(1)]
  by auto

lemma deleted_payer: "list_payer (delete_list_rows lid d) x = (if x = lid then None else list_payer d x)"
proof -
  have "find (\<lambda>l. l_id l = x) (filter (\<lambda>l. l_id l \<noteq> lid) ls) = (if x = lid then None else find (\<lambda>l. l_id l = x) ls)"
    for ls :: "shopping_list list"
    by (induction ls) auto
  then show ?thesis by (simp add: list_payer_def find_list_def delete_list_rows_tables)
qed

lemma deleted_cycle: "x \<noteq> lid \<Longrightarrow> cycle_key (delete_list_rows lid d) x u h = cycle_key d x u h"
  by (simp add: cycle_key_eq deleted_payer deleted_principals split: option.split)

text \<open>A fulfillment is left exactly when its item is, but may lose the reference to its claim.\<close>

definition unclaimed :: "fulfillment \<Rightarrow> fulfillment" where
  "unclaimed f = f \<lparr> f_claim_id := None \<rparr>"

lemma unclaimed_sel [simp]:
  "f_id (unclaimed f) = f_id f" "f_qty (unclaimed f) = f_qty f" "f_list_item_id (unclaimed f) = f_list_item_id f"
  "f_unit_price_isk (unclaimed f) = f_unit_price_isk f" "f_reversed_at (unclaimed f) = f_reversed_at f"
  "f_hauler_user_id (unclaimed f) = f_hauler_user_id f"
  by (simp_all add: unclaimed_def)

lemma deleted_fulfillments:
  obtains P where "fulfillments (delete_list_rows lid d)
    = upd_where P unclaimed (filter (\<lambda>f. f_list_item_id f \<notin> li_id ` {i \<in> set (list_items d). li_list_id i = lid}) (fulfillments d))"
proof
  show "fulfillments (delete_list_rows lid d)
    = upd_where (\<lambda>f. \<exists>c\<in>set (map c_id (filter (\<lambda>c. c_list_id c = lid) (claims d))). f_claim_id f = Some c) unclaimed
        (filter (\<lambda>f. f_list_item_id f \<notin> li_id ` {i \<in> set (list_items d). li_list_id i = lid}) (fulfillments d))"
    by (simp add: delete_list_rows_def Let_def del_where_def unclaimed_def [abs_def])
qed

lemma sum_where_filter:
  "(\<And>r. r \<in> set rs \<Longrightarrow> P r \<Longrightarrow> Q r) \<Longrightarrow> sum_where P f (filter Q rs) = sum_where P f rs"
  by (induction rs) auto

lemma deleted_sum:
  assumes "\<And>f. P (unclaimed f) = P f" "\<And>f. g (unclaimed f) = g f"
    and "\<And>f i. P f \<Longrightarrow> i \<in> set (list_items d) \<Longrightarrow> li_id i = f_list_item_id f \<Longrightarrow> li_list_id i \<noteq> lid"
  shows "sum_where P g (fulfillments (delete_list_rows lid d)) = sum_where P g (fulfillments d)"
proof -
  obtain Q where "fulfillments (delete_list_rows lid d)
    = upd_where Q unclaimed (filter (\<lambda>f. f_list_item_id f \<notin> li_id ` {i \<in> set (list_items d). li_list_id i = lid}) (fulfillments d))"
    by (rule deleted_fulfillments)
  moreover have "sum_where P g (upd_where Q unclaimed fs) = sum_where P g fs" for fs
    unfolding sum_where_upd_where by (rule sum_where_cong) (use assms(1,2) in auto)
  moreover have "f_list_item_id f \<notin> li_id ` {i \<in> set (list_items d). li_list_id i = lid}" if "P f" for f
    using assms(3) [OF that] by force
  ultimately show ?thesis by (simp add: sum_where_filter)
qed

lemma deleted_fulfillmentE:
  assumes "f \<in> set (fulfillments (delete_list_rows lid d))"
  obtains f0 where "f0 \<in> set (fulfillments d)" "f = f0 \<or> f = unclaimed f0"
    "\<And>i. i \<in> set (list_items d) \<Longrightarrow> li_id i = f_list_item_id f \<Longrightarrow> li_list_id i \<noteq> lid"
proof -
  obtain Q where "fulfillments (delete_list_rows lid d)
    = upd_where Q unclaimed (filter (\<lambda>f. f_list_item_id f \<notin> li_id ` {i \<in> set (list_items d). li_list_id i = lid}) (fulfillments d))"
    by (rule deleted_fulfillments)
  then obtain f0 where "f0 \<in> set (fulfillments d)" "f = (if Q f0 then unclaimed f0 else f0)"
    "f_list_item_id f0 \<notin> li_id ` {i \<in> set (list_items d). li_list_id i = lid}"
    using assms by (auto elim!: in_upd_whereE)
  moreover have "li_list_id i \<noteq> lid" if "i \<in> set (list_items d)" "li_id i = f_list_item_id f" for i
    using calculation that by (force split: if_splits)
  ultimately show ?thesis using that [of f0] by (auto split: if_splits)
qed

section \<open>The books of what is left\<close>

lemma deleted_items_iff: "i \<in> set (list_items (delete_list_rows lid d)) \<longleftrightarrow> i \<in> set (list_items d) \<and> li_list_id i \<noteq> lid"
  by (simp add: delete_list_rows_tables)

lemma deleted_claim_items:
  "ci \<in> set (claim_items (delete_list_rows lid d)) \<longleftrightarrow> ci \<in> set (claim_items d)
     \<and> (\<forall>c\<in>set (claims d). c_list_id c = lid \<longrightarrow> c_id c \<noteq> ci_claim_id ci)
     \<and> (\<forall>i\<in>set (list_items d). li_list_id i = lid \<longrightarrow> li_id i \<noteq> ci_list_item_id ci)"
  by (auto simp: delete_list_rows_def Let_def image_iff)

lemma deleted_qty:
  assumes "distinct (map li_id (list_items d))" "i \<in> set (list_items d)" "li_list_id i \<noteq> lid"
  shows "fulfilled_qty (delete_list_rows lid d) (li_id i) = fulfilled_qty d (li_id i)"
  unfolding fulfilled_qty_def
proof (rule deleted_sum)
  fix f j assume "f_list_item_id f = li_id i \<and> f_reversed_at f = None" "j \<in> set (list_items d)" "li_id j = f_list_item_id f"
  then have "i = j" by (intro distinct_map_unique [OF assms(1,2)]) simp_all
  then show "li_list_id j \<noteq> lid" using assms(3) by simp
qed simp_all

lemma deleted_active:
  assumes "life_inv d" "claims_local d" "i \<in> set (list_items d)" "li_list_id i \<noteq> lid"
  shows "has_active_claim (delete_list_rows lid d) (li_id i) = has_active_claim d (li_id i)"
proof -
  have items: "distinct (map li_id (list_items d))" using life_invD(3) [OF assms(1)] by (simp add: items_ok_def)
  have "ci \<in> set (claim_items (delete_list_rows lid d))" if ci: "ci \<in> set (claim_items d)" "ci_list_item_id ci = li_id i" for ci
    unfolding deleted_claim_items
  proof (intro conjI ballI impI notI)
    fix c assume "c \<in> set (claims d)" "c_list_id c = lid" "c_id c = ci_claim_id ci"
    then show False using assms(2-4) ci unfolding claims_local_def by metis
  next
    fix j assume "j \<in> set (list_items d)" "li_list_id j = lid" "li_id j = ci_list_item_id ci"
    moreover from this have "i = j" by (intro distinct_map_unique [OF items assms(3)]) (simp_all add: ci(2))
    ultimately show False using assms(4) by simp
  qed (rule ci(1))
  then show ?thesis by (auto simp: has_active_claim_def deleted_claim_items)
qed

lemma deleted_items_ok:
  assumes "life_inv d" "claims_local d"
  shows "items_ok (delete_list_rows lid d)"
proof -
  have ok: "distinct (map li_id (list_items d))" "\<And>i. i \<in> set (list_items d) \<Longrightarrow> item_ok d i"
    using life_invD(3) [OF assms(1)] by (simp_all add: items_ok_def)
  have "item_ok (delete_list_rows lid d) i" if "i \<in> set (list_items d)" "li_list_id i \<noteq> lid" for i
  proof -
    have "base_status (delete_list_rows lid d) i = base_status d i"
      by (simp add: base_status_def deleted_qty [OF ok(1) that] deleted_active [OF assms that])
    then show ?thesis using ok(2) [OF that(1)] by (simp add: item_ok_def deleted_qty [OF ok(1) that])
  qed
  then show ?thesis using ok(1) by (simp add: items_ok_def delete_list_rows_tables distinct_map_filter)
qed

lemma deleted_claims_ok:
  assumes "claims_ok d"
  shows "claims_ok (delete_list_rows lid d)"
proof -
  let ?key = "\<lambda>ci. (ci_claim_id ci, ci_list_item_id ci)"
  have "distinct (map ?key (claim_items (delete_list_rows lid d)))"
    using assms by (auto simp: claims_ok_def delete_list_rows_def Let_def)
  moreover have "\<exists>c\<in>set (claims (delete_list_rows lid d)). c_id c = ci_claim_id ci \<and> (ci_active ci \<longleftrightarrow> c_status c = CActive)"
    if ci: "ci \<in> set (claim_items (delete_list_rows lid d))" for ci
  proof -
    obtain c where "c \<in> set (claims d)" "c_id c = ci_claim_id ci" "ci_active ci \<longleftrightarrow> c_status c = CActive"
      using assms ci unfolding claims_ok_def deleted_claim_items by metis
    then show ?thesis using ci unfolding deleted_claim_items delete_list_rows_tables by auto
  qed
  ultimately show ?thesis
    using assms by (auto simp: claims_ok_def deleted_claim_items delete_list_rows_tables distinct_map_filter)
qed

lemma deleted_refs_ok:
  assumes "refs_ok d"
  shows "refs_ok (delete_list_rows lid d)"
proof -
  obtain Q where fs: "fulfillments (delete_list_rows lid d)
    = upd_where Q unclaimed (filter (\<lambda>f. f_list_item_id f \<notin> li_id ` {i \<in> set (list_items d). li_list_id i = lid}) (fulfillments d))"
    by (rule deleted_fulfillments)
  have "map f_id (fulfillments (delete_list_rows lid d)) = map f_id
      (filter (\<lambda>f. f_list_item_id f \<notin> li_id ` {i \<in> set (list_items d). li_list_id i = lid}) (fulfillments d))"
    unfolding fs by (rule map_upd_where_same) simp
  then have "distinct (map f_id (fulfillments (delete_list_rows lid d)))"
    using assms by (simp add: refs_ok_def distinct_map_filter)
  moreover have "0 < f_qty f \<and> 0 \<le> f_unit_price_isk f \<and> f_list_item_id f \<in> li_id ` set (list_items (delete_list_rows lid d))"
    if f: "f \<in> set (fulfillments (delete_list_rows lid d))" for f
  proof -
    obtain f0 where f0: "f0 \<in> set (fulfillments d)" "f = f0 \<or> f = unclaimed f0"
      "\<And>i. i \<in> set (list_items d) \<Longrightarrow> li_id i = f_list_item_id f \<Longrightarrow> li_list_id i \<noteq> lid"
      by (rule deleted_fulfillmentE [OF f]) blast
    then have "0 < f_qty f \<and> 0 \<le> f_unit_price_isk f \<and> f_list_item_id f \<in> li_id ` set (list_items d)"
      using assms by (auto simp: refs_ok_def)
    then show ?thesis using f0(3) by (auto simp: image_iff deleted_items_iff)
  qed
  ultimately show ?thesis
    using assms by (auto simp: refs_ok_def deleted_frame deleted_principals deleted_payer deleted_items_iff)
qed

lemma deleted_reimbs_ok:
  assumes "reimbs_ok d"
  shows "reimbs_ok (delete_list_rows lid d)"
proof -
  have "reimb_shape (delete_list_rows lid d) r" if "reimb_shape d r" "r_list_id r \<noteq> lid" for r
    using that by (simp add: reimb_shape_def deleted_payer deleted_principals)
  then show ?thesis using assms by (simp add: reimbs_ok_def delete_list_rows_tables distinct_map_filter)
qed

text \<open>The debts of the purchases that are left are left too.\<close>

lemma deleted_row:
  assumes "i \<in> set (list_items (delete_list_rows lid d))" "f \<in> live_on (delete_list_rows lid d) i"
  obtains f0 where "i \<in> set (list_items d)" "f0 \<in> live_on d i" "item_cycle (delete_list_rows lid d) i f = item_cycle d i f0"
    "\<And>r. r \<in> set (reimbursements d) \<Longrightarrow> item_cycle d i f0 = Some (reimb_key r) \<Longrightarrow> r \<in> set (reimbursements (delete_list_rows lid d))"
proof -
  have i: "i \<in> set (list_items d)" "li_list_id i \<noteq> lid" using assms(1) by (simp_all add: deleted_items_iff)
  have "f \<in> set (fulfillments (delete_list_rows lid d))" using assms(2) by (simp add: live_on_def)
  then obtain f0 where f0: "f0 \<in> set (fulfillments d)" "f = f0 \<or> f = unclaimed f0" by (rule deleted_fulfillmentE)
  have "r \<in> set (reimbursements (delete_list_rows lid d))"
    if "r \<in> set (reimbursements d)" "item_cycle d i f0 = Some (reimb_key r)" for r
    using that i(2) by (auto simp: item_cycle_def cycle_key_eq reimb_key_def delete_list_rows_tables split: option.splits)
  moreover have "f0 \<in> live_on d i" using assms(2) f0 by (auto simp: live_on_def)
  moreover have "item_cycle (delete_list_rows lid d) i f = item_cycle d i f0"
    using f0(2) i(2) by (auto simp: item_cycle_def deleted_cycle)
  ultimately show ?thesis using that i(1) by blast
qed

lemma deleted_life_inv:
  assumes "life_inv d" "claims_local d"
  shows "life_inv (delete_list_rows lid d)"
proof (rule life_invI)
  show "cover_ok (delete_list_rows lid d)" unfolding cover_ok_def
  proof (intro ballI)
    fix i f assume mem: "i \<in> set (list_items (delete_list_rows lid d))" "f \<in> live_on (delete_list_rows lid d) i"
    show "\<exists>r\<in>set (reimbursements (delete_list_rows lid d)). item_cycle (delete_list_rows lid d) i f = Some (reimb_key r)"
      by (rule deleted_row [OF mem]) (use life_invD(5) [OF assms(1)] in \<open>unfold cover_ok_def, metis\<close>)
  qed
  show "settled_ok (delete_list_rows lid d)" unfolding settled_ok_def
  proof (intro ballI impI)
    fix i f assume mem: "i \<in> set (list_items (delete_list_rows lid d))" "f \<in> live_on (delete_list_rows lid d) i"
      and st: "li_status i = ISettled"
    show "\<exists>r\<in>set (reimbursements (delete_list_rows lid d)). item_cycle (delete_list_rows lid d) i f = Some (reimb_key r) \<and> r_status r = RSettled"
      by (rule deleted_row [OF mem]) (use life_invD(6) [OF assms(1)] st in \<open>unfold settled_ok_def, metis\<close>)
  qed
qed (use life_invD [OF assms(1)] assms in \<open>auto intro: deleted_refs_ok deleted_claims_ok deleted_items_ok deleted_reimbs_ok\<close>)

lemma deleted_spent:
  assumes "distinct (map li_id (list_items d))" "r_list_id r \<noteq> lid"
  shows "spent (delete_list_rows lid d) r = spent d r"
proof -
  let ?P = "\<lambda>its u f. f_hauler_user_id f = r_hauler_user_id r \<and> f_reversed_at f = None
      \<and> (\<exists>i\<in>set its. li_id i = f_list_item_id f \<and> li_list_id i = r_list_id r
            \<and> (r_is_corp_funded r \<or> li_requested_by_user_id i = u))"
  have same: "?P (list_items (delete_list_rows lid d)) u f = ?P (list_items d) u f" for u f
    using assms(2) by (auto simp: deleted_items_iff)
  have "sum_where (?P (list_items d) u) (\<lambda>f. f_qty f * f_unit_price_isk f) (fulfillments (delete_list_rows lid d))
      = sum_where (?P (list_items d) u) (\<lambda>f. f_qty f * f_unit_price_isk f) (fulfillments d)" for u
  proof (rule deleted_sum)
    fix f i assume "?P (list_items d) u f" "i \<in> set (list_items d)" "li_id i = f_list_item_id f"
    then show "li_list_id i \<noteq> lid" using distinct_map_unique [OF assms(1)] assms(2) by metis
  qed simp_all
  then show ?thesis unfolding spent_def cycle_subtotal_def same .
qed

lemma deleted_money:
  assumes "money_ok d" "claims_local d"
  shows "money_ok (delete_list_rows lid d) \<and> claims_local (delete_list_rows lid d)"
proof -
  have inv: "life_inv d" using assms(1) by (simp add: money_ok_def)
  then have "distinct (map li_id (list_items d))" using life_invD(3) by (auto simp: items_ok_def)
  then have "row_ok (delete_list_rows lid d) r" if "r \<in> set (reimbursements (delete_list_rows lid d))" for r
    using that assms(1) deleted_spent [of d r lid] by (auto simp: money_ok_def row_ok_def delete_list_rows_tables)
  moreover have "tips_ok (delete_list_rows lid d)"
    using assms(1) by (auto simp: money_ok_def tips_ok_def all_tips_def deleted_frame delete_list_rows_tables)
  moreover have "claims_local (delete_list_rows lid d)"
  proof -
    have "set (claim_items (delete_list_rows lid d)) \<subseteq> set (claim_items d)" by (auto simp: deleted_claim_items)
    then show ?thesis using assms(2) unfolding claims_local_def delete_list_rows_tables set_filter by blast
  qed
  ultimately show ?thesis using deleted_life_inv [OF inv assms(2)] by (simp add: money_ok_def)
qed

lemma deleted_lists_money:
  "money_ok d \<Longrightarrow> claims_local d \<Longrightarrow> money_ok (fold delete_list_rows lids d) \<and> claims_local (fold delete_list_rows lids d)"
  by (induction lids arbitrary: d) (simp_all add: deleted_money)

text \<open>Of groups only the tips and of memberships only the principals matter to the books.\<close>

lemma money_groups: "money_ok d \<Longrightarrow> g \<in> set (groups d) \<Longrightarrow> 0 \<le> g_default_tip_pct g \<and> g_default_tip_pct g \<le> 10 ^ 4"
  by (simp add: money_ok_def tips_ok_def all_tips_def)

lemma money_members: "money_ok d \<Longrightarrow> m \<in> set (memberships d) \<Longrightarrow> user_principal d (gm_user_id m) \<noteq> None"
  by (simp add: money_ok_def life_inv_def refs_ok_def)

lemma group_rows_money:
  assumes "money_ok d" "claims_local d"
    and "principals d' = principals d" "lists d' = lists d" "list_items d' = list_items d" "fulfillments d' = fulfillments d"
      "claims d' = claims d" "claim_items d' = claim_items d" "reimbursements d' = reimbursements d"
      "\<And>g. g \<in> set (groups d') \<Longrightarrow> 0 \<le> g_default_tip_pct g \<and> g_default_tip_pct g \<le> 10 ^ 4"
      "\<And>m. m \<in> set (memberships d') \<Longrightarrow> user_principal d (gm_user_id m) \<noteq> None"
  shows "money_ok d' \<and> claims_local d'"
proof -
  let ?e = "d \<lparr> memberships := memberships d' \<rparr>"
  have principals: "user_principal ?e = user_principal d" "corp_principal ?e = corp_principal d" "payer_principal ?e = payer_principal d"
    using user_principal_cong [of ?e d] corp_principal_cong [of ?e d] payer_principal_cong [of ?e d] by simp_all
  have payer: "list_payer ?e = list_payer d" by (simp add: list_payer_def find_list_def fun_eq_iff)
  have cycles: "item_cycle ?e = item_cycle d" "live_on ?e = live_on d"
    by (simp_all add: item_cycle_def cycle_key_eq principals payer live_on_def fun_eq_iff split: option.split)
  have inv: "life_inv d" using assms(1) by (simp add: money_ok_def)
  have "refs_ok ?e" using life_invD(1) [OF inv] assms(11) by (simp add: refs_ok_def principals payer)
  moreover have "claims_ok ?e" using life_invD(2) [OF inv] by (simp add: claims_ok_def)
  moreover have "item_ok ?e = item_ok d"
    by (simp add: item_ok_def base_status_def fulfilled_qty_def has_active_claim_def fun_eq_iff)
  then have "items_ok ?e" using life_invD(3) [OF inv] by (simp add: items_ok_def)
  moreover have "reimbs_ok ?e" using life_invD(4) [OF inv] by (simp add: reimbs_ok_def reimb_shape_def principals payer)
  moreover have "cover_ok ?e" using life_invD(5) [OF inv] by (simp add: cover_ok_def cycles)
  moreover have "settled_ok ?e" using life_invD(6) [OF inv] by (simp add: settled_ok_def cycles)
  ultimately have "life_inv ?e" by (rule life_invI)
  moreover have "same_life ?e d'"
    using assms(3-8) by (simp add: same_life_def list_payer_def find_list_def fun_eq_iff)
  ultimately have "life_inv d'" using life_inv_frame [of ?e d'] assms(9) by simp
  moreover have "row_ok d' r = row_ok d r" for r using assms(5,6) by (simp add: row_ok_def spent_def cycle_subtotal_def)
  moreover have "tips_ok d'" using assms(1,4,10) by (auto simp: money_ok_def tips_ok_def all_tips_def)
  ultimately show ?thesis using assms(1,2,5,7-9) by (simp add: money_ok_def claims_local_def)
qed

section \<open>The requests\<close>

text \<open>Deleting keeps the books.  When a list, or a group with all its lists, is deleted, the books of
  everything that is left stay sound: the quantities, statuses and debts on the other
  lists are still what their fulfillments and claims give.\<close>

theorem deletion_keeps_books:
  assumes "money_ok d" "claims_local d"
    and "delete_list s x d = Inr d' \<or> delete_group s x d = Inr d'"
  shows "money_ok d' \<and> claims_local d'"
proof -
  have "d' = delete_list_rows x d \<or> d' = delete_group_rows x d"
    using assms(3) by (auto simp: delete_list_def delete_group_def bind_res_eq_Inr split: if_splits)
  then show ?thesis
  proof
    assume "d' = delete_list_rows x d"
    then show ?thesis using deleted_money [OF assms(1,2)] by simp
  next
    assume d': "d' = delete_group_rows x d"
    let ?d1 = "fold delete_list_rows (map l_id (filter (\<lambda>l. l_group_id l = x) (lists d))) d"
    have "money_ok ?d1 \<and> claims_local ?d1" by (rule deleted_lists_money [OF assms(1,2)])
    then show ?thesis
      unfolding d' delete_group_rows_def Let_def by (intro group_rows_money [of ?d1]) (auto dest: money_groups money_members)
  qed
qed

theorem deletion_keeps_books_witness:
  "\<exists>d'. delete_list (Some 1) 10 demo_final = Inr d' \<and> lists d' = [] \<and> money_ok d'"
proof -
  have run: "case delete_list (Some 1) 10 demo_final of Inl _ \<Rightarrow> False | Inr d' \<Rightarrow> lists d' = []" by code_simp
  then obtain d' where d': "delete_list (Some 1) 10 demo_final = Inr d'" "lists d' = []" by (auto split: sum.splits)
  have "claims_local demo_final" by code_simp
  then show ?thesis using deletion_keeps_books [OF demo_money(4), of "Some 1" 10 d'] d' by blast
qed

end
