(* ===== verification/Whole_System.thy ===== *)
theory Whole_System
  imports Worker_Facts Deletion_Facts
begin

text \<open>
  The whole system, deletions and groups included.  Claims stay on the list of their items
  (\<open>claims_placed\<close>), which is what a cascade over claims relies on; no operation touches the
  principals.  With both, the books stay sound over any interleaving of requests on lists,
  items, claims, fulfillments, debts, contracts and groups with the ticks of the worker.
\<close>

section \<open>Claims and principals stay in place\<close>

definition roots :: "db \<Rightarrow> (uuid \<times> uuid) list \<times> (uuid \<times> uuid) list \<times> principal list" where
  "roots d = (map (\<lambda>c. (c_id c, c_list_id c)) (claims d), map (\<lambda>ci. (ci_claim_id ci, ci_list_item_id ci)) (claim_items d),
     principals d)"

lemma roots_same:
  "claims d' = claims d \<Longrightarrow> claim_items d' = claim_items d \<Longrightarrow> principals d' = principals d \<Longrightarrow> roots d' = roots d"
  by (simp add: roots_def)

lemma same_rows_roots: "same_books_rows d d' \<Longrightarrow> roots d' = roots d"
  by (simp add: same_books_rows_def roots_def)

lemma roots_fire [simp]: "roots (fire_webhook gid ev d) = roots d"
  by (simp add: roots_def fire_webhook_def)

lemma roots_fire_all [simp]: "roots (fire_settlement_webhooks infos d) = roots d"
  by (rule same_rows_roots [OF fold_fire_same])

lemma roots_bulk [simp]: "roots (recompute_item_statuses_bulk ids d) = roots d"
  by (simp add: roots_def recompute_bulk_is_refresh)

lemma roots_single: "recompute_item_status iid dem d = Inr (st, d') \<Longrightarrow> roots d' = roots d"
  by (auto simp: roots_def recompute_item_status_def Let_def bind_res_eq_Inr split: if_splits option.splits)

lemma roots_claim_status [simp]: "roots (set_claim_status cid st rel d) = roots d"
  by (auto simp: roots_def set_claim_status_def sync_claim_items_active_def map_upd_where_same split: option.split)

lemma roots_complete [simp]: "roots (complete_claim_if_done st ac d) = roots d"
  by (simp add: complete_claim_if_done_def split: option.split)

lemma roots_upsert: "upsert_reimbursement nid now lid u h d = Inr d' \<Longrightarrow> roots d' = roots d"
  by (erule upsert_cases) (simp_all add: roots_def)

lemma roots_updates [simp]:
  "roots (d \<lparr> lists := ls \<rparr>) = roots d" "roots (d \<lparr> list_items := its \<rparr>) = roots d" "roots (d \<lparr> reimbursements := rs \<rparr>) = roots d"
  "roots (d \<lparr> contracts := cs \<rparr>) = roots d" "roots (d \<lparr> suggestions := gs \<rparr>) = roots d" "roots (d \<lparr> fulfillments := fs \<rparr>) = roots d"
  "roots (d \<lparr> list_markets := lms \<rparr>) = roots d" "roots (d \<lparr> groups := grs \<rparr>) = roots d" "roots (d \<lparr> memberships := mems \<rparr>) = roots d"
  by (simp_all add: roots_def)

lemma roots_close [simp]: "roots (auto_close_list_if_complete lid now d) = roots d"
  by (simp add: auto_close_list_if_complete_def Let_def split: option.split)

lemma roots_fold_close [simp]: "roots (fold (\<lambda>lid. auto_close_list_if_complete lid now) lids d) = roots d"
  by (induction lids arbitrary: d) simp_all

lemma roots_settle_items [simp]: "roots (settle_items P d) = roots d"
  by (simp add: settle_items_def)

lemma roots_mark_settled [simp]: "roots (mark_settled P at by_user now d) = roots d"
  by (simp add: mark_settled_def)

lemma record_roots: "record_fulfillment s lid iid b fid rid now d = Inr d' \<Longrightarrow> roots d' = roots d"
  by (clarsimp simp: record_fulfillment_def Let_def bind_res_eq_Inr split: if_splits
      option.split_asm reimbursement_status.split_asm dest!: roots_single roots_upsert)

lemma reverse_roots: "reverse_fulfillment s fid rid now d = Inr d' \<Longrightarrow> roots d' = roots d"
  by (erule reverse_fulfillment_Inr) (drule roots_single, drule roots_upsert, simp add: reversed_state_def)

lemma mark_delivered_roots: "mark_delivered s lid iid d = Inr d' \<Longrightarrow> roots d' = roots d"
  by (auto simp: mark_delivered_def Let_def bind_res_eq_Inr split: if_splits)

lemma set_list_tip_roots: "set_list_tip s lid tip now d = Inr d' \<Longrightarrow> roots d' = roots d"
  by (auto simp: set_list_tip_def Let_def bind_res_eq_Inr split: if_splits)

lemma group_tip_roots: "set_group_default_tip s gid tip d = Inr d' \<Longrightarrow> roots d' = roots d"
  by (erule set_group_default_tip_Inr) simp

lemma settle_manual_roots: "settle_manual rid u now d = Inr d' \<Longrightarrow> roots d' = roots d"
  by (auto simp: settle_manual_def Let_def flip_items_to_settled_def flip_items_to_settled_corp_def split: option.splits if_splits)

lemma settle_roots: "settle_reimbursement s rid now d = Inr d' \<Longrightarrow> roots d' = roots d"
  by (auto simp: settle_reimbursement_def bind_res_eq_Inr dest!: settle_manual_roots split: if_splits sum.splits)

lemma settle_via_roots: "settle_via_contract vis cid now d = Inr (info, d') \<Longrightarrow> roots d' = roots d"
  by (auto simp: settle_via_contract_def Let_def split: option.splits if_splits)

lemma estimates_roots:
  assumes "recompute_estimates env uid lid after now d = Inr d'"
  shows "roots d' = roots d"
proof -
  obtain gid where "write_estimates env lid gid now d = Inr d'"
    using recompute_loop_Inr assms unfolding recompute_estimates_def by blast
  then show ?thesis by (rule write_estimates_Inr) (simp add: estimated_def)
qed

lemma touch_roots [simp]: "roots (touch_list lid now d) = roots d"
  by (simp add: touch_list_def)

lemma insert_items_roots: "insert_items its d = Inr d' \<Longrightarrow> roots d' = roots d"
  by (auto simp: insert_items_def split: if_splits)

lemma add_items_roots: "add_items env s lid b nid now d = Inr d' \<Longrightarrow> roots d' = roots d"
  by (auto simp: add_items_def Let_def bind_res_eq_Inr dest!: insert_items_roots estimates_roots split: if_splits)

lemma create_list_roots: "create_list env s gid b nl nid now d = Inr d' \<Longrightarrow> roots d' = roots d"
  by (erule create_list_cases) (auto dest!: insert_items_roots)

lemma patch_list_roots: "patch_list s lid b now d = Inr d' \<Longrightarrow> roots d' = roots d"
  by (auto simp: patch_list_def bind_res_eq_Inr split: if_splits)

lemma replace_markets_roots: "replace_markets env s lid ids primary now d = Inr d' \<Longrightarrow> roots d' = roots d"
  by (auto simp: replace_markets_def bind_res_eq_Inr dest!: estimates_roots split: if_splits)

lemma finalize_link_roots:
  assumes "finalize_link uid ctx now d = Inr (st, info, d')"
  shows "roots d' = roots d"
  using assms
proof (cases rule: finalize_link_cases)
  case (1 d2)
  have "roots d2 = roots d" using same_rows_roots [OF recompute_expected_same [OF 1(1)]] by simp
  then show ?thesis using 1(2) by (auto dest: settle_via_roots split: if_splits)
qed

lemma confirm_roots:
  assumes "confirm_suggestion s sid now d = Inr d'"
  shows "roots d' = roots d"
proof -
  obtain uid dec info d1 where c: "do_confirm uid sid now d = Inr (dec, info, d1)" and d': "d' = fire_settlement_webhooks info d1"
    using assms by (auto simp: confirm_suggestion_def bind_res_eq_Inr)
  from c have "roots d1 = roots d" by (rule do_confirm_cases) (drule finalize_link_roots, simp)
  then show ?thesis by (simp add: d')
qed

lemma manual_link_roots:
  assumes "manual_link s cid rid nid now d = Inr d'"
  shows "roots d' = roots d"
proof -
  obtain uid dec info d1 where c: "do_manual_link uid cid rid nid now d = Inr (dec, info, d1)"
    and d': "d' = fire_settlement_webhooks info d1"
    using assms by (auto simp: manual_link_def bind_res_eq_Inr)
  from c have "roots d1 = roots d" by (rule do_manual_link_cases) (drule finalize_link_roots, simp)
  then show ?thesis by (simp add: d')
qed

lemma unlink_roots: "unlink_contract s cid now d = Inr d' \<Longrightarrow> roots d' = roots d"
  by (erule unlink_cases) (drule recompute_expected_same, drule same_rows_roots, simp)

lemma terminal_roots: "handle_contract_terminal u now d = Inr d' \<Longrightarrow> roots d' = roots d"
  by (auto simp: handle_contract_terminal_def unbind_contract_def Let_def bind_res_eq_Inr dest: settle_via_roots split: if_splits)

lemma verify_roots:
  assumes "verify_contract_against_journal dv cid now d = Inr d'"
  shows "roots d' = roots d"
  using assms
proof (cases rule: verify_cases)
  case (verified v)
  then show ?thesis by (rule record_payout_Inr) simp
qed simp

lemma release_roots: "release_claim s cid now d = Inr d' \<Longrightarrow> roots d' = roots d"
  by (auto simp: release_claim_def Let_def bind_res_eq_Inr)

lemmas op_roots = record_roots reverse_roots mark_delivered_roots set_list_tip_roots group_tip_roots settle_roots
  add_items_roots create_list_roots patch_list_roots replace_markets_roots confirm_roots manual_link_roots unlink_roots
  terminal_roots verify_roots release_roots

fun moves_claims :: "lifecycle_op \<Rightarrow> bool" where
  "moves_claims (CreateClaim s lid ids note new_id now) = True"
| "moves_claims (AddClaimItems s cid ids) = True"
| "moves_claims (RemoveClaimItem s cid iid) = True"
| "moves_claims _ = False"

lemma exec_op_roots:
  assumes "exec_op oper d = Inr d'" "\<not> moves_claims oper"
  shows "roots d' = roots d"
proof (cases "leaves_books oper")
  case True
  then show ?thesis using assms(1) leaves_books_same same_rows_roots by blast
next
  case False
  then show ?thesis using assms by (cases oper) (simp_all, (erule op_roots)+)
qed

section \<open>Claims on the list of their items\<close>

definition claims_placed :: "db \<Rightarrow> bool" where
  "claims_placed d \<longleftrightarrow> (\<forall>(cid, iid) \<in> set (fst (snd (roots d))).
     \<exists>i\<in>set (list_items d). li_id i = iid \<and> (cid, li_list_id i) \<in> set (fst (roots d)))"

lemma placed_follow:
  assumes "claims_placed d" "items_follow d d'" "set (fst (roots d)) \<subseteq> set (fst (roots d'))"
    "set (fst (snd (roots d'))) \<subseteq> set (fst (snd (roots d)))"
  shows "claims_placed d'"
  unfolding claims_placed_def
proof (intro ballI, clarify)
  fix cid iid assume "(cid, iid) \<in> set (fst (snd (roots d')))"
  then obtain i where "(cid, li_list_id i) \<in> set (fst (roots d))" "i \<in> set (list_items d)" "li_id i = iid"
    using assms(1,4) unfolding claims_placed_def by fast
  moreover from this obtain i' where "i' \<in> set (list_items d')" "li_id i' = iid" "li_list_id i' = li_list_id i"
    using assms(2) unfolding items_follow_def by metis
  ultimately show "\<exists>i\<in>set (list_items d'). li_id i = iid \<and> (cid, li_list_id i) \<in> set (fst (roots d'))"
    using assms(3) by (intro bexI [of _ i']) auto
qed

lemma placed_local:
  assumes "life_inv d" "claims_placed d"
  shows "claims_local d"
  unfolding claims_local_def
proof (intro ballI impI, elim conjE)
  fix ci c i
  assume ci: "ci \<in> set (claim_items d)" and c: "c \<in> set (claims d)" "c_id c = ci_claim_id ci"
    and i: "i \<in> set (list_items d)" "li_id i = ci_list_item_id ci"
  have dist: "distinct (map c_id (claims d))" "distinct (map li_id (list_items d))"
    using life_invD(2,3) [OF assms(1)] by (simp_all add: claims_ok_def items_ok_def)
  obtain c2 i2 where "c2 \<in> set (claims d)" "c_id c2 = ci_claim_id ci" "i2 \<in> set (list_items d)" "li_id i2 = ci_list_item_id ci"
    "li_list_id i2 = c_list_id c2"
    using assms(2) ci unfolding claims_placed_def roots_def by fastforce
  moreover from this have "c2 = c" "i2 = i"
    using distinct_map_unique [OF dist(1) c(1)] distinct_map_unique [OF dist(2) i(1)] c(2) i(2) by metis+
  ultimately show "c_list_id c = li_list_id i" by simp
qed

lemma validate_claimable_ids:
  assumes "validate_claimable_items lid ids d = Inr ()" "distinct (map li_id (list_items d))" "iid \<in> set ids"
  shows "\<exists>i\<in>set (list_items d). li_id i = iid \<and> li_list_id i = lid"
proof -
  let ?rows = "filter (\<lambda>i. li_id i \<in> set ids \<and> li_list_id i = lid) (list_items d)"
  have len: "length ?rows = length ids"
    using assms(1) by (auto simp: validate_claimable_items_def Let_def split: if_splits option.splits)
  have sub: "set (map li_id ?rows) \<subseteq> set ids" by auto
  have "card (set (map li_id ?rows)) = length ids" using distinct_card [OF distinct_map_filter [OF assms(2)]] len by simp
  then have "set (map li_id ?rows) = set ids"
    using card_subset_eq [OF finite_set sub] card_length [of ids] card_mono [OF finite_set sub] by simp
  then have "iid \<in> set (map li_id ?rows)" using assms(3) by simp
  then show ?thesis by auto
qed

lemma insert_claim_items_placed:
  assumes "claims_placed d" "insert_claim_items cid ids d = Inr d'" "(cid, lid) \<in> set (fst (roots d))"
    "\<And>iid. iid \<in> set ids \<Longrightarrow> \<exists>i\<in>set (list_items d). li_id i = iid \<and> li_list_id i = lid"
  shows "claims_placed d'"
proof (cases "ids = []")
  case False
  obtain cis where rows: "insert_claim_rows cid ids (claim_items d) = Inr cis"
    and d': "d' = recompute_item_statuses_bulk ids (d \<lparr> claim_items := cis \<rparr>)"
    using assms(2) False by (auto simp: insert_claim_items_def bind_res_eq_Inr)
  let ?d1 = "d \<lparr> claim_items := cis \<rparr>"
  have "fst (roots ?d1) = fst (roots d)" "set (fst (snd (roots ?d1))) = set (fst (snd (roots d))) \<union> Pair cid ` set ids"
    using insert_claim_rows_Inr [OF rows] by (auto simp: roots_def image_iff)
  then have "claims_placed ?d1" using assms(1,3,4) unfolding claims_placed_def by fastforce
  then show ?thesis unfolding d' by (rule placed_follow [OF _ items_follow_bulk]) simp_all
qed (use assms in \<open>simp add: insert_claim_items_def\<close>)

lemma moved_claims_placed:
  assumes inv: "life_inv d" and pl: "claims_placed d" and ex: "exec_op oper d = Inr d'" and mv: "moves_claims oper"
  shows "claims_placed d' \<and> principals d' = principals d"
proof -
  have dist: "distinct (map li_id (list_items d))" using life_invD(3) [OF inv] by (simp add: items_ok_def)
  have ins: "principals d' = principals d" if "insert_claim_items cid ids d = Inr d'" for cid ids d d'
    using that by (auto simp: insert_claim_items_def bind_res_eq_Inr recompute_bulk_is_refresh split: if_splits)
  from mv show ?thesis
  proof (cases oper rule: moves_claims.cases)
    case (1 s lid ids nt new_id now)
    let ?d0 = "\<lambda>uid. d \<lparr> claims := claims d @ [\<lparr> c_id = new_id, c_list_id = lid, c_hauler_user_id = uid, c_status = CActive,
        c_note = nt, c_created_at = now, c_released_at = None \<rparr>] \<rparr>"
    obtain uid d1 gid ev where v: "validate_claimable_items lid ids d = Inr ()" and i: "insert_claim_items new_id ids (?d0 uid) = Inr d1"
      and d': "d' = fire_webhook gid ev d1"
      using ex by (auto simp: 1 create_claim_def bind_res_eq_Inr split: if_splits)
    have "claims_placed (?d0 uid)" by (rule placed_follow [OF pl items_follow_same]) (auto simp: roots_def)
    from insert_claim_items_placed [OF this i, of lid] have "claims_placed d1"
      using validate_claimable_ids [OF v dist] by (simp add: roots_def)
    then show ?thesis using ins [OF i] by (simp add: d' claims_placed_def, simp add: fire_webhook_def)
  next
    case (2 s cid ids)
    obtain cur where cur: "current_claim_ex s cid d = Inr cur" and v: "validate_claimable_items (cc_list_id cur) ids d = Inr ()"
      and i: "insert_claim_items cid ids d = Inr d'"
      using ex by (auto simp: 2 add_claim_items_def bind_res_eq_Inr split: if_splits)
    have "(cid, cc_list_id cur) \<in> set (fst (roots d))" using current_claim_ex_Inr [OF cur] by (force simp: roots_def)
    from insert_claim_items_placed [OF pl i this] show ?thesis using validate_claimable_ids [OF v dist] ins [OF i] by blast
  next
    case (3 s cid iid)
    obtain P st where r: "recompute_item_status iid DForbid (d \<lparr> claim_items := del_where P (claim_items d) \<rparr>) = Inr (st, d')"
      using ex by (auto simp: 3 remove_claim_item_def Let_def bind_res_eq_Inr split: if_splits)
    have follow: "items_follow d d'" using exec_op_follow [OF inv ex] .
    have "fst (roots d') = fst (roots d)" "set (fst (snd (roots d'))) \<subseteq> set (fst (snd (roots d)))" "principals d' = principals d"
      using roots_single [OF r] by (auto simp: roots_def)
    then show ?thesis using placed_follow [OF pl follow] by simp
  qed simp_all
qed

lemma exec_op_placed:
  assumes "life_inv d" "claims_placed d" "exec_op oper d = Inr d'"
  shows "claims_placed d' \<and> principals d' = principals d"
proof (cases "moves_claims oper")
  case False
  have "roots d' = roots d" by (rule exec_op_roots [OF assms(3) False])
  then show ?thesis using placed_follow [OF assms(2) exec_op_follow [OF assms(1,3)]] by (simp add: roots_def)
qed (rule moved_claims_placed [OF assms])

section \<open>Sound states\<close>

definition sound :: "principal list \<Rightarrow> db \<Rightarrow> bool" where
  "sound ps d \<longleftrightarrow> money_ok d \<and> claims_placed d \<and> principals d = ps"

interpretation sound: books_invariant "sound ps" for ps
proof unfold_locales
  fix d d' :: db assume b: "books d' = books d" and s: "sound ps d"
  then have "money_ok d'" using books_money [OF b] by (simp add: sound_def)
  moreover have "roots d' = roots d" "list_items d' = list_items d" "principals d' = principals d"
    using b by (simp_all add: books_def roots_def)
  ultimately show "sound ps d'" using s by (simp add: sound_def claims_placed_def)
next
  fix d d' :: db and oper assume s: "sound ps d" and ex: "exec_op oper d = Inr d'"
  then have m: "money_ok d" "claims_placed d" by (simp_all add: sound_def)
  then have "life_inv d" by (simp add: money_ok_def)
  from exec_op_placed [OF this m(2) ex] exec_op_money [OF m(1) ex] show "sound ps d'" using s by (simp add: sound_def)
qed

lemma delete_list_sound:
  assumes "sound ps d"
  shows "sound ps (delete_list_rows lid d)"
proof -
  have loc: "claims_local d" using placed_local assms by (simp add: sound_def money_ok_def)
  have "claims_placed (delete_list_rows lid d)" unfolding claims_placed_def
  proof (intro ballI, clarify)
    fix cid iid assume "(cid, iid) \<in> set (fst (snd (roots (delete_list_rows lid d))))"
    then obtain ci where ci: "ci \<in> set (claim_items (delete_list_rows lid d))" "cid = ci_claim_id ci" "iid = ci_list_item_id ci"
      by (auto simp: roots_def)
    then obtain c i where "c \<in> set (claims d)" "c_id c = cid" "i \<in> set (list_items d)" "li_id i = iid" "li_list_id i = c_list_id c"
      using assms unfolding sound_def claims_placed_def deleted_claim_items roots_def by fastforce
    moreover from this have "c_list_id c \<noteq> lid" using ci unfolding deleted_claim_items by metis
    ultimately show "\<exists>i\<in>set (list_items (delete_list_rows lid d)). li_id i = iid
        \<and> (cid, li_list_id i) \<in> set (fst (roots (delete_list_rows lid d)))"
      by (intro bexI [of _ i]) (auto simp: roots_def delete_list_rows_tables image_iff)
  qed
  then show ?thesis using deleted_money [of d lid] loc assms by (simp add: sound_def deleted_frame)
qed

lemma delete_lists_sound: "sound ps d \<Longrightarrow> sound ps (fold delete_list_rows lids d)"
  by (induction lids arbitrary: d) (simp_all add: delete_list_sound)

lemma group_rows_sound:
  assumes "sound ps d" "principals d' = principals d" "lists d' = lists d" "list_items d' = list_items d"
    "fulfillments d' = fulfillments d" "claims d' = claims d" "claim_items d' = claim_items d" "reimbursements d' = reimbursements d"
    "\<And>g. g \<in> set (groups d') \<Longrightarrow> 0 \<le> g_default_tip_pct g \<and> g_default_tip_pct g \<le> 10 ^ 4"
    "\<And>m. m \<in> set (memberships d') \<Longrightarrow> user_principal d (gm_user_id m) \<noteq> None"
  shows "sound ps d'"
proof -
  have "money_ok d" "claims_local d" using placed_local assms(1) by (simp_all add: sound_def money_ok_def)
  from group_rows_money [OF this assms(2-10)] show ?thesis
    using assms(1,2,4,6,7) by (simp add: sound_def claims_placed_def roots_def)
qed

text \<open>Those who create or join a group; every user has a principal.\<close>

fun newcomer :: "group_op \<Rightarrow> session" where
  "newcomer (CreateGroup s name codes nid now) = s"
| "newcomer (JoinGroup s code now) = s"
| "newcomer _ = None"

lemma group_op_sound:
  assumes ok: "sound ps d" and known: "\<And>uid. newcomer oper = Some uid \<Longrightarrow> user_principal d uid \<noteq> None"
    and ex: "exec_group_op cap oper d = Inr d'"
  shows "sound ps d'"
proof -
  have m: "money_ok d" using ok by (simp add: sound_def)
  note groups = money_groups [OF m] and members = money_members [OF m]
  show ?thesis
  proof (cases oper)
    case (CreateGroup s name codes nid now)
    with ex have "create_group cap s name codes nid now d = Inr d'" by simp
    then show ?thesis
      by (rule create_group_Inr) (use groups members known CreateGroup in \<open>auto intro!: group_rows_sound [OF ok] simp: new_group_def\<close>)
  next
    case (JoinGroup s code now)
    with ex have "join_group cap s code now d = Inr d'" by simp
    then show ?thesis
      by (rule join_group_Inr) (use ok groups members known JoinGroup in \<open>auto intro!: group_rows_sound [OF ok] split: if_splits\<close>)
  next
    case (LeaveGroup s gid)
    with ex have "leave_group s gid d = Inr d'" by simp
    then show ?thesis
      by (rule leave_group_Inr) (use groups members in \<open>auto intro!: group_rows_sound [OF ok]\<close>)
  next
    case (DeleteGroup s gid)
    let ?d1 = "fold delete_list_rows (map l_id (filter (\<lambda>l. l_group_id l = gid) (lists d))) d"
    have d': "d' = delete_group_rows gid d" using ex by (auto simp: DeleteGroup delete_group_def bind_res_eq_Inr split: if_splits)
    have s1: "sound ps ?d1" by (rule delete_lists_sound [OF ok])
    then have "money_ok ?d1" by (simp add: sound_def)
    then show ?thesis unfolding d' delete_group_rows_def Let_def
      by (intro group_rows_sound [OF s1]) (auto dest: money_groups money_members)
  next
    case (RotateInvite s gid codes)
    then obtain code where "d' = d \<lparr> groups := upd_where (\<lambda>g. g_id g = gid) (\<lambda>g. g \<lparr> g_invite_code := code \<rparr>) (groups d) \<rparr>"
      using ex by (auto simp: rotate_invite_def bind_res_eq_Inr split: if_splits)
    then show ?thesis
      using groups members by (auto intro!: group_rows_sound [OF ok] simp: set_upd_where)
  qed
qed

section \<open>The whole system\<close>

datatype whole_event = Core event | Delete_List session uuid | Group_Request int group_op

fun whole_step :: "worker_config \<Rightarrow> whole_event \<Rightarrow> worker_state \<Rightarrow> worker_state" where
  "whole_step cfg (Core ev) w = system_step cfg ev w"
| "whole_step cfg (Delete_List s lid) w = w \<lparr> ws_db := snd (tx_middleware (delete_list s lid) (ws_db w)) \<rparr>"
| "whole_step cfg (Group_Request cap oper) w = w \<lparr> ws_db := snd (tx_middleware (exec_group_op cap oper) (ws_db w)) \<rparr>"

fun newcomer_of :: "whole_event \<Rightarrow> session" where
  "newcomer_of (Group_Request cap oper) = newcomer oper"
| "newcomer_of _ = None"

fun quiet_event :: "whole_event \<Rightarrow> bool" where
  "quiet_event (Core ev) = quiet ev"
| "quiet_event _ = False"

lemma whole_step_sound:
  assumes ok: "sound ps (ws_db w)" and known: "\<And>uid. newcomer_of ev = Some uid \<Longrightarrow> user_principal (ws_db w) uid \<noteq> None"
  shows "sound ps (ws_db (whole_step cfg ev w))"
proof (cases ev)
  case (Core x)
  then show ?thesis using sound.system_step_inv [OF ok] by simp
next
  case (Delete_List s lid)
  then show ?thesis using ok delete_list_sound [OF ok, of lid]
    by (auto simp: tx_middleware_def delete_list_def bind_res_eq_Inr split: sum.split if_splits)
next
  case (Group_Request cap oper)
  then show ?thesis using ok known group_op_sound [OF ok] by (auto simp: tx_middleware_def split: sum.split)
qed

lemma whole_run_sound:
  assumes "sound ps (ws_db w)"
    and "\<And>ev uid. ev \<in> set evs \<Longrightarrow> newcomer_of ev = Some uid \<Longrightarrow> user_principal (ws_db w) uid \<noteq> None"
  shows "sound ps (ws_db (fold (whole_step cfg) evs w))"
  using assms
proof (induction evs arbitrary: w)
  case (Cons ev evs)
  let ?w = "whole_step cfg ev w"
  have s: "sound ps (ws_db ?w)" by (rule whole_step_sound) (use Cons.prems in auto)
  then have "user_principal (ws_db ?w) = user_principal (ws_db w)"
    using Cons.prems(1) by (intro user_principal_cong) (simp add: sound_def)
  then have "user_principal (ws_db ?w) uid \<noteq> None" if "x \<in> set evs" "newcomer_of x = Some uid" for x uid
    using Cons.prems(2) [of x uid] that by simp
  from Cons.IH [OF s this] show ?case by simp
qed simp


definition demo_worker :: worker_state where
  "demo_worker = \<lparr> ws_budget = new_budget 100 20, ws_db = demo_view, ws_queue = [], ws_regions = Map.empty \<rparr>"

definition demo_config :: worker_config where
  "demo_config = \<lparr> wc_poll_intervals = default_poll_intervals, wc_worker = default_worker_section \<rparr>"

definition demo_contract_env :: contract_env where
  "demo_contract_env = \<lparr> kv_contracts = (\<lambda>_. NoClient), kv_corp_contracts = (\<lambda>_ _. NoClient), kv_items = (\<lambda>_ _. NoClient),
     kv_jitter = (\<lambda>_. 0), kv_text_of = (\<lambda>t. Some (contract_type_str t)), kv_round4 = (\<lambda>n m. (10000 * n) div m),
     kv_new_id = (\<lambda>_ r. r), kv_store = demo_store \<rparr>"

definition demo_tick :: tick_env where
  "demo_tick = \<lparr> tk_now = 50, tk_orders = (\<lambda>_ _. None), tk_structures = Inr [35], tk_new_market = nat,
     tk_citadel = \<lparr> ce_structure = (\<lambda>_ _. NoClient), ce_system = (\<lambda>_. None), ce_constellation = (\<lambda>_. None), ce_store = demo_store \<rparr>,
     tk_structure_orders = (\<lambda>_ _. ONoClient), tk_contracts = demo_contract_env, tk_wallet = (\<lambda>_. demo_wallet_env),
     tk_jitter = (\<lambda>_. 0), tk_div_round = (div), tk_send = (\<lambda>_ _ _. True), tk_free = (\<lambda>_. True), tk_clock = (\<lambda>_. 50),
     tk_store = demo_store, tk_nonce = (\<lambda>_. demo_nonce) \<rparr>"

definition demo_events :: "whole_event list" where
  "demo_events = [Core (Tick Citadel_Discovery demo_tick), Core (Request (UnlinkContract (Some 2) 500 6)), Core Budget_Reset,
     Core (Tick Contracts demo_tick), Delete_List (Some 1) 10, Group_Request 3 (CreateGroup (Some 2) ''N'' (\<lambda>_. ''c'') 9 60)]"


end
