(* ===== verification/Spec2Isabelle.thy ===== *)
theory Spec2Isabelle
  imports Link_Facts Haul_Facts Item_Edits Corp_Facts Webhook_Facts Token_Facts Auth_Facts Wallet_Facts Citadel_Facts Token_Refinement Server Jwks Whole_System
begin

text \<open>
  Verification library for the backend of JitaCart, a tool with which EVE Online groups
  buy goods for each other (Rust, \<^verbatim>\<open>src/backend/crates\<close>).

  \<^bold>\<open>The program.\<close>  Two processes share a PostgreSQL database.  The API (crate \<^verbatim>\<open>api\<close>) serves
  requests, each in one transaction under row-level security.  Members of a group put items on a
  list; a hauler claims open items, records what was bought at which price, and delivers; the
  purchases of a hauler for a requester (or for the corporation that pays for the list) are one
  reimbursement, the debt, with a tip; a debt is settled by hand or by an in-game contract that is
  bound to it.  The worker (crate \<^verbatim>\<open>worker\<close>) runs nine jobs: it polls contracts of characters and
  corporations, matches them to debts, settles or unbinds on their end, verifies payouts in
  the wallet journal, keeps prices and citadels fresh, drains the queue of Discord
  notifications and moves stored tokens to the primary key.  The crates \<^verbatim>\<open>domain\<close>, \<^verbatim>\<open>market\<close>,
  \<^verbatim>\<open>settlement\<close>, \<^verbatim>\<open>auth-tokens\<close> and \<^verbatim>\<open>webhook-dispatch\<close> are shared by both.

  \<^bold>\<open>State.\<close>  The database is one record \<open>db\<close> with a list of rows per table, in the order of
  insertion; a row is a record with the columns the code reads (\<open>Domain\<close>, \<open>Db\<close>).  A handler
  is a function from its arguments and \<open>db\<close> to \<open>db res\<close>, an error or the new state; \<open>tx_middleware\<close>
  commits or rolls back.  The constraints, unique indexes, triggers, cascades and policies of
  the schema are part of the statements that meet them.  Amounts are integers in hundredths,
  tips in ten-thousandths, the way the columns store them, with the rounding of the columns.

  \<^bold>\<open>Theories, and the code they model.\<close>
  \<^item> \<open>Prelude\<close>, \<open>Domain\<close>, \<open>Db\<close>: tables, decimals, enums and rows (\<^verbatim>\<open>domain/src/lib.rs\<close>), errors,
    extractors, transaction, queueing (\<^verbatim>\<open>api/src/errors.rs\<close>, \<^verbatim>\<open>extract.rs\<close>, \<^verbatim>\<open>db.rs\<close>).
  \<^item> \<open>Item_Status\<close>, \<open>Claims\<close>, \<open>Reimbursements\<close>, \<open>Fulfillments\<close>: \<^verbatim>\<open>api/src/fulfillment.rs\<close> and
    \<^verbatim>\<open>fulfillment/\<close>; \<open>Settlement\<close>: \<^verbatim>\<open>settlement/src/lib.rs\<close>.
  \<^item> \<open>Contract_Link\<close>: \<^verbatim>\<open>api/src/contracts.rs\<close>; \<open>Contract_Worker\<close>, \<open>Matcher\<close>: \<^verbatim>\<open>jobs/contracts.rs\<close>,
    \<^verbatim>\<open>corp_contracts.rs\<close>, \<^verbatim>\<open>contracts_common.rs\<close>, \<^verbatim>\<open>contracts/match.rs\<close>, \<^verbatim>\<open>domain/src/principals.rs\<close>.
  \<^item> \<open>Multibuy\<close>, \<open>Pricing\<close>, \<open>Lists\<close>, \<open>List_Views\<close>: \<^verbatim>\<open>domain/src/multibuy.rs\<close>, the crate \<^verbatim>\<open>market\<close>,
    \<^verbatim>\<open>api/src/lists.rs\<close> and \<^verbatim>\<open>lists/\<close>, \<^verbatim>\<open>fulfillment/runs.rs\<close>.
  \<^item> \<open>Group_Requests\<close>, \<open>Corps\<close>, \<open>Corp_Wallet\<close>: \<^verbatim>\<open>api/src/groups.rs\<close>, \<^verbatim>\<open>corps.rs\<close>, \<^verbatim>\<open>jobs/corp_wallet.rs\<close>.
  \<^item> \<open>Webhooks\<close>: \<^verbatim>\<open>webhook-dispatch\<close>, \<^verbatim>\<open>api/src/webhooks.rs\<close>, \<^verbatim>\<open>jobs/pending_webhooks.rs\<close>.
  \<^item> \<open>Tokens\<close>, \<open>Auth\<close>, \<open>Jwks\<close>: the crate \<^verbatim>\<open>auth-tokens\<close>, \<^verbatim>\<open>api/src/auth.rs\<close>, \<^verbatim>\<open>jwt.rs\<close>.
  \<^item> \<open>Citadels\<close>: \<^verbatim>\<open>api/src/citadels.rs\<close>, \<^verbatim>\<open>markets.rs\<close> and the four market jobs.
  \<^item> \<open>Worker\<close>, \<open>Server\<close>: the two processes, \<^verbatim>\<open>worker/src/main.rs\<close>, \<^verbatim>\<open>jobs/mod.rs\<close>, and
    \<^verbatim>\<open>api/src/main.rs\<close>, \<^verbatim>\<open>config.rs\<close>, \<^verbatim>\<open>turnstile.rs\<close>.
  \<^item> \<open>Lifecycle\<close>, \<open>Lifecycle_Steps\<close>, \<open>Settlement_Steps\<close>, \<open>Contract_Steps\<close>, \<open>List_Steps\<close>, \<open>System\<close>,
    \<open>Money\<close>: the invariant of the books, one preservation lemma per operation, and the
    transition system \<open>exec_op\<close> / \<open>life_reach\<close> over 18 requests and six jobs.
  \<^item> \<open>Deletion_Facts\<close>, \<open>Whole_System\<close>: the cascades of a deletion and the two processes together.
  \<^item> The other theories \<open>..._Facts\<close>, \<open>Item_Edits\<close> and \<open>Token_Refinement\<close> hold the properties of the components;
    \<open>Demo\<close> is the concrete world in which hypotheses are shown to be satisfiable.

  \<^bold>\<open>Interfaces.\<close>  \<open>row_table\<close> (a table of the record, interpreted for nine tables),
  \<open>item_refresh\<close> and \<open>item_rewrite\<close> (what a recomputation of item statuses promises its callers: the
  single and the set-based one, settlement and estimates), \<open>type_resolver\<close> (names of types),
  \<open>transactional\<close> (an invariant that every operation keeps holds after every sequence of
  requests, rolled back ones included: the lifecycle, money, groups and webhooks),
  \<open>books_invariant\<close> (what every operation keeps and only looks at the books is kept by every tick) and
  \<open>functional_refinement\<close> (the token store and its abstract vault).

  \<^bold>\<open>What is shown.\<close>  In every reachable state the books balance, items and debts are
  consistent and well typed, an item is in one active claim at most, and what is settled stays
  so; the books also stay sound when group requests, deletions and the ticks of all worker jobs, with any
  answers of ESI, interleave with these requests.  Settling and linking happen only under their conditions, and do happen when these
  hold.  The paste parser is the sum per name and inverts printing.  Views add up and show
  members only what they may see.  Groups keep an owner, deletion removes exactly what hangs on the
  group, logins let nobody into another account, tokens are bound to their character and
  survive rotations and key changes, the queue of notifications empties, and posts go to
  Discord only.  Where the code falls short of its comments or of what it needs, a lemma exhibits it
  (\<open>Item_Edits\<close>, \<open>callback_rolled_back\<close>, \<open>unlink_corp_blind\<close>, \<open>failed_persist_is_forgotten\<close>,
  \<open>second_payout_forgotten\<close>, \<open>backlog_starves\<close>, \<open>failed_commit_answered_as_success\<close>).

  \<^bold>\<open>Limits of the model.\<close>
  \<^item> A request or a tick of a job is one step.  The concurrent tasks of a tick run one after
    the other; row locks, deadlocks and serialisation failures do not occur.
  \<^item> The transition system \<open>exec_op\<close> has the requests and jobs on lists, claims, fulfillments, tips,
    debts and contracts; \<open>Whole_System\<close> adds the requests on groups, the deletion of a list, the
    ticks of all jobs and the reset of the error budget.  Editing and deleting an open item are modelled but are
    no steps, since they do not keep the books (\<open>Item_Edits\<close> shows why).  Corporations, webhooks
    and accounts have theorems of their own.
  \<^item> Arguments of the definitions: the answers of ESI, Discord, Cloudflare and EVE SSO; AES-GCM,
    base64 and hashes (\<open>crypto_ok\<close> says what is relied on); random codes, nonces and generated
    identifiers; the clock; the collation of the database; the rounding of a decimal division; the
    rate limiter; tokio's interval (\<open>delays\<close>).
  \<^item> Text is a list of characters up to U+00FF.  Scores of the matcher are kept as a fraction,
    which agrees with the comparison of floating-point numbers for sums below \<open>2 ^ 53\<close>.
  \<^item> Loops are structural recursions or folds over the rows at hand, so no fuel is needed, with two
    exceptions: the endless driver of a job is described by its first \<open>n\<close> rounds, for every \<open>n\<close>, and
    the retry of the invite code has the eight attempts of the code.

  \<^bold>\<open>Not modelled.\<close>  The frontend (another language); startup, listeners, metrics, tracing and the
  worker's health endpoint (no state of the program); the loading of configuration files; the
  signature check of access tokens and the HTTP and ESI clients (libraries); routing tables; tests.
\<close>

section \<open>The life of an item\<close>



text \<open>C6: in every reachable state an item is in at most one active claim, and a claim's
  items are active exactly while the claim is.\<close>

theorem reachable_one_active_claim:
  assumes "life_inv d" "life_reach d d'" "ci \<in> set (claim_items d')" "ci' \<in> set (claim_items d')"
    and "ci_active ci" "ci_active ci'" "ci_list_item_id ci = ci_list_item_id ci'"
  shows "ci = ci' \<and> (\<exists>c\<in>set (claims d'). c_id c = ci_claim_id ci \<and> c_status c = CActive)"
proof -
  have ok: "claims_ok d'" using life_reach_inv [OF assms(2,1)] by (rule life_invD)
  show ?thesis
    using claims_okD(4) [OF ok assms(3-7)] claims_okD(3) [OF ok assms(3)] assms(5) by blast
qed

theorem reachable_one_active_claim_witness:
  "\<exists>c\<in>set (claims demo_half). c_id c = 200 \<and> c_status c = CActive"
proof -
  let ?ci = "\<lparr> ci_claim_id = 200, ci_list_item_id = 100, ci_active = True \<rparr>"
  have "?ci \<in> set (claim_items demo_half)" by (simp add: demo_states)
  from reachable_one_active_claim [OF demo_db_inv demo_reach(1) this this _ _ refl]
  show ?thesis by simp
qed



text \<open>C4: when an item is settled, every hauler who bought some of it has been paid: the
  reimbursement of each live fulfillment on it is settled.\<close>

theorem settled_items_paid:
  assumes "life_inv d" "life_reach d d'" "i \<in> set (list_items d')" "li_status i = ISettled"
    and "f \<in> set (fulfillments d')" "f_list_item_id f = li_id i" "f_reversed_at f = None"
  shows "\<exists>r\<in>set (reimbursements d'). r_list_id r = li_list_id i
     \<and> r_hauler_user_id r = f_hauler_user_id f \<and> r_status r = RSettled
     \<and> (r_is_corp_funded r \<or> r_requester_user_id r = Some (li_requested_by_user_id i))"
proof -
  have inv: "life_inv d'" by (rule life_reach_inv [OF assms(2,1)])
  have f: "f \<in> live_on d' i" using assms(5-7) by (simp add: live_on_def)
  obtain r where r: "r \<in> set (reimbursements d')" "item_cycle d' i f = Some (reimb_key r)"
    "r_list_id r = li_list_id i" "r_hauler_user_id r = f_hauler_user_id f"
    "r_is_corp_funded r \<or> r_requester_user_id r = Some (li_requested_by_user_id i)"
    using covering_row [OF inv assms(3) f] by blast
  obtain r2 where r2: "r2 \<in> set (reimbursements d')" "item_cycle d' i f = Some (reimb_key r2)"
    "r_status r2 = RSettled"
    using life_invD(6) [OF inv] assms(3,4) f unfolding settled_ok_def by blast
  have "distinct (map reimb_key (reimbursements d'))"
    using life_invD(4) [OF inv] by (simp add: reimbs_ok_def)
  then have "r = r2" using distinct_map_unique [OF _ r(1) r2(1), of reimb_key] r(2) r2(2) by simp
  then show ?thesis using r r2 by blast
qed

theorem settled_items_paid_witness:
  "\<exists>r\<in>set (reimbursements demo_final). r_hauler_user_id r = 2 \<and> r_status r = RSettled"
proof -
  obtain i where i: "i \<in> set (list_items demo_final)" "li_id i = 100" "li_status i = ISettled"
    by (rule that [of "demo_bought_item ISettled 5"]) (simp_all add: demo_states)
  obtain f where f: "f \<in> set (fulfillments demo_final)" "f_list_item_id f = 100"
    "f_hauler_user_id f = 2" "f_reversed_at f = None"
    by (rule that [of "demo_fulfillment 300 3 2"]) (simp_all add: demo_states)
  have same: "f_list_item_id f = li_id i" using i(2) f(2) by simp
  obtain r where "r \<in> set (reimbursements demo_final)" "r_hauler_user_id r = f_hauler_user_id f"
    "r_status r = RSettled"
    using settled_items_paid [OF demo_db_inv demo_reach(4) i(1,3) f(1) same f(4)] by blast
  then show ?thesis using f(3) by (intro bexI) simp_all
qed



section \<open>The books\<close>



section \<open>Well-typed rows\<close>

lemma find_SomeD: "find P xs = Some x \<Longrightarrow> x \<in> set xs \<and> P x"
  by (auto simp: find_Some_iff)

lemma reimb_parties:
  assumes "reimb_shape d r"
  shows "\<exists>rp\<in>set (principals d). \<exists>hp\<in>set (principals d). p_id rp = r_requester_principal_id r
     \<and> p_id hp = r_hauler_principal_id r \<and> p_kind hp = PUser \<and> p_user_id hp = Some (r_hauler_user_id r)
     \<and> p_kind rp = (if r_is_corp_funded r then PCorp else PUser)
     \<and> (if r_is_corp_funded r then r_requester_user_id r = None else p_user_id rp = r_requester_user_id r)"
proof -
  obtain po rp hp where s: "r_is_corp_funded r = (po \<noteq> None)" "(r_requester_user_id r = None) = (po \<noteq> None)"
    "\<And>u. r_requester_user_id r = Some u \<Longrightarrow> user_principal d u = Some rp" "\<And>c. po = Some c \<Longrightarrow> corp_principal d c = Some rp"
    "p_id rp = r_requester_principal_id r" "user_principal d (r_hauler_user_id r) = Some hp" "p_id hp = r_hauler_principal_id r"
    using assms unfolding reimb_shape_def by (elim exE conjE) simp
  have hp: "hp \<in> set (principals d)" "p_kind hp = PUser" "p_user_id hp = Some (r_hauler_user_id r)"
    using find_SomeD [OF s(6) [unfolded user_principal_def]] by auto
  have rp: "rp \<in> set (principals d) \<and> p_kind rp = (if r_is_corp_funded r then PCorp else PUser)
     \<and> (if r_is_corp_funded r then r_requester_user_id r = None else p_user_id rp = r_requester_user_id r)"
  proof (cases po)
    case None
    then obtain u where u: "r_requester_user_id r = Some u" using s(2) by auto
    show ?thesis using find_SomeD [OF s(3) [OF u, unfolded user_principal_def]] None s(1) u by auto
  next
    case (Some c)
    show ?thesis using find_SomeD [OF s(4) [OF Some, unfolded corp_principal_def]] Some s(1,2) by auto
  qed
  then show ?thesis using hp s(5,7) by blast
qed

text \<open>C8: every reachable state is well typed.  Keys are unique; a fulfillment has a positive
  quantity, a price that is not negative and an item it belongs to; the two parties of a
  debt are rows of \<^verbatim>\<open>principals\<close> of the right kind, the hauler's user and the requester's user or,
  when a corporation pays, a corporation and no requester; and a tip is a percentage
  between 0 and 100 with two decimals.\<close>

theorem reachable_rows_typed:
  assumes "money_ok d" "life_reach d d'"
  shows "distinct (map li_id (list_items d')) \<and> distinct (map f_id (fulfillments d')) \<and> distinct (map r_id (reimbursements d'))
    \<and> (\<forall>f\<in>set (fulfillments d'). 0 < f_qty f \<and> 0 \<le> f_unit_price_isk f \<and> (\<exists>i\<in>set (list_items d'). li_id i = f_list_item_id f))
    \<and> (\<forall>r\<in>set (reimbursements d'). \<exists>rp\<in>set (principals d'). \<exists>hp\<in>set (principals d').
         p_id rp = r_requester_principal_id r \<and> p_id hp = r_hauler_principal_id r
         \<and> p_kind hp = PUser \<and> p_user_id hp = Some (r_hauler_user_id r)
         \<and> p_kind rp = (if r_is_corp_funded r then PCorp else PUser)
         \<and> (if r_is_corp_funded r then r_requester_user_id r = None else p_user_id rp = r_requester_user_id r))
    \<and> (\<forall>l\<in>set (lists d'). 0 \<le> l_tip_pct l \<and> l_tip_pct l \<le> 10 ^ 4)"
proof -
  have inv: "life_inv d'" and tips: "tips_ok d'"
    using life_reach_money [OF assms(2,1)] by (simp_all add: money_ok_def)
  have "\<forall>f\<in>set (fulfillments d'). 0 < f_qty f \<and> 0 \<le> f_unit_price_isk f \<and> (\<exists>i\<in>set (list_items d'). li_id i = f_list_item_id f)"
    using life_invD(1) [OF inv] by (fastforce simp: refs_ok_def)
  moreover have "reimb_shape d' r" if "r \<in> set (reimbursements d')" for r
    using life_invD(4) [OF inv] that by (simp add: reimbs_ok_def)
  ultimately show ?thesis
    using life_invD(1,3,4) [OF inv] tips reimb_parties
    by (simp add: refs_ok_def items_ok_def reimbs_ok_def tips_ok_def all_tips_def)
qed

theorem reachable_rows_typed_witness:
  "\<exists>r\<in>set (reimbursements demo_final). \<exists>rp\<in>set (principals demo_final). \<exists>hp\<in>set (principals demo_final).
     p_id rp = r_requester_principal_id r \<and> p_id hp = r_hauler_principal_id r \<and> p_user_id hp = Some (r_hauler_user_id r)"
proof -
  have r: "demo_settled_row \<in> set (reimbursements demo_final)" by (simp add: demo_states)
  then show ?thesis using reachable_rows_typed [OF demo_db_money demo_reach(4)] by blast
qed

end
